(* ===== verification/Kit_Prelude.thy ===== *)
theory Kit_Prelude
  imports Main "HOL-Library.Word" "HOL-Library.Signed_Division"
begin

text \<open>
  Shared vocabulary of the development: the Go types the kit uses (fixed-width integers,
  durations and instants in nanoseconds, byte strings), the parts of the standard library that
  several components call (decimal printing and parsing, ASCII case mapping and trimming, the
  scanner behind \<^verbatim>\<open>fmt.Sscanf\<close>), and generic lemmas on lists, options and words.

  Strings are Go byte strings, as HOL \<^typ>\<open>string\<close>s. Case mapping and the notion of white space
  are those of Go on ASCII; names, keys and selectors of the kit are ASCII.
\<close>

section \<open>Integers, durations and instants\<close>

named_theorems go_simps \<open>unfolding rules for the Go primitives\<close>

type_synonym u8 = "8 word"
type_synonym u32 = "32 word"
type_synonym u64 = "64 word"

text \<open>
  A \<^verbatim>\<open>time.Duration\<close> is an int64 number of nanoseconds. A \<^verbatim>\<open>time.Time\<close> is the number of
  nanoseconds since the zero instant, so that \<^verbatim>\<open>IsZero\<close> is equality with 0.
\<close>

type_synonym duration = int
type_synonym instant = int

definition int64 :: "int \<Rightarrow> int" where
  "int64 x = signed_take_bit 63 x"

definition in_int64 :: "int \<Rightarrow> bool" where
  "in_int64 x \<longleftrightarrow> - (2 ^ 63) \<le> x \<and> x < 2 ^ 63"

lemma in_int64_int64 [simp]: "in_int64 (int64 x)"
  using signed_take_bit_int_greater_eq_minus_exp [of 63 x] signed_take_bit_int_less_exp [of 63 x]
  by (simp add: in_int64_def int64_def)

lemma int64_id [simp]: "in_int64 x \<Longrightarrow> int64 x = x"
  by (simp add: in_int64_def int64_def signed_take_bit_int_eq_self)

lemma le_div_iff_int:
  assumes "0 < (c::int)"
  shows "b \<le> a div c \<longleftrightarrow> b * c \<le> a"
proof
  assume "b \<le> a div c"
  then have "b * c \<le> (a div c) * c" using assms by simp
  also have "\<dots> \<le> a"
    using pos_mod_sign [OF assms, of a] by (simp add: div_mult_mod_eq [symmetric] minus_mod_eq_div_mult [symmetric])
  finally show "b * c \<le> a" .
next
  assume "b * c \<le> a"
  then have "b * c div c \<le> a div c" using assms by (intro zdiv_mono1)
  then show "b \<le> a div c" using assms by simp
qed

text \<open>\<^verbatim>\<open>t.Sub(u)\<close> saturates at the bounds of a Duration.\<close>

definition time_sub :: "instant \<Rightarrow> instant \<Rightarrow> duration" where
  "time_sub t u = max (- (2 ^ 63)) (min (2 ^ 63 - 1) (t - u))"

definition time_add :: "instant \<Rightarrow> duration \<Rightarrow> instant" where
  "time_add t d = t + d"

definition time_before :: "instant \<Rightarrow> instant \<Rightarrow> bool" where
  "time_before t u \<longleftrightarrow> t < u"

definition time_after :: "instant \<Rightarrow> instant \<Rightarrow> bool" where
  "time_after t u \<longleftrightarrow> t > u"

definition time_is_zero :: "instant \<Rightarrow> bool" where
  "time_is_zero t \<longleftrightarrow> t = 0"

lemma time_sub_exact [simp]: "in_int64 (t - u) \<Longrightarrow> time_sub t u = t - u"
  by (simp add: time_sub_def in_int64_def)

lemma time_sub_pos_iff: "0 < time_sub t u \<longleftrightarrow> u < t"
  by (auto simp: time_sub_def max_def min_def)

lemma time_sub_nonneg_iff: "0 \<le> time_sub t u \<longleftrightarrow> u \<le> t"
  by (auto simp: time_sub_def max_def min_def)

lemmas time_defs [go_simps] = time_add_def time_before_def time_after_def time_is_zero_def

text \<open>A run-time panic, and the value of code that may panic.\<close>

datatype go_panic = Panic string

type_synonym 'a or_panic = "go_panic + 'a"

section \<open>Decimal numbers\<close>

definition digit_char :: "nat \<Rightarrow> char" where
  "digit_char d = char_of (48 + d)"

definition is_digit :: "char \<Rightarrow> bool" where
  "is_digit c \<longleftrightarrow> 48 \<le> (of_char c :: nat) \<and> (of_char c :: nat) \<le> 57"

definition digit_val :: "char \<Rightarrow> nat" where
  "digit_val c = of_char c - 48"

fun fmt_nat :: "nat \<Rightarrow> string" where
  "fmt_nat n = (if n < 10 then [digit_char n] else fmt_nat (n div 10) @ [digit_char (n mod 10)])"

declare fmt_nat.simps [simp del]

text \<open>\<^verbatim>\<open>strconv.FormatInt(i, 10)\<close> and the verb \<^verbatim>\<open>%d\<close>.\<close>

definition fmt_int :: "int \<Rightarrow> string" where
  "fmt_int i = (if i < 0 then CHR ''-'' # fmt_nat (nat (- i)) else fmt_nat (nat i))"

definition digits_val :: "string \<Rightarrow> nat" where
  "digits_val s = foldl (\<lambda>a c. 10 * a + digit_val c) 0 s"

definition all_digits :: "string \<Rightarrow> bool" where
  "all_digits s \<longleftrightarrow> s \<noteq> [] \<and> list_all is_digit s"

text \<open>
  \<^verbatim>\<open>strconv.ParseUint(s, 10, 64)\<close> and \<^verbatim>\<open>strconv.ParseInt(s, 10, 64)\<close>: an optional sign for the
  latter, then at least one digit and nothing else, and a value within the type's range;
  otherwise an error.
\<close>

definition parse_uint64 :: "string \<Rightarrow> nat option" where
  "parse_uint64 s =
     (if all_digits s \<and> digits_val s < 2 ^ 64 then Some (digits_val s) else None)"

definition parse_int64 :: "string \<Rightarrow> int option" where
  "parse_int64 s =
     (case s of
        [] \<Rightarrow> None
      | c # cs \<Rightarrow>
          (let neg = (c = CHR ''-'');
               ds = (if c = CHR ''-'' \<or> c = CHR ''+'' then cs else s);
               v = (if neg then - int (digits_val ds) else int (digits_val ds))
           in if all_digits ds \<and> in_int64 v then Some v else None))"

lemma of_char_digit_char [simp]: "d < 10 \<Longrightarrow> (of_char (digit_char d) :: nat) = 48 + d"
  by (simp add: digit_char_def of_char_of)

lemma is_digit_digit_char [simp]: "d < 10 \<Longrightarrow> is_digit (digit_char d)"
  by (simp add: is_digit_def)

lemma digit_val_digit_char [simp]: "d < 10 \<Longrightarrow> digit_val (digit_char d) = d"
  by (simp add: digit_val_def)

lemma digit_char_0: "digit_char 0 = CHR ''0''"
  by code_simp

lemma length_fmt_nat: "n < 10 ^ k \<Longrightarrow> length (fmt_nat n) \<le> max 1 k"
proof (induction k arbitrary: n)
  case 0
  then show ?case by (subst fmt_nat.simps) simp
next
  case (Suc k)
  show ?case
  proof (cases "n < 10")
    case True
    then show ?thesis by (subst fmt_nat.simps) simp
  next
    case False
    with Suc.prems have "n div 10 < 10 ^ k" and "k \<noteq> 0"
      by (auto simp: div_less_iff_less_mult mult.commute intro: gr0I)
    with Suc.IH [of "n div 10"] False show ?thesis
      by (subst fmt_nat.simps) simp
  qed
qed

lemma digits_val_snoc [simp]: "digits_val (s @ [c]) = 10 * digits_val s + digit_val c"
  by (simp add: digits_val_def)

lemma fmt_nat_nonempty [simp]: "fmt_nat n \<noteq> []"
  by (subst fmt_nat.simps) simp

lemma fmt_nat_all_digits: "all_digits (fmt_nat n)"
proof (induction n rule: fmt_nat.induct)
  case (1 n)
  then show ?case
    by (subst fmt_nat.simps) (simp add: all_digits_def)
qed

lemma digits_val_fmt_nat [simp]: "digits_val (fmt_nat n) = n"
proof (induction n rule: fmt_nat.induct)
  case (1 n)
  show ?case
  proof (cases "n < 10")
    case True
    then show ?thesis by (subst fmt_nat.simps) (simp add: digits_val_def)
  next
    case False
    then show ?thesis using 1 by (subst fmt_nat.simps) simp
  qed
qed

lemma not_digit_sign [simp]: "\<not> is_digit CHR ''-''" "\<not> is_digit CHR ''+''"
  by (simp_all add: is_digit_def)

lemma fmt_nat_Cons: obtains c cs where "fmt_nat n = c # cs" "is_digit c" "list_all is_digit cs"
  using fmt_nat_all_digits [of n] by (cases "fmt_nat n") (auto simp: all_digits_def)

lemma fmt_nat_inject [simp]: "fmt_nat m = fmt_nat n \<longleftrightarrow> m = n"
  by (metis digits_val_fmt_nat)

lemma parse_uint64_fmt_nat [simp]: "n < 2 ^ 64 \<Longrightarrow> parse_uint64 (fmt_nat n) = Some n"
  by (simp add: parse_uint64_def fmt_nat_all_digits)

lemma parse_int64_fmt_int [simp]:
  assumes "in_int64 i"
  shows "parse_int64 (fmt_int i) = Some i"
proof (cases "i < 0")
  case True
  with assms show ?thesis
    by (simp add: parse_int64_def fmt_int_def fmt_nat_all_digits)
next
  case False
  obtain c cs where *: "fmt_nat (nat i) = c # cs" "is_digit c"
    by (rule fmt_nat_Cons)
  then have "c \<noteq> CHR ''-''" "c \<noteq> CHR ''+''"
    by auto
  moreover have "all_digits (c # cs)" "digits_val (c # cs) = nat i"
    using fmt_nat_all_digits [of "nat i"] digits_val_fmt_nat [of "nat i"] * by auto
  ultimately show ?thesis
    using False assms by (simp add: parse_int64_def fmt_int_def * Let_def)
qed

lemma parse_int64_range: "parse_int64 s = Some i \<Longrightarrow> in_int64 i"
  by (auto simp: parse_int64_def Let_def split: list.splits if_splits)

section \<open>ASCII text\<close>

definition to_lower_char :: "char \<Rightarrow> char" where
  "to_lower_char c =
     (if 65 \<le> (of_char c :: nat) \<and> (of_char c :: nat) \<le> 90
      then char_of ((of_char c :: nat) + 32) else c)"

definition to_upper_char :: "char \<Rightarrow> char" where
  "to_upper_char c =
     (if 97 \<le> (of_char c :: nat) \<and> (of_char c :: nat) \<le> 122
      then char_of ((of_char c :: nat) - 32) else c)"

definition to_upper :: "string \<Rightarrow> string" where
  "to_upper = map to_upper_char"

definition to_lower :: "string \<Rightarrow> string" where
  "to_lower = map to_lower_char"

definition is_space :: "char \<Rightarrow> bool" where
  "is_space c \<longleftrightarrow> c = CHR '' '' \<or> (9 \<le> (of_char c :: nat) \<and> (of_char c :: nat) \<le> 13)"

definition trim_space :: "string \<Rightarrow> string" where
  "trim_space s = rev (dropWhile is_space (rev (dropWhile is_space s)))"

lemma of_char_to_lower:
  "(of_char (to_lower_char c) :: nat) =
     (if 65 \<le> (of_char c :: nat) \<and> (of_char c :: nat) \<le> 90 then of_char c + 32 else of_char c)"
  by (simp add: to_lower_char_def of_char_of)

lemma to_lower_char_idem [simp]: "to_lower_char (to_lower_char c) = to_lower_char c"
proof -
  have "(of_char (to_lower_char (to_lower_char c)) :: nat) = of_char (to_lower_char c)"
    by (simp add: of_char_to_lower)
  then show ?thesis
    by (simp only: of_char_eq_iff)
qed

lemma to_lower_idem [simp]: "to_lower (to_lower s) = to_lower s"
  by (simp add: to_lower_def o_def)

lemma to_lower_Nil_iff [simp]: "to_lower s = [] \<longleftrightarrow> s = []"
  by (simp add: to_lower_def)

lemma is_space_to_lower [simp]: "is_space (to_lower_char c) = is_space c"
proof -
  have "is_space c \<longleftrightarrow> (of_char c :: nat) = 32 \<or> (9 \<le> (of_char c :: nat) \<and> (of_char c :: nat) \<le> 13)"
    for c
  proof -
    have "c = CHR '' '' \<longleftrightarrow> (of_char c :: nat) = of_char CHR '' ''"
      by (simp only: of_char_eq_iff)
    then show ?thesis by (simp add: is_space_def)
  qed
  then show ?thesis by (auto simp: of_char_to_lower)
qed

lemma dropWhile_idem_rev:
  "dropWhile P (rev (dropWhile P (rev (dropWhile P xs)))) = rev (dropWhile P (rev (dropWhile P xs)))"
proof (cases "dropWhile P xs")
  case Nil
  show ?thesis by (simp only: Nil) simp
next
  case (Cons y ys)
  then have "\<not> P y" by (metis dropWhile_eq_Cons_conv)
  then show ?thesis
    by (simp add: Cons dropWhile_append)
qed

lemma trim_space_idem [simp]: "trim_space (trim_space s) = trim_space s"
proof -
  have "dropWhile is_space (trim_space s) = trim_space s"
    unfolding trim_space_def by (rule dropWhile_idem_rev)
  then show ?thesis
    by (simp add: trim_space_def)
qed

lemma trim_space_to_lower: "trim_space (to_lower s) = to_lower (trim_space s)"
  by (simp add: trim_space_def to_lower_def dropWhile_map o_def rev_map)


section \<open>Keyed stores\<close>

text \<open>
  Several components keep a table whose keys are first normalised: the registry of limit keys, the
  registry of zone drivers, the concurrent map. What they promise their clients is one contract.
\<close>

locale keyed_table =
  fixes norm :: "'k \<Rightarrow> 'n"
    and valid :: "'k \<Rightarrow> bool"
    and get :: "'m \<Rightarrow> 'k \<Rightarrow> 'v option"
    and put :: "'k \<Rightarrow> 'v \<Rightarrow> 'm \<Rightarrow> 'm"
  assumes get_put: "valid k \<Longrightarrow> get (put k v m) k' = (if norm k' = norm k then Some v else get m k')"
begin

lemma get_put_all:
  "list_all (\<lambda>(k, v). valid k) kvs \<Longrightarrow>
   get (fold (\<lambda>(k, v). put k v) kvs m) k' =
     (case map_of (rev (map (\<lambda>(k, v). (norm k, v)) kvs)) (norm k') of
        Some v \<Rightarrow> Some v | None \<Rightarrow> get m k')"
  by (induction kvs arbitrary: m) (auto simp: get_put map_add_def split: option.splits)

lemma get_put_each:
  "list_all valid ks \<Longrightarrow>
   get (fold (\<lambda>k. put k v) ks m) k' = (if norm k' \<in> norm ` set ks then Some v else get m k')"
  by (induction ks arbitrary: m) (auto simp: get_put)

end

text \<open>A table with deletion.\<close>

locale keyed_store = keyed_table +
  fixes del :: "'a \<Rightarrow> 'c \<Rightarrow> 'c"
  assumes get_del: "get (del k m) k' = (if norm k' = norm k then None else get m k')"
begin

lemma get_del_all:
  "get (fold del ks m) k' = (if norm k' \<in> norm ` set ks then None else get m k')"
  by (induction ks arbitrary: m) (auto simp: get_del)

lemma get_put_then_del_all:
  "valid k \<Longrightarrow> norm k \<notin> norm ` set ks \<Longrightarrow> get (fold del ks (put k v m)) k = Some v"
  by (simp add: get_del_all get_put)

end

end
