(* ===== verification/Go_Scan.thy ===== *)
theory Go_Scan
  imports Kit_Prelude
begin

text \<open>
  The part of \<^verbatim>\<open>fmt.Sscanf\<close> that the rate and size parsers use: the verbs \<^verbatim>\<open>%d\<close> and \<^verbatim>\<open>%s\<close> and
  literal text, on a single line of input. A scan step maps the remaining input to a value and
  the input left, and is \<^const>\<open>None\<close> where the scanner reports an error. Input left over at the
  end is not an error, as in Go.
\<close>

type_synonym 'a scan = "string \<Rightarrow> ('a \<times> string) option"

text \<open>\<^verbatim>\<open>ss.SkipSpace\<close> without \<^verbatim>\<open>nlIsSpace\<close>: a newline is an error.\<close>

fun skip_space :: "string \<Rightarrow> string option" where
  "skip_space [] = Some []"
| "skip_space (c # cs) =
     (if c = CHR 0x0A then None else if is_space c then skip_space cs else Some (c # cs))"

text \<open>\<^verbatim>\<open>ss.scanNumber\<close>: a sign is already accepted, at least one digit follows.\<close>

definition scan_int :: "int scan" where
  "scan_int s =
     (case skip_space s of
        None \<Rightarrow> None
      | Some [] \<Rightarrow> None
      | Some (c # cs) \<Rightarrow>
          (let sg = (if c = CHR ''+'' \<or> c = CHR ''-'' then [c] else []);
               body = (if c = CHR ''+'' \<or> c = CHR ''-'' then cs else c # cs);
               ds = takeWhile is_digit body
           in if ds = [] then None
              else map_option (\<lambda>v. (v, dropWhile is_digit body)) (parse_int64 (sg @ ds))))"

definition scan_uint :: "nat scan" where
  "scan_uint s =
     (case skip_space s of
        None \<Rightarrow> None
      | Some cs \<Rightarrow>
          (let ds = takeWhile is_digit cs
           in if ds = [] then None
              else map_option (\<lambda>v. (v, dropWhile is_digit cs)) (parse_uint64 ds)))"

text \<open>Literal text of the format: every byte has to match.\<close>

fun scan_lit :: "string \<Rightarrow> unit scan" where
  "scan_lit [] s = Some ((), s)"
| "scan_lit (l # ls) [] = None"
| "scan_lit (l # ls) (c # cs) = (if l = c then scan_lit ls cs else None)"

definition scan_word :: "string scan" where
  "scan_word s =
     (case skip_space s of
        None \<Rightarrow> None
      | Some cs \<Rightarrow>
          if cs = [] then None
          else Some (takeWhile (\<lambda>c. \<not> is_space c) cs, dropWhile (\<lambda>c. \<not> is_space c) cs))"

definition scan_bind :: "'a scan \<Rightarrow> ('a \<Rightarrow> 'b scan) \<Rightarrow> 'b scan" where
  "scan_bind p f s = (case p s of None \<Rightarrow> None | Some (a, s') \<Rightarrow> f a s')"

lemma digit_not_space [simp]: "is_digit c \<Longrightarrow> \<not> is_space c"
  by (auto simp: is_digit_def is_space_def)

lemma skip_space_digit [simp]: "is_digit c \<Longrightarrow> skip_space (c # cs) = Some (c # cs)"
  using digit_not_space [of c] by (auto simp: is_digit_def)

lemma skip_space_sign [simp]:
  "skip_space (CHR ''-'' # cs) = Some (CHR ''-'' # cs)"
  by (simp add: is_space_def)

lemma skip_space_nonspace: "s \<noteq> [] \<Longrightarrow> \<not> is_space (hd s) \<Longrightarrow> skip_space s = Some s"
  by (cases s) (auto simp: is_space_def)

declare skip_space.simps(2) [simp del]

lemma takeWhile_all_append:
  "list_all P xs \<Longrightarrow> (ys = [] \<or> \<not> P (hd ys)) \<Longrightarrow> takeWhile P (xs @ ys) = xs"
  by (induction xs) (cases ys; auto)+

lemma dropWhile_all_append:
  "list_all P xs \<Longrightarrow> (ys = [] \<or> \<not> P (hd ys)) \<Longrightarrow> dropWhile P (xs @ ys) = ys"
  by (induction xs) (cases ys; auto)+

text \<open>Scanning what \<^verbatim>\<open>%d\<close> printed gives the number back and leaves the rest.\<close>

lemma scan_int_fmt_int:
  assumes "in_int64 i" and rest: "rest = [] \<or> \<not> is_digit (hd rest)"
  shows "scan_int (fmt_int i @ rest) = Some (i, rest)"
proof (cases "i < 0")
  case True
  have ds: "list_all is_digit (fmt_nat (nat (- i)))"
    using fmt_nat_all_digits by (simp add: all_digits_def)
  have "parse_int64 (CHR ''-'' # fmt_nat (nat (- i))) = Some i"
    using parse_int64_fmt_int [OF assms(1)] True by (simp add: fmt_int_def)
  with True ds rest show ?thesis
    by (simp add: scan_int_def fmt_int_def takeWhile_all_append dropWhile_all_append Let_def)
next
  case False
  obtain c cs where c: "fmt_nat (nat i) = c # cs" "is_digit c" "list_all is_digit cs"
    by (rule fmt_nat_Cons)
  then have ns: "c \<noteq> CHR ''-''" "c \<noteq> CHR ''+''" by auto
  have tk: "takeWhile is_digit (c # cs @ rest) = c # cs" "dropWhile is_digit (c # cs @ rest) = rest"
    using takeWhile_all_append [of is_digit "c # cs" rest]
      dropWhile_all_append [of is_digit "c # cs" rest] c rest by auto
  have "parse_int64 (c # cs) = Some i"
    using parse_int64_fmt_int [OF assms(1)] False c by (simp add: fmt_int_def)
  with False c ns tk show ?thesis
    by (simp add: scan_int_def fmt_int_def Let_def)
qed

lemma scan_uint_fmt_nat:
  assumes "n < 2 ^ 64" and rest: "rest = [] \<or> \<not> is_digit (hd rest)"
  shows "scan_uint (fmt_nat n @ rest) = Some (n, rest)"
proof -
  obtain c cs where c: "fmt_nat n = c # cs" "is_digit c" "list_all is_digit cs"
    by (rule fmt_nat_Cons)
  have tk: "takeWhile is_digit (c # cs @ rest) = c # cs" "dropWhile is_digit (c # cs @ rest) = rest"
    using takeWhile_all_append [of is_digit "c # cs" rest]
      dropWhile_all_append [of is_digit "c # cs" rest] c rest by auto
  have "parse_uint64 (c # cs) = Some n"
    using parse_uint64_fmt_nat [OF assms(1)] c by simp
  with c tk show ?thesis
    by (simp add: scan_uint_def Let_def)
qed

lemma scan_int_range: "scan_int s = Some (i, r) \<Longrightarrow> in_int64 i"
  by (auto simp: scan_int_def Let_def split: option.splits list.splits if_splits
      dest: parse_int64_range)

lemma scan_lit_append [simp]: "scan_lit l (l @ s) = Some ((), s)"
  by (induction l) auto

lemma scan_word_nonspace:
  assumes "w \<noteq> []" and "list_all (\<lambda>c. \<not> is_space c) w"
  shows "scan_word w = Some (w, [])"
proof -
  have "\<not> is_space (hd w)" using assms by (cases w) auto
  with assms show ?thesis
    by (simp add: scan_word_def skip_space_nonspace takeWhile_eq_all_conv dropWhile_eq_Nil_conv
        list_all_iff)
qed

end
