(* ===== verification/Go_Float.thy ===== *)
theory Go_Float
  imports Complex_Main Kit_Prelude
begin

text \<open>
  Go's float64 on the values the kit computes with: a float is the rational it denotes, and every
  arithmetic operation rounds its exact result to the nearest rational with a 53-bit significand,
  ties to even. Exponents stay far inside the float64 range for every duration, size and token
  count of the kit, so overflow, subnormals and NaN do not occur and are not represented.
\<close>

section \<open>Rounding\<close>

fun bit_length :: "nat \<Rightarrow> nat" where
  "bit_length n = (if n = 0 then 0 else Suc (bit_length (n div 2)))"

declare bit_length.simps [simp del]

text \<open>The exponent of a positive rational: the integer part of its binary logarithm.\<close>

definition flog2 :: "rat \<Rightarrow> int" where
  "flog2 x =
     (let (p, q) = quotient_of x;
          k = int (bit_length (nat p)) - int (bit_length (nat q))
      in if 2 powi k \<le> x then k else k - 1)"

definition round_half_even :: "rat \<Rightarrow> int" where
  "round_half_even x =
     (let f = \<lfloor>x\<rfloor>; d = x - of_int f
      in if d < 1 / 2 then f else if 1 / 2 < d then f + 1 else if even f then f else f + 1)"

definition f64_pos :: "rat \<Rightarrow> rat" where
  "f64_pos x = (let e = flog2 x - 52 in of_int (round_half_even (x / 2 powi e)) * 2 powi e)"

definition f64 :: "rat \<Rightarrow> rat" where
  "f64 x = (if x = 0 then 0 else if 0 < x then f64_pos x else - f64_pos (- x))"

text \<open>The conversion of a float to an integer type truncates towards zero.\<close>

definition f64_trunc :: "rat \<Rightarrow> int" where
  "f64_trunc x = (if 0 \<le> x then \<lfloor>x\<rfloor> else - \<lfloor>- x\<rfloor>)"

section \<open>Laws of rounding\<close>

lemma powi_split: "(2::rat) powi (i + j) = 2 powi i * 2 powi j"
  by (simp add: power_int_add)

lemma bit_length_bounds:
  "0 < n \<Longrightarrow> 2 ^ (bit_length n - 1) \<le> n \<and> n < 2 ^ bit_length n \<and> 0 < bit_length n"
proof (induction n rule: bit_length.induct)
  case (1 n)
  show ?case
  proof (cases "n div 2 = 0")
    case True
    with 1 have "n = 1" by auto
    then show ?thesis by (simp add: bit_length.simps)
  next
    case False
    with 1 have IH: "2 ^ (bit_length (n div 2) - 1) \<le> n div 2" "n div 2 < 2 ^ bit_length (n div 2)"
      "0 < bit_length (n div 2)" by auto
    define b where "b = bit_length (n div 2)"
    have bn: "bit_length n = Suc b"
      using 1 by (simp add: bit_length.simps [of n] b_def)
    have "2 * 2 ^ (b - 1) \<le> n" "n < 2 * 2 ^ b"
      using IH unfolding b_def by linarith+
    moreover have "2 * 2 ^ (b - 1) = (2::nat) ^ b"
      using IH(3) by (cases b) (simp_all add: b_def)
    ultimately show ?thesis by (simp add: bn)
  qed
qed

lemma flog2_bounds:
  assumes "0 < x"
  shows "2 powi flog2 x \<le> x" and "x < 2 powi (flog2 x + 1)"
proof -
  obtain p q where pq: "quotient_of x = (p, q)" by fastforce
  then have q: "0 < q" and xe: "x = of_int p / of_int q"
    by (auto simp: quotient_of_denom_pos quotient_of_div)
  with assms have p: "0 < p" by (simp add: zero_less_divide_iff)
  define a b where "a = bit_length (nat p)" and "b = bit_length (nat q)"
  have A: "2 ^ (a - 1) \<le> nat p" "nat p < 2 ^ a" "0 < a"
    and B: "2 ^ (b - 1) \<le> nat q" "nat q < 2 ^ b" "0 < b"
    using bit_length_bounds [of "nat p"] bit_length_bounds [of "nat q"] p q
    by (auto simp: a_def b_def)
  have A': "(2::rat) powi (int a - 1) \<le> of_int p" "of_int p < (2::rat) powi int a"
  proof -
    have "int (2 ^ (a - 1)) \<le> p" "p < int (2 ^ a)" using A p by (metis int_nat_eq le_nat_iff less_le nat_le_iff
        zless_nat_eq_int_zless nat_less_iff)+
    then have "of_int (int (2 ^ (a - 1))) \<le> (of_int p :: rat)" "(of_int p :: rat) < of_int (int (2 ^ a))"
      by (simp_all only: of_int_le_iff of_int_less_iff)
    then show "(2::rat) powi (int a - 1) \<le> of_int p" "of_int p < (2::rat) powi int a"
      using A(3) by (simp_all add: power_int_def nat_diff_distrib)
  qed
  have B': "(2::rat) powi (int b - 1) \<le> of_int q" "of_int q < (2::rat) powi int b"
  proof -
    have "int (2 ^ (b - 1)) \<le> q" "q < int (2 ^ b)" using B q by (metis int_nat_eq le_nat_iff less_le nat_le_iff
        zless_nat_eq_int_zless nat_less_iff)+
    then have "of_int (int (2 ^ (b - 1))) \<le> (of_int q :: rat)" "(of_int q :: rat) < of_int (int (2 ^ b))"
      by (simp_all only: of_int_le_iff of_int_less_iff)
    then show "(2::rat) powi (int b - 1) \<le> of_int q" "of_int q < (2::rat) powi int b"
      using B(3) by (simp_all add: power_int_def nat_diff_distrib)
  qed
  define k where "k = int a - int b"
  have fl: "flog2 x = (if 2 powi k \<le> x then k else k - 1)"
    by (simp add: flog2_def pq k_def a_def b_def)
  have up: "x < 2 powi (k + 1)"
  proof -
    have "of_int p < (2::rat) powi (k + 1) * 2 powi (int b - 1)"
      using A'(2) by (simp add: k_def flip: power_int_add)
    also have "\<dots> \<le> 2 powi (k + 1) * of_int q"
      by (rule mult_left_mono [OF B'(1)]) simp
    finally show ?thesis
      using q by (simp add: xe divide_less_eq)
  qed
  have lo: "2 powi (k - 1) \<le> x"
  proof -
    have "(2::rat) powi (k - 1) * of_int q \<le> 2 powi (k - 1) * 2 powi int b"
      by (rule mult_left_mono) (use B'(2) in auto)
    also have "\<dots> = 2 powi (int a - 1)"
      by (simp only: powi_split [symmetric]) (simp add: k_def)
    also have "\<dots> \<le> of_int p" by (rule A'(1))
    finally show ?thesis
      using q by (simp add: xe le_divide_eq)
  qed
  show "2 powi flog2 x \<le> x" and "x < 2 powi (flog2 x + 1)"
    using up lo by (auto simp: fl)
qed

lemma round_half_even_mono:
  assumes "x \<le> y"
  shows "round_half_even x \<le> round_half_even y"
proof -
  have fm: "\<lfloor>x\<rfloor> \<le> \<lfloor>y\<rfloor>" using assms by (rule floor_mono)
  show ?thesis
  proof (cases "\<lfloor>x\<rfloor> = \<lfloor>y\<rfloor>")
    case True
    then show ?thesis using assms by (auto simp: round_half_even_def Let_def)
  next
    case False
    then have "\<lfloor>x\<rfloor> + 1 \<le> \<lfloor>y\<rfloor>" using fm by linarith
    moreover have "round_half_even x \<le> \<lfloor>x\<rfloor> + 1" "\<lfloor>y\<rfloor> \<le> round_half_even y"
      by (auto simp: round_half_even_def Let_def)
    ultimately show ?thesis by linarith
  qed
qed

lemma round_half_even_int [simp]: "round_half_even (of_int n) = n"
  by (simp add: round_half_even_def)

lemma powi_mono: "i \<le> j \<Longrightarrow> (2::rat) powi i \<le> 2 powi j"
  by (simp add: power_int_increasing)

lemma flog2_mono:
  assumes "0 < x" and "x \<le> y"
  shows "flog2 x \<le> flog2 y"
proof (rule ccontr)
  assume "\<not> flog2 x \<le> flog2 y"
  then have "flog2 y + 1 \<le> flog2 x" by linarith
  then have "(2::rat) powi (flog2 y + 1) \<le> 2 powi flog2 x" by (rule powi_mono)
  with flog2_bounds(1) [OF assms(1)] flog2_bounds(2) [of y] assms show False by linarith
qed

text \<open>The scaled significand lies in \<open>[2^52, 2^53)\<close>, so rounding stays in \<open>[2^52, 2^53]\<close>.\<close>

lemma significand_bounds:
  assumes "0 < x"
  shows "2 ^ 52 \<le> x / 2 powi (flog2 x - 52)" and "x / 2 powi (flog2 x - 52) < 2 ^ 53"
proof -
  have e: "(2::rat) powi flog2 x = 2 ^ 52 * 2 powi (flog2 x - 52)"
    "(2::rat) powi (flog2 x + 1) = 2 ^ 53 * 2 powi (flog2 x - 52)"
    using powi_split [of 52 "flog2 x - 52"] powi_split [of 53 "flog2 x - 52"]
    by (simp_all add: add.commute)
  show "2 ^ 52 \<le> x / 2 powi (flog2 x - 52)"
    using flog2_bounds(1) [OF assms] unfolding e by (simp add: le_divide_eq)
  show "x / 2 powi (flog2 x - 52) < 2 ^ 53"
    using flog2_bounds(2) [OF assms] unfolding e by (simp add: divide_less_eq)
qed

lemma rounded_significand_bounds:
  assumes "0 < x"
  shows "2 ^ 52 \<le> round_half_even (x / 2 powi (flog2 x - 52))"
    and "round_half_even (x / 2 powi (flog2 x - 52)) \<le> 2 ^ 53"
proof -
  let ?s = "x / 2 powi (flog2 x - 52)"
  have "round_half_even (of_int (2 ^ 52)) \<le> round_half_even ?s"
    by (rule round_half_even_mono) (use significand_bounds [OF assms] in simp)
  then show "2 ^ 52 \<le> round_half_even ?s" by (simp only: round_half_even_int)
  have "round_half_even ?s \<le> round_half_even (of_int (2 ^ 53))"
    by (rule round_half_even_mono) (use significand_bounds [OF assms] in simp)
  then show "round_half_even ?s \<le> 2 ^ 53" by (simp only: round_half_even_int)
qed

lemma f64_pos_positive: "0 < x \<Longrightarrow> 0 < f64_pos x"
  using rounded_significand_bounds(1) [of x] by (simp add: f64_pos_def Let_def)

lemma f64_pos_mono:
  assumes "0 < x" and "x \<le> y"
  shows "f64_pos x \<le> f64_pos y"
proof (cases "flog2 x = flog2 y")
  case True
  have "round_half_even (x / 2 powi (flog2 y - 52)) \<le> round_half_even (y / 2 powi (flog2 y - 52))"
    by (rule round_half_even_mono) (simp add: divide_right_mono assms)
  then show ?thesis
    by (simp add: f64_pos_def True Let_def mult_right_mono)
next
  case False
  let ?r = "\<lambda>z. round_half_even (z / 2 powi (flog2 z - 52))"
  have lt: "flog2 x + 1 \<le> flog2 y"
    using False flog2_mono [OF assms] by linarith
  have "f64_pos x = of_int (?r x) * 2 powi (flog2 x - 52)"
    by (simp add: f64_pos_def Let_def)
  also have "\<dots> \<le> of_int (2 ^ 53) * 2 powi (flog2 x - 52)"
    by (rule mult_right_mono) (use rounded_significand_bounds(2) [OF assms(1)] in
        \<open>simp only: of_int_le_iff\<close>, simp)
  also have "\<dots> = of_int (2 ^ 52) * 2 powi (flog2 x + 1 - 52)"
    using powi_split [of 1 "flog2 x - 52"] by (simp add: algebra_simps)
  also have "\<dots> \<le> of_int (2 ^ 52) * 2 powi (flog2 y - 52)"
    by (rule mult_left_mono) (use lt in \<open>simp_all add: powi_mono\<close>)
  also have "\<dots> \<le> of_int (?r y) * 2 powi (flog2 y - 52)"
    by (rule mult_right_mono) (use rounded_significand_bounds(1) [of y] assms in
        \<open>simp only: of_int_le_iff\<close>, simp)
  also have "\<dots> = f64_pos y"
    by (simp add: f64_pos_def Let_def)
  finally show ?thesis .
qed

lemma f64_mono:
  assumes "x \<le> y"
  shows "f64 x \<le> f64 y"
proof -
  consider "0 < x" | "x \<le> 0" "0 \<le> y" | "y < 0" by linarith
  then show ?thesis
  proof cases
    case 1
    then show ?thesis using assms by (simp add: f64_def f64_pos_mono)
  next
    case 2
    have "f64 x \<le> 0" using 2 f64_pos_positive [of "- x"] by (force simp: f64_def)
    moreover have "0 \<le> f64 y" using 2 f64_pos_positive [of y] by (force simp: f64_def)
    ultimately show ?thesis by linarith
  next
    case 3
    have "f64_pos (- y) \<le> f64_pos (- x)"
      by (rule f64_pos_mono) (use 3 assms in auto)
    then show ?thesis using 3 assms by (simp add: f64_def)
  qed
qed

text \<open>A value with at most 53 significant bits is represented exactly.\<close>

lemma f64_exact:
  assumes x: "x = of_int m * 2 powi z" and m: "0 < m" "m \<le> 2 ^ 53"
  shows "f64 x = x"
proof -
  have pos: "0 < x" using assms by simp
  have rnd: "f64 x = x" if "x / 2 powi (flog2 x - 52) = of_int n" for n
  proof -
    have "x = of_int n * 2 powi (flog2 x - 52)" using that by (simp add: field_simps)
    then show ?thesis using pos that by (simp add: f64_def f64_pos_def Let_def)
  qed
  show ?thesis
  proof (cases "m = 2 ^ 53")
    case True
    have xp: "x = 2 powi (53 + z)"
      by (simp add: x True powi_split)
    have "flog2 x = 53 + z"
    proof (rule antisym)
      show "flog2 x \<le> 53 + z"
      proof (rule ccontr)
        assume "\<not> ?thesis"
        then have "(2::rat) powi (53 + z) < 2 powi flog2 x"
          by (simp add: power_int_strict_increasing)
        then show False using flog2_bounds(1) [OF pos] xp by simp
      qed
      show "53 + z \<le> flog2 x"
      proof (rule ccontr)
        assume "\<not> ?thesis"
        then have "(2::rat) powi (flog2 x + 1) \<le> 2 powi (53 + z)"
          by (intro powi_mono) linarith
        then show False using flog2_bounds(2) [OF pos] xp by simp
      qed
    qed
    then have e: "flog2 x - 52 = 1 + z" by simp
    have "x / 2 powi (1 + z) = of_int (2 ^ 52)"
      unfolding xp powi_split by simp
    then have "x / 2 powi (flog2 x - 52) = of_int (2 ^ 52)" by (simp only: e)
    then show ?thesis by (rule rnd)
  next
    case False
    with m have m': "m < 2 ^ 53" by simp
    have le: "flog2 x - 52 \<le> z"
    proof (rule ccontr)
      assume "\<not> ?thesis"
      then have "(2::rat) powi (1 + z) \<le> 2 powi (flog2 x - 52)"
        by (intro powi_mono) linarith
      then have "(2::rat) ^ 52 * 2 powi (1 + z) \<le> 2 ^ 52 * 2 powi (flog2 x - 52)" by simp
      also have "\<dots> \<le> x"
        using significand_bounds(1) [OF pos] by (simp add: le_divide_eq)
      finally have "(2::rat) ^ 53 \<le> of_int m"
        by (simp add: x powi_split)
      then have "2 ^ 53 \<le> m" by (metis of_int_le_iff of_int_numeral of_int_power)
      then show False using m' by simp
    qed
    define j where "j = nat (z - (flog2 x - 52))"
    have z: "z = (flog2 x - 52) + int j"
      using le by (simp add: j_def)
    have "x / 2 powi (flog2 x - 52) = of_int m * (2 powi z / 2 powi (flog2 x - 52))"
      by (simp add: x)
    also have "(2::rat) powi z / 2 powi (flog2 x - 52) = 2 ^ j"
      by (subst z) (simp add: powi_split)
    finally have "x / 2 powi (flog2 x - 52) = of_int (m * 2 ^ j)" by simp
    then show ?thesis by (rule rnd)
  qed
qed

lemma f64_0 [simp]: "f64 0 = 0"
  by (simp add: f64_def)

lemma f64_neg: "f64 (- x) = - f64 x"
  by (simp add: f64_def)

lemma f64_of_int:
  assumes "\<bar>n\<bar> \<le> 2 ^ 53"
  shows "f64 (of_int n) = of_int n"
proof -
  consider "n = 0" | "0 < n" | "n < 0" by linarith
  then show ?thesis
  proof cases
    case 2
    then show ?thesis using f64_exact [of "of_int n" n 0] assms by simp
  next
    case 3
    then have "f64 (of_int (- n)) = of_int (- n)"
      using f64_exact [of "of_int (- n)" "- n" 0] assms by simp
    then show ?thesis using f64_neg [of "of_int (- n)"] by simp
  qed simp
qed

end
