(* ===== verification/Kit_Errors.thy ===== *)
theory Kit_Errors
  imports Kit_Prelude
begin

text \<open>
  \<^verbatim>\<open>src/infra/errors\<close>: the structured \<^verbatim>\<open>Error\<close> with its functional options and constructors, the
  table from HTTP to gRPC codes, and the conversions between an error, a gRPC status and text.

  The protobuf runtime (\<^verbatim>\<open>anypb\<close>, \<^verbatim>\<open>protojson\<close>) is not part of the repository: it enters as the
  record \<open>err_codec\<close> of its four functions.
\<close>

section \<open>Codes\<close>

text \<open>The constants of \<^verbatim>\<open>google.golang.org/grpc/codes\<close>, in their numeric order.\<close>

datatype grpc_code =
    C_OK | C_Canceled | C_Unknown | C_InvalidArgument | C_DeadlineExceeded | C_NotFound
  | C_AlreadyExists | C_PermissionDenied | C_ResourceExhausted | C_FailedPrecondition | C_Aborted
  | C_OutOfRange | C_Unimplemented | C_Internal | C_Unavailable | C_DataLoss | C_Unauthenticated

fun code_num :: "grpc_code \<Rightarrow> int" where
  "code_num C_OK = 0" | "code_num C_Canceled = 1" | "code_num C_Unknown = 2"
| "code_num C_InvalidArgument = 3" | "code_num C_DeadlineExceeded = 4" | "code_num C_NotFound = 5"
| "code_num C_AlreadyExists = 6" | "code_num C_PermissionDenied = 7"
| "code_num C_ResourceExhausted = 8" | "code_num C_FailedPrecondition = 9"
| "code_num C_Aborted = 10" | "code_num C_OutOfRange = 11" | "code_num C_Unimplemented = 12"
| "code_num C_Internal = 13" | "code_num C_Unavailable = 14" | "code_num C_DataLoss = 15"
| "code_num C_Unauthenticated = 16"

fun code_name :: "grpc_code \<Rightarrow> string" where
  "code_name C_OK = ''OK''" | "code_name C_Canceled = ''Canceled''"
| "code_name C_Unknown = ''Unknown''" | "code_name C_InvalidArgument = ''InvalidArgument''"
| "code_name C_DeadlineExceeded = ''DeadlineExceeded''" | "code_name C_NotFound = ''NotFound''"
| "code_name C_AlreadyExists = ''AlreadyExists''"
| "code_name C_PermissionDenied = ''PermissionDenied''"
| "code_name C_ResourceExhausted = ''ResourceExhausted''"
| "code_name C_FailedPrecondition = ''FailedPrecondition''" | "code_name C_Aborted = ''Aborted''"
| "code_name C_OutOfRange = ''OutOfRange''" | "code_name C_Unimplemented = ''Unimplemented''"
| "code_name C_Internal = ''Internal''" | "code_name C_Unavailable = ''Unavailable''"
| "code_name C_DataLoss = ''DataLoss''" | "code_name C_Unauthenticated = ''Unauthenticated''"

definition codeMap :: "int \<Rightarrow> grpc_code option" where
  "codeMap = map_of
     [(0, C_Unknown),
      (200, C_OK),
      (400, C_InvalidArgument), (401, C_Unauthenticated), (403, C_PermissionDenied),
      (404, C_NotFound), (405, C_PermissionDenied), (408, C_DeadlineExceeded),
      (409, C_AlreadyExists), (412, C_FailedPrecondition), (429, C_ResourceExhausted),
      (500, C_Internal), (501, C_Unimplemented), (502, C_Unavailable),
      (504, C_DeadlineExceeded), (503, C_Unavailable), (511, C_Unauthenticated)]"

text \<open>The negation is an int32 one: the least int32 is its own negation.\<close>

definition int32_neg :: "int \<Rightarrow> int" where
  "int32_neg c = signed_take_bit 31 (- c)"

definition http2grpcCode :: "int \<Rightarrow> grpc_code" where
  "http2grpcCode code =
     (let code = (if code < 0 then int32_neg code else code)
      in case codeMap code of Some grpc \<Rightarrow> grpc | None \<Rightarrow> C_Unknown)"

text \<open>The errors \<^verbatim>\<open>errorStatusCode\<close> tells apart.\<close>

datatype std_error =
    StdNil | IoEOF | IoErrClosedPipe | IoErrNoProgress | IoErrShortBuffer | IoErrShortWrite
  | IoErrUnexpectedEOF | OsErrInvalid | ContextCanceled | ContextDeadlineExceeded
  | OsExist | OsNotExist | OsPermission | StdOther string

fun errorStatusCode :: "std_error \<Rightarrow> grpc_code" where
  "errorStatusCode StdNil = C_OK"
| "errorStatusCode IoEOF = C_OutOfRange"
| "errorStatusCode IoErrClosedPipe = C_FailedPrecondition"
| "errorStatusCode IoErrNoProgress = C_FailedPrecondition"
| "errorStatusCode IoErrShortBuffer = C_FailedPrecondition"
| "errorStatusCode IoErrShortWrite = C_FailedPrecondition"
| "errorStatusCode IoErrUnexpectedEOF = C_FailedPrecondition"
| "errorStatusCode OsErrInvalid = C_InvalidArgument"
| "errorStatusCode ContextCanceled = C_Canceled"
| "errorStatusCode ContextDeadlineExceeded = C_DeadlineExceeded"
| "errorStatusCode OsExist = C_AlreadyExists"
| "errorStatusCode OsNotExist = C_NotFound"
| "errorStatusCode OsPermission = C_PermissionDenied"
| "errorStatusCode (StdOther _) = C_Unknown"

section \<open>The Error and its options\<close>

text \<open>\<^verbatim>\<open>Error\<close> is \<^verbatim>\<open>pbrpc.Error\<close>; the code reads and writes these three fields of it.\<close>

record error =
  err_Code :: int
  err_Status :: string
  err_Message :: string

type_synonym err_option = "error \<Rightarrow> error"

definition opt_Code :: "int \<Rightarrow> err_option" where
  "opt_Code code e = (if code > 0 then e\<lparr>err_Code := code\<rparr> else e)"

definition opt_Status :: "string \<Rightarrow> err_option" where
  "opt_Status code e = (if code \<noteq> [] then e\<lparr>err_Status := code\<rparr> else e)"

text \<open>\<^verbatim>\<open>fmt.Sprint\<close> and \<^verbatim>\<open>fmt.Sprintf\<close> on arbitrary arguments are parameters.\<close>

definition opt_Message ::
    "('a list \<Rightarrow> string) \<Rightarrow> (string \<Rightarrow> 'a list \<Rightarrow> string) \<Rightarrow> string \<Rightarrow> 'a list \<Rightarrow> err_option" where
  "opt_Message sprint sprintf form args e =
     (let text = (if args = [] then form
                  else if form = [] then sprint args else sprintf form args)
      in e\<lparr>err_Message := text\<rparr>)"

text \<open>A message without arguments.\<close>

abbreviation msg_text :: "string \<Rightarrow> err_option" where
  "msg_text form \<equiv> opt_Message (\<lambda>_::unit list. []) (\<lambda>_ _. []) form []"

definition err_init :: "err_option list \<Rightarrow> error \<Rightarrow> error" where
  "err_init opts e = fold (\<lambda>setup e. setup e) opts e"

definition err_New :: "err_option list \<Rightarrow> error" where
  "err_New opts = err_init opts \<lparr>err_Code = 0, err_Status = [], err_Message = []\<rparr>"

definition Errorf ::
    "('a list \<Rightarrow> string) \<Rightarrow> (string \<Rightarrow> 'a list \<Rightarrow> string) \<Rightarrow> string \<Rightarrow> 'a list \<Rightarrow> error" where
  "Errorf sprint sprintf message args = err_New [opt_Message sprint sprintf message args]"

definition BadRequest :: "err_option list \<Rightarrow> error" where
  "BadRequest opts = err_init opts (err_New [opt_Status ''BAD_REQUEST'', opt_Code 400])"

definition Unauthorized :: "err_option list \<Rightarrow> error" where
  "Unauthorized opts = err_init opts (err_New [opt_Status ''UNAUTHORIZED'', opt_Code 401])"

definition Forbidden :: "err_option list \<Rightarrow> error" where
  "Forbidden opts = err_init opts (err_New [opt_Status ''FORBIDDEN'', opt_Code 403])"

definition NotFound :: "err_option list \<Rightarrow> error" where
  "NotFound opts = err_init opts (err_New [opt_Status ''NOT_FOUND'', opt_Code 404])"

definition Internal :: "err_option list \<Rightarrow> error" where
  "Internal opts = err_init opts (err_New [opt_Status ''INTERNAL'', opt_Code 500])"

definition BadGateway :: "err_option list \<Rightarrow> error" where
  "BadGateway opts = err_init opts (err_New [opt_Status ''BAD_GATEWAY'', opt_Code 502])"

text \<open>\<^verbatim>\<open>(*Error).String\<close>; \<^const>\<open>None\<close> is the nil receiver.\<close>

definition err_String :: "error option \<Rightarrow> string" where
  "err_String v =
     (case v of
        None \<Rightarrow> []
      | Some e \<Rightarrow>
          (let f1 = (if err_Code e > 0 then ''(#'' @ fmt_int (err_Code e) @ '')'' else []);
               i1 = (if err_Code e > 0 then '' '' else []);
               f2 = (if err_Status e \<noteq> [] then i1 @ err_Status e else []);
               i2 = (if err_Status e \<noteq> [] then '' ; '' else i1);
               f3 = (if err_Message e \<noteq> [] then i2 @ err_Message e else [])
           in f1 @ f2 @ f3))"

section \<open>Conversions\<close>

text \<open>\<^verbatim>\<open>anypb.New\<close>, \<^verbatim>\<open>(*anypb.Any).UnmarshalNew\<close> (as an \<^verbatim>\<open>Error\<close>), and \<^verbatim>\<open>codecPlain\<close>.\<close>

record 'any err_codec =
  ec_any :: "error \<Rightarrow> 'any option"
  ec_unany :: "'any \<Rightarrow> error option"
  ec_json :: "error \<Rightarrow> string"
  ec_unjson :: "string \<Rightarrow> error option"

text \<open>\<^verbatim>\<open>(*Error).Error\<close>, \<^verbatim>\<open>FromProto\<close>, and \<^verbatim>\<open>LogValue\<close>: the attributes in order, a number on the left and a text on the right.\<close>

definition err_Error :: "'any err_codec \<Rightarrow> error option \<Rightarrow> string" where
  "err_Error cd v = (case v of None \<Rightarrow> [] | Some e \<Rightarrow> ec_json cd e)"

definition FromProto :: "error option \<Rightarrow> error option" where
  "FromProto src = src"

definition err_LogValue :: "error option \<Rightarrow> (string \<times> (int + string)) list" where
  "err_LogValue v =
     (case v of
        None \<Rightarrow> [(''code'', Inl 0), (''status'', Inr ''OK'')]
      | Some e \<Rightarrow> [(''code'', Inl (err_Code e)), (''status'', Inr (err_Status e)), (''message'', Inr (err_Message e))])"

record 'any grpc_status =
  gs_Code :: grpc_code
  gs_Message :: string
  gs_Details :: "'any list"

text \<open>An error value of the program, by what \<^verbatim>\<open>FromError\<close> can see of it.\<close>

datatype 'any go_error =
    NilError
  | KitError error
  | StatusError "'any grpc_status"
  | TextError string

definition err_Parse :: "'any err_codec \<Rightarrow> string \<Rightarrow> error option \<times> bool" where
  "err_Parse cd message =
     (let message = trim_space message
      in if message = [] then (None, True)
         else case ec_unjson cd message of
                Some e \<Rightarrow> (Some e, True)
              | None \<Rightarrow> (Some \<lparr>err_Code = 0, err_Status = [], err_Message = message\<rparr>, False))"

fun first_detail :: "'any err_codec \<Rightarrow> 'any list \<Rightarrow> error option" where
  "first_detail cd [] = None"
| "first_detail cd (a # as) = (case ec_unany cd a of Some e \<Rightarrow> Some e | None \<Rightarrow> first_detail cd as)"

definition FromStatus :: "'any err_codec \<Rightarrow> 'any grpc_status option \<Rightarrow> error option \<times> bool" where
  "FromStatus cd src =
     (case src of
        None \<Rightarrow> (None, True)
      | Some st \<Rightarrow>
          (case first_detail cd (gs_Details st) of
             Some e \<Rightarrow> (Some e, True)
           | None \<Rightarrow>
               (case err_Parse cd (gs_Message st) of
                  (dst, True) \<Rightarrow> (dst, True)
                | (dst, False) \<Rightarrow>
                    (map_option (\<lambda>e. e\<lparr>err_Code := code_num (gs_Code st),
                                       err_Status := code_name (gs_Code st)\<rparr>) dst, False))))"

fun FromError :: "'any err_codec \<Rightarrow> 'any go_error \<Rightarrow> error option \<times> bool" where
  "FromError cd NilError = (None, True)"
| "FromError cd (KitError e) = (Some e, True)"
| "FromError cd (StatusError st) = FromStatus cd (Some st)"
| "FromError cd (TextError s) = err_Parse cd s"

definition GRPCStatus :: "'any err_codec \<Rightarrow> error \<Rightarrow> 'any grpc_status" where
  "GRPCStatus cd e =
     (let top = \<lparr>gs_Code = http2grpcCode (err_Code e),
                 gs_Message = (if err_Status e \<noteq> [] then err_Status e else err_Message e),
                 gs_Details = []\<rparr>
      in case ec_any cd e of
           None \<Rightarrow> top\<lparr>gs_Message := ec_json cd e\<rparr>
         | Some sub \<Rightarrow> top\<lparr>gs_Details := [sub]\<rparr>)"

section \<open>Properties\<close>

lemma codeMap_nonneg: "codeMap c = Some g \<Longrightarrow> 0 \<le> c"
  by (auto simp: codeMap_def split: if_splits)

lemma int32_neg_id: "- (2 ^ 31) < c \<Longrightarrow> c < 0 \<Longrightarrow> int32_neg c = - c"
  by (simp add: int32_neg_def signed_take_bit_int_eq_self)

lemma err_init_Nil [simp]: "err_init [] e = e"
  by (simp add: err_init_def)

lemma err_init_append: "err_init (xs @ ys) e = err_init ys (err_init xs e)"
  by (simp add: err_init_def)

lemma codeMap_OK: "codeMap c = Some C_OK \<longleftrightarrow> c = 200"
  by (auto simp: codeMap_def split: if_splits)

lemma http2grpcCode_nonneg:
  "0 \<le> c \<Longrightarrow> http2grpcCode c = (case codeMap c of Some g \<Rightarrow> g | None \<Rightarrow> C_Unknown)"
  by (simp add: http2grpcCode_def Let_def)

lemma http2grpcCode_neg: "- (2 ^ 31) < c \<Longrightarrow> c < 0 \<Longrightarrow> http2grpcCode c = http2grpcCode (- c)"
  by (simp add: http2grpcCode_def Let_def int32_neg_id)

text \<open>
  On every int32 code but the least one, the gRPC code does not depend on the sign, and it is
  \<^verbatim>\<open>OK\<close> for the HTTP code 200 only: no error code of HTTP, known or not, turns into success.
\<close>

theorem http2grpcCode_sign_OK:
  assumes "- (2 ^ 31) < c" and "c < 2 ^ 31"
  shows "http2grpcCode (- c) = http2grpcCode c \<and> (http2grpcCode c = C_OK \<longleftrightarrow> \<bar>c\<bar> = 200)"
proof -
  have abs: "http2grpcCode c = http2grpcCode \<bar>c\<bar>" "http2grpcCode (- c) = http2grpcCode \<bar>c\<bar>"
    using assms http2grpcCode_neg [of c] http2grpcCode_neg [of "- c"]
    by (cases "c = 0"; auto simp: abs_if)+
  have "http2grpcCode \<bar>c\<bar> = C_OK \<longleftrightarrow> codeMap \<bar>c\<bar> = Some C_OK"
    by (auto simp: http2grpcCode_nonneg split: option.splits)
  with abs show ?thesis by (simp add: codeMap_OK)
qed

theorem http2grpcCode_sign_OK_witness:
  "http2grpcCode (- 404) = http2grpcCode 404 \<and> (http2grpcCode 404 = C_OK \<longleftrightarrow> \<bar>404 :: int\<bar> = 200)"
  using http2grpcCode_sign_OK [of 404] by simp



end
