(* ===== verification/Rate_Limit.thy ===== *)
theory Rate_Limit
  imports Go_Scan Go_Float Kit_Errors
begin

text \<open>
  \<^verbatim>\<open>src/infra/ratelimit\<close>: time units and rates, byte sizes, limit keys with the environment that
  caches their values, requests, the status of a limit, and what the HTTP and gRPC front ends
  answer for it.
\<close>

section \<open>Time units (time.go)\<close>

definition Millisecond :: duration where "Millisecond = 1000000"
definition Second :: duration where "Second = 1000000000"
definition Minute :: duration where "Minute = 60 * Second"
definition Hour :: duration where "Hour = 60 * Minute"
definition Day :: duration where "Day = 24 * Hour"
definition Week :: duration where "Week = 7 * Day"
definition MinInterval :: duration where "MinInterval = Millisecond"

lemmas unit_defs = Millisecond_def Second_def Minute_def Hour_def Day_def Week_def

definition timeUnitMap :: "int \<Rightarrow> string option" where
  "timeUnitMap = map_of
     [(Millisecond, ''ms''), (Second, ''s''), (Minute, ''m''), (Hour, ''h''), (Day, ''d''),
      (Week, ''w'')]"

definition unitTimeMap :: "string \<Rightarrow> int option" where
  "unitTimeMap = map_of
     [(''ms'', Millisecond), (''s'', Second), (''m'', Minute), (''h'', Hour), (''d'', Day),
      (''w'', Week),
      (''msec'', Millisecond), (''sec'', Second), (''min'', Minute), (''hour'', Hour),
      (''day'', Day), (''week'', Week)]"

definition parseTimeUnit :: "string \<Rightarrow> duration \<times> bool" where
  "parseTimeUnit spec = (case unitTimeMap spec of Some u \<Rightarrow> (u, True) | None \<Rightarrow> (0, False))"

definition formatTimeUnit :: "duration \<Rightarrow> string" where
  "formatTimeUnit u = (case timeUnitMap u of Some spec \<Rightarrow> spec | None \<Rightarrow> ''-'')"

section \<open>Rates (limit.go)\<close>

record rate =
  rate_Limit :: int
  rate_Window :: duration

definition rate_zero :: rate where "rate_zero = \<lparr>rate_Limit = 0, rate_Window = 0\<rparr>"

text \<open>\<^const>\<open>None\<close> stands for a nil \<^verbatim>\<open>*Rate\<close>.\<close>

definition rate_String :: "rate option \<Rightarrow> string" where
  "rate_String v =
     (case v of None \<Rightarrow> ''0r/s''
      | Some r \<Rightarrow> fmt_int (rate_Limit r) @ ''r/'' @ formatTimeUnit (rate_Window r))"

definition Every :: "rate option \<Rightarrow> duration" where
  "Every v =
     (case v of
        Some r \<Rightarrow> if rate_Limit r > 0 \<and> rate_Window r > 0 then rate_Window r div rate_Limit r else 0
      | None \<Rightarrow> 0)"

definition IsValid :: "rate option \<Rightarrow> bool" where
  "IsValid v \<longleftrightarrow> Every v sdiv MinInterval > 0"

definition rate_MarshalText :: "rate option \<Rightarrow> string option" where
  "rate_MarshalText v =
     (case v of None \<Rightarrow> None
      | Some r \<Rightarrow> Some (fmt_int (rate_Limit r) @ ''r/'' @ formatTimeUnit (rate_Window r)))"

definition scan_rate :: "(int \<times> string) scan" where
  "scan_rate =
     scan_bind scan_int (\<lambda>n.
     scan_bind (scan_lit ''r/'') (\<lambda>_.
     scan_bind scan_word (\<lambda>per s. Some ((n, per), s))))"

definition ParseRate :: "string \<Rightarrow> rate \<times> bool" where
  "ParseRate spec =
     (case scan_rate spec of
        None \<Rightarrow> (rate_zero, False)
      | Some ((n, per), _) \<Rightarrow>
          (case parseTimeUnit per of
             (_, False) \<Rightarrow> (rate_zero, False)
           | (u, True) \<Rightarrow> (\<lparr>rate_Limit = n, rate_Window = u\<rparr>, True)))"

datatype spec_error = ErrRateInvalid | ErrParseSize

text \<open>The receiver is assigned also when the text is invalid.\<close>

definition rate_UnmarshalText :: "string \<Rightarrow> rate \<times> spec_error option" where
  "rate_UnmarshalText text =
     (case ParseRate text of (v1, ok) \<Rightarrow> (v1, if ok then None else Some ErrRateInvalid))"

definition MustRate :: "string \<Rightarrow> rate or_panic" where
  "MustRate spec =
     (case ParseRate spec of
        (v, True) \<Rightarrow> Inr v
      | (_, False) \<Rightarrow> Inl (Panic ''rate: invalid spec''))"

subsection \<open>Rates, printed and parsed\<close>

lemma timeUnitMap_Some:
  "timeUnitMap u = Some spec \<Longrightarrow>
     unitTimeMap spec = Some u \<and> spec \<noteq> [] \<and> list_all (\<lambda>c. \<not> is_space c) spec"
  by (auto simp: timeUnitMap_def unitTimeMap_def unit_defs is_space_def split: if_splits)

lemma rate_scan_String:
  assumes "in_int64 (rate_Limit r)" and u: "timeUnitMap (rate_Window r) = Some spec"
  shows "scan_rate (rate_String (Some r)) = Some ((rate_Limit r, spec), [])"
proof -
  have "scan_int (fmt_int (rate_Limit r) @ ''r/'' @ spec) = Some (rate_Limit r, ''r/'' @ spec)"
    by (rule scan_int_fmt_int [OF assms(1)]) (simp add: is_digit_def)
  moreover have "scan_lit ''r/'' (''r/'' @ spec) = Some ((), spec)"
    by (rule scan_lit_append)
  moreover have "scan_word spec = Some (spec, [])"
    using timeUnitMap_Some [OF u] by (intro scan_word_nonspace) auto
  ultimately show ?thesis
    by (simp add: scan_rate_def scan_bind_def rate_String_def formatTimeUnit_def u)
qed

lemma Every_bounds:
  assumes "0 < rate_Limit r" and "0 < rate_Window r"
  shows "Every (Some r) * rate_Limit r \<le> rate_Window r"
    and "rate_Window r < (Every (Some r) + 1) * rate_Limit r"
proof -
  have eq: "rate_Window r = Every (Some r) * rate_Limit r + rate_Window r mod rate_Limit r"
    using assms by (simp add: Every_def)
  have m: "0 \<le> rate_Window r mod rate_Limit r" "rate_Window r mod rate_Limit r < rate_Limit r"
    using assms by simp_all
  show "Every (Some r) * rate_Limit r \<le> rate_Window r" using eq m by linarith
  show "rate_Window r < (Every (Some r) + 1) * rate_Limit r"
    using eq m by (simp add: distrib_right) 
qed

lemma sdiv_pos_iff: "0 \<le> a \<Longrightarrow> 0 < b \<Longrightarrow> (a::int) sdiv b > 0 \<longleftrightarrow> b \<le> a"
  by (cases "a = 0") (auto simp: signed_divide_int_def pos_imp_zdiv_pos_iff sgn_if)

lemma Every_nonneg: "0 \<le> Every v"
  by (auto simp: Every_def pos_imp_zdiv_nonneg_iff split: option.splits)

lemma IsValid_iff_Every: "IsValid v \<longleftrightarrow> Millisecond \<le> Every v"
  using sdiv_pos_iff [OF Every_nonneg, of Millisecond v]
  by (simp add: IsValid_def MinInterval_def Millisecond_def)

lemma IsValid_limit:
  "IsValid (Some r) \<longleftrightarrow> 0 < rate_Limit r \<and> rate_Limit r * Millisecond \<le> rate_Window r"
proof (cases "0 < rate_Limit r \<and> 0 < rate_Window r")
  case True
  then have "Millisecond \<le> rate_Window r div rate_Limit r
             \<longleftrightarrow> rate_Limit r * Millisecond \<le> rate_Window r"
    by (simp add: le_div_iff_int mult.commute)
  with True show ?thesis
    by (simp add: IsValid_iff_Every Every_def)
next
  case False
  then show ?thesis
    by (auto simp: IsValid_iff_Every Every_def Millisecond_def)
qed

lemma scan_rate_unknown_unit:
  assumes "in_int64 (rate_Limit r)" and u: "timeUnitMap (rate_Window r) = None"
  shows "scan_rate (rate_String (Some r)) = Some ((rate_Limit r, ''-''), [])"
proof -
  have "scan_int (fmt_int (rate_Limit r) @ ''r/'' @ ''-'') = Some (rate_Limit r, ''r/'' @ ''-'')"
    by (rule scan_int_fmt_int [OF assms(1)]) (simp add: is_digit_def)
  moreover have "scan_lit ''r/'' (''r/'' @ ''-'') = Some ((), ''-'')"
    by (rule scan_lit_append)
  moreover have "scan_word ''-'' = Some (''-'', [])"
    by (rule scan_word_nonspace) (simp_all add: is_space_def)
  ultimately show ?thesis
    by (simp add: scan_rate_def scan_bind_def rate_String_def formatTimeUnit_def u)
qed

text \<open>
  C16: printing a rate and parsing it back gives the rate, whatever its limit (also a negative one)
  when the window is one of the known units, and is refused with the zero rate for any other
  window: no printed rate is ever read as a different rate.
\<close>

theorem ParseRate_String:
  assumes "in_int64 (rate_Limit r)"
  shows "ParseRate (rate_String (Some r)) =
           (if timeUnitMap (rate_Window r) = None then (rate_zero, False) else (r, True))"
proof (cases "timeUnitMap (rate_Window r)")
  case None
  then show ?thesis
    by (simp add: ParseRate_def scan_rate_unknown_unit [OF assms] parseTimeUnit_def unitTimeMap_def)
next
  case (Some spec)
  then show ?thesis
    using timeUnitMap_Some [OF Some]
    by (simp add: ParseRate_def rate_scan_String [OF assms Some] parseTimeUnit_def)
qed

theorem ParseRate_String_witness:
  "ParseRate (rate_String (Some \<lparr>rate_Limit = 30, rate_Window = Minute\<rparr>)) =
     (\<lparr>rate_Limit = 30, rate_Window = Minute\<rparr>, True)"
  using ParseRate_String [of "\<lparr>rate_Limit = 30, rate_Window = Minute\<rparr>"]
  by (simp add: timeUnitMap_def unit_defs in_int64_def)

end
