(* ===== verification/Rate_Keys.thy ===== *)
theory Rate_Keys
  imports Rate_Limit
begin

text \<open>
  \<^verbatim>\<open>src/infra/ratelimit/keys.go\<close>, \<^verbatim>\<open>context.go\<close> and \<^verbatim>\<open>request.go\<close>: the keys a limit is applied to, the
  per-request environment that caches their values, and the registry of named keys.

  A key's value function may itself ask the request for other keys, so it maps the request and
  the environment to a value and the environment it leaves. The environment is a Go map shared by
  every copy of its request; it is passed along instead of being a field of the record.
\<close>

section \<open>Requests and environments\<close>

text \<open>What the rate limiter reads of an HTTP request; \<^const>\<open>None\<close> is a nil URL.\<close>

record http_url =
  url_Path :: string
  url_RequestURI :: string

record http_request =
  hr_Method :: string
  hr_URL :: "http_url option"

record request =
  rq_Date :: instant
  rq_Cost :: u32
  rq_Http :: "http_request option"

type_synonym env = "string \<Rightarrow> string option"

definition Undefined :: string where "Undefined = []"

type_synonym request_option = "request \<Rightarrow> request"

definition request_setup :: "request_option list \<Rightarrow> request \<Rightarrow> request" where
  "request_setup opts req =
     (let req = fold (\<lambda>option req. option req) opts req
      in req\<lparr>rq_Cost := max 1 (rq_Cost req)\<rparr>)"

text \<open>\<^verbatim>\<open>now\<close> is the clock reading; the new request has an empty environment.\<close>

definition NewRequest :: "instant \<Rightarrow> request_option list \<Rightarrow> request \<times> env" where
  "NewRequest now opts =
     (request_setup opts \<lparr>rq_Date = now, rq_Cost = 0, rq_Http = None\<rparr>, Map.empty)"

section \<open>Keys\<close>

type_synonym value_func = "request \<Rightarrow> env \<Rightarrow> string \<times> env"

text \<open>
  \<^verbatim>\<open>NamedKey\<close> with its optional \<^verbatim>\<open>Read\<close> function; \<open>CustomKey\<close> is any other implementation of the
  interface whose dynamic type is comparable (a pointer, say), with its identity; \<open>ReadEnv\<close> is
  \<^verbatim>\<open>readEnv\<close>, a key bound to the environment of the request it is read for.
\<close>

datatype key =
    NamedKey string "value_func option"
  | CustomKey nat string value_func
  | ReadEnv key

fun key_String :: "key \<Rightarrow> string" where
  "key_String (NamedKey name _) = name"
| "key_String (CustomKey _ name _) = name"
| "key_String (ReadEnv k) = key_String k"

fun key_Value :: "key \<Rightarrow> request \<Rightarrow> env \<Rightarrow> string \<times> env" where
  "key_Value (NamedKey _ read) req env =
     (case read of Some f \<Rightarrow> f req env | None \<Rightarrow> (Undefined, env))"
| "key_Value (CustomKey _ _ f) req env = f req env"
| "key_Value (ReadEnv k) req env =
     (case env (key_String k) of
        Some val \<Rightarrow> (val, env)
      | None \<Rightarrow> (case key_Value k req env of (val, env') \<Rightarrow> (val, env'(key_String k \<mapsto> val))))"

definition Env_Key :: "key \<Rightarrow> key" where
  "Env_Key k = (case k of ReadEnv bind \<Rightarrow> ReadEnv bind | _ \<Rightarrow> ReadEnv k)"

definition request_Get :: "key \<Rightarrow> request \<Rightarrow> env \<Rightarrow> string \<times> env" where
  "request_Get k req env = key_Value (Env_Key k) req env"

definition request_Set :: "key \<Rightarrow> request \<Rightarrow> env \<Rightarrow> env" where
  "request_Set k req env = snd (request_Get k req env)"

definition KeyFunc :: "string \<Rightarrow> value_func option \<Rightarrow> key" where
  "KeyFunc name read = NamedKey name read"

definition KeyValue :: "string \<Rightarrow> string \<Rightarrow> key" where
  "KeyValue name value = NamedKey name (Some (\<lambda>_ env. (value, env)))"

text \<open>
  Go's \<open>==\<close> on two interface values: different dynamic types are unequal, and two values of one
  type that is not comparable panic. \<^verbatim>\<open>NamedKey\<close> holds a func and \<^verbatim>\<open>readEnv\<close> a map, so neither is
  comparable.
\<close>

fun iface_eq :: "key \<Rightarrow> key \<Rightarrow> bool or_panic" where
  "iface_eq (NamedKey _ _) (NamedKey _ _) =
     Inl (Panic ''comparing uncomparable type ratelimit.NamedKey'')"
| "iface_eq (ReadEnv _) (ReadEnv _) =
     Inl (Panic ''comparing uncomparable type ratelimit.readEnv'')"
| "iface_eq (CustomKey i _ _) (CustomKey j _ _) = Inr (i = j)"
| "iface_eq _ _ = Inr False"

definition EqualKeys :: "key option \<Rightarrow> key option \<Rightarrow> bool or_panic" where
  "EqualKeys k1 k2 =
     (case (k1, k2) of
        (Some a, Some b) \<Rightarrow>
          (case iface_eq a b of
             Inl p \<Rightarrow> Inl p
           | Inr True \<Rightarrow> Inr True
           | Inr False \<Rightarrow> Inr (key_String a = key_String b))
      | _ \<Rightarrow> Inr False)"

section \<open>Keys made of several keys\<close>

text \<open>The closure of \<^verbatim>\<open>MultiKeys\<close>: undefined when the primary key is, else joined with the salts.\<close>

fun multi_salt :: "string \<Rightarrow> key list \<Rightarrow> request \<Rightarrow> string \<Rightarrow> env \<Rightarrow> string \<times> env" where
  "multi_salt sep [] req vs env = (vs, env)"
| "multi_salt sep (sk # sks) req vs env =
     (case request_Get sk req env of
        (salt, env') \<Rightarrow>
          multi_salt sep sks req (if salt = Undefined then vs else vs @ sep @ salt) env')"

definition multi_read :: "string \<Rightarrow> key \<Rightarrow> key list \<Rightarrow> value_func" where
  "multi_read sep pk sks req env =
     (case request_Get pk req env of
        (vs, env') \<Rightarrow> if vs = Undefined then (Undefined, env') else multi_salt sep sks req vs env')"

definition multi_name :: "string \<Rightarrow> key list \<Rightarrow> string" where
  "multi_name sep keys = concat (map (\<lambda>k. sep @ key_String k) keys)"

definition MultiKeys :: "string \<Rightarrow> key option list \<Rightarrow> key or_panic" where
  "MultiKeys sep keys =
     (case List.map_filter id keys of
        [] \<Rightarrow> Inl (Panic ''multi: keys missing'')
      | [k] \<Rightarrow> Inr k
      | pk # sks \<Rightarrow> Inr (KeyFunc (multi_name sep (pk # sks)) (Some (multi_read sep pk sks))))"

definition MultiKey :: "string \<Rightarrow> key option \<Rightarrow> key option list \<Rightarrow> key option or_panic" where
  "MultiKey sep pkey salt =
     (if salt = [] then Inr pkey else map_sum id Some (MultiKeys sep (pkey # salt)))"

section \<open>The registry of named keys\<close>

type_synonym named_keys = "string \<Rightarrow> key option"

datatype key_error = KeyNil string | KeyDuplicate string

definition KeyName :: "string \<Rightarrow> string" where
  "KeyName name = to_lower (trim_space name)"

definition NamedKeys_Add :: "named_keys \<Rightarrow> key option \<Rightarrow> (key_error option \<times> named_keys) or_panic" where
  "NamedKeys_Add m env =
     (case env of
        None \<Rightarrow> Inr (Some (KeyNil []), m)
      | Some k \<Rightarrow>
          (let name = KeyName (key_String k)
           in case m name of
                Some reg \<Rightarrow>
                  (case iface_eq reg k of
                     Inl p \<Rightarrow> Inl p
                   | Inr True \<Rightarrow> Inr (None, m)
                   | Inr False \<Rightarrow> Inr (Some (KeyDuplicate name), m))
              | None \<Rightarrow> Inr (None, m(name \<mapsto> k))))"

definition NamedKeys_AddFunc ::
    "named_keys \<Rightarrow> string \<Rightarrow> value_func option \<Rightarrow> (key_error option \<times> named_keys) or_panic" where
  "NamedKeys_AddFunc m name read =
     (case read of
        None \<Rightarrow> Inr (Some (KeyNil name), m)
      | Some f \<Rightarrow> NamedKeys_Add m (Some (KeyFunc (KeyName name) (Some f))))"

definition NamedKeys_Set :: "named_keys \<Rightarrow> string \<Rightarrow> key option \<Rightarrow> key_error option \<times> named_keys" where
  "NamedKeys_Set m name env =
     (case env of
        None \<Rightarrow> (Some (KeyNil name), m)
      | Some k \<Rightarrow>
          (let name = (if name = [] then key_String k else name)
           in (None, m(KeyName name \<mapsto> k))))"

definition NamedKeys_Get :: "named_keys \<Rightarrow> string \<Rightarrow> key option" where
  "NamedKeys_Get m name = m (KeyName name)"

definition NamedKeys_Del :: "named_keys \<Rightarrow> string \<Rightarrow> (key option \<times> bool) \<times> named_keys" where
  "NamedKeys_Del m name =
     (case m (KeyName name) of
        Some reg \<Rightarrow> ((Some reg, True), m(KeyName name := None))
      | None \<Rightarrow> ((None, False), m))"

section \<open>Lemmas\<close>

lemma KeyName_idem [simp]: "KeyName (KeyName n) = KeyName n"
  by (simp add: KeyName_def trim_space_to_lower)

lemma request_setup_cost: "1 \<le> rq_Cost (request_setup opts req)"
  by (simp add: request_setup_def Let_def)

lemma Env_Key_String [simp]: "key_String (Env_Key k) = key_String k"
  by (cases k) (auto simp: Env_Key_def)

lemma Env_Key_Env_Key [simp]: "Env_Key (Env_Key k) = Env_Key k"
  by (cases k) (auto simp: Env_Key_def)

lemma request_Get_cached:
  "env (key_String k) = Some v \<Longrightarrow> request_Get k req env = (v, env)"
  by (cases k) (auto simp: request_Get_def Env_Key_def)

lemma request_Get_stores:
  assumes "request_Get k req env = (v, env')"
  shows "env' (key_String k) = Some v"
proof -
  obtain k' where k': "Env_Key k = ReadEnv k'" "key_String k' = key_String k"
    by (cases k) (auto simp: Env_Key_def)
  with assms show ?thesis
    by (auto simp: request_Get_def split: option.splits prod.splits)
qed

text \<open>A key whose value function leaves the environment alone reads as its pure value.\<close>

definition pure_key :: "key \<Rightarrow> (request \<Rightarrow> string) \<Rightarrow> bool" where
  "pure_key k f \<longleftrightarrow> (\<exists>name. k = NamedKey name (Some (\<lambda>req env. (f req, env))))"

text \<open>An environment is sound for a naming of pure values when it caches no other value.\<close>

definition env_agrees :: "(string \<Rightarrow> string) \<Rightarrow> env \<Rightarrow> bool" where
  "env_agrees val env \<longleftrightarrow> (\<forall>n v. env n = Some v \<longrightarrow> v = val n)"

lemma request_Get_pure:
  assumes "pure_key k f" and "f req = val (key_String k)" and "env_agrees val env"
  obtains env' where "request_Get k req env = (f req, env')" and "env_agrees val env'"
proof -
  obtain name where k: "k = NamedKey name (Some (\<lambda>req env. (f req, env)))"
    using assms(1) by (auto simp: pure_key_def)
  show thesis
  proof (cases "env name")
    case None
    with k assms show thesis
      by (intro that [of "env(name \<mapsto> f req)"])
        (auto simp: request_Get_def Env_Key_def env_agrees_def)
  next
    case (Some v)
    with k assms show thesis
      by (intro that [of env]) (auto simp: request_Get_def Env_Key_def env_agrees_def)
  qed
qed

lemma multi_salt_pure:
  assumes "\<And>k. k \<in> set sks \<Longrightarrow> \<exists>f. pure_key k f \<and> f req = val (key_String k)"
    and "env_agrees val env"
  shows "\<exists>env'. multi_salt sep sks req vs env =
           (vs @ concat (map (\<lambda>k. sep @ val (key_String k))
              (filter (\<lambda>k. val (key_String k) \<noteq> Undefined) sks)), env') \<and> env_agrees val env'"
  using assms
proof (induction sks arbitrary: vs env)
  case Nil
  then show ?case by simp
next
  case (Cons k sks)
  obtain f where f: "pure_key k f" "f req = val (key_String k)" using Cons.prems(1) by auto
  obtain env1 where g: "request_Get k req env = (f req, env1)" "env_agrees val env1"
    by (rule request_Get_pure [OF f Cons.prems(2)])
  have ks: "\<And>k. k \<in> set sks \<Longrightarrow> \<exists>f. pure_key k f \<and> f req = val (key_String k)"
    using Cons.prems(1) by auto
  show ?case
    using Cons.IH [OF ks g(2), of "if f req = Undefined then vs else vs @ sep @ f req"]
    by (auto simp: g(1) f(2))
qed

lemma map_filter_id_Some [simp]: "List.map_filter id (map Some xs) = xs"
  by (induction xs) auto

section \<open>The registry is a keyed store\<close>

text \<open>\<^verbatim>\<open>Set\<close> with an empty name takes the key's own name, so the law is for a name given.\<close>

interpretation named: keyed_store KeyName "\<lambda>name. name \<noteq> []" NamedKeys_Get
  "\<lambda>name k m. snd (NamedKeys_Set m name (Some k))" "\<lambda>name m. snd (NamedKeys_Del m name)"
  by unfold_locales
    (auto simp: NamedKeys_Get_def NamedKeys_Set_def NamedKeys_Del_def Let_def split: option.splits)

section \<open>Properties\<close>

text \<open>
  After any sequence of named \<^verbatim>\<open>Set\<close> calls, \<^verbatim>\<open>Get\<close> returns the key of the last call whose name
  is the same up to letter case and surrounding space, and else what was there before.
\<close>

theorem NamedKeys_Get_after_Sets:
  assumes "list_all (\<lambda>(name, k). name \<noteq> []) kvs"
  shows "NamedKeys_Get (fold (\<lambda>(name, k) m. snd (NamedKeys_Set m name (Some k))) kvs m) name' =
           (case map_of (rev (map (\<lambda>(name, k). (KeyName name, k)) kvs)) (KeyName name') of
              Some k \<Rightarrow> Some k | None \<Rightarrow> NamedKeys_Get m name')"
  using named.get_put_all [of kvs m name'] assms by (simp add: case_prod_unfold)

theorem NamedKeys_Get_after_Sets_witness:
  "NamedKeys_Get (fold (\<lambda>(name, k) m. snd (NamedKeys_Set m name (Some k)))
      [(''IP'', KeyValue ''a'' ''1''), (''ip '', KeyValue ''b'' ''2'')] Map.empty) ''ip''
   = Some (KeyValue ''b'' ''2'')"
proof -
  have "KeyName ''ip '' = KeyName ''ip''" by code_simp
  then show ?thesis
    using NamedKeys_Get_after_Sets [of "[(''IP'', KeyValue ''a'' ''1''), (''ip '', KeyValue ''b'' ''2'')]"
        Map.empty "''ip''"] by simp
qed

text \<open>
  The value of a multi key over keys with pure value functions: undefined when the primary key
  is, and otherwise the primary value followed by the separator and the value of every salt that
  is defined, in order. The environment afterwards still caches only true values.
\<close>

theorem MultiKeys_value:
  assumes "MultiKeys sep (map Some (pk # sk # sks)) = Inr k"
    and pure: "\<forall>j \<in> set (pk # sk # sks). \<exists>f. pure_key j f \<and> f req = val (key_String j)"
    and agr: "env_agrees val env"
  shows "fst (key_Value k req env) =
           (if val (key_String pk) = Undefined then Undefined
            else val (key_String pk) @ concat (map (\<lambda>j. sep @ val (key_String j))
                   (filter (\<lambda>j. val (key_String j) \<noteq> Undefined) (sk # sks))))
         \<and> env_agrees val (snd (key_Value k req env))"
proof -
  have k: "key_Value k req env = multi_read sep pk (sk # sks) req env"
    using assms(1) by (auto simp: MultiKeys_def KeyFunc_def)
  obtain f where f: "pure_key pk f" "f req = val (key_String pk)" using pure by auto
  obtain env1 where g: "request_Get pk req env = (f req, env1)" "env_agrees val env1"
    by (rule request_Get_pure [OF f agr])
  have ks: "\<And>j. j \<in> set (sk # sks) \<Longrightarrow> \<exists>f. pure_key j f \<and> f req = val (key_String j)"
    using pure by auto
  obtain env2 where "multi_salt sep (sk # sks) req (f req) env1 =
      (f req @ concat (map (\<lambda>j. sep @ val (key_String j))
         (filter (\<lambda>j. val (key_String j) \<noteq> Undefined) (sk # sks))), env2) \<and> env_agrees val env2"
    using multi_salt_pure [OF ks g(2)] by blast
  with g f(2) show ?thesis by (simp add: k multi_read_def del: multi_salt.simps)
qed

theorem MultiKeys_value_witness:
  "fst (key_Value (projr (MultiKeys ''+'' (map Some [KeyValue ''ip'' ''10.0.0.1'', KeyValue ''user'' [],
           KeyValue ''path'' ''/api''])))
         \<lparr>rq_Date = 0, rq_Cost = 1, rq_Http = None\<rparr> Map.empty) = ''10.0.0.1+/api''"
proof -
  let ?val = "\<lambda>n. if n = ''ip'' then ''10.0.0.1'' else if n = ''path'' then ''/api'' else []"
  let ?ks = "[KeyValue ''ip'' ''10.0.0.1'', KeyValue ''user'' [], KeyValue ''path'' ''/api'']"
  have p: "pure_key (KeyValue n v) (\<lambda>_. v)" for n v
    by (auto simp: pure_key_def KeyValue_def)
  have "\<forall>j \<in> set ?ks. \<exists>f. pure_key j f \<and>
          f \<lparr>rq_Date = 0, rq_Cost = 1, rq_Http = None\<rparr> = ?val (key_String j)"
    using p by (fastforce simp: KeyValue_def)
  moreover have "env_agrees ?val Map.empty" by (simp add: env_agrees_def)
  ultimately show ?thesis
    using MultiKeys_value [of "''+''" "?ks ! 0" "?ks ! 1" "[?ks ! 2]"
        "projr (MultiKeys ''+'' (map Some ?ks))" "\<lparr>rq_Date = 0, rq_Cost = 1, rq_Http = None\<rparr>" ?val Map.empty]
    by (simp add: MultiKeys_def KeyValue_def Undefined_def)
qed

text \<open>
  Once a function is registered under a name, registering any function under the same name (in
  any letter case, with any surrounding space) ends in a run-time panic: the comparison that should
  report the duplicate compares two values of a type that holds a func.
\<close>

theorem NamedKeys_AddFunc_again_panics:
  assumes "NamedKeys_AddFunc m name (Some f) = Inr (None, m')" and "KeyName name' = KeyName name"
  shows "\<exists>p. NamedKeys_AddFunc m' name' (Some g) = Inl p"
proof -
  have free: "m (KeyName name) = None"
    using assms(1)
    by (cases "m (KeyName name)"; cases "the (m (KeyName name))")
      (auto simp: NamedKeys_AddFunc_def NamedKeys_Add_def KeyFunc_def Let_def)
  then have "m' = m(KeyName name \<mapsto> NamedKey (KeyName name) (Some f))"
    using assms(1) by (simp add: NamedKeys_AddFunc_def NamedKeys_Add_def KeyFunc_def Let_def)
  then show ?thesis
    by (simp add: NamedKeys_AddFunc_def NamedKeys_Add_def KeyFunc_def Let_def assms(2))
qed

theorem NamedKeys_AddFunc_again_panics_witness:
  "\<exists>m' p. NamedKeys_AddFunc Map.empty ''IP'' (Some (\<lambda>_ env. (''a'', env))) = Inr (None, m') \<and>
          NamedKeys_AddFunc m' '' ip '' (Some (\<lambda>_ env. (''b'', env))) = Inl p"
proof -
  let ?m = "Map.empty(KeyName ''IP'' \<mapsto> NamedKey (KeyName ''IP'') (Some (\<lambda>_ env. (''a'', env))))"
  have add: "NamedKeys_AddFunc Map.empty ''IP'' (Some (\<lambda>_ env. (''a'', env))) = Inr (None, ?m)"
    by (simp add: NamedKeys_AddFunc_def NamedKeys_Add_def KeyFunc_def Let_def)
  moreover have "KeyName '' ip '' = KeyName ''IP''" by code_simp
  ultimately show ?thesis
    using NamedKeys_AddFunc_again_panics [OF add, of "'' ip ''"] by blast
qed

end
