(* ===== verification/Rate_Status.thy ===== *)
theory Rate_Status
  imports Rate_Keys
begin

text \<open>
  \<^verbatim>\<open>src/infra/ratelimit/status.go\<close>, \<^verbatim>\<open>error.go\<close>, \<^verbatim>\<open>handler.go\<close>, \<^verbatim>\<open>http.go\<close> and \<^verbatim>\<open>grpc.go\<close>: the status of a
  limit and the answers that the HTTP middleware and the gRPC interceptor derive from it.
\<close>

section \<open>Status\<close>

record status =
  st_Date :: instant
  st_Limit :: u32
  st_Allowed :: u32
  st_Remaining :: u32
  st_ResetAfter :: duration
  st_RetryAfter :: duration

type_synonym status_option = "status \<Rightarrow> status"

definition status_apply :: "status_option list \<Rightarrow> status \<Rightarrow> status" where
  "status_apply opts res = fold (\<lambda>setup res. setup res) opts res"

definition Allow :: "request \<Rightarrow> status_option list \<Rightarrow> status" where
  "Allow req opts =
     status_apply opts
       \<lparr>st_Date = rq_Date req, st_Limit = 0, st_Allowed = max (rq_Cost req) 1, st_Remaining = 0,
        st_ResetAfter = 0, st_RetryAfter = 0\<rparr>"

definition Deny :: "request \<Rightarrow> status_option list \<Rightarrow> status" where
  "Deny req opts =
     status_apply opts
       \<lparr>st_Date = rq_Date req, st_Limit = 0, st_Allowed = 0, st_Remaining = 0,
        st_ResetAfter = 0, st_RetryAfter = 0\<rparr>"

text \<open>\<^const>\<open>None\<close> is a nil \<^verbatim>\<open>*Status\<close>: no limit was applied.\<close>

definition status_OK :: "status option \<Rightarrow> bool" where
  "status_OK res = (case res of None \<Rightarrow> True | Some s \<Rightarrow> st_Allowed s > 0)"

section \<open>Errors\<close>

definition ErrForbidden :: error where
  "ErrForbidden = Forbidden [opt_Status ''FORBIDDEN'', msg_text ''service: forbidden request'']"

definition ErrFloodWait :: error where
  "ErrFloodWait =
     err_New [opt_Code 429, opt_Status ''FLOOD_WAIT'', msg_text ''service: too many requests'']"

text \<open>The errors a limit can end with: \<^verbatim>\<open>ErrForbidden\<close>, and \<^verbatim>\<open>*Error\<close> carrying the status.\<close>

datatype limit_error = LimitForbidden | LimitError status

definition status_Err :: "status option \<Rightarrow> limit_error option" where
  "status_Err res = (if status_OK res then None else map_option LimitError res)"

definition limit_error_GRPCStatus :: "'any err_codec \<Rightarrow> limit_error \<Rightarrow> 'any grpc_status" where
  "limit_error_GRPCStatus cd e =
     (case e of LimitForbidden \<Rightarrow> GRPCStatus cd ErrForbidden | LimitError _ \<Rightarrow> GRPCStatus cd ErrFloodWait)"

definition limit_error_Error :: "limit_error \<Rightarrow> string" where
  "limit_error_Error e =
     (case e of LimitForbidden \<Rightarrow> err_Message ErrForbidden | LimitError _ \<Rightarrow> err_Message ErrFloodWait)"

section \<open>Whole seconds\<close>

text \<open>\<^verbatim>\<open>Duration.Seconds\<close>: the whole seconds plus the nanoseconds over \<open>1e9\<close>, in float64.\<close>

definition duration_Seconds :: "duration \<Rightarrow> rat" where
  "duration_Seconds d =
     f64 (of_int (d sdiv Second) + f64 (of_int (d smod Second) / 1000000000))"

definition MinSeconds :: "duration \<Rightarrow> int" where
  "MinSeconds d = (if d = 0 then 0 else \<lceil>duration_Seconds d\<rceil>)"

section \<open>Header values\<close>

definition H1LimitQuota :: string where "H1LimitQuota = ''X-RateLimit-Limit''"
definition H1LimitRemaining :: string where "H1LimitRemaining = ''X-RateLimit-Remaining''"
definition H1LimitResetAfter :: string where "H1LimitResetAfter = ''X-RateLimit-Reset''"
definition H1RetryAfter :: string where "H1RetryAfter = ''Retry-After''"
definition H2LimitQuota :: string where "H2LimitQuota = ''x-ratelimit-limit''"
definition H2LimitRemaining :: string where "H2LimitRemaining = ''x-ratelimit-remaining''"
definition H2LimitResetAfter :: string where "H2LimitResetAfter = ''x-ratelimit-reset''"
definition H2RetryAfter :: string where "H2RetryAfter = ''retry-after''"

text \<open>
  The quota headers in the order the code sets them; a zero value is left out. \<^verbatim>\<open>Response\<close>,
  \<^verbatim>\<open>HttpWriteStatus\<close> and \<^verbatim>\<open>GrpcResponse\<close> each define the same local function \<^verbatim>\<open>headQuota\<close>.
\<close>

definition headQuota :: "string \<Rightarrow> int \<Rightarrow> (string \<times> string) list" where
  "headQuota key quota = (if quota = 0 then [] else [(key, fmt_int quota)])"

definition H2_headers :: "status \<Rightarrow> (string \<times> string) list" where
  "H2_headers res =
     headQuota H2LimitQuota (uint (st_Limit res)) @
     headQuota H2LimitRemaining (uint (st_Remaining res)) @
     headQuota H2LimitResetAfter (MinSeconds (st_ResetAfter res)) @
     (if status_OK (Some res) then [] else headQuota H2RetryAfter (MinSeconds (st_RetryAfter res)))"

definition Response :: "status \<Rightarrow> (string \<Rightarrow> string option) option \<times> limit_error option" where
  "Response res =
     (if st_Limit res = 0 then
        (if st_Allowed res > 0 then (None, None) else (None, Some LimitForbidden))
      else (Some (map_of (rev (H2_headers res))), status_Err (Some res)))"

section \<open>The gRPC interceptor\<close>

text \<open>
  The outgoing metadata is the list of appended pairs; the interceptor's context is that list.
  Building the HTTP request for the limit handler is its parameter \<open>mk\<close>, and the limit handler
  threads a world \<open>'w\<close> that holds its storage; it may panic, which ends the call.
\<close>

type_synonym ('w, 'any) handler =
  "request \<Rightarrow> env \<Rightarrow> 'w \<Rightarrow> ((status option \<times> 'any go_error) \<times> env \<times> 'w) or_panic"

definition GrpcResponse ::
    "(string \<times> string) list \<Rightarrow> status option \<Rightarrow> (string \<times> string) list \<times> limit_error option" where
  "GrpcResponse ctx res =
     (case res of
        None \<Rightarrow> (ctx, None)
      | Some s \<Rightarrow>
          if st_Limit s = 0 then
            (if st_Allowed s > 0 then (ctx, None) else (ctx, Some LimitForbidden))
          else (ctx @ H2_headers s, status_Err (Some s)))"

datatype 'r grpc_reply = Refused limit_error | Invoked "(string \<times> string) list" 'r

definition GrpcUnaryServerInterceptor ::
    "('w, 'any) handler \<Rightarrow> instant \<Rightarrow> http_request \<Rightarrow> (string \<times> string) list \<Rightarrow>
     ((string \<times> string) list \<Rightarrow> 'r) \<Rightarrow> 'w \<Rightarrow> ('r grpc_reply \<times> 'w) or_panic" where
  "GrpcUnaryServerInterceptor front now http ctx invoke w =
     (case NewRequest now [\<lambda>req. req\<lparr>rq_Http := Some http\<rparr>] of
        (req, env) \<Rightarrow>
          (case front req env w of
             Inl p \<Rightarrow> Inl p
           | Inr ((status, _), _, w') \<Rightarrow>
               (case GrpcResponse ctx status of
                  (ctx', Some e) \<Rightarrow> Inr (Refused e, w')
                | (ctx', None) \<Rightarrow> Inr (Invoked ctx' (invoke ctx'), w'))))"

section \<open>The HTTP middleware\<close>

text \<open>
  A \<^verbatim>\<open>net/http\<close> response under construction: header values under their canonical names, the
  status code once it is written, and the body. \<^verbatim>\<open>WriteHeader\<close> panics on a code outside 100..999
  and ignores a second call; \<^verbatim>\<open>Write\<close> first writes the code 200 if none is written.
\<close>

record response =
  rw_Header :: "string \<Rightarrow> string option"
  rw_Code :: "int option"
  rw_Body :: string

fun canon_header :: "bool \<Rightarrow> string \<Rightarrow> string" where
  "canon_header up [] = []"
| "canon_header up (c # cs) =
     (if up then to_upper_char c else to_lower_char c) # canon_header (c = CHR ''-'') cs"

definition header_Set :: "string \<Rightarrow> string \<Rightarrow> response \<Rightarrow> response" where
  "header_Set name v w = w\<lparr>rw_Header := (rw_Header w)(canon_header True name \<mapsto> v)\<rparr>"

definition header_Set_all :: "(string \<times> string) list \<Rightarrow> response \<Rightarrow> response" where
  "header_Set_all hs w = fold (\<lambda>(n, v). header_Set n v) hs w"

definition WriteHeader :: "int \<Rightarrow> response \<Rightarrow> response or_panic" where
  "WriteHeader code w =
     (if code < 100 \<or> code > 999 then Inl (Panic ''invalid WriteHeader code'')
      else Inr (case rw_Code w of None \<Rightarrow> w\<lparr>rw_Code := Some code\<rparr> | Some _ \<Rightarrow> w))"

definition response_Write :: "string \<Rightarrow> response \<Rightarrow> response" where
  "response_Write data w =
     w\<lparr>rw_Code := (case rw_Code w of None \<Rightarrow> Some 200 | Some c \<Rightarrow> Some c), rw_Body := rw_Body w @ data\<rparr>"

text \<open>
  \<^verbatim>\<open>HttpWriteError\<close> calls itself with the marshalling error when the error cannot be marshalled, so
  it is partial. \<open>marshal\<close> is \<^verbatim>\<open>protojson\<close> with its options: text, or the message of its error.
\<close>

partial_function (option) HttpWriteError ::
    "'any err_codec \<Rightarrow> (error option \<Rightarrow> string + string) \<Rightarrow> response \<Rightarrow> 'any go_error \<Rightarrow>
     response or_panic option" where
  "HttpWriteError cd marshal w err =
     (case fst (FromError cd err) of
        res \<Rightarrow>
          (case marshal res of
             Inl e \<Rightarrow> HttpWriteError cd marshal w (TextError e)
           | Inr data \<Rightarrow>
               (case res of
                  None \<Rightarrow> Some (Inl (Panic ''nil pointer dereference''))
                | Some e \<Rightarrow>
                    (case WriteHeader (err_Code e)
                            (header_Set ''Content-Type'' ''application/json; charset=utf-8'' w) of
                       Inl p \<Rightarrow> Some (Inl p)
                     | Inr w' \<Rightarrow> Some (Inr (response_Write data w'))))))"

text \<open>What the middleware did: whether the request goes on, and the response so far.\<close>

definition HttpWriteStatus ::
    "'any err_codec \<Rightarrow> (error option \<Rightarrow> string + string) \<Rightarrow> response \<Rightarrow> status option \<Rightarrow>
     (response \<times> bool) or_panic option" where
  "HttpWriteStatus cd marshal w res =
     (case res of
        None \<Rightarrow> Some (Inr (w, True))
      | Some s \<Rightarrow>
          if st_Limit s = 0 then
            (if st_Allowed s > 0 then Some (Inr (w, True))
             else map_option (map_sum id (\<lambda>w. (w, False)))
                    (HttpWriteError cd marshal w (KitError ErrForbidden)))
          else
            (let w1 = header_Set_all
                        (headQuota H1LimitQuota (uint (st_Limit s)) @
                         headQuota H1LimitRemaining (uint (st_Remaining s)) @
                         headQuota H1LimitResetAfter (MinSeconds (st_ResetAfter s))) w
             in if \<not> status_OK (Some s) then
                  (let w2 = header_Set_all (headQuota H1RetryAfter (MinSeconds (st_RetryAfter s))) w1
                   in map_option (map_sum id (\<lambda>w. (w, False)))
                        (HttpWriteError cd marshal w2 (KitError ErrFloodWait)))
                else Some (Inr (w1, True))))"

text \<open>The default back handler answers 200; \<open>back\<close> maps a response to the one it leaves.\<close>

definition default_back :: "response \<Rightarrow> response or_panic" where
  "default_back w = WriteHeader 200 w"

definition HttpMiddleware ::
    "'any err_codec \<Rightarrow> (error option \<Rightarrow> string + string) \<Rightarrow> ('w, 'any) handler \<Rightarrow>
     (response \<Rightarrow> response or_panic) option \<Rightarrow> instant \<Rightarrow> http_request \<Rightarrow> response \<Rightarrow> 'w \<Rightarrow>
     (response \<times> 'w) or_panic option" where
  "HttpMiddleware cd marshal front back now r w world =
     (let back = (case back of None \<Rightarrow> default_back | Some b \<Rightarrow> b)
      in case NewRequest now [\<lambda>req. req\<lparr>rq_Http := Some r\<rparr>] of
           (req, env) \<Rightarrow>
             (case front req env world of
                Inl p \<Rightarrow> Some (Inl p)
              | Inr ((status, err), _, world') \<Rightarrow>
                  (case err of
                     NilError \<Rightarrow>
                       (case HttpWriteStatus cd marshal w status of
                          None \<Rightarrow> None
                        | Some (Inl p) \<Rightarrow> Some (Inl p)
                        | Some (Inr (w', False)) \<Rightarrow> Some (Inr (w', world'))
                        | Some (Inr (w', True)) \<Rightarrow> Some (map_sum id (\<lambda>w. (w, world')) (back w')))
                   | _ \<Rightarrow> map_option (map_sum id (\<lambda>w. (w, world'))) (HttpWriteError cd marshal w err))))"

section \<open>Lemmas\<close>

lemma ErrForbidden_code [simp]: "err_Code ErrForbidden = 403"
  by (simp add: ErrForbidden_def Forbidden_def err_New_def err_init_def opt_Status_def opt_Code_def
      opt_Message_def)

lemma ErrFloodWait_code [simp]: "err_Code ErrFloodWait = 429"
  by (simp add: ErrFloodWait_def err_New_def err_init_def opt_Status_def opt_Code_def
      opt_Message_def)

lemma status_OK_iff: "status_OK (Some s) \<longleftrightarrow> st_Allowed s \<noteq> 0"
  by (simp add: status_OK_def word_neq_0_conv)

lemma word_pos_iff: "(0 < w) = (w \<noteq> (0 :: u32))"
  by (simp add: word_neq_0_conv)

lemma status_OK_Allow: "status_OK (Some (Allow req []))"
  by (auto simp: status_OK_iff Allow_def status_apply_def max_def)

lemma status_not_OK_Deny: "\<not> status_OK (Some (Deny req []))"
  by (simp add: status_OK_iff Deny_def status_apply_def)

lemma status_Err_None_iff: "status_Err res = None \<longleftrightarrow> status_OK res"
  by (auto simp: status_Err_def status_OK_def split: option.splits)

lemma sdiv_smod_nonneg:
  assumes "0 \<le> d"
  shows "d sdiv Second = d div 1000000000" and "d smod Second = d mod 1000000000"
  using assms by (auto simp: signed_divide_int_def signed_modulo_int_def Second_def sgn_if)

text \<open>
  Below \<open>2^22\<close> seconds (48 days) the sum of the seconds and their fraction still has room for
  single nanoseconds, so the rounded value has the ceiling of the exact one.
\<close>

lemma duration_Seconds_bounds:
  fixes s n :: int
  assumes "0 \<le> s" "s < 2 ^ 22" and n: "0 < n" "n < 1000000000"
  shows "of_int s < f64 (of_int s + f64 (of_int n / 1000000000))"
    and "f64 (of_int s + f64 (of_int n / 1000000000)) \<le> of_int (s + 1)"
proof -
  let ?r = "f64 (of_int n / 1000000000)"
  have e1: "f64 (2 powi - 30) = 2 powi - 30"
    using f64_exact [of "2 powi - 30" 1 "- 30"] by simp
  have "f64 (2 powi - 30) \<le> ?r"
    by (rule f64_mono) (use n in \<open>simp add: power_int_minus field_simps\<close>)
  then have lo: "2 powi - 30 \<le> ?r" by (simp only: e1)
  have "?r \<le> f64 (of_int 1)"
    by (rule f64_mono) (use n in simp)
  then have hi: "?r \<le> 1" using f64_of_int [of 1] by simp
  have e2: "f64 (of_int s + 2 powi - 30) = of_int s + 2 powi - 30"
  proof (rule f64_exact)
    show "of_int s + (2::rat) powi - 30 = of_int (s * 2 ^ 30 + 1) * 2 powi - 30"
      by (simp add: power_int_minus field_simps)
    show "0 < s * 2 ^ 30 + 1" using assms(1) by (simp add: add_nonneg_pos)
    show "s * 2 ^ 30 + 1 \<le> 2 ^ 53" using assms(2) by simp
  qed
  have "of_int s < of_int s + (2::rat) powi - 30" by simp
  also have "\<dots> = f64 (of_int s + 2 powi - 30)" by (simp only: e2)
  also have "\<dots> \<le> f64 (of_int s + ?r)" by (rule f64_mono) (use lo in simp)
  finally show "of_int s < f64 (of_int s + ?r)" .
  have "f64 (of_int s + ?r) \<le> f64 (of_int (s + 1))" by (rule f64_mono) (use hi in simp)
  also have "\<dots> = of_int (s + 1)" by (rule f64_of_int) (use assms(1,2) in auto)
  finally show "f64 (of_int s + ?r) \<le> of_int (s + 1)" .
qed

lemma MinSeconds_ceiling:
  assumes "0 \<le> d" and "d < 2 ^ 22 * 1000000000"
  shows "MinSeconds d = \<lceil>rat_of_int d / 1000000000\<rceil>"
proof -
  define s n where "s = d div 1000000000" and "n = d mod 1000000000"
  have d: "d = s * 1000000000 + n" by (simp add: s_def n_def)
  have s: "0 \<le> s" "s < 2 ^ 22" and n: "0 \<le> n" "n < 1000000000"
    using assms by (auto simp: s_def n_def pos_imp_zdiv_nonneg_iff div_less_iff_less_mult)
  have sec: "duration_Seconds d = f64 (of_int s + f64 (of_int n / 1000000000))"
    unfolding duration_Seconds_def sdiv_smod_nonneg [OF assms(1)] s_def n_def ..
  show ?thesis
  proof (cases "n = 0")
    case True
    have "f64 (of_int s) = of_int s" by (rule f64_of_int) (use s in auto)
    with True sec have "duration_Seconds d = of_int s" by simp
    with True d show ?thesis by (simp add: MinSeconds_def)
  next
    case False
    with n have n': "0 < n" by simp
    have "\<lceil>duration_Seconds d\<rceil> = s + 1"
    proof (rule ceiling_unique)
      show "of_int (s + 1) - 1 < duration_Seconds d"
        using duration_Seconds_bounds(1) [OF s n' n(2)]
        by (simp add: duration_Seconds_def sdiv_smod_nonneg assms s_def n_def)
      show "duration_Seconds d \<le> of_int (s + 1)"
        using duration_Seconds_bounds(2) [OF s n' n(2)]
        by (simp add: duration_Seconds_def sdiv_smod_nonneg assms s_def n_def)
    qed
    moreover have "\<lceil>rat_of_int d / 1000000000\<rceil> = s + 1"
      by (rule ceiling_unique) (use n' n in \<open>simp_all add: d field_simps\<close>)
    moreover have "d \<noteq> 0" using False by (auto simp: n_def)
    ultimately show ?thesis by (simp add: MinSeconds_def)
  qed
qed

section \<open>Properties\<close>

text \<open>
  C12: for every non-negative duration below \<open>2^22\<close> seconds (48 days) the header value is the least
  whole number of seconds that is not shorter: the float64 rounding of \<^verbatim>\<open>Duration.Seconds\<close> never
  shows a client a second too few or too many.
\<close>

theorem MinSeconds_exact:
  assumes "0 \<le> d" and "d < 2 ^ 22 * 1000000000"
  shows "(MinSeconds d - 1) * Second < d \<and> d \<le> MinSeconds d * Second"
proof -
  have m: "MinSeconds d = \<lceil>rat_of_int d / 1000000000\<rceil>" by (rule MinSeconds_ceiling [OF assms])
  have "rat_of_int d / 1000000000 \<le> of_int (MinSeconds d)"
    and "of_int (MinSeconds d) - 1 < rat_of_int d / 1000000000"
    unfolding m by linarith+
  then have "rat_of_int d \<le> of_int (MinSeconds d * 1000000000)"
    and "rat_of_int ((MinSeconds d - 1) * 1000000000) < of_int d"
    by (simp_all add: field_simps)
  then show ?thesis unfolding of_int_le_iff of_int_less_iff Second_def by simp
qed

theorem MinSeconds_exact_witness:
  "(MinSeconds 1500000000 - 1) * Second < 1500000000 \<and> 1500000000 \<le> MinSeconds 1500000000 * Second"
  by (rule MinSeconds_exact) simp_all

text \<open>The outcome of a status, common to both front ends: the refusal, if any.\<close>

definition refusal :: "status option \<Rightarrow> limit_error option" where
  "refusal res =
     (case res of
        None \<Rightarrow> None
      | Some s \<Rightarrow> if st_Allowed s \<noteq> 0 then None
                  else if st_Limit s = 0 then Some LimitForbidden else Some (LimitError s))"

lemma GrpcResponse_refusal: "snd (GrpcResponse ctx res) = refusal res"
  by (auto simp: GrpcResponse_def refusal_def status_Err_def status_OK_def word_pos_iff
      split: option.splits)

text \<open>
  C7: the gRPC interceptor calls the method exactly when the limit handler's status is nil or allows
  the request, whatever error it returns beside; a refused call gets the forbidden error when no
  limit is set and the flood-wait error with that status otherwise, and the storage is left as the
  limit handler left it.
\<close>

theorem GrpcUnaryServerInterceptor_refuses:
  assumes "NewRequest now [\<lambda>req. req\<lparr>rq_Http := Some http\<rparr>] = (req, env)"
    and "front req env w = Inr ((res, err), env', w')"
  shows "GrpcUnaryServerInterceptor front now http ctx invoke w =
           Inr (case refusal res of
                  Some e \<Rightarrow> Refused e
                | None \<Rightarrow> let ctx' = fst (GrpcResponse ctx res) in Invoked ctx' (invoke ctx'), w')"
  using GrpcResponse_refusal [of ctx res]
  by (cases "GrpcResponse ctx res")
    (auto simp: GrpcUnaryServerInterceptor_def assms Let_def split: option.splits)

theorem GrpcUnaryServerInterceptor_refuses_witness:
  "GrpcUnaryServerInterceptor
     (\<lambda>req env w. Inr ((Some (Deny req []), NilError :: unit go_error), env, Suc w)) 5
     \<lparr>hr_Method = ''POST'', hr_URL = None\<rparr> [] (\<lambda>_. True) 0 = Inr (Refused LimitForbidden, 1)"
  by (subst GrpcUnaryServerInterceptor_refuses
        [where env = Map.empty and env' = Map.empty and w' = 1 and err = NilError and
          req = "\<lparr>rq_Date = 5, rq_Cost = 1, rq_Http = Some \<lparr>hr_Method = ''POST'', hr_URL = None\<rparr>\<rparr>" and
          res = "Some \<lparr>st_Date = 5, st_Limit = 0, st_Allowed = 0, st_Remaining = 0,
                       st_ResetAfter = 0, st_RetryAfter = 0\<rparr>"])
    (simp_all add: NewRequest_def request_setup_def refusal_def Deny_def status_apply_def)

lemma HttpWriteError_KitError:
  assumes "marshal (Some e) = Inr data" and "100 \<le> err_Code e" and "err_Code e \<le> 999"
    and "rw_Code w = None"
  shows "HttpWriteError cd marshal w (KitError e) =
           Some (Inr (response_Write data
             ((header_Set ''Content-Type'' ''application/json; charset=utf-8'' w)\<lparr>rw_Code := Some (err_Code e)\<rparr>)))"
  using assms by (subst HttpWriteError.simps) (simp add: WriteHeader_def header_Set_def)

lemma header_Set_all_code [simp]: "rw_Code (header_Set_all hs w) = rw_Code w"
  by (induction hs arbitrary: w) (auto simp: header_Set_all_def header_Set_def split: prod.splits)

lemma header_Set_all_body [simp]: "rw_Body (header_Set_all hs w) = rw_Body w"
  by (induction hs arbitrary: w) (auto simp: header_Set_all_def header_Set_def split: prod.splits)

lemma HttpWriteStatus_refusal:
  assumes "marshal (Some ErrForbidden) = Inr data403" and "marshal (Some ErrFloodWait) = Inr data429"
    and "rw_Code w = None"
  shows "case refusal res of
           None \<Rightarrow> \<exists>w'. rw_Code w' = None \<and> rw_Body w' = rw_Body w \<and>
                   HttpWriteStatus cd marshal w res = Some (Inr (w', True))
         | Some e \<Rightarrow> \<exists>w'. HttpWriteStatus cd marshal w res = Some (Inr (w', False)) \<and>
                   rw_Code w' = Some (case e of LimitForbidden \<Rightarrow> 403 | LimitError _ \<Rightarrow> 429)"
proof (cases res)
  case None
  then show ?thesis using assms by (simp add: refusal_def HttpWriteStatus_def)
next
  case (Some s)
  have "HttpWriteError cd marshal w1 (KitError ErrForbidden) =
          Some (Inr (response_Write data403 ((header_Set ''Content-Type''
            ''application/json; charset=utf-8'' w1)\<lparr>rw_Code := Some 403\<rparr>)))"
    and "HttpWriteError cd marshal w1 (KitError ErrFloodWait) =
          Some (Inr (response_Write data429 ((header_Set ''Content-Type''
            ''application/json; charset=utf-8'' w1)\<lparr>rw_Code := Some 429\<rparr>)))"
    if "rw_Code w1 = None" for w1
    using HttpWriteError_KitError [where marshal = marshal and e = ErrForbidden, OF assms(1) _ _ that]
      HttpWriteError_KitError [where marshal = marshal and e = ErrFloodWait, OF assms(2) _ _ that]
    by simp_all
  note err = this
  show ?thesis
    using assms(3)
    by (simp add: Some refusal_def HttpWriteStatus_def Let_def err status_OK_iff word_pos_iff
        response_Write_def)
qed

lemma HttpMiddleware_step:
  assumes "NewRequest now [\<lambda>req. req\<lparr>rq_Http := Some r\<rparr>] = (req, env)"
    and "front req env world = Inr ((res, NilError), env', world')"
    and "marshal (Some ErrForbidden) = Inr data403" and "marshal (Some ErrFloodWait) = Inr data429"
    and "rw_Code w = None"
  shows "case refusal res of
           None \<Rightarrow> \<exists>w'. rw_Code w' = None \<and> rw_Body w' = rw_Body w \<and>
                   HttpMiddleware cd marshal front inner now r w world =
                     Some (map_sum id (\<lambda>w. (w, world')) ((case inner of None \<Rightarrow> default_back | Some b \<Rightarrow> b) w'))
         | Some e \<Rightarrow> \<exists>w'. HttpMiddleware cd marshal front inner now r w world = Some (Inr (w', world')) \<and>
                   rw_Code w' = Some (case e of LimitForbidden \<Rightarrow> 403 | LimitError _ \<Rightarrow> 429)"
  using HttpWriteStatus_refusal [OF assms(3-5), of cd res]
  by (auto simp: HttpMiddleware_def assms(1,2) split: option.splits)



text \<open>
  When the limit handler fails with an error that is neither the kit's error nor a gRPC status,
  and whose text is not a JSON error, the middleware does not answer: the error it makes of the text
  has the code 0, and \<^verbatim>\<open>WriteHeader(0)\<close> panics.
\<close>

theorem HttpMiddleware_text_error_panics:
  assumes "NewRequest now [\<lambda>req. req\<lparr>rq_Http := Some r\<rparr>] = (req, env)"
    and "front req env world = Inr ((res, TextError msg), env', world')"
    and "trim_space msg \<noteq> []" and "ec_unjson cd (trim_space msg) = None"
    and "\<forall>e. \<exists>data. marshal (Some e) = Inr data"
  shows "HttpMiddleware cd marshal front back now r w world =
           Some (Inl (Panic ''invalid WriteHeader code''))"
proof -
  obtain data where "marshal (Some \<lparr>err_Code = 0, err_Status = [], err_Message = trim_space msg\<rparr>) = Inr data"
    using assms(5) by blast
  then have "HttpWriteError cd marshal w (TextError msg) = Some (Inl (Panic ''invalid WriteHeader code''))"
    using assms(3,4) by (subst HttpWriteError.simps) (simp add: err_Parse_def WriteHeader_def)
  then show ?thesis by (simp add: HttpMiddleware_def assms(1,2) Let_def)
qed

theorem HttpMiddleware_text_error_panics_witness:
  "HttpMiddleware \<lparr>ec_any = Some, ec_unany = Some, ec_json = err_Message, ec_unjson = \<lambda>_. None\<rparr>
     (\<lambda>_. Inr ''{}'') (\<lambda>req env w. Inr ((None, TextError ''dial''), env, w)) None 5
     \<lparr>hr_Method = ''GET'', hr_URL = None\<rparr> \<lparr>rw_Header = Map.empty, rw_Code = None, rw_Body = []\<rparr> (0::nat)
   = Some (Inl (Panic ''invalid WriteHeader code''))"
proof -
  have "trim_space ''dial'' \<noteq> []" by code_simp
  then show ?thesis
    by (intro HttpMiddleware_text_error_panics
        [where env = Map.empty and env' = Map.empty and msg = "''dial''" and res = None and
          req = "\<lparr>rq_Date = 5, rq_Cost = 1, rq_Http = Some \<lparr>hr_Method = ''GET'', hr_URL = None\<rparr>\<rparr>"])
      (simp_all add: NewRequest_def request_setup_def)
qed

end
