(* ===== verification/Rate_Size.thy ===== *)
theory Rate_Size
  imports Rate_Limit
begin

text \<open>
  \<^verbatim>\<open>src/infra/ratelimit/size.go\<close>: byte sizes, printed with a binary unit and parsed back. A
  \<^verbatim>\<open>ByteUnit\<close> is a uint64, represented by the natural number it holds; the one product that can
  exceed 64 bits is written modulo \<open>2^64\<close>.
\<close>

definition Byte :: nat where "Byte = 1"
definition Kilobyte :: nat where "Kilobyte = Byte * 2 ^ 10"
definition Megabyte :: nat where "Megabyte = Kilobyte * 2 ^ 10"
definition Gigabyte :: nat where "Gigabyte = Megabyte * 2 ^ 10"
definition Terabyte :: nat where "Terabyte = Gigabyte * 2 ^ 10"
definition Petabyte :: nat where "Petabyte = Terabyte * 2 ^ 10"
definition Exabyte :: nat where "Exabyte = Petabyte * 2 ^ 10"

lemmas byte_defs =
  Byte_def Kilobyte_def Megabyte_def Gigabyte_def Terabyte_def Petabyte_def Exabyte_def

definition unitByteMap :: "string \<Rightarrow> nat option" where
  "unitByteMap = map_of
     [(''b'', Byte), (''kb'', Kilobyte), (''mb'', Megabyte), (''gb'', Gigabyte),
      (''tb'', Terabyte), (''pb'', Petabyte), (''xb'', Exabyte)]"

definition byteUnitMap :: "nat \<Rightarrow> string option" where
  "byteUnitMap = map_of
     [(Byte, ''b''), (Kilobyte, ''Kb''), (Megabyte, ''Mb''), (Gigabyte, ''Gb''),
      (Terabyte, ''Tb''), (Petabyte, ''Pb''), (Exabyte, ''Xb'')]"

text \<open>\<^const>\<open>None\<close> is a nil \<^verbatim>\<open>*ByteUnit\<close>.\<close>

definition Capacity :: "nat option \<Rightarrow> nat \<Rightarrow> nat" where
  "Capacity v unit = (case v of Some n \<Rightarrow> n div max unit Byte | None \<Rightarrow> 0)"

definition ParseByteUnit :: "string \<Rightarrow> nat \<times> bool" where
  "ParseByteUnit unit =
     (case unitByteMap (to_lower unit) of Some sz \<Rightarrow> (sz, True) | None \<Rightarrow> (0, False))"

definition byteUnitString :: "nat \<Rightarrow> string" where
  "byteUnitString sz = (case byteUnitMap sz of Some u \<Rightarrow> u | None \<Rightarrow> ''b'')"

definition ParseSize :: "string \<Rightarrow> nat \<times> bool" where
  "ParseSize spec =
     (case scan_bind scan_uint (\<lambda>n. scan_bind scan_word (\<lambda>u s. Some ((n, u), s))) spec of
        None \<Rightarrow> (0, False)
      | Some ((num, unit), _) \<Rightarrow>
          (case ParseByteUnit unit of
             (sz, False) \<Rightarrow> (sz, False)
           | (sz, True) \<Rightarrow> (sz * num mod 2 ^ 64, True)))"

text \<open>The loop that finds the unit; it starts from 1, and the guard keeps it positive.\<close>

function size_unit :: "nat \<Rightarrow> nat \<Rightarrow> nat" where
  "size_unit unit sz =
     (if 0 < unit \<and> unit < Exabyte \<and> unit * 2 ^ 10 \<le> sz
      then size_unit (unit * 2 ^ 10) sz else unit)"
  by pat_completeness auto
termination
  by (relation "measure (\<lambda>(unit, sz). Exabyte - unit)") auto

declare size_unit.simps [simp del]

text \<open>
  \<^verbatim>\<open>fmtFrac\<close> and \<^verbatim>\<open>fmtInt\<close> fill a 32-byte buffer from its end: here the text grows at its front,
  and a text longer than the buffer is the index panic of the source.
\<close>

fun fmtFrac_loop :: "string \<Rightarrow> nat \<Rightarrow> nat \<Rightarrow> bool \<Rightarrow> string \<times> nat \<times> bool" where
  "fmtFrac_loop buf v 0 print = (buf, v, print)"
| "fmtFrac_loop buf v (Suc prec) print =
     (let digit = v mod 10;
          print = (print \<or> digit \<noteq> 0);
          buf = (if print then digit_char digit # buf else buf)
      in fmtFrac_loop buf (v div 10) prec print)"

definition fmtFrac :: "string \<Rightarrow> nat \<Rightarrow> nat \<Rightarrow> string \<times> nat" where
  "fmtFrac buf v prec =
     (case fmtFrac_loop buf v prec False of
        (buf, v, print) \<Rightarrow> (if print then CHR ''.'' # buf else buf, v))"

fun fmtInt_loop :: "string \<Rightarrow> nat \<Rightarrow> string" where
  "fmtInt_loop buf v = (if v = 0 then buf else fmtInt_loop (digit_char (v mod 10) # buf) (v div 10))"

declare fmtInt_loop.simps [simp del]

definition fmtInt :: "string \<Rightarrow> nat \<Rightarrow> string" where
  "fmtInt buf v = (if v = 0 then CHR ''0'' # buf else fmtInt_loop buf v)"

fun scale10 :: "rat \<Rightarrow> nat \<Rightarrow> rat" where
  "scale10 form 0 = form"
| "scale10 form (Suc prec) = scale10 (f64 (form * 10)) prec"

definition FormatSize :: "nat \<Rightarrow> nat \<Rightarrow> string or_panic" where
  "FormatSize sz prec =
     (if sz = 0 then Inr ''0b''
      else
        (let unit = size_unit Byte sz;
             buf = byteUnitString unit;
             form = f64 (f64 (of_nat sz) / f64 (of_nat unit));
             digit = nat (f64_trunc (scale10 form prec));
             (buf, digit) = fmtFrac buf digit prec;
             buf = fmtInt buf digit
         in if length buf \<le> 32 then Inr buf else Inl (Panic ''index out of range'')))"

definition size_MarshalText :: "nat option \<Rightarrow> string option or_panic" where
  "size_MarshalText v =
     (case v of
        None \<Rightarrow> Inr None
      | Some n \<Rightarrow> if n = 0 then Inr None
                  else (case FormatSize n 1 of Inl p \<Rightarrow> Inl p | Inr t \<Rightarrow> Inr (Some t)))"

text \<open>The value after the call, and the error.\<close>

definition size_UnmarshalText :: "nat \<Rightarrow> string \<Rightarrow> nat \<times> spec_error option" where
  "size_UnmarshalText v text =
     (if text = [] then (0, None)
      else case ParseSize text of
             (_, False) \<Rightarrow> (v, Some ErrParseSize)
           | (setv, True) \<Rightarrow> (setv, None))"

section \<open>Printing\<close>

lemma fmtInt_loop_eq: "v \<noteq> 0 \<Longrightarrow> fmtInt_loop buf v = fmt_nat v @ buf"
proof (induction buf v rule: fmtInt_loop.induct)
  case (1 buf v)
  show ?case
  proof (cases "v < 10")
    case True
    then show ?thesis
      using 1 by (simp add: fmtInt_loop.simps [of _ v] fmtInt_loop.simps [of _ 0] fmt_nat.simps [of v])
  next
    case False
    with 1 show ?thesis
      by (simp add: fmtInt_loop.simps [of _ v] fmt_nat.simps [of v])
  qed
qed

lemma fmtInt_eq: "fmtInt buf v = fmt_nat v @ buf"
  by (simp add: fmtInt_def fmtInt_loop_eq fmt_nat.simps [of 0] digit_char_0)

text \<open>A whole number of units below 1024 is printed with exactly that unit.\<close>

definition unit_at :: "nat \<Rightarrow> nat" where
  "unit_at k = 2 ^ (10 * k)"

lemma size_unit_range:
  assumes "unit_at k \<le> sz" "sz < 1024 * unit_at k" and "j \<le> k" and "k \<le> 6"
  shows "size_unit (unit_at j) sz = unit_at k"
  using assms(3)
proof (induction "k - j" arbitrary: j)
  case 0
  then have "j = k" by simp
  have "\<not> unit_at k * 2 ^ 10 \<le> sz" using assms by simp
  then show ?case by (simp add: \<open>j = k\<close> size_unit.simps [of "unit_at k"])
next
  case (Suc d)
  then have jk: "j < k" by simp
  have u: "unit_at j * 2 ^ 10 = unit_at (Suc j)"
    by (simp add: unit_at_def power_add)
  have "unit_at (Suc j) \<le> unit_at k"
    using jk by (simp add: unit_at_def)
  also have "\<dots> \<le> sz" by (rule assms(1))
  finally have le: "unit_at j * 2 ^ 10 \<le> sz" by (simp only: u)
  have "unit_at j < unit_at 6"
    unfolding unit_at_def by (rule power_strict_increasing) (use jk assms(4) in auto)
  also have "unit_at 6 = Exabyte" by (simp add: unit_at_def byte_defs)
  finally have lt: "unit_at j < Exabyte" .
  have pos: "0 < unit_at j" by (simp add: unit_at_def)
  have "size_unit (unit_at j) sz = size_unit (unit_at (Suc j)) sz"
    using le lt pos by (subst size_unit.simps) (simp only: u simp_thms if_True)
  also have "\<dots> = unit_at k" using Suc jk by (intro Suc(1)) auto
  finally show ?case .
qed

lemma size_unit_Byte:
  "unit_at k \<le> sz \<Longrightarrow> sz < 1024 * unit_at k \<Longrightarrow> k \<le> 6 \<Longrightarrow> size_unit Byte sz = unit_at k"
  using size_unit_range [of k sz 0] by (simp add: unit_at_def byte_defs)

lemma f64_unit_multiple:
  assumes "0 < n" "n < 1024"
  shows "f64 (of_nat (n * unit_at k)) = of_nat n * of_nat (unit_at k)"
proof -
  have e: "rat_of_nat (n * unit_at k) = of_int (int n) * 2 powi (int (10 * k))"
    by (simp add: unit_at_def power_int_def nat_mult_distrib)
  have "f64 (rat_of_nat (n * unit_at k)) = rat_of_nat (n * unit_at k)"
    by (rule f64_exact [OF e]) (use assms in auto)
  then show ?thesis by simp
qed

lemma f64_small_nat: "n \<le> 2 ^ 53 \<Longrightarrow> f64 (of_nat n) = of_nat n"
proof -
  assume "n \<le> 2 ^ 53"
  then have "int n \<le> int (2 ^ 53)" by (simp only: of_nat_le_iff)
  then show ?thesis using f64_of_int [of "int n"] by simp
qed

lemma FormatSize_exact:
  assumes "0 < n" "n < 1024" and "k \<le> 6"
  shows "FormatSize (n * unit_at k) 1 = Inr (fmt_nat n @ byteUnitString (unit_at k))"
proof -
  let ?s = "n * unit_at k"
  have nz: "?s \<noteq> 0" using assms by (simp add: unit_at_def)
  have su: "size_unit Byte ?s = unit_at k"
    using assms by (intro size_unit_Byte) (simp_all add: unit_at_def)
  have fu: "f64 (of_nat (unit_at k)) = of_nat (unit_at k)"
    using f64_unit_multiple [of 1 k] by simp
  have pos: "(0::rat) < of_nat (unit_at k)" by (simp add: unit_at_def)
  have form: "f64 (f64 (of_nat ?s) / f64 (of_nat (unit_at k))) = of_nat n"
    using pos assms by (simp only: f64_unit_multiple [OF assms(1,2)] fu) (simp add: f64_small_nat)
  have sc: "scale10 (of_nat n) 1 = of_nat (n * 10)"
  proof -
    have "f64 (of_nat (n * 10)) = of_nat (n * 10)"
      using assms by (intro f64_small_nat) simp
    moreover have "rat_of_nat n * 10 = of_nat (n * 10)" by simp
    ultimately show ?thesis by (simp only: One_nat_def scale10.simps)
  qed
  have tr: "nat (f64_trunc (of_nat (n * 10))) = n * 10"
    by (subst f64_trunc_def) (simp del: of_nat_mult)
  have fr: "fmtFrac buf (n * 10) 1 = (buf, n)" for buf
    by (simp add: fmtFrac_def)
  have len: "length (fmt_nat n) \<le> 4"
    using length_fmt_nat [of n 4] assms(2) by simp
  have len2: "length (byteUnitString (unit_at k)) \<le> 2"
    by (auto simp: byteUnitString_def byteUnitMap_def split: option.splits if_splits)
  show ?thesis
    using nz len len2
    by (simp only: FormatSize_def Let_def su form sc tr fr prod.case fmtInt_eq if_False) simp
qed

text \<open>Half a unit is printed with one decimal, exactly.\<close>

definition half_size :: "nat \<Rightarrow> nat \<Rightarrow> nat" where
  "half_size n k = (2 * n + 1) * 2 ^ (10 * k - 1)"

lemma FormatSize_half:
  assumes "0 < n" "n < 1024" and "0 < k" "k \<le> 6"
  shows "FormatSize (half_size n k) 1 = Inr (fmt_nat n @ ''.5'' @ byteUnitString (unit_at k))"
proof -
  let ?m = "2 * n + 1" and ?s = "half_size n k"
  have uk: "unit_at k = 2 * 2 ^ (10 * k - 1)"
    using power_Suc [of "2::nat" "10 * k - 1"] assms(3) by (simp add: unit_at_def del: power_Suc)
  have nz: "?s \<noteq> 0" by (simp add: half_size_def)
  have "unit_at k \<le> ?s" using assms by (simp add: uk half_size_def)
  moreover have "?s < 1024 * unit_at k" using assms by (simp add: uk half_size_def)
  ultimately have su: "size_unit Byte ?s = unit_at k" by (intro size_unit_Byte assms)
  have e: "rat_of_nat ?s = of_int (int ?m) * 2 powi (int (10 * k - 1))"
    by (simp add: half_size_def power_int_def distrib_right del: of_nat_diff)
  have fs: "f64 (of_nat ?s) = of_nat ?s"
    by (rule f64_exact [OF e]) (use assms in auto)
  have fu: "f64 (of_nat (unit_at k)) = of_nat (unit_at k)"
    using f64_unit_multiple [of 1 k] by simp
  have dv: "rat_of_nat ?s / of_nat (unit_at k) = of_nat ?m / 2"
    unfolding half_size_def uk of_nat_mult of_nat_numeral
    by (rule mult_divide_mult_cancel_right) simp
  have "f64 (of_nat ?m / 2) = of_nat ?m / 2"
    by (rule f64_exact [of _ "int ?m" "- 1"]) (use assms in \<open>auto simp: power_int_minus\<close>)
  then have form: "f64 (f64 (of_nat ?s) / f64 (of_nat (unit_at k))) = of_nat ?m / 2"
    by (simp only: fs fu dv)
  have sc: "scale10 (of_nat ?m / 2) 1 = of_nat (?m * 5)"
  proof -
    have "f64 (of_nat (?m * 5)) = of_nat (?m * 5)"
      using assms by (intro f64_small_nat) simp
    moreover have "rat_of_nat ?m / 2 * 10 = of_nat (?m * 5)" by simp
    ultimately show ?thesis by (simp only: One_nat_def scale10.simps)
  qed
  have tr: "nat (f64_trunc (of_nat (?m * 5))) = n * 10 + 5"
    by (subst f64_trunc_def) (simp del: of_nat_mult of_nat_add)
  have "digit_char 5 = CHR ''5''" by code_simp
  then have fr: "fmtFrac buf (n * 10 + 5) 1 = (''.5'' @ buf, n)" for buf
    by (simp add: fmtFrac_def)
  have len: "length (fmt_nat n) \<le> 4"
    using length_fmt_nat [of n 4] assms(2) by simp
  have len2: "length (byteUnitString (unit_at k)) \<le> 2"
    by (auto simp: byteUnitString_def byteUnitMap_def split: option.splits if_splits)
  show ?thesis
    using nz len len2
    by (simp only: FormatSize_def Let_def su form sc tr fr prod.case fmtInt_eq if_False) simp
qed

lemma unit_strings:
  "byteUnitString (unit_at 0) = ''b''" "byteUnitString (unit_at 1) = ''Kb''"
  "byteUnitString (unit_at 2) = ''Mb''" "byteUnitString (unit_at 3) = ''Gb''"
  "byteUnitString (unit_at 4) = ''Tb''" "byteUnitString (unit_at 5) = ''Pb''"
  "byteUnitString (unit_at 6) = ''Xb''"
  by (simp_all add: byteUnitString_def byteUnitMap_def unit_at_def byte_defs)

lemma unit_strings_lower:
  "to_lower ''b'' = ''b''" "to_lower ''Kb'' = ''kb''" "to_lower ''Mb'' = ''mb''"
  "to_lower ''Gb'' = ''gb''" "to_lower ''Tb'' = ''tb''" "to_lower ''Pb'' = ''pb''"
  "to_lower ''Xb'' = ''xb''"
  by code_simp+

lemma byteUnitString_unit_at:
  assumes "k \<le> 6"
  shows "unitByteMap (to_lower (byteUnitString (unit_at k))) = Some (unit_at k)"
    and "byteUnitString (unit_at k) \<noteq> []"
    and "list_all (\<lambda>c. \<not> is_space c \<and> \<not> is_digit c) (byteUnitString (unit_at k))"
proof -
  from assms consider "k = 0" | "k = 1" | "k = 2" | "k = 3" | "k = 4" | "k = 5" | "k = 6"
    by linarith
  then have "unitByteMap (to_lower (byteUnitString (unit_at k))) = Some (unit_at k) \<and>
    byteUnitString (unit_at k) \<noteq> [] \<and>
    list_all (\<lambda>c. \<not> is_space c \<and> \<not> is_digit c) (byteUnitString (unit_at k))"
    by cases (simp_all only: unit_strings unit_strings_lower,
        simp_all add: unitByteMap_def unit_at_def byte_defs is_space_def is_digit_def)
  then show "unitByteMap (to_lower (byteUnitString (unit_at k))) = Some (unit_at k)"
    and "byteUnitString (unit_at k) \<noteq> []"
    and "list_all (\<lambda>c. \<not> is_space c \<and> \<not> is_digit c) (byteUnitString (unit_at k))"
    by auto
qed

lemma ParseSize_exact:
  assumes "0 < n" "n < 1024" and "k \<le> 6" and small: "n * unit_at k < 2 ^ 64"
  shows "ParseSize (fmt_nat n @ byteUnitString (unit_at k)) = (n * unit_at k, True)"
proof -
  let ?u = "byteUnitString (unit_at k)"
  note bu = byteUnitString_unit_at [OF assms(3)]
  have "scan_uint (fmt_nat n @ ?u) = Some (n, ?u)"
    by (rule scan_uint_fmt_nat) (use assms bu in \<open>auto simp: list_all_iff\<close>)
  moreover have "scan_word ?u = Some (?u, [])"
    by (rule scan_word_nonspace) (use bu in \<open>auto simp: list_all_iff\<close>)
  ultimately show ?thesis
    using small bu(1) by (simp add: ParseSize_def scan_bind_def ParseByteUnit_def mult.commute)
qed

section \<open>Properties\<close>

text \<open>
  A whole number of units below 1024 is marshalled to a text that unmarshals to the same size:
  the floating-point division and scaling of the printer lose nothing there.
\<close>

theorem size_text_roundtrip:
  assumes "0 < n" "n < 1024" and "k \<le> 6" and "n * unit_at k < 2 ^ 64"
  shows "\<exists>text. size_MarshalText (Some (n * unit_at k)) = Inr (Some text) \<and>
                size_UnmarshalText v text = (n * unit_at k, None)"
proof -
  have "n * unit_at k \<noteq> 0" using assms by (simp add: unit_at_def)
  then have "size_MarshalText (Some (n * unit_at k)) = Inr (Some (fmt_nat n @ byteUnitString (unit_at k)))"
    using FormatSize_exact [OF assms(1-3)] by (simp add: size_MarshalText_def)
  moreover have "size_UnmarshalText v (fmt_nat n @ byteUnitString (unit_at k)) = (n * unit_at k, None)"
    using byteUnitString_unit_at(2) [OF assms(3)]
    by (simp add: size_UnmarshalText_def ParseSize_exact [OF assms])
  ultimately show ?thesis by blast
qed

theorem size_text_roundtrip_witness:
  "\<exists>text. size_MarshalText (Some (10 * unit_at 2)) = Inr (Some text) \<and>
          size_UnmarshalText 0 text = (10 * unit_at 2, None)"
  by (rule size_text_roundtrip) (simp_all add: unit_at_def)


text \<open>
  A size of a whole and a half unit, such as 1536 bytes, is marshalled to a text with a decimal
  point (1.5Kb) that \<^verbatim>\<open>UnmarshalText\<close> refuses, leaving the receiver as it was.
\<close>

theorem half_size_text_refused:
  assumes "0 < n" "n < 1024" and "0 < k" "k \<le> 6"
  shows "\<exists>text. size_MarshalText (Some (half_size n k)) = Inr (Some text) \<and>
                size_UnmarshalText v text = (v, Some ErrParseSize)"
proof -
  let ?u = "''.5'' @ byteUnitString (unit_at k)"
  note bu = byteUnitString_unit_at [OF assms(4)]
  have "half_size n k \<noteq> 0" by (simp add: half_size_def)
  then have "size_MarshalText (Some (half_size n k)) = Inr (Some (fmt_nat n @ ?u))"
    using FormatSize_half [OF assms] by (simp add: size_MarshalText_def)
  moreover have "ParseSize (fmt_nat n @ ?u) = (0, False)"
  proof -
    have "scan_uint (fmt_nat n @ ?u) = Some (n, ?u)"
      by (rule scan_uint_fmt_nat) (use assms in \<open>auto simp: is_digit_def\<close>)
    moreover have "scan_word ?u = Some (?u, [])"
      by (rule scan_word_nonspace) (use bu(3) in \<open>auto simp: list_all_iff is_space_def\<close>)
    moreover have "to_lower_char CHR ''.'' = CHR ''.''" by code_simp
    then have "to_lower ?u = CHR ''.'' # to_lower (tl ?u)" by (simp add: to_lower_def)
    then have "unitByteMap (to_lower ?u) = None"
      by (simp add: unitByteMap_def)
    ultimately show ?thesis
      by (simp add: ParseSize_def scan_bind_def ParseByteUnit_def)
  qed
  ultimately show ?thesis by (auto simp: size_UnmarshalText_def)
qed

theorem half_size_text_refused_witness:
  "\<exists>text. size_MarshalText (Some (half_size 1 1)) = Inr (Some text) \<and>
          size_UnmarshalText 7 text = (7, Some ErrParseSize)"
  by (rule half_size_text_refused) simp_all

end
