(* ===== verification/Limit_Zone.thy ===== *)
theory Limit_Zone
  imports Rate_Status Rate_Size
begin

text \<open>
  \<^verbatim>\<open>src/infra/ratelimit/zone\<close>: the options of a zone, the registry of drivers by URL scheme, the
  constructor of zones, and how a request's key is made under the limit options of its context.

  Zones run in a world \<open>'w\<close>: the storage behind them. A request's context is represented by what the
  zones read of it, the salt keys of its limit options.
\<close>

section \<open>Options (options.go)\<close>

definition AlgoTokenBucket :: string where "AlgoTokenBucket = ''token_bucket''"
definition AlgoLeakyBucket :: string where "AlgoLeakyBucket = ''leaky_bucket''"
definition AlgoFixedWindow :: string where "AlgoFixedWindow = ''fixed_window''"
definition AlgoSlidingWindow :: string where "AlgoSlidingWindow = ''sliding_window''"

lemmas algo_defs = AlgoTokenBucket_def AlgoLeakyBucket_def AlgoFixedWindow_def AlgoSlidingWindow_def

lemma algo_distinct [simp]:
  "AlgoFixedWindow \<noteq> AlgoTokenBucket" "AlgoSlidingWindow \<noteq> AlgoTokenBucket"
  "AlgoSlidingWindow \<noteq> AlgoFixedWindow" "AlgoTokenBucket \<noteq> AlgoFixedWindow"
  "AlgoTokenBucket \<noteq> AlgoSlidingWindow" "AlgoFixedWindow \<noteq> AlgoSlidingWindow"
  by (simp_all add: algo_defs)

record zone_options =
  zo_Key :: "key option"
  zo_Path :: bool
  zo_Name :: string
  zo_Size :: nat
  zo_Rate :: rate
  zo_Algo :: string
  zo_Burst :: u32

type_synonym zone_option = "zone_options \<Rightarrow> zone_options"

definition zone_setup :: "zone_option list \<Rightarrow> zone_options \<Rightarrow> zone_options" where
  "zone_setup opts zone =
     (let zone = fold (\<lambda>option zone. option zone) opts zone
      in zone\<lparr>zo_Algo := (if zo_Algo zone \<noteq> [] then zo_Algo zone else AlgoTokenBucket)\<rparr>)"

definition NewOptions :: "zone_option list \<Rightarrow> zone_options" where
  "NewOptions opts =
     zone_setup opts
       \<lparr>zo_Key = None, zo_Path = False, zo_Name = [], zo_Size = 0, zo_Rate = rate_zero,
        zo_Algo = AlgoTokenBucket, zo_Burst = 0\<rparr>"

section \<open>Limit options and the request key (request.go)\<close>

record limit_options =
  lo_Salt :: "key list"

definition RequestPath :: "request \<Rightarrow> string" where
  "RequestPath req =
     (case rq_Http req of
        Some h \<Rightarrow> (case hr_URL h of Some u \<Rightarrow> url_Path u | None \<Rightarrow> Undefined)
      | None \<Rightarrow> Undefined)"

definition RequestURI :: "request \<Rightarrow> string" where
  "RequestURI req =
     (case rq_Http req of
        Some h \<Rightarrow> (case hr_URL h of Some u \<Rightarrow> url_RequestURI u | None \<Rightarrow> Undefined)
      | None \<Rightarrow> Undefined)"

text \<open>\<^verbatim>\<open>slices.ContainsFunc\<close> over \<^verbatim>\<open>EqualKeys\<close>: it stops at the first match, or at a panic.\<close>

fun salt_contains :: "key list \<Rightarrow> key \<Rightarrow> bool or_panic" where
  "salt_contains [] k = Inr False"
| "salt_contains (has # rest) k =
     (case EqualKeys (Some has) (Some k) of
        Inl p \<Rightarrow> Inl p
      | Inr True \<Rightarrow> Inr True
      | Inr False \<Rightarrow> salt_contains rest k)"

text \<open>A nil key ends the loop.\<close>

fun WithLimitKeys :: "key option list \<Rightarrow> limit_options \<Rightarrow> limit_options or_panic" where
  "WithLimitKeys [] opts = Inr opts"
| "WithLimitKeys (None # salt) opts = Inr opts"
| "WithLimitKeys (Some k # salt) opts =
     (case salt_contains (lo_Salt opts) k of
        Inl p \<Rightarrow> Inl p
      | Inr True \<Rightarrow> WithLimitKeys salt opts
      | Inr False \<Rightarrow> WithLimitKeys salt (opts\<lparr>lo_Salt := lo_Salt opts @ [k]\<rparr>))"

type_synonym limit_option = "limit_options \<Rightarrow> limit_options or_panic"

fun limit_Setup :: "limit_option list \<Rightarrow> limit_options \<Rightarrow> limit_options or_panic" where
  "limit_Setup [] e = Inr e"
| "limit_Setup (option # opts) e =
     (case option e of Inl p \<Rightarrow> Inl p | Inr e' \<Rightarrow> limit_Setup opts e')"

definition NewLimitOptions :: "limit_option list \<Rightarrow> limit_options or_panic" where
  "NewLimitOptions opts = limit_Setup opts \<lparr>lo_Salt = []\<rparr>"

text \<open>The limit options of a context: those put there last, or none.\<close>

type_synonym limit_context = "limit_options option"

definition GetLimitOptions :: "limit_context \<Rightarrow> limit_options" where
  "GetLimitOptions ctx = (case ctx of Some opts \<Rightarrow> opts | None \<Rightarrow> \<lparr>lo_Salt = []\<rparr>)"

definition WithLimitOptions :: "limit_context \<Rightarrow> limit_options \<Rightarrow> limit_context" where
  "WithLimitOptions ctx opts = Some opts"

definition RequestKey ::
    "limit_context \<Rightarrow> request \<Rightarrow> key option \<Rightarrow> env \<Rightarrow> (string \<times> env) or_panic" where
  "RequestKey ctx req k env =
     (case MultiKey ''+'' k (map Some (lo_Salt (GetLimitOptions ctx))) of
        Inl p \<Rightarrow> Inl p
      | Inr None \<Rightarrow> Inl (Panic ''nil pointer dereference'')
      | Inr (Some k') \<Rightarrow> Inr (request_Get k' req env))"

section \<open>Zones\<close>

text \<open>What \<^verbatim>\<open>Zone.LimitRequest\<close> is: a handler that also sees the context.\<close>

type_synonym ('w, 'any) zone_handler =
  "limit_context \<Rightarrow> request \<Rightarrow> env \<Rightarrow> 'w \<Rightarrow> ((status option \<times> 'any go_error) \<times> env \<times> 'w) or_panic"

record ('w, 'any) zone =
  zn_Options :: zone_options
  zn_LimitRequest :: "('w, 'any) zone_handler"

definition Forbidden_LimitRequest :: "('w, 'any) zone_handler" where
  "Forbidden_LimitRequest ctx req env w = Inr ((Some (Deny req []), NilError), env, w)"

definition Forbidden_zone :: "zone_options \<Rightarrow> ('w, 'any) zone" where
  "Forbidden_zone opts = \<lparr>zn_Options = opts, zn_LimitRequest = Forbidden_LimitRequest\<rparr>"

section \<open>Drivers (driver.go)\<close>

datatype zone_error = MissingScheme | DriverNotSupported string | DriverError string

type_synonym ('w, 'any) driver =
  "string \<Rightarrow> zone_options \<Rightarrow> 'w \<Rightarrow> (string + ('w, 'any) zone) \<times> 'w"

type_synonym ('w, 'any) drivers = "string \<Rightarrow> ('w, 'any) driver option"

definition is_alpha :: "char \<Rightarrow> bool" where
  "is_alpha c = (let n = of_char c :: nat in 97 \<le> n \<and> n \<le> 122 \<or> 65 \<le> n \<and> n \<le> 90)"

definition is_scheme_char :: "char \<Rightarrow> bool" where
  "is_scheme_char c = (is_digit c \<or> c = CHR ''+'' \<or> c = CHR ''-'' \<or> c = CHR ''.'')"

text \<open>The loop over the bytes; \<open>seen\<close> is the text before the current one, empty at index 0.\<close>

fun scheme_loop :: "string \<Rightarrow> string \<Rightarrow> string \<Rightarrow> zone_error + string \<times> string" where
  "scheme_loop whole seen [] = Inr (whole, [])"
| "scheme_loop whole seen (c # cs) =
     (if is_alpha c then scheme_loop whole (seen @ [c]) cs
      else if is_scheme_char c then
        (if seen = [] then Inr ([], whole) else scheme_loop whole (seen @ [c]) cs)
      else if c = CHR '':'' then
        (if seen = [] then Inl MissingScheme else Inr (seen, cs))
      else Inr ([], whole))"

definition GetScheme :: "string \<Rightarrow> zone_error + string \<times> string" where
  "GetScheme dataSource = scheme_loop dataSource [] dataSource"

definition Register ::
    "('w, 'any) drivers \<Rightarrow> ('w, 'any) driver option \<Rightarrow> string list \<Rightarrow> ('w, 'any) drivers or_panic" where
  "Register m driver schemes =
     (case driver of
        None \<Rightarrow> Inl (Panic ''ratelimit: register no driver'')
      | Some d \<Rightarrow>
          if schemes = [] then Inl (Panic ''ratelimit: register driver no scheme'')
          else if list_ex (\<lambda>s. case GetScheme s of Inl _ \<Rightarrow> True | Inr (cn, _) \<Rightarrow> cn \<noteq> s) schemes
          then Inl (Panic ''ratelimit: register scheme invalid'')
          else Inr (fold (\<lambda>s m. m(to_lower s \<mapsto> d)) schemes m))"

definition GetDriver :: "('w, 'any) drivers \<Rightarrow> string \<Rightarrow> ('w, 'any) driver option" where
  "GetDriver m scheme = m (to_lower scheme)"

definition NewZone ::
    "('w, 'any) drivers \<Rightarrow> string \<Rightarrow> zone_options \<Rightarrow> 'w \<Rightarrow> (zone_error + ('w, 'any) zone) \<times> 'w" where
  "NewZone m dataSource options w =
     (case GetScheme dataSource of
        Inl e \<Rightarrow> (Inl e, w)
      | Inr (scheme, _) \<Rightarrow>
          (case GetDriver m scheme of
             None \<Rightarrow> (Inl (DriverNotSupported scheme), w)
           | Some newZone \<Rightarrow>
               (let options = (case zo_Key options of
                                 None \<Rightarrow> options\<lparr>zo_Key := Some (KeyValue ''!nokey!'' Undefined)\<rparr>
                               | Some _ \<Rightarrow> options)
                in if \<not> IsValid (Some (zo_Rate options)) then (Inr (Forbidden_zone options), w)
                   else (case newZone dataSource options w of
                           (Inl e, w') \<Rightarrow> (Inl (DriverError e), w')
                         | (Inr z, w') \<Rightarrow> (Inr z, w')))))"

section \<open>Schemes\<close>

definition scheme_text :: "string \<Rightarrow> bool" where
  "scheme_text s \<longleftrightarrow> s \<noteq> [] \<and> is_alpha (hd s) \<and> list_all (\<lambda>c. is_alpha c \<or> is_scheme_char c) s"

lemma colon_no_scheme_char [simp]: "\<not> is_alpha CHR '':''" "\<not> is_scheme_char CHR '':''"
  by code_simp+

lemma scheme_loop_chars:
  assumes "seen \<noteq> []" and "list_all (\<lambda>c. is_alpha c \<or> is_scheme_char c) s"
  shows "scheme_loop whole seen (s @ rest) = scheme_loop whole (seen @ s) rest"
  using assms by (induction s arbitrary: seen) auto

lemma scheme_loop_start:
  assumes "scheme_text s"
  shows "scheme_loop whole [] (s @ rest) = scheme_loop whole s rest"
proof (cases s)
  case Nil
  with assms show ?thesis by (simp add: scheme_text_def)
next
  case (Cons c cs)
  with assms scheme_loop_chars [of "[c]" cs whole rest] show ?thesis
    by (simp add: scheme_text_def)
qed

lemma GetScheme_bare: "scheme_text s \<Longrightarrow> GetScheme s = Inr (s, [])"
  using scheme_loop_start [of s s "[]"] by (simp add: GetScheme_def)

lemma GetScheme_empty: "GetScheme [] = Inr ([], [])"
  by (simp add: GetScheme_def)

definition valid_scheme :: "string \<Rightarrow> bool" where
  "valid_scheme s = (case GetScheme s of Inl _ \<Rightarrow> False | Inr (cn, _) \<Rightarrow> cn = s)"

lemma Register_valid:
  assumes "schemes \<noteq> []" and "list_all valid_scheme schemes"
  shows "Register m (Some d) schemes = Inr (fold (\<lambda>s m. m(to_lower s \<mapsto> d)) schemes m)"
proof -
  have "\<not> list_ex (\<lambda>s. case GetScheme s of Inl _ \<Rightarrow> True | Inr (cn, _) \<Rightarrow> cn \<noteq> s) schemes"
    using assms(2) by (auto simp: list_ex_iff list_all_iff valid_scheme_def split: sum.splits)
  then show ?thesis using assms(1) by (simp add: Register_def)
qed

interpretation drv: keyed_table to_lower valid_scheme GetDriver
  "\<lambda>s d m. projr (Register m (Some d) [s])"
  by unfold_locales (simp add: Register_valid GetDriver_def)


lemma Register_Inr:
  assumes "Register m (Some d) schemes = Inr m'"
  shows "list_all valid_scheme schemes" and "m' = fold (\<lambda>s m. m(to_lower s \<mapsto> d)) schemes m"
  using assms
  by (auto simp: Register_def list_ex_iff list_all_iff valid_scheme_def split: if_splits sum.splits)

lemma Register_fold:
  assumes "list_all valid_scheme schemes"
  shows "fold (\<lambda>s m. m(to_lower s \<mapsto> d)) schemes m =
         fold (\<lambda>s m. projr (Register m (Some d) [s])) schemes m"
  using assms by (induction schemes arbitrary: m) (simp_all add: Register_valid)

lemma GetDriver_Register:
  assumes "Register m (Some d) schemes = Inr m'"
  shows "GetDriver m' s = (if to_lower s \<in> to_lower ` set schemes then Some d else GetDriver m s)"
  using drv.get_put_each [OF Register_Inr(1) [OF assms], of d m s] Register_Inr [OF assms]
  by (simp add: Register_fold)

section \<open>Properties\<close>

text \<open>
  \<^verbatim>\<open>GetScheme\<close> splits a data source at the first character that is no scheme character: a colon
  there ends the scheme, the end of the text makes all of it the scheme, and any other character, or
  a first character that is not a letter, means there is no scheme. A leading colon is the error.
\<close>

theorem GetScheme_split:
  "GetScheme ds =
     (let good = (\<lambda>c. is_alpha c \<or> is_scheme_char c);
          s = takeWhile good ds; rest = dropWhile good ds
      in if ds = [] then Inr ([], [])
         else if hd ds = CHR '':'' then Inl MissingScheme
         else if \<not> is_alpha (hd ds) then Inr ([], ds)
         else if rest = [] then Inr (ds, [])
         else if hd rest = CHR '':'' then Inr (s, tl rest)
         else Inr ([], ds))"
proof (cases "ds = [] \<or> \<not> is_alpha (hd ds)")
  case True
  then show ?thesis by (cases ds) (auto simp: GetScheme_def Let_def)
next
  case False
  define good where "good = (\<lambda>c. is_alpha c \<or> is_scheme_char c)"
  define s r where "s = takeWhile good ds" and "r = dropWhile good ds"
  have ds: "ds = s @ r" by (simp add: s_def r_def)
  have s: "scheme_text s"
    using False
    by (cases ds) (auto simp: s_def good_def scheme_text_def list_all_iff dest: set_takeWhileD)
  have "GetScheme ds = scheme_loop ds s r"
    using scheme_loop_start [OF s, of ds r] by (simp add: GetScheme_def flip: ds)
  moreover have "s \<noteq> []" using s by (simp add: scheme_text_def)
  moreover have "r = [] \<or> \<not> good (hd r)" unfolding r_def by (metis hd_dropWhile)
  ultimately have "GetScheme ds =
      (if r = [] then Inr (ds, []) else if hd r = CHR '':'' then Inr (s, tl r) else Inr ([], ds))"
    by (cases r) (auto simp: good_def)
  moreover have "hd ds \<noteq> CHR '':''" using False by auto
  ultimately show ?thesis
    unfolding Let_def good_def [symmetric] s_def [symmetric] r_def [symmetric]
    using False by (simp split del: if_split)
qed

text \<open>
  A zone for a registered scheme, in any letter case, is made by the registered driver when its
  rate is valid, with the placeholder key when it has none; with an invalid rate (no limit, or more
  than one request per millisecond) no driver runs, the storage is untouched, and the zone refuses
  every request as forbidden.
\<close>

theorem NewZone_registered:
  assumes "Register m (Some d) schemes = Inr m'"
    and "GetScheme ds = Inr (s, opaque)" and "to_lower s \<in> to_lower ` set schemes"
    and "zo_Key opts = Some k"
  shows "NewZone m' ds opts w =
           (if 0 < rate_Limit (zo_Rate opts) \<and>
               rate_Limit (zo_Rate opts) * Millisecond \<le> rate_Window (zo_Rate opts)
            then (case d ds opts w of (Inl e, w') \<Rightarrow> (Inl (DriverError e), w') | (Inr z, w') \<Rightarrow> (Inr z, w'))
            else (Inr \<lparr>zn_Options = opts,
                       zn_LimitRequest = \<lambda>ctx req env w. Inr ((Some (Deny req []), NilError), env, w)\<rparr>, w))"
proof -
  have f: "Forbidden_LimitRequest = (\<lambda>ctx req env w. Inr ((Some (Deny req []), NilError), env, w))"
    by (intro ext) (simp add: Forbidden_LimitRequest_def)
  have "GetDriver m' s = Some d" by (simp add: GetDriver_Register [OF assms(1)] assms(3))
  then show ?thesis
    by (simp add: NewZone_def assms(2,4) IsValid_limit Forbidden_zone_def f)
qed

theorem NewZone_registered_witness:
  "\<exists>m'. Register Map.empty (Some (\<lambda>ds opts w. (Inr (Forbidden_zone opts :: (nat, unit) zone), Suc w))) [''local'', ''memory''] = Inr m' \<and>
        snd (NewZone m' ''LOCAL:'' (NewOptions [\<lambda>z. z\<lparr>zo_Key := Some (KeyValue ''a'' ''b''),
               zo_Rate := \<lparr>rate_Limit = 5, rate_Window = Second\<rparr>\<rparr>]) (0::nat)) = 1"
proof -
  let ?d = "\<lambda>ds opts w. (Inr (Forbidden_zone opts :: (nat, unit) zone), Suc w)"
  let ?o = "NewOptions [\<lambda>z. z\<lparr>zo_Key := Some (KeyValue ''a'' ''b''),
               zo_Rate := \<lparr>rate_Limit = 5, rate_Window = Second\<rparr>\<rparr>]"
  have "valid_scheme ''local''" "valid_scheme ''memory''" by code_simp+
  then have "list_all valid_scheme [''local'', ''memory'']" by simp
  then obtain m' where m': "Register Map.empty (Some ?d) [''local'', ''memory''] = Inr m'"
    using Register_valid [of "[''local'', ''memory'']"] by fastforce
  have g: "GetScheme ''LOCAL:'' = Inr (''LOCAL'', [])" by code_simp
  have "to_lower ''LOCAL'' = to_lower ''local''" by code_simp
  then have l: "to_lower ''LOCAL'' \<in> to_lower ` set [''local'', ''memory'']" by simp
  have k: "zo_Key ?o = Some (KeyValue ''a'' ''b'')" by (simp add: NewOptions_def zone_setup_def)
  have "snd (NewZone m' ''LOCAL:'' ?o 0) = 1"
    unfolding NewZone_registered [OF m' g l k] by (simp add: NewOptions_def zone_setup_def unit_defs)
  with m' show ?thesis by blast
qed

end
