(* ===== verification/Zone_Local.thy ===== *)
theory Zone_Local
  imports Limit_Zone
begin

text \<open>
  \<^verbatim>\<open>src/infra/ratelimit/zone/local\<close>: the fixed-window and token-bucket limiters and the in-memory
  zone that keeps one limiter per key in an LRU table.

  \<^verbatim>\<open>golang.org/x/time/rate\<close> and \<^verbatim>\<open>hashicorp/golang-lru\<close> are not part of the repository: a limiter of
  the former has the abstract type \<open>'b\<close> with the record \<open>bucket_ops\<close> of its methods, a table of the
  latter the type \<open>'t\<close> with the record \<open>lru_ops\<close>.
\<close>

section \<open>Fixed window (fixed_window.go)\<close>

record fixed_window =
  fw_limit :: rate
  fw_reset :: instant
  fw_taken :: u32

definition newFixedWindow :: "rate \<Rightarrow> fixed_window" where
  "newFixedWindow limit = \<lparr>fw_limit = limit, fw_reset = 0, fw_taken = 0\<rparr>"

definition fw_TokensAt :: "instant \<Rightarrow> fixed_window \<Rightarrow> int" where
  "fw_TokensAt date e =
     (if time_is_zero (fw_reset e) then rate_Limit (fw_limit e)
      else
        (let offset = time_sub (fw_reset e) date
         in if 0 < offset then rate_Limit (fw_limit e)
            else if rate_Window (fw_limit e) < offset then 0
            else int64 (rate_Limit (fw_limit e) - uint (fw_taken e))))"

definition fw_open :: "instant \<Rightarrow> fixed_window \<Rightarrow> fixed_window" where
  "fw_open date e =
     (if time_before (fw_reset e) date
      then e\<lparr>fw_reset := time_add date (rate_Window (fw_limit e)), fw_taken := 0\<rparr> else e)"

definition fw_takeN ::
    "instant \<Rightarrow> u32 \<Rightarrow> bool \<Rightarrow> fixed_window \<Rightarrow> (u32 \<times> u32 \<times> duration) \<times> fixed_window" where
  "fw_takeN date cost hard e0 =
     (let e = fw_open date e0;
          tokens = int64 (rate_Limit (fw_limit e) - uint (fw_taken e));
          left = time_sub (fw_reset e) date
      in if tokens < 1 then ((0, 0, left), e)
         else if (word_of_int tokens :: u32) < cost \<and> hard then ((0, 0, left), e)
         else
           (let allow = (if cost < word_of_int tokens then cost else word_of_int tokens)
            in ((allow, word_of_int tokens - cost, left), e\<lparr>fw_taken := fw_taken e + cost\<rparr>)))"

definition fw_requestAt :: "instant \<Rightarrow> u32 \<Rightarrow> fixed_window \<Rightarrow> status \<times> fixed_window" where
  "fw_requestAt date cost c =
     (if rate_Limit (fw_limit c) < 1 then
        (\<lparr>st_Date = date, st_Limit = 0, st_Allowed = 0, st_Remaining = 0, st_ResetAfter = 0,
          st_RetryAfter = 0\<rparr>, c)
      else
        (case fw_takeN date cost True c of
           ((allowed, remaining, reset), c') \<Rightarrow>
             (\<lparr>st_Date = date, st_Limit = word_of_int (rate_Limit (fw_limit c)),
               st_Allowed = allowed, st_Remaining = remaining, st_ResetAfter = reset,
               st_RetryAfter = (if allowed < 1 then reset else 0)\<rparr>, c')))"

section \<open>Token bucket (token_bucket.go)\<close>

text \<open>
  The methods of \<^verbatim>\<open>rate.Limiter\<close> the code calls: \<^verbatim>\<open>rate.NewLimiter(rate.Every(d), burst)\<close>,
  \<^verbatim>\<open>ReserveN\<close> with the reservation's \<^verbatim>\<open>DelayFrom\<close> and \<^verbatim>\<open>CancelAt\<close>, \<^verbatim>\<open>Burst\<close> and \<^verbatim>\<open>TokensAt\<close> (a float64).
\<close>

record ('b, 'r) bucket_ops =
  bk_New :: "duration \<Rightarrow> int \<Rightarrow> 'b"
  bk_ReserveN :: "instant \<Rightarrow> int \<Rightarrow> 'b \<Rightarrow> 'r \<times> 'b"
  bk_DelayFrom :: "'r \<Rightarrow> instant \<Rightarrow> duration"
  bk_CancelAt :: "'r \<Rightarrow> instant \<Rightarrow> 'b \<Rightarrow> 'b"
  bk_Burst :: "'b \<Rightarrow> int"
  bk_TokensAt :: "instant \<Rightarrow> 'b \<Rightarrow> rat"

record 'b token_bucket =
  tb_limit :: rate
  tb_bucket :: 'b

definition newTokenBucket :: "('b, 'r) bucket_ops \<Rightarrow> rate \<Rightarrow> u32 \<Rightarrow> 'b token_bucket" where
  "newTokenBucket bk limit burst =
     (let burst = max burst 1;
          emission = (if rate_Limit limit > 0 then rate_Window limit sdiv rate_Limit limit else 0)
      in \<lparr>tb_limit = limit, tb_bucket = bk_New bk emission (uint burst)\<rparr>)"

text \<open>The division by the limit panics when it is zero.\<close>

definition tb_requestAt ::
    "('b, 'r) bucket_ops \<Rightarrow> instant \<Rightarrow> u32 \<Rightarrow> 'b token_bucket \<Rightarrow> (status \<times> 'b token_bucket) or_panic" where
  "tb_requestAt bk date cost0 c =
     (let cost = max cost0 1
      in case bk_ReserveN bk date (uint cost) (tb_bucket c) of
           (req, b1) \<Rightarrow>
             (let retry = bk_DelayFrom bk req date;
                  allow = (retry = 0);
                  b2 = (if \<not> allow then bk_CancelAt bk req date b1 else b1);
                  burst = bk_Burst bk b2
              in if rate_Limit (tb_limit c) = 0 then Inl (Panic ''integer divide by zero'')
                 else
                   (let every = int64 (rate_Window (tb_limit c) sdiv rate_Limit (tb_limit c));
                        c' = c\<lparr>tb_bucket := b2\<rparr>
                    in if \<not> allow then
                         Inr (\<lparr>st_Date = date, st_Limit = word_of_int burst, st_Allowed = 0,
                               st_Remaining = 0,
                               st_ResetAfter = int64 (int64 (every * burst) - retry),
                               st_RetryAfter = retry\<rparr>, c')
                       else
                         (let tokens = bk_TokensAt bk date b2;
                              taken = f64 (f64 (of_int burst) - tokens);
                              reset = int64 (f64_trunc (f64 (f64 (of_int every) * taken)))
                          in Inr (\<lparr>st_Date = date, st_Limit = word_of_int burst, st_Allowed = cost,
                                   st_Remaining = word_of_int (f64_trunc tokens),
                                   st_ResetAfter = reset, st_RetryAfter = 0\<rparr>, c')))))"

section \<open>The in-memory zone (local_zone.go)\<close>

text \<open>The dynamic types of the interface \<^verbatim>\<open>limiter\<close>.\<close>

datatype 'b limiter = FixedWindow fixed_window | TokenBucket "'b token_bucket"

fun requestAt ::
    "('b, 'r) bucket_ops \<Rightarrow> instant \<Rightarrow> u32 \<Rightarrow> 'b limiter \<Rightarrow> (status \<times> 'b limiter) or_panic" where
  "requestAt bk date cost (FixedWindow e) =
     (case fw_requestAt date cost e of (res, e') \<Rightarrow> Inr (res, FixedWindow e'))"
| "requestAt bk date cost (TokenBucket c) =
     (case tb_requestAt bk date cost c of
        Inl p \<Rightarrow> Inl p
      | Inr (res, c') \<Rightarrow> Inr (res, TokenBucket c'))"

text \<open>
  The table maps a key to a pointer: the limiter it points to is updated in place. \<^verbatim>\<open>lru.New\<close> fails
  on a size that is not positive and then yields a nil table.
\<close>

record 't lru_ops =
  lru_New :: "int \<Rightarrow> 't option"
  lru_Get :: "string \<Rightarrow> 't \<Rightarrow> nat option \<times> 't"
  lru_Add :: "string \<Rightarrow> nat \<Rightarrow> 't \<Rightarrow> 't"

record ('t, 'b) memory_zone =
  mz_opts :: zone_options
  mz_table :: "'t option"
  mz_heap :: "nat \<Rightarrow> 'b limiter option"
  mz_next :: nat

definition DefaultSize :: nat where "DefaultSize = 1 * Megabyte"

text \<open>\<open>unitTB\<close> and \<open>unitFW\<close> are the sizes of the two limiter structs, as \<^verbatim>\<open>reflect\<close> reports them.\<close>

definition newZone_size :: "nat \<Rightarrow> nat \<Rightarrow> zone_options \<Rightarrow> int" where
  "newZone_size unitTB unitFW opts =
     (let bytes = (if zo_Size opts > 0 then zo_Size opts else DefaultSize);
          unit = (if zo_Algo opts = AlgoTokenBucket then unitTB
                  else if zo_Algo opts = AlgoFixedWindow then unitFW else 0)
      in int64 (int64 (int (Capacity (Some bytes) unit)) + 1))"

definition local_newZone ::
    "'t lru_ops \<Rightarrow> nat \<Rightarrow> nat \<Rightarrow> zone_options \<Rightarrow> ('t, 'b) memory_zone" where
  "local_newZone lru unitTB unitFW opts =
     \<lparr>mz_opts = opts, mz_table = lru_New lru (newZone_size unitTB unitFW opts),
      mz_heap = Map.empty, mz_next = 0\<rparr>"

definition new_record :: "('b, 'r) bucket_ops \<Rightarrow> zone_options \<Rightarrow> u32 \<Rightarrow> 'b limiter option" where
  "new_record bk zone burst =
     (if zo_Algo zone = AlgoTokenBucket then Some (TokenBucket (newTokenBucket bk (zo_Rate zone) burst))
      else if zo_Algo zone = AlgoFixedWindow then Some (FixedWindow (newFixedWindow (zo_Rate zone)))
      else None)"

definition mz_lookup ::
    "('b, 'r) bucket_ops \<Rightarrow> 't lru_ops \<Rightarrow> string \<Rightarrow> ('t, 'b) memory_zone \<Rightarrow>
     (nat option \<times> ('t, 'b) memory_zone) or_panic" where
  "mz_lookup bk lru vkey c =
     (case mz_table c of
        None \<Rightarrow> Inl (Panic ''nil pointer dereference'')
      | Some t \<Rightarrow>
          (case lru_Get lru vkey t of
             (Some r, t') \<Rightarrow> Inr (Some r, c\<lparr>mz_table := Some t'\<rparr>)
           | (None, t') \<Rightarrow>
               (case new_record bk (mz_opts c) (max 1 (zo_Burst (mz_opts c))) of
                  None \<Rightarrow> Inr (None, c\<lparr>mz_table := Some t'\<rparr>)
                | Some rec \<Rightarrow>
                    (let r = mz_next c
                     in Inr (Some r, c\<lparr>mz_table := Some (lru_Add lru vkey r t'),
                                       mz_heap := (mz_heap c)(r \<mapsto> rec), mz_next := Suc r\<rparr>)))))"

definition mz_LimitRequest ::
    "('b, 'r) bucket_ops \<Rightarrow> 't lru_ops \<Rightarrow> limit_context \<Rightarrow> request \<Rightarrow> env \<Rightarrow> ('t, 'b) memory_zone \<Rightarrow>
     ((status option \<times> 'any go_error) \<times> env \<times> ('t, 'b) memory_zone) or_panic" where
  "mz_LimitRequest bk lru ctx req env c =
     (case RequestKey ctx req (zo_Key (mz_opts c)) env of
        Inl p \<Rightarrow> Inl p
      | Inr (vkey, env') \<Rightarrow>
          if vkey = Undefined then Inr ((None, NilError), env', c)
          else
            (case mz_lookup bk lru vkey c of
               Inl p \<Rightarrow> Inl p
             | Inr (None, c') \<Rightarrow>
                 Inr ((None, TextError (''local( algo: '' @ zo_Algo (mz_opts c) @ '' ); not implemented'')),
                      env', c')
             | Inr (Some r, c') \<Rightarrow>
                 (case mz_heap c' r of
                    None \<Rightarrow> Inl (Panic ''nil pointer dereference'')
                  | Some rec \<Rightarrow>
                      (case requestAt bk (rq_Date req) (max 1 (rq_Cost req)) rec of
                         Inl p \<Rightarrow> Inl p
                       | Inr (res, rec') \<Rightarrow>
                           Inr ((Some res, NilError), env',
                                c'\<lparr>mz_heap := (mz_heap c')(r \<mapsto> rec')\<rparr>)))))"


section \<open>The fixed window keeps its quota\<close>

text \<open>Well-formed: a limit that fits the status fields, and no more taken than the limit.\<close>

definition fw_wf :: "fixed_window \<Rightarrow> bool" where
  "fw_wf e \<longleftrightarrow> 1 \<le> rate_Limit (fw_limit e) \<and> rate_Limit (fw_limit e) < 2 ^ 32 \<and>
     0 \<le> rate_Window (fw_limit e) \<and> uint (fw_taken e) \<le> rate_Limit (fw_limit e)"

definition fw_room :: "fixed_window \<Rightarrow> int" where
  "fw_room e = rate_Limit (fw_limit e) - uint (fw_taken e)"

lemma fw_wf_new:
  "1 \<le> rate_Limit r \<Longrightarrow> rate_Limit r < 2 ^ 32 \<Longrightarrow> 0 \<le> rate_Window r \<Longrightarrow> fw_wf (newFixedWindow r)"
  by (simp add: fw_wf_def newFixedWindow_def)

lemma fw_open_limit [simp]: "fw_limit (fw_open date e) = fw_limit e"
  by (simp add: fw_open_def)

lemma fw_open_wf [simp]: "fw_wf e \<Longrightarrow> fw_wf (fw_open date e)"
  by (auto simp: fw_open_def fw_wf_def)

lemma fw_room_nonneg: "fw_wf e \<Longrightarrow> 0 \<le> fw_room e"
  by (simp add: fw_room_def fw_wf_def)

lemma fw_room_u32:
  assumes "fw_wf e"
  shows "int64 (rate_Limit (fw_limit e) - uint (fw_taken e)) = fw_room e"
    and "uint (word_of_int (fw_room e) :: u32) = fw_room e"
proof -
  have r: "0 \<le> fw_room e" "fw_room e < 2 ^ 32"
    using assms uint_ge_0 [of "fw_taken e"] unfolding fw_wf_def fw_room_def by linarith+
  then have "in_int64 (fw_room e)" by (simp add: in_int64_def)
  then show "int64 (rate_Limit (fw_limit e) - uint (fw_taken e)) = fw_room e"
    by (simp add: fw_room_def)
  show "uint (word_of_int (fw_room e) :: u32) = fw_room e"
    using r by (simp add: uint_word_of_int take_bit_int_eq_self)
qed

text \<open>One request: all of its cost is taken when there is room, and nothing otherwise.\<close>

lemma fw_requestAt_eq:
  assumes wf: "fw_wf e" and e1: "e1 = fw_open date e"
  shows "fw_requestAt date cost e =
    (if uint cost \<le> fw_room e1
     then (\<lparr>st_Date = date, st_Limit = word_of_int (rate_Limit (fw_limit e)), st_Allowed = cost,
            st_Remaining = word_of_int (fw_room e1) - cost,
            st_ResetAfter = time_sub (fw_reset e1) date,
            st_RetryAfter = (if cost = 0 then time_sub (fw_reset e1) date else 0)\<rparr>,
           e1\<lparr>fw_taken := fw_taken e1 + cost\<rparr>)
     else (\<lparr>st_Date = date, st_Limit = word_of_int (rate_Limit (fw_limit e)), st_Allowed = 0,
            st_Remaining = 0, st_ResetAfter = time_sub (fw_reset e1) date,
            st_RetryAfter = time_sub (fw_reset e1) date\<rparr>, e1))"
proof -
  have wf1: "fw_wf e1" using wf by (simp add: e1)
  note room = fw_room_u32 [OF wf1]
  have lim: "\<not> rate_Limit (fw_limit e) < 1" using wf by (simp add: fw_wf_def)
  have less: "(word_of_int (fw_room e1) < cost) = (fw_room e1 < uint cost)"
    and less': "(cost < word_of_int (fw_room e1)) = (uint cost < fw_room e1)"
    using room(2) by (simp_all add: word_less_def)
  have eq: "word_of_int (fw_room e1) = cost" if "uint cost = fw_room e1"
    using that by (metis word_of_int_uint)
  have one: "(cost < 1) = (cost = 0)" by (simp add: word_less_1)
  have zero: "cost = 0" if "uint cost \<le> fw_room e1" "fw_room e1 < 1"
  proof -
    have "uint cost = 0" using that uint_ge_0 [of cost] by linarith
    then show ?thesis by (simp add: word_uint_eq_iff)
  qed
  have room0: "fw_room e1 = 0" if "fw_room e1 < 1"
    using that fw_room_nonneg [OF wf1] by simp
  have take: "fw_takeN date cost True e =
      (if uint cost \<le> fw_room e1
       then ((cost, word_of_int (fw_room e1) - cost, time_sub (fw_reset e1) date),
             e1\<lparr>fw_taken := fw_taken e1 + cost\<rparr>)
       else ((0, 0, time_sub (fw_reset e1) date), e1))"
  proof (cases "fw_room e1 < 1")
    case True
    then show ?thesis
      using zero room0
      by (cases "uint cost \<le> fw_room e1")
        (simp_all add: fw_takeN_def Let_def e1 [symmetric] room(1))
  next
    case False
    then show ?thesis
      using eq by (cases "uint cost = fw_room e1")
        (simp_all add: fw_takeN_def Let_def e1 [symmetric] room(1) less less')
  qed
  show ?thesis
    by (simp add: fw_requestAt_def lim take one)
qed


lemma fw_requestAt_step:
  assumes wf: "fw_wf e" and step: "fw_requestAt date cost e = (res, e')"
  shows "fw_wf e'" and "fw_limit e' = fw_limit e" and "fw_reset e' = fw_reset (fw_open date e)"
    and "uint (st_Allowed res) + fw_room e' = fw_room (fw_open date e)"
proof -
  define e1 where "e1 = fw_open date e"
  have wf1: "fw_wf e1" using wf by (simp add: e1_def)
  note eq = fw_requestAt_eq [OF wf e1_def, of cost]
  have add: "uint (fw_taken e1 + cost) = uint (fw_taken e1) + uint cost" if "uint cost \<le> fw_room e1"
  proof -
    have "uint (fw_taken e1) + uint cost < 2 ^ LENGTH(32)"
      using that wf1 unfolding fw_wf_def fw_room_def by simp
    then show ?thesis by (simp only: uint_add_lem)
  qed
  show "fw_limit e' = fw_limit e" "fw_reset e' = fw_reset (fw_open date e)"
    using step eq by (auto simp: e1_def split: if_splits)
  show "fw_wf e'"
    using step eq wf1 add by (auto simp: fw_wf_def fw_room_def split: if_splits)
  show "uint (st_Allowed res) + fw_room e' = fw_room (fw_open date e)"
    using step eq add by (auto simp: fw_room_def simp flip: e1_def split: if_splits)
qed

text \<open>A sequence of requests, with what each was allowed, and the sum over an interval of dates.\<close>

fun fw_run :: "(instant \<times> u32) list \<Rightarrow> fixed_window \<Rightarrow> (instant \<times> u32) list" where
  "fw_run [] e = []"
| "fw_run ((date, cost) # reqs) e =
     (case fw_requestAt date cost e of (res, e') \<Rightarrow> (date, st_Allowed res) # fw_run reqs e')"

definition allowed_between :: "instant \<Rightarrow> instant \<Rightarrow> (instant \<times> u32) list \<Rightarrow> int" where
  "allowed_between t u xs = sum_list (map (\<lambda>(d, a). if t \<le> d \<and> d \<le> u then uint a else 0) xs)"

lemma allowed_between_Nil [simp]: "allowed_between t u [] = 0"
  by (simp add: allowed_between_def)

lemma allowed_between_Cons [simp]:
  "allowed_between t u ((d, a) # xs) =
     (if t \<le> d \<and> d \<le> u then uint a else 0) + allowed_between t u xs"
  by (simp add: allowed_between_def)

lemma fw_run_dates: "map fst (fw_run reqs e) = map fst reqs"
  by (induction reqs e rule: fw_run.induct) (auto split: prod.splits)

lemma allowed_between_late:
  assumes "\<forall>d \<in> set (map fst reqs). u < d"
  shows "allowed_between t u (fw_run reqs e) = 0"
proof -
  have "\<forall>d \<in> set (map fst (fw_run reqs e)). u < d" using assms by (simp only: fw_run_dates)
  then have z: "map (\<lambda>(d, a). if t \<le> d \<and> d \<le> u then uint a else 0) (fw_run reqs e) =
             map (\<lambda>_. 0) (fw_run reqs e)"
    by (intro map_cong) auto
  show ?thesis unfolding allowed_between_def z by (rule sum_list_0)
qed

lemma fw_run_Cons_le:
  assumes "fw_requestAt date cost e = (res, e')"
  shows "allowed_between t u (fw_run ((date, cost) # reqs) e) \<le>
           uint (st_Allowed res) + allowed_between t u (fw_run reqs e')"
  using assms by simp

lemma fw_room_open_le: "fw_wf e \<Longrightarrow> fw_room (fw_open date e) \<le> rate_Limit (fw_limit e)"
  by (auto simp: fw_room_def fw_open_def)

lemma fw_open_in_window: "date \<le> fw_reset e \<Longrightarrow> fw_open date e = e"
  by (simp add: fw_open_def time_before_def)

lemma fw_open_new_window:
  "fw_reset e < date \<Longrightarrow> fw_reset (fw_open date e) = date + rate_Window (fw_limit e)"
  by (simp add: fw_open_def time_before_def time_add_def)

text \<open>In the open window: at most the room that is left.\<close>

lemma allowed_in_window:
  assumes "fw_wf e" and "sorted (map fst reqs)" and "u \<le> fw_reset e"
  shows "allowed_between t u (fw_run reqs e) \<le> fw_room e"
  using assms
proof (induction reqs arbitrary: e)
  case Nil
  then show ?case by (simp add: fw_room_nonneg)
next
  case (Cons r reqs)
  obtain date cost res e' where r: "r = (date, cost)" and step: "fw_requestAt date cost e = (res, e')"
    by (cases r; cases "fw_requestAt (fst r) (snd r) e") auto
  note st = fw_requestAt_step [OF Cons.prems(1) step]
  show ?case
  proof (cases "date \<le> u")
    case True
    with Cons.prems have o: "fw_open date e = e" by (simp add: fw_open_in_window)
    with Cons.prems st r have "allowed_between t u (fw_run reqs e') \<le> fw_room e'"
      by (intro Cons.IH) auto
    with fw_run_Cons_le [OF step, of t u reqs] st(4) show ?thesis
      unfolding o r by linarith
  next
    case False
    with Cons.prems r have "allowed_between t u (fw_run reqs e') = 0"
      by (intro allowed_between_late) auto
    with False r step show ?thesis using fw_room_nonneg [OF Cons.prems(1)] by simp
  qed
qed

text \<open>Up to one more window after the open one: the room, and one more limit.\<close>

lemma allowed_two_windows:
  assumes "fw_wf e" and "sorted (map fst reqs)" and "u \<le> fw_reset e + rate_Window (fw_limit e)"
  shows "allowed_between t u (fw_run reqs e) \<le> fw_room e + rate_Limit (fw_limit e)"
  using assms
proof (induction reqs arbitrary: e)
  case Nil
  then show ?case using fw_room_nonneg [of e] by (simp add: fw_wf_def)
next
  case (Cons r reqs)
  obtain date cost res e' where r: "r = (date, cost)" and step: "fw_requestAt date cost e = (res, e')"
    by (cases r; cases "fw_requestAt (fst r) (snd r) e") auto
  note st = fw_requestAt_step [OF Cons.prems(1) step]
  have nn: "0 \<le> fw_room e" "0 \<le> rate_Limit (fw_limit e)" "0 \<le> uint (st_Allowed res)"
    using fw_room_nonneg [OF Cons.prems(1)] Cons.prems(1) by (auto simp: fw_wf_def)
  have tail: "sorted (map fst reqs)" using Cons.prems(2) by simp
  show ?case
  proof (cases "date \<le> fw_reset e")
    case True
    then have o: "fw_open date e = e" by (rule fw_open_in_window)
    with Cons.prems st have "allowed_between t u (fw_run reqs e') \<le> fw_room e' + rate_Limit (fw_limit e')"
      by (intro Cons.IH tail) auto
    with fw_run_Cons_le [OF step, of t u reqs] st(4) show ?thesis
      unfolding o r st(2) by linarith
  next
    case False
    then have "fw_reset e' = date + rate_Window (fw_limit e)" by (simp add: st(3) fw_open_new_window)
    with False Cons.prems(3) have "allowed_between t u (fw_run reqs e') \<le> fw_room e'"
      by (intro allowed_in_window st(1) tail) simp
    moreover have "uint (st_Allowed res) + fw_room e' \<le> rate_Limit (fw_limit e)"
      using fw_room_open_le [OF Cons.prems(1), of date] st(4) by simp
    ultimately show ?thesis using fw_run_Cons_le [OF step, of t u reqs] nn unfolding r by linarith
  qed
qed

text \<open>Over any interval one window long.\<close>

lemma allowed_any_interval:
  assumes "fw_wf e" and "sorted (map fst reqs)"
  shows "allowed_between t (t + rate_Window (fw_limit e)) (fw_run reqs e) \<le> 2 * rate_Limit (fw_limit e)"
  using assms
proof (induction reqs arbitrary: e)
  case Nil
  then show ?case by (simp add: fw_wf_def)
next
  case (Cons r reqs)
  let ?u = "t + rate_Window (fw_limit e)" and ?L = "rate_Limit (fw_limit e)"
  obtain date cost res e' where r: "r = (date, cost)" and step: "fw_requestAt date cost e = (res, e')"
    by (cases r; cases "fw_requestAt (fst r) (snd r) e") auto
  note st = fw_requestAt_step [OF Cons.prems(1) step]
  have tail: "sorted (map fst reqs)" using Cons.prems(2) by simp
  have L: "0 \<le> ?L" "fw_room e \<le> ?L" "0 \<le> uint (st_Allowed res)"
    using Cons.prems(1) uint_ge_0 [of "fw_taken e"] by (auto simp: fw_wf_def fw_room_def)
  consider "date < t" | "t \<le> date" "date \<le> fw_reset e" | "t \<le> date" "fw_reset e < date" by linarith
  then show ?case
  proof cases
    case 1
    with Cons.IH [OF st(1) tail] st(2) r step show ?thesis by simp
  next
    case 2
    with allowed_two_windows [OF Cons.prems, of ?u t] L show ?thesis by simp
  next
    case 3
    then have "fw_reset e' = date + rate_Window (fw_limit e)" by (simp add: st(3) fw_open_new_window)
    with 3 have "allowed_between t ?u (fw_run reqs e') \<le> fw_room e'"
      by (intro allowed_in_window st(1) tail) simp
    moreover have "uint (st_Allowed res) + fw_room e' \<le> ?L"
      using fw_room_open_le [OF Cons.prems(1), of date] st(4) by simp
    ultimately show ?thesis using fw_run_Cons_le [OF step, of t ?u reqs] L unfolding r by linarith
  qed
qed

section \<open>Properties\<close>

text \<open>
  C2: whatever requests a fixed window sees, in order of their dates, it never lets more than twice
  its limit through over any interval as long as the window, wherever the interval starts: at most
  the limit in each of the two windows such an interval can meet.
\<close>

theorem fixed_window_quota:
  assumes "1 \<le> rate_Limit r" and "rate_Limit r < 2 ^ 32" and "0 \<le> rate_Window r"
    and "sorted (map fst reqs)"
  shows "allowed_between t (t + rate_Window r) (fw_run reqs (newFixedWindow r)) \<le> 2 * rate_Limit r"
proof -
  have "fw_limit (newFixedWindow r) = r" by (simp add: newFixedWindow_def)
  then show ?thesis using allowed_any_interval [OF fw_wf_new [OF assms(1-3)] assms(4), of t] by simp
qed

theorem fixed_window_quota_witness:
  "allowed_between 5 (5 + 10)
     (fw_run [(1, 2), (9, 1), (10, 1), (12, 2), (30, 1)] (newFixedWindow \<lparr>rate_Limit = 2, rate_Window = 10\<rparr>)) \<le> 4"
  using fixed_window_quota [of "\<lparr>rate_Limit = 2, rate_Window = 10\<rparr>" "[(1, 2), (9, 1), (10, 1), (12, 2), (30, 1)]" 5]
  by simp

text \<open>
  C4: a request is granted all of its cost when the window has room for it, and none of it otherwise,
  where a date after the reset opens a new window that ends one period later and has the whole limit
  as its room; what is granted is taken from the room, the room stays between nothing and the limit,
  and a refused request is told to retry at the reset.
\<close>

theorem fw_requestAt_all_or_nothing:
  assumes "fw_wf e" and "fw_requestAt date cost e = (res, e')"
    and "room = (if fw_reset e < date then rate_Limit (fw_limit e) else fw_room e)"
  shows "st_Allowed res = (if uint cost \<le> room then cost else 0) \<and>
         uint (st_Allowed res) + fw_room e' = room \<and>
         fw_reset e' = (if fw_reset e < date then date + rate_Window (fw_limit e) else fw_reset e) \<and>
         fw_wf e' \<and> fw_limit e' = fw_limit e \<and> st_Date res = date \<and>
         (st_Allowed res = 0 \<longrightarrow> st_RetryAfter res = time_sub (fw_reset e') date)"
proof -
  have "room = fw_room (fw_open date e)"
    "fw_reset (fw_open date e) = (if fw_reset e < date then date + rate_Window (fw_limit e) else fw_reset e)"
    using assms(3) by (auto simp: fw_open_def fw_room_def time_defs)
  with fw_requestAt_step [OF assms(1,2)] fw_requestAt_eq [OF assms(1) refl, of date cost] assms(2)
  show ?thesis by (auto split: if_splits)
qed

theorem fw_requestAt_all_or_nothing_witness:
  "\<exists>res e'. fw_requestAt 5 3 (newFixedWindow \<lparr>rate_Limit = 2, rate_Window = 10\<rparr>) = (res, e') \<and>
     st_Allowed res = 0 \<and> st_RetryAfter res = 10"
proof -
  let ?e = "newFixedWindow \<lparr>rate_Limit = 2, rate_Window = 10\<rparr>"
  obtain res e' where s: "fw_requestAt 5 3 ?e = (res, e')" by fastforce
  have wf: "fw_wf ?e" by (rule fw_wf_new) simp_all
  have "fw_reset ?e = 0" by (simp add: newFixedWindow_def)
  then show ?thesis
    using fw_requestAt_all_or_nothing [OF wf s refl] s by (simp add: newFixedWindow_def in_int64_def)
qed


text \<open>
  \<^verbatim>\<open>TokensAt\<close> takes the difference of date and reset with the wrong sign: strictly inside a window
  it answers the whole limit, however much of it was taken.
\<close>

theorem fw_TokensAt_ignores_taken:
  assumes "fw_requestAt date cost e = (res, e')" and "fw_wf e" and "date' < fw_reset e'"
  shows "fw_TokensAt date' e' = rate_Limit (fw_limit e')"
  using assms(3) by (simp add: fw_TokensAt_def Let_def time_sub_pos_iff)

theorem fw_TokensAt_ignores_taken_witness:
  "fw_TokensAt 6 (snd (fw_requestAt 5 2 (newFixedWindow \<lparr>rate_Limit = 2, rate_Window = 10\<rparr>))) = 2"
proof -
  let ?e = "newFixedWindow \<lparr>rate_Limit = 2, rate_Window = 10\<rparr>"
  obtain res e' where s: "fw_requestAt 5 2 ?e = (res, e')" by fastforce
  have wf: "fw_wf ?e" by (rule fw_wf_new) simp_all
  have "fw_reset e' = 15"
    using fw_requestAt_step(3) [OF wf s] by (simp add: fw_open_def newFixedWindow_def time_defs)
  then show ?thesis
    using fw_TokensAt_ignores_taken [OF s wf, of 6] fw_requestAt_step(2) [OF wf s] s
    by (simp add: newFixedWindow_def)
qed

section \<open>The contract of a limiter\<close>

text \<open>
  What the zone relies on of the interface \<^verbatim>\<open>limiter\<close>: a good limiter answers without panicking and
  stays good; it grants a request all of its cost or nothing, at the request's date, and sets no
  retry delay on what it grants.
\<close>

locale record_limiter =
  fixes req :: "instant \<Rightarrow> u32 \<Rightarrow> 's \<Rightarrow> (status \<times> 's) or_panic"
    and good :: "'s \<Rightarrow> bool"
  assumes answers: "good s \<Longrightarrow> \<exists>res s'. req d c s = Inr (res, s') \<and> good s'"
    and grants: "good s \<Longrightarrow> req d c s = Inr (res, s') \<Longrightarrow> 1 \<le> c \<Longrightarrow>
                   st_Date res = d \<and> (st_Allowed res = c \<or> st_Allowed res = 0) \<and>
                   (st_Allowed res \<noteq> 0 \<longrightarrow> st_RetryAfter res = 0)"
begin

lemma good_step: "good s \<Longrightarrow> req d c s = Inr (res, s') \<Longrightarrow> good s'"
  using answers [of s d c] by auto

lemma OK_iff_granted: "good s \<Longrightarrow> req d c s = Inr (res, s') \<Longrightarrow> 1 \<le> c \<Longrightarrow> status_OK (Some res) \<longleftrightarrow> st_Allowed res = c"
  using grants [of s d c res s'] by (auto simp: status_OK_iff)

end

interpretation fw: record_limiter "\<lambda>d c e. Inr (fw_requestAt d c e)" fw_wf
proof (unfold_locales, goal_cases)
  case (1 s d c)
  then show ?case using fw_requestAt_step(1) by (cases "fw_requestAt d c s") auto
next
  case (2 s d c res s')
  then have "fw_requestAt d c s = (res, s')" by simp
  with fw_requestAt_eq [OF 2(1) refl, of d c] 2(3) show ?case
    by (auto split: if_splits)
qed

definition tb_good :: "'b token_bucket \<Rightarrow> bool" where
  "tb_good c \<longleftrightarrow> rate_Limit (tb_limit c) \<noteq> 0"

interpretation tb: record_limiter "tb_requestAt bk" tb_good for bk
proof (unfold_locales, goal_cases)
  case (1 s d c)
  then show ?case by (auto simp: tb_requestAt_def tb_good_def Let_def split: prod.splits)
next
  case (2 s d c res s')
  have "max c 1 = c" using 2(3) by (rule max_absorb1)
  with 2 show ?case
    by (auto simp: tb_requestAt_def tb_good_def Let_def split: prod.splits if_splits)
qed

fun limiter_good :: "'b limiter \<Rightarrow> bool" where
  "limiter_good (FixedWindow e) = fw_wf e"
| "limiter_good (TokenBucket c) = tb_good c"

interpretation lim: record_limiter "requestAt bk" limiter_good for bk
proof (unfold_locales, goal_cases)
  case (1 s d c)
  then show ?case
    using fw.answers [of _ d c] tb.answers [of _ bk d c] by (cases s) fastforce+
next
  case (2 s d c res s')
  then show ?case
  proof (cases s)
    case (FixedWindow e)
    with 2 show ?thesis using fw.grants [of e d c res] by (auto split: prod.splits)
  next
    case (TokenBucket t)
    with 2 show ?thesis using tb.grants [of t bk d c res] by (auto split: sum.splits prod.splits)
  qed
qed

section \<open>The zone is a map from keys to limiters\<close>

text \<open>What the code relies on of the LRU table: \<open>view\<close> is its contents, \<^verbatim>\<open>Add\<close> may evict others.\<close>

definition lru_laws :: "'t lru_ops \<Rightarrow> ('t \<Rightarrow> string \<Rightarrow> nat option) \<Rightarrow> bool" where
  "lru_laws lru view \<longleftrightarrow>
     (\<forall>k t. fst (lru_Get lru k t) = view t k \<and> view (snd (lru_Get lru k t)) = view t) \<and>
     (\<forall>k r t. view (lru_Add lru k r t) k = Some r) \<and>
     (\<forall>k r t j. j \<noteq> k \<longrightarrow> view (lru_Add lru k r t) j = None \<or> view (lru_Add lru k r t) j = view t j)"

definition mz_abs :: "('t \<Rightarrow> string \<Rightarrow> nat option) \<Rightarrow> ('t, 'b) memory_zone \<Rightarrow> string \<Rightarrow> 'b limiter option" where
  "mz_abs view z k =
     (case mz_table z of None \<Rightarrow> None
      | Some t \<Rightarrow> (case view t k of None \<Rightarrow> None | Some r \<Rightarrow> mz_heap z r))"

text \<open>Every key has a limiter of its own, allocated before, and good.\<close>

definition mz_wf :: "('t \<Rightarrow> string \<Rightarrow> nat option) \<Rightarrow> ('t, 'b) memory_zone \<Rightarrow> bool" where
  "mz_wf view z \<longleftrightarrow>
     (\<exists>t. mz_table z = Some t \<and>
        (\<forall>k r. view t k = Some r \<longrightarrow>
           r < mz_next z \<and> (\<exists>l. mz_heap z r = Some l \<and> limiter_good l) \<and>
           (\<forall>j. view t j = Some r \<longrightarrow> j = k)))"

lemma mz_wfD:
  assumes "mz_wf view z" and "mz_table z = Some t" and "view t k = Some r"
  obtains l where "r < mz_next z" and "mz_heap z r = Some l" and "limiter_good l"
    and "\<And>j. view t j = Some r \<Longrightarrow> j = k"
  using assms unfolding mz_wf_def by fastforce

lemma mz_lookup_spec:
  assumes laws: "lru_laws lru view" and wf: "mz_wf view z"
    and new: "new_record bk (mz_opts z) (max 1 (zo_Burst (mz_opts z))) = Some l0" "limiter_good l0"
  shows "\<exists>r z'. mz_lookup bk lru vkey z = Inr (Some r, z') \<and> mz_wf view z' \<and>
           (\<exists>t. mz_table z' = Some t \<and> view t vkey = Some r) \<and>
           mz_heap z' r = Some (case mz_abs view z vkey of Some l \<Rightarrow> l | None \<Rightarrow> l0) \<and>
           mz_opts z' = mz_opts z \<and>
           (\<forall>j. j \<noteq> vkey \<longrightarrow> mz_abs view z' j = None \<or> mz_abs view z' j = mz_abs view z j)"
proof -
  obtain t where t: "mz_table z = Some t" using wf by (auto simp: mz_wf_def)
  obtain f t' where g: "lru_Get lru vkey t = (f, t')" by fastforce
  have f: "f = view t vkey" and v: "view t' = view t"
    using laws g unfolding lru_laws_def by (metis fst_conv, metis snd_conv)
  show ?thesis
  proof (cases "view t vkey")
    case (Some r)
    then have l: "mz_lookup bk lru vkey z = Inr (Some r, z\<lparr>mz_table := Some t'\<rparr>)"
      by (simp add: mz_lookup_def t g f)
    have "mz_wf view (z\<lparr>mz_table := Some t'\<rparr>)" using wf by (simp add: mz_wf_def t v)
    moreover have "\<exists>l. mz_heap z r = Some l" using mz_wfD [OF wf t Some] by blast
    ultimately show ?thesis
      using l Some by (auto simp: v t mz_abs_def split: option.splits)
  next
    case None
    let ?z = "z\<lparr>mz_table := Some (lru_Add lru vkey (mz_next z) t'),
                mz_heap := (mz_heap z)(mz_next z \<mapsto> l0), mz_next := Suc (mz_next z)\<rparr>"
    let ?t = "lru_Add lru vkey (mz_next z) t'"
    have l: "mz_lookup bk lru vkey z = Inr (Some (mz_next z), ?z)"
      by (simp add: mz_lookup_def t g f None new Let_def)
    have a: "view ?t vkey = Some (mz_next z)"
      and b: "\<And>j. j \<noteq> vkey \<Longrightarrow> view ?t j = None \<or> view ?t j = view t j"
      using laws v unfolding lru_laws_def by (blast, metis)
    have old: "view t k = Some r \<Longrightarrow> r < mz_next z \<and> (\<exists>l. mz_heap z r = Some l \<and> limiter_good l) \<and>
                 (\<forall>j. view t j = Some r \<longrightarrow> j = k)" for k r
      using wf by (auto simp: mz_wf_def t)
    have "mz_wf view ?z"
      unfolding mz_wf_def
    proof (intro exI [of _ ?t] conjI allI impI)
      show "mz_table ?z = Some ?t" by simp
      have c: "view t k = Some r" if "view ?t k = Some r" "k \<noteq> vkey" for k r
        using b [OF that(2)] that(1) by simp
      have d: "r = mz_next z" if "view ?t vkey = Some r" for r using a that by simp
      fix k r assume k: "view ?t k = Some r"
      show "r < mz_next ?z" using k d old [OF c [OF k]] by (cases "k = vkey") auto
      show "\<exists>l. mz_heap ?z r = Some l \<and> limiter_good l"
        using k d old [OF c [OF k]] new(2) by (cases "k = vkey") auto
      fix j assume j: "view ?t j = Some r"
      show "j = k"
      proof (cases "k = vkey")
        case True
        show ?thesis
        proof (rule ccontr)
          assume "j \<noteq> k"
          with True have "r < mz_next z" using old [OF c [OF j]] by simp
          with k True d show False by simp
        qed
      next
        case False
        note ok = old [OF c [OF k False]]
        then have "j \<noteq> vkey" using d j by auto
        with c [OF j] ok show ?thesis by blast
      qed
    qed
    moreover have "mz_abs view ?z j = None \<or> mz_abs view ?z j = mz_abs view z j" if "j \<noteq> vkey" for j
    proof (cases "view ?t j")
      case None
      then show ?thesis by (simp add: mz_abs_def)
    next
      case (Some r)
      with b [OF that] have vj: "view t j = Some r" by simp
      with old have "r < mz_next z" by blast
      with Some vj show ?thesis by (simp add: mz_abs_def t)
    qed
    ultimately show ?thesis
      using a None by (intro exI [of _ "mz_next z"] exI [of _ ?z] conjI l) (simp_all add: mz_abs_def t)
  qed
qed

text \<open>One request of a zone; the options stay as they are.\<close>

lemma mz_LimitRequest_step:
  assumes "lru_laws lru view" and "mz_wf view z"
    and "new_record bk (mz_opts z) (max 1 (zo_Burst (mz_opts z))) = Some l0" "limiter_good l0"
    and "RequestKey ctx req (zo_Key (mz_opts z)) env = Inr (vkey, env')" "vkey \<noteq> Undefined"
  shows "\<exists>res l' z'. mz_LimitRequest bk lru ctx req env z = Inr ((Some res, NilError), env', z') \<and>
           requestAt bk (rq_Date req) (max 1 (rq_Cost req))
             (case mz_abs view z vkey of Some l \<Rightarrow> l | None \<Rightarrow> l0) = Inr (res, l') \<and>
           mz_abs view z' vkey = Some l' \<and> mz_wf view z' \<and> mz_opts z' = mz_opts z \<and>
           (\<forall>j. j \<noteq> vkey \<longrightarrow> mz_abs view z' j = None \<or> mz_abs view z' j = mz_abs view z j)"
proof -
  let ?l = "case mz_abs view z vkey of Some l \<Rightarrow> l | None \<Rightarrow> l0"
  obtain r z1 t where l: "mz_lookup bk lru vkey z = Inr (Some r, z1)" and wf1: "mz_wf view z1"
    and t: "mz_table z1 = Some t" "view t vkey = Some r" and h: "mz_heap z1 r = Some ?l"
    and o: "mz_opts z1 = mz_opts z"
    and fr: "\<And>j. j \<noteq> vkey \<Longrightarrow> mz_abs view z1 j = None \<or> mz_abs view z1 j = mz_abs view z j"
    using mz_lookup_spec [OF assms(1-4), of vkey] by blast
  have "limiter_good ?l" using mz_wfD [OF wf1 t] h by (metis option.inject)
  then obtain res l' where rq: "requestAt bk (rq_Date req) (max 1 (rq_Cost req)) ?l = Inr (res, l')"
    and good: "limiter_good l'"
    using lim.answers by blast
  let ?z = "z1\<lparr>mz_heap := (mz_heap z1)(r \<mapsto> l')\<rparr>"
  have "mz_LimitRequest bk lru ctx req env z = Inr ((Some res, NilError), env', ?z)"
    using assms(6) by (simp add: mz_LimitRequest_def assms(5) l h rq)
  moreover have "mz_abs view ?z vkey = Some l'" by (simp add: mz_abs_def t)
  moreover have "mz_wf view ?z" using wf1 good by (auto simp: mz_wf_def t)
  moreover have "mz_abs view ?z j = mz_abs view z1 j" if "j \<noteq> vkey" for j
    using wf1 t that by (auto simp: mz_abs_def mz_wf_def split: option.splits)
  ultimately show ?thesis using rq fr o by (intro exI [of _ res] exI [of _ l'] exI [of _ ?z]) auto
qed

text \<open>
  C3: for a key that is defined, a local zone behaves as a map from keys to limiters: the request is
  answered by the limiter of its key (a fresh one when the key has none), that limiter's new state
  is stored under the key, and the limiter of every other key is as before or evicted. No request of
  one key can use up the quota of another, whatever limiters the table shares its memory with.
\<close>

theorem mz_LimitRequest_per_key:
  assumes "lru_laws lru view" and "mz_wf view z"
    and "new_record bk (mz_opts z) (max 1 (zo_Burst (mz_opts z))) = Some l0" "limiter_good l0"
    and "RequestKey ctx req (zo_Key (mz_opts z)) env = Inr (vkey, env')" "vkey \<noteq> Undefined"
  shows "\<exists>res l' z'. mz_LimitRequest bk lru ctx req env z = Inr ((Some res, NilError), env', z') \<and>
           requestAt bk (rq_Date req) (max 1 (rq_Cost req))
             (case mz_abs view z vkey of Some l \<Rightarrow> l | None \<Rightarrow> l0) = Inr (res, l') \<and>
           mz_abs view z' vkey = Some l' \<and> mz_wf view z' \<and>
           (\<forall>j. j \<noteq> vkey \<longrightarrow> mz_abs view z' j = None \<or> mz_abs view z' j = mz_abs view z j)"
  using mz_LimitRequest_step [OF assms] by blast

text \<open>A list-backed LRU of two entries that satisfies the laws.\<close>

definition list_lru :: "(string \<times> nat) list lru_ops" where
  "list_lru =
     \<lparr>lru_New = \<lambda>n. Some [],
      lru_Get = \<lambda>k t. (case map_of t k of
                          None \<Rightarrow> (None, t)
                        | Some r \<Rightarrow> (Some r, (k, r) # filter (\<lambda>(j, _). j \<noteq> k) t)),
      lru_Add = \<lambda>k r t. take 2 ((k, r) # filter (\<lambda>(j, _). j \<noteq> k) t)\<rparr>"

lemma map_of_take: "map_of (take n xs) j = None \<or> map_of (take n xs) j = map_of xs j"
  by (induction xs arbitrary: n) (auto simp: take_Cons split: nat.splits)

lemma map_of_filter_neq: "j \<noteq> k \<Longrightarrow> map_of (filter (\<lambda>(j, _). j \<noteq> k) t) j = map_of t j"
  by (induction t) auto

lemma list_lru_laws: "lru_laws list_lru map_of"
proof -
  have get: "map_of (snd (lru_Get list_lru k t)) = map_of t" for k t
    by (intro ext) (auto simp: list_lru_def map_of_filter_neq split: option.splits)
  have add: "map_of (lru_Add list_lru k r t) j = None \<or> map_of (lru_Add list_lru k r t) j = map_of t j"
    if "j \<noteq> k" for k r t j
    using that map_of_take [of 2 "(k, r) # filter (\<lambda>(j, _). j \<noteq> k) t" j]
    by (simp add: list_lru_def map_of_filter_neq)
  have "fst (lru_Get list_lru k t) = map_of t k" for k t
    by (simp add: list_lru_def split: option.splits)
  with get add show ?thesis
    by (auto simp: lru_laws_def) (simp add: list_lru_def numeral_2_eq_2)
qed


theorem mz_LimitRequest_per_key_witness:
  "\<exists>res l' z'. mz_LimitRequest (undefined :: (unit, unit) bucket_ops) list_lru None
       \<lparr>rq_Date = 5, rq_Cost = 1, rq_Http = None\<rparr> Map.empty
       (local_newZone list_lru 96 56 (NewOptions [\<lambda>z. z\<lparr>zo_Key := Some (KeyValue ''ip'' ''a''),
          zo_Algo := AlgoFixedWindow, zo_Rate := \<lparr>rate_Limit = 2, rate_Window = Second\<rparr>\<rparr>]))
     = Inr ((Some res, NilError :: unit go_error), [''ip'' \<mapsto> ''a''], z') \<and>
     mz_abs map_of z' ''a'' = Some l' \<and> st_Allowed res = 1"
proof -
  let ?o = "NewOptions [\<lambda>z. z\<lparr>zo_Key := Some (KeyValue ''ip'' ''a''),
          zo_Algo := AlgoFixedWindow, zo_Rate := \<lparr>rate_Limit = 2, rate_Window = Second\<rparr>\<rparr>]"
  let ?z = "local_newZone list_lru 96 56 ?o :: ((string \<times> nat) list, unit) memory_zone"
  let ?bk = "undefined :: (unit, unit) bucket_ops"
  let ?q = "\<lparr>rq_Date = 5, rq_Cost = 1, rq_Http = None\<rparr> :: request"
  let ?r = "\<lparr>rate_Limit = 2, rate_Window = Second\<rparr>"
  let ?l = "FixedWindow (newFixedWindow ?r) :: unit limiter"
  have o: "mz_opts ?z = ?o" by (simp add: local_newZone_def)
  have op: "zo_Key ?o = Some (KeyValue ''ip'' ''a'')" "zo_Algo ?o = AlgoFixedWindow" "zo_Rate ?o = ?r"
    by (simp_all add: NewOptions_def zone_setup_def algo_defs)
  have wf: "mz_wf map_of ?z" by (simp add: mz_wf_def local_newZone_def list_lru_def)
  have fw: "fw_wf (newFixedWindow ?r)" by (rule fw_wf_new) (simp_all add: unit_defs)
  have new: "new_record ?bk (mz_opts ?z) (max 1 (zo_Burst (mz_opts ?z))) = Some ?l" "limiter_good ?l"
    using fw by (simp_all add: o new_record_def op)
  have key: "RequestKey None ?q (zo_Key (mz_opts ?z)) Map.empty = Inr (''a'', [''ip'' \<mapsto> ''a''])"
    unfolding o op
    by (simp add: RequestKey_def MultiKey_def GetLimitOptions_def request_Get_def Env_Key_def
        KeyValue_def)
  have ab: "mz_abs map_of ?z ''a'' = None" by (simp add: mz_abs_def local_newZone_def list_lru_def)
  obtain res l' z' where r: "mz_LimitRequest ?bk list_lru None ?q Map.empty ?z =
      Inr ((Some res, NilError :: unit go_error), [''ip'' \<mapsto> ''a''], z')"
    and q: "requestAt ?bk 5 (max 1 1) ?l = Inr (res, l')" and a: "mz_abs map_of z' ''a'' = Some l'"
    using mz_LimitRequest_per_key [OF list_lru_laws wf new key, where ?'d = unit] ab
    by (auto simp: Undefined_def)
  have "uint (1 :: u32) \<le> fw_room (fw_open 5 (newFixedWindow ?r))"
    by (simp add: fw_room_def fw_open_def newFixedWindow_def time_defs unit_defs)
  then have "st_Allowed res = 1"
    using q fw_requestAt_eq [OF fw refl, of 5 1] by (auto split: prod.splits)
  with r a show ?thesis by blast
qed

end
