(* ===== verification/Limit_Http.thy ===== *)
theory Limit_Http
  imports Rate_Status Zone_Local
begin

text \<open>
  An HTTP server behind the middleware of \<^verbatim>\<open>src/infra/ratelimit/http.go\<close>, limited by an in-memory zone of \<^verbatim>\<open>src/infra/ratelimit/zone/local\<close>: requests one after the other,
  the zone kept between them. What the components show of one request is put together here to what the server does over time.
\<close>

definition new_response :: response where
  "new_response = \<lparr>rw_Header = Map.empty, rw_Code = None, rw_Body = []\<rparr>"

text \<open>The answers to a list of dated requests; a panic ends the server.\<close>

fun http_serve ::
    "(instant \<Rightarrow> http_request \<Rightarrow> response \<Rightarrow> 'w \<Rightarrow> (response \<times> 'w) or_panic option) \<Rightarrow> (instant \<times> http_request) list \<Rightarrow> 'w \<Rightarrow>
       (instant \<times> response) list or_panic option" where
  "http_serve mid [] world = Some (Inr [])"
| "http_serve mid ((now, r) # reqs) world =
     (case mid now r new_response world of
        None \<Rightarrow> None
      | Some (Inl p) \<Rightarrow> Some (Inl p)
      | Some (Inr (w, world')) \<Rightarrow> map_option (map_sum id (\<lambda>rs. (now, w) # rs)) (http_serve mid reqs world'))"

definition limited_server ::
    "'any err_codec \<Rightarrow> (error option \<Rightarrow> string + string) \<Rightarrow> ('b, 'r) bucket_ops \<Rightarrow> 't lru_ops \<Rightarrow> limit_context \<Rightarrow>
       (instant \<times> http_request) list \<Rightarrow> ('t, 'b) memory_zone \<Rightarrow> (instant \<times> response) list or_panic option" where
  "limited_server cd marshal bk lru ctx = http_serve (HttpMiddleware cd marshal (mz_LimitRequest bk lru ctx) None)"

text \<open>All requests have one key.\<close>

definition http_key :: "limit_context \<Rightarrow> key option \<Rightarrow> string \<Rightarrow> instant \<times> http_request \<Rightarrow> bool" where
  "http_key ctx k vkey dr =
     (case dr of
        (now, r) \<Rightarrow>
          (case RequestKey ctx (fst (NewRequest now [\<lambda>req. req\<lparr>rq_Http := Some r\<rparr>])) k Map.empty of
             Inl _ \<Rightarrow> False
           | Inr (v, _) \<Rightarrow> v = vkey))"

text \<open>The middleware over a zone whose limiter for the key is a fixed window: the answer is 200 when the window grants the request, and 429 otherwise.\<close>

lemma limited_request:
  fixes cd :: "'any err_codec"
  assumes laws: "lru_laws lru view" and wf: "mz_wf view z" "fw_wf e"
    and algo: "zo_Algo (mz_opts z) = AlgoFixedWindow" "fw_wf (newFixedWindow (zo_Rate (mz_opts z)))"
    and lim: "(case mz_abs view z vkey of Some l \<Rightarrow> l | None \<Rightarrow> FixedWindow (newFixedWindow (zo_Rate (mz_opts z)))) = FixedWindow e"
    and key: "http_key ctx (zo_Key (mz_opts z)) vkey (now, r)" "vkey \<noteq> Undefined"
    and marshal: "marshal (Some ErrForbidden) = Inr data403" "marshal (Some ErrFloodWait) = Inr data429"
    and step: "fw_requestAt now 1 e = (res, e')"
  shows "\<exists>w z'. HttpMiddleware cd marshal (mz_LimitRequest bk lru ctx) None now r new_response z = Some (Inr (w, z')) \<and>
    rw_Code w = Some (if st_Allowed res = 1 then 200 else 429) \<and> mz_wf view z' \<and> mz_opts z' = mz_opts z \<and>
    mz_abs view z' vkey = Some (FixedWindow e')"
proof -
  let ?req = "fst (NewRequest now [\<lambda>req. req\<lparr>rq_Http := Some r\<rparr>])"
  have req: "NewRequest now [\<lambda>req. req\<lparr>rq_Http := Some r\<rparr>] = (?req, Map.empty)" "rq_Date ?req = now" "max 1 (rq_Cost ?req) = 1"
    by (simp_all add: NewRequest_def request_setup_def)
  obtain env' where k: "RequestKey ctx ?req (zo_Key (mz_opts z)) Map.empty = Inr (vkey, env')"
    using key(1) by (auto simp: http_key_def split: sum.splits)
  have new: "new_record bk (mz_opts z) (max 1 (zo_Burst (mz_opts z))) = Some (FixedWindow (newFixedWindow (zo_Rate (mz_opts z))))"
      "limiter_good (FixedWindow (newFixedWindow (zo_Rate (mz_opts z))))"
    using algo by (simp_all add: new_record_def algo_defs)
  obtain s l' z' where z': "mz_LimitRequest bk lru ctx ?req Map.empty z = Inr ((Some s, NilError :: 'any go_error), env', z')"
      "requestAt bk now 1 (FixedWindow e) = Inr (s, l')" "mz_abs view z' vkey = Some l'" "mz_wf view z'" "mz_opts z' = mz_opts z"
    using mz_LimitRequest_step [OF laws wf(1) new k key(2)] unfolding lim req(2,3) by blast
  have s: "s = res" "l' = FixedWindow e'"
    using z'(2) step by simp_all
  have "1 \<le> rate_Limit (fw_limit e)" "rate_Limit (fw_limit e) < 2 ^ 32"
    using wf(2) by (simp_all add: fw_wf_def)
  then have "(word_of_int (rate_Limit (fw_limit e)) :: u32) \<noteq> 0"
    by (simp add: word_of_int_eq_0_iff zdvd_not_zless)
  then have res: "st_Limit res \<noteq> 0" "st_Allowed res = 1 \<or> st_Allowed res = 0"
    using step fw_requestAt_eq [OF wf(2) refl, of now 1] by (auto split: if_splits)
  have "case refusal (Some res) of
           None \<Rightarrow> \<exists>w'. rw_Code w' = None \<and>
                   HttpMiddleware cd marshal (mz_LimitRequest bk lru ctx) None now r new_response z =
                     Some (map_sum id (\<lambda>w. (w, z')) (default_back w'))
         | Some e \<Rightarrow> \<exists>w'. HttpMiddleware cd marshal (mz_LimitRequest bk lru ctx) None now r new_response z = Some (Inr (w', z')) \<and>
                   rw_Code w' = Some (case e of LimitForbidden \<Rightarrow> 403 | LimitError _ \<Rightarrow> 429)"
    using HttpMiddleware_step [where front = "mz_LimitRequest bk lru ctx" and world = z and w = new_response, OF req(1) z'(1) marshal, where cd = cd and inner = None] by (auto simp: new_response_def s split: option.splits)
  then show ?thesis
    using res z'(3-5) s by (auto simp: refusal_def default_back_def WriteHeader_def status_OK_iff word_pos_iff split: if_splits)
qed

text \<open>The answers of the server are those of the fixed window of the key, request by request.\<close>

lemma limited_run:
  fixes cd :: "'any err_codec"
  assumes laws: "lru_laws lru view" and wf: "mz_wf view z" "fw_wf e"
    and algo: "zo_Algo (mz_opts z) = AlgoFixedWindow" "fw_wf (newFixedWindow (zo_Rate (mz_opts z)))"
    and lim: "(case mz_abs view z vkey of Some l \<Rightarrow> l | None \<Rightarrow> FixedWindow (newFixedWindow (zo_Rate (mz_opts z)))) = FixedWindow e"
    and key: "list_all (http_key ctx (zo_Key (mz_opts z)) vkey) reqs" "vkey \<noteq> Undefined"
    and marshal: "marshal (Some ErrForbidden) = Inr data403" "marshal (Some ErrFloodWait) = Inr data429"
  shows "\<exists>answers. limited_server cd marshal bk lru ctx reqs z = Some (Inr answers) \<and>
    map (\<lambda>(d, w). (d, if rw_Code w = Some 200 then 1 else 0)) answers = fw_run (map (\<lambda>(d, _). (d, 1)) reqs) e \<and>
    list_all (\<lambda>(_, w). rw_Code w = Some 200 \<or> rw_Code w = Some 429) answers"
  using wf algo lim key(1)
proof (induction reqs arbitrary: z e)
  case Nil
  then show ?case
    by (simp add: limited_server_def)
next
  case (Cons dr reqs)
  obtain now r res e' where dr: "dr = (now, r)" and step: "fw_requestAt now 1 e = (res, e')"
    by (cases dr; cases "fw_requestAt (fst dr) 1 e") auto
  have head: "http_key ctx (zo_Key (mz_opts z)) vkey (now, r)"
    using Cons.prems(6) dr by simp
  obtain w z' where w: "HttpMiddleware cd marshal (mz_LimitRequest bk lru ctx) None now r new_response z = Some (Inr (w, z'))"
      "rw_Code w = Some (if st_Allowed res = 1 then 200 else 429)"
    and z': "mz_wf view z'" "mz_opts z' = mz_opts z" "mz_abs view z' vkey = Some (FixedWindow e')"
    using limited_request [where cd = cd and bk = bk, OF laws Cons.prems(1-5) head key(2) marshal step] by blast
  have "st_Allowed res = 1 \<or> st_Allowed res = 0"
    using step fw_requestAt_eq [OF Cons.prems(2) refl, of now 1] by (auto split: if_splits)
  then have allowed: "(if rw_Code w = Some 200 then 1 else 0) = st_Allowed res"
    using w(2) by auto
  obtain answers where answers: "limited_server cd marshal bk lru ctx reqs z' = Some (Inr answers)"
      "map (\<lambda>(d, w). (d, if rw_Code w = Some 200 then 1 else 0)) answers = fw_run (map (\<lambda>(d, _). (d, 1)) reqs) e'"
      "list_all (\<lambda>(_, w). rw_Code w = Some 200 \<or> rw_Code w = Some 429) answers"
    using Cons.IH [of z' e'] Cons.prems z' fw_requestAt_step(1) [OF Cons.prems(2) step] by auto
  have "limited_server cd marshal bk lru ctx (dr # reqs) z = Some (Inr ((now, w) # answers))"
    using answers(1) w(1) by (simp add: limited_server_def dr)
  then show ?case
    using answers(2,3) allowed w(2) by (intro exI [of _ "(now, w) # answers"]) (simp add: dr step)
qed

lemma allowed_count:
  "allowed_between t u (map (\<lambda>(d, w). (d, if P w then 1 else 0)) xs) = int (length (filter (\<lambda>(d, w). t \<le> d \<and> d \<le> u \<and> P w) xs))"
  by (induction xs) (auto simp: split_def)

lemma new_zone_wf:
  assumes "lru_New lru (newZone_size unitTB unitFW opts) = Some tab" and "view tab = Map.empty"
  shows "mz_wf view (local_newZone lru unitTB unitFW opts)" and "mz_abs view (local_newZone lru unitTB unitFW opts) k = None"
  using assms by (simp_all add: mz_wf_def mz_abs_def local_newZone_def)

end
