(* ===== verification/Zone_Redis.thy ===== *)
theory Zone_Redis
  imports Limit_Zone
begin

text \<open>
  \<^verbatim>\<open>src/infra/ratelimit/zone/redis\<close>: the zone whose limiters are Lua scripts run by a Redis server.
  The server and its client are not part of the repository: running a script is the parameter \<open>run\<close>,
  which maps the script, the key, the arguments and the world to a reply and a new world.
\<close>

section \<open>Replies\<close>

datatype script = FixedWindowScript | SlidingWindowScript | TokenBucketScript

datatype arg = ArgInt int | ArgFloat rat

text \<open>A reply: an integer (\<^verbatim>\<open>int64\<close>) or a bulk string.\<close>

datatype reply = ReplyInt int | ReplyStr string

type_synonym 'w runner =
  "script \<Rightarrow> string \<Rightarrow> arg list \<Rightarrow> 'w \<Rightarrow> (string + reply list) \<times> 'w"

text \<open>
  \<^verbatim>\<open>strconv.ParseFloat\<close> on decimal text: a sign, digits with an optional point, and an optional
  exponent, rounded to the nearest float64. (The names of infinities and NaN and hexadecimal text
  are outside the model, as is the range error.)
\<close>

definition take_digits :: "string \<Rightarrow> string \<times> string" where
  "take_digits s = (takeWhile is_digit s, dropWhile is_digit s)"

definition parse_exp :: "string \<Rightarrow> int option" where
  "parse_exp s =
     (case s of
        [] \<Rightarrow> Some 0
      | c # cs \<Rightarrow>
          if c = CHR ''e'' \<or> c = CHR ''E'' then
            (case (case cs of
                     d # ds \<Rightarrow> if d = CHR ''-'' then (- 1, ds) else if d = CHR ''+'' then (1, ds) else (1, cs)
                   | [] \<Rightarrow> (1, cs)) of
               (sg, ds) \<Rightarrow> if ds \<noteq> [] \<and> list_all is_digit ds then Some (sg * int (digits_val ds)) else None)
          else None)"

definition parse_float :: "string \<Rightarrow> rat option" where
  "parse_float s =
     (case (case s of
              c # cs \<Rightarrow> if c = CHR ''-'' then (- 1, cs) else if c = CHR ''+'' then (1, cs) else (1, s)
            | [] \<Rightarrow> (1, s)) of
        (sg, s1) \<Rightarrow>
          (case take_digits s1 of
             (ip, s2) \<Rightarrow>
               (case (case s2 of c # cs \<Rightarrow> if c = CHR ''.'' then take_digits cs else ([], s2) | [] \<Rightarrow> ([], s2)) of
                  (fp, s3) \<Rightarrow>
                    if ip = [] \<and> fp = [] then None
                    else map_option
                           (\<lambda>e. f64 (sg * of_nat (digits_val (ip @ fp)) * 10 powi (e - int (length fp))))
                           (parse_exp s3))))"

definition redis_duration :: "rat \<Rightarrow> duration" where
  "redis_duration f =
     (if f = - 1 then - 1 else int64 (f64_trunc (f64 (f * 1000000000))))"

section \<open>The three algorithms\<close>

text \<open>
  The reply read by each of them: four elements, two integers and two strings. A missing element
  or one of another type is the panic of the index or of the type assertion, in the order the
  code reads them: the two strings first, then the integers.
\<close>

definition reply_float :: "reply list \<Rightarrow> nat \<Rightarrow> string + rat or_panic" where
  "reply_float ps i =
     (if i < length ps then
        (case ps ! i of
           ReplyStr s \<Rightarrow> (case parse_float s of Some f \<Rightarrow> Inr (Inr f) | None \<Rightarrow> Inl (''strconv.ParseFloat: parsing '' @ s))
         | ReplyInt _ \<Rightarrow> Inr (Inl (Panic ''interface conversion'')))
      else Inr (Inl (Panic ''index out of range'')))"

definition reply_u32 :: "reply list \<Rightarrow> nat \<Rightarrow> u32 or_panic" where
  "reply_u32 ps i =
     (if i < length ps then
        (case ps ! i of ReplyInt n \<Rightarrow> Inr (word_of_int n) | ReplyStr _ \<Rightarrow> Inl (Panic ''interface conversion''))
      else Inl (Panic ''index out of range''))"

definition read_status ::
    "instant \<Rightarrow> u32 \<Rightarrow> string + reply list \<Rightarrow> (status option \<times> 'any go_error) or_panic" where
  "read_status date limit result =
     (case result of
        Inl e \<Rightarrow> Inr (None, TextError e)
      | Inr ps \<Rightarrow>
          (case reply_float ps 2 of
             Inl e \<Rightarrow> Inr (None, TextError e)
           | Inr (Inl p) \<Rightarrow> Inl p
           | Inr (Inr retryAfter) \<Rightarrow>
               (case reply_float ps 3 of
                  Inl e \<Rightarrow> Inr (None, TextError e)
                | Inr (Inl p) \<Rightarrow> Inl p
                | Inr (Inr resetAfter) \<Rightarrow>
                    (case (reply_u32 ps 0, reply_u32 ps 1) of
                       (Inl p, _) \<Rightarrow> Inl p
                     | (_, Inl p) \<Rightarrow> Inl p
                     | (Inr allowed, Inr remaining) \<Rightarrow>
                         Inr (Some \<lparr>st_Date = date, st_Limit = limit, st_Allowed = allowed,
                                    st_Remaining = remaining,
                                    st_ResetAfter = redis_duration resetAfter,
                                    st_RetryAfter = redis_duration retryAfter\<rparr>, NilError)))))"

definition redis_fixedWindow ::
    "'w runner \<Rightarrow> string \<Rightarrow> instant \<Rightarrow> rate \<Rightarrow> u32 \<Rightarrow> 'w \<Rightarrow> (status option \<times> 'any go_error) or_panic \<times> 'w" where
  "redis_fixedWindow run key date rate cost w =
     (case run FixedWindowScript key
             [ArgInt (rate_Limit rate), ArgFloat (duration_Seconds (rate_Window rate)), ArgInt (uint cost)] w of
        (result, w') \<Rightarrow> (read_status date (word_of_int (rate_Limit rate)) result, w'))"

definition redis_slidingWindow ::
    "'w runner \<Rightarrow> string \<Rightarrow> instant \<Rightarrow> rate \<Rightarrow> u32 \<Rightarrow> 'w \<Rightarrow> (status option \<times> 'any go_error) or_panic \<times> 'w" where
  "redis_slidingWindow run key date rate cost0 w =
     (let cost = max 1 cost0
      in case run SlidingWindowScript key
                [ArgInt (rate_Limit rate), ArgFloat (duration_Seconds (rate_Window rate)), ArgInt (uint cost)] w of
           (result, w') \<Rightarrow> (read_status date (word_of_int (rate_Limit rate)) result, w'))"

definition redis_tokenBucket ::
    "'w runner \<Rightarrow> string \<Rightarrow> instant \<Rightarrow> rate \<Rightarrow> u32 \<Rightarrow> u32 \<Rightarrow> 'w \<Rightarrow>
     (status option \<times> 'any go_error) or_panic \<times> 'w" where
  "redis_tokenBucket run key date rate burst0 cost0 w =
     (let cost = max 1 cost0; burst = max 1 burst0
      in case run TokenBucketScript key
                [ArgInt (uint burst), ArgInt (rate_Limit rate),
                 ArgFloat (duration_Seconds (rate_Window rate)), ArgInt (uint cost)] w of
           (result, w') \<Rightarrow> (read_status date burst result, w'))"

section \<open>The zone\<close>

definition limitKey :: "string \<Rightarrow> string \<Rightarrow> string" where
  "limitKey path k = path @ '':'' @ k"

definition redis_algo ::
    "'w runner \<Rightarrow> zone_options \<Rightarrow> string \<Rightarrow> request \<Rightarrow> 'w \<Rightarrow> (status option \<times> 'any go_error) or_panic \<times> 'w" where
  "redis_algo run zone key req w =
     (let cost = max 1 (rq_Cost req); burst = max 1 (zo_Burst zone)
      in if zo_Algo zone = AlgoTokenBucket then redis_tokenBucket run key (rq_Date req) (zo_Rate zone) burst cost w
         else if zo_Algo zone = AlgoFixedWindow then redis_fixedWindow run key (rq_Date req) (zo_Rate zone) cost w
         else if zo_Algo zone = AlgoSlidingWindow then redis_slidingWindow run key (rq_Date req) (zo_Rate zone) cost w
         else (Inr (None, TextError (''redis( algo: '' @ zo_Algo zone @ '' ); not implemented'')), w))"

definition redis_LimitRequest :: "'w runner \<Rightarrow> zone_options \<Rightarrow> ('w, 'any) zone_handler" where
  "redis_LimitRequest run zone ctx req env w =
     (case RequestKey ctx req (zo_Key zone) env of
        Inl p \<Rightarrow> Inl p
      | Inr (vkey, env') \<Rightarrow>
          if vkey = Undefined then Inr ((None, NilError), env', w)
          else
            (case redis_algo run zone (limitKey (zo_Name zone) vkey) req w of
               (Inl p, _) \<Rightarrow> Inl p
             | (Inr res, w') \<Rightarrow> Inr (res, env', w')))"

definition redis_newZone :: "'w runner \<Rightarrow> zone_options \<Rightarrow> ('w, 'any) zone" where
  "redis_newZone run options = \<lparr>zn_Options = options, zn_LimitRequest = redis_LimitRequest run options\<rparr>"

text \<open>
  The driver: \<open>connect\<close> parses the URL and makes the client, whose scripts it returns; \<open>ping\<close> is the
  first round trip. The source returns the zone beside the error of the ping; \<^verbatim>\<open>NewZone\<close> drops it.
\<close>

definition redis_New ::
    "(string \<Rightarrow> string + 'w runner) \<Rightarrow> ('w \<Rightarrow> string option \<times> 'w) \<Rightarrow> ('w, 'any) driver" where
  "redis_New connect ping dataSource options w =
     (case connect dataSource of
        Inl e \<Rightarrow> (Inl e, w)
      | Inr run \<Rightarrow>
          (case ping w of
             (Some e, w') \<Rightarrow> (Inl e, w')
           | (None, w') \<Rightarrow> (Inr (redis_newZone run options), w')))"


section \<open>Properties\<close>

lemma parse_float_fmt_nat: "parse_float (fmt_nat n) = Some (f64 (of_nat n))"
proof -
  have d: "list_all is_digit (fmt_nat n)" "fmt_nat n \<noteq> []" using fmt_nat_all_digits [of n] by (auto simp: all_digits_def)
  then obtain c cs where c: "fmt_nat n = c # cs" "is_digit c" by (cases "fmt_nat n") auto
  then have ns: "c \<noteq> CHR ''-''" "c \<noteq> CHR ''+''" by (auto simp: is_digit_def)
  have td: "take_digits (fmt_nat n) = (fmt_nat n, [])"
    using d(1) by (simp add: take_digits_def list_all_iff)
  have dv: "digits_val (fmt_nat n) = n" by simp
  show ?thesis
    using ns td dv unfolding parse_float_def c(1) by (simp add: parse_exp_def)
qed

lemma redis_duration_seconds:
  assumes "n * 1000000000 \<le> 2 ^ 53"
  shows "redis_duration (of_nat n) = int n * Second"
proof -
  have "int n * 1000000000 \<le> 2 ^ 53" using assms by (metis of_nat_le_iff of_nat_mult of_nat_numeral of_nat_power)
  then have "f64 (of_int (int n * 1000000000)) = of_int (int n * 1000000000)" by (intro f64_of_int) auto
  moreover have "\<lfloor>rat_of_nat n * 1000000000\<rfloor> = int n * 1000000000"
    by (rule floor_unique) simp_all
  ultimately show ?thesis
    using assms by (simp add: redis_duration_def f64_trunc_def Second_def in_int64_def)
qed

text \<open>
  A reply of the scripts whose delays are whole seconds below 104 days is read exactly: the counts
  as they are modulo \<open>2^32\<close>, the delays as that many seconds, with no loss in the passage through text
  and float64.
\<close>

theorem redis_reply_exact:
  assumes "n * 1000000000 \<le> 2 ^ 53" and "m * 1000000000 \<le> 2 ^ 53"
    and "run FixedWindowScript key
           [ArgInt (rate_Limit rate), ArgFloat (duration_Seconds (rate_Window rate)), ArgInt (uint cost)] w =
         (Inr [ReplyInt a, ReplyInt r, ReplyStr (fmt_nat n), ReplyStr (fmt_nat m)], w')"
  shows "redis_fixedWindow run key date rate cost w =
    (Inr (Some \<lparr>st_Date = date, st_Limit = word_of_int (rate_Limit rate), st_Allowed = word_of_int a,
       st_Remaining = word_of_int r, st_ResetAfter = int m * Second, st_RetryAfter = int n * Second\<rparr>,
       NilError), w')"
proof -
  have "f64 (of_nat k) = of_nat k" if "k * 1000000000 \<le> 2 ^ 53" for k
    using that by (intro f64_small_nat) simp
  then show ?thesis
    using assms redis_duration_seconds
    by (simp add: redis_fixedWindow_def read_status_def reply_float_def reply_u32_def parse_float_fmt_nat)
qed

theorem redis_reply_exact_witness:
  "redis_fixedWindow (\<lambda>_ _ _ w. (Inr [ReplyInt 0, ReplyInt 0, ReplyStr (fmt_nat 30), ReplyStr (fmt_nat 30)], w))
     ''zone:ip'' 7 \<lparr>rate_Limit = 5, rate_Window = Minute\<rparr> 1 ()
   = (Inr (Some \<lparr>st_Date = 7, st_Limit = 5, st_Allowed = 0, st_Remaining = 0,
       st_ResetAfter = 30 * Second, st_RetryAfter = 30 * Second\<rparr>, NilError :: unit go_error), ())"
  by (subst redis_reply_exact [where n = 30 and m = 30 and a = 0 and r = 0]) simp_all

end
