(* ===== verification/Limit_Mux.thy ===== *)
theory Limit_Mux
  imports Zone_Local "HOL-Library.Multiset"
begin

text \<open>
  \<^verbatim>\<open>src/infra/ratelimit/mux\<close>: routes with their limit zones, the handler of a route that asks each of
  its zones and reports the worst status, and the router that finds the route of a request.

  \<^verbatim>\<open>gorilla/mux\<close> is not part of the repository: its router has the abstract type \<open>'g\<close>, with the record
  \<open>mux_ops\<close> of the functions called. Its routes are named by their index.
\<close>

section \<open>The group of a route (route.go)\<close>

definition topWorst_Less :: "status \<Rightarrow> status \<Rightarrow> bool" where
  "topWorst_Less xi xj =
     (if st_RetryAfter xi > 0 then int64 (st_RetryAfter xi - st_RetryAfter xj) \<ge> 0
      else if st_RetryAfter xj > 0 then False
      else if st_Allowed xi = 0 then True
      else if st_Allowed xj = 0 then False
      else if st_Limit xi > 0 then
        (if st_Limit xj > 0 then st_Remaining xi \<le> st_Remaining xj else True)
      else if st_Limit xj > 0 then False
      else True)"

text \<open>The order of zones by their rate; nothing in the repository sorts by it.\<close>

definition limitTopWorst_Less :: "('w, 'any) zone \<Rightarrow> ('w, 'any) zone \<Rightarrow> bool" where
  "limitTopWorst_Less a b =
     (let x = Every (Some (zo_Rate (zn_Options a))); y = Every (Some (zo_Rate (zn_Options b)))
      in y = 0 \<or> x \<le> y)"

text \<open>
  \<^verbatim>\<open>sort.Sort\<close> sorts up to twelve elements by insertion: each element moves left while it is less
  than its neighbour. Longer slices go through pattern-defeating quicksort, the parameter \<open>pdq\<close>.
\<close>

fun sift :: "('a \<Rightarrow> 'a \<Rightarrow> bool) \<Rightarrow> 'a \<Rightarrow> 'a list \<Rightarrow> 'a list" where
  "sift lt x [] = [x]"
| "sift lt x (y # ys) = (if lt x y then y # sift lt x ys else x # y # ys)"

text \<open>The sorted prefix is kept in reverse: its last element, the neighbour, comes first.\<close>

fun insertionSort :: "('a \<Rightarrow> 'a \<Rightarrow> bool) \<Rightarrow> 'a list \<Rightarrow> 'a list \<Rightarrow> 'a list" where
  "insertionSort lt done_rev [] = rev done_rev"
| "insertionSort lt done_rev (x # xs) = insertionSort lt (sift lt x done_rev) xs"

definition sort_Sort :: "('a list \<Rightarrow> 'a list) \<Rightarrow> ('a \<Rightarrow> 'a \<Rightarrow> bool) \<Rightarrow> 'a list \<Rightarrow> 'a list" where
  "sort_Sort pdq lt xs = (if length xs \<le> 12 then insertionSort lt [] xs else pdq xs)"

record ('w, 'any) route_zones =
  rz_opts :: "string \<Rightarrow> limit_options option"
  rz_zone :: "('w, 'any) zone list"

definition rz_options :: "('w, 'any) route_zones \<Rightarrow> ('w, 'any) zone \<Rightarrow> limit_options" where
  "rz_options h zone =
     (case rz_opts h (zo_Name (zn_Options zone)) of Some opts \<Rightarrow> opts | None \<Rightarrow> \<lparr>lo_Salt = []\<rparr>)"

text \<open>The loop over the zones: an error is logged and the zone skipped, a nil status not counted.\<close>

fun group_loop ::
    "('w, 'any) route_zones \<Rightarrow> limit_context \<Rightarrow> request \<Rightarrow> ('w, 'any) zone list \<Rightarrow> status list \<Rightarrow>
     env \<Rightarrow> 'w \<Rightarrow> (status list \<times> env \<times> 'w) or_panic" where
  "group_loop h ctx req [] grp env w = Inr (grp, env, w)"
| "group_loop h ctx req (zone # zs) grp env w =
     (case zn_LimitRequest zone (WithLimitOptions ctx (rz_options h zone)) req env w of
        Inl p \<Rightarrow> Inl p
      | Inr ((status, err), env', w') \<Rightarrow>
          (case err of
             NilError \<Rightarrow>
               group_loop h ctx req zs (case status of None \<Rightarrow> grp | Some s \<Rightarrow> grp @ [s]) env' w'
           | _ \<Rightarrow> group_loop h ctx req zs grp env' w'))"

definition rz_LimitRequest ::
    "(status list \<Rightarrow> status list) \<Rightarrow> ('w, 'any) route_zones \<Rightarrow> ('w, 'any) zone_handler" where
  "rz_LimitRequest pdq h ctx req env w =
     (case rz_zone h of
        [] \<Rightarrow> Inr ((Some (Allow req []), NilError), env, w)
      | [zone] \<Rightarrow> zn_LimitRequest zone ctx req env w
      | zones \<Rightarrow>
          (case group_loop h ctx req zones [] env w of
             Inl p \<Rightarrow> Inl p
           | Inr ([], env', w') \<Rightarrow> Inr ((None, NilError), env', w')
           | Inr (grp, env', w') \<Rightarrow>
               Inr ((Some (hd (sort_Sort pdq topWorst_Less grp)), NilError), env', w')))"

section \<open>Routes\<close>

record route_options =
  ro_name :: string
  ro_path :: string
  ro_verb :: "string list"

definition setName :: "string \<Rightarrow> route_options \<Rightarrow> route_options" where
  "setName name e = (if ro_name e \<noteq> name then e\<lparr>ro_name := name\<rparr> else e)"

fun add_verbs :: "string list \<Rightarrow> string list \<Rightarrow> string list" where
  "add_verbs [] have = have"
| "add_verbs (v # vs) have =
     (let v = to_upper v in if v \<in> set have then add_verbs vs have else add_verbs vs (have @ [v]))"

definition addMethods :: "string list \<Rightarrow> route_options \<Rightarrow> route_options" where
  "addMethods verb e =
     (if verb = [] then e
      else if ro_verb e = [] then e\<lparr>ro_verb := map to_upper verb\<rparr>
      else e\<lparr>ro_verb := add_verbs verb (ro_verb e)\<rparr>)"

definition setPath :: "string \<Rightarrow> route_options \<Rightarrow> route_options" where
  "setPath tmpl e = (if ro_path e \<noteq> tmpl then e\<lparr>ro_path := tmpl\<rparr> else e)"

definition setPathPrefix :: "string \<Rightarrow> route_options \<Rightarrow> route_options" where
  "setPathPrefix tmpl e =
     setPath (if tmpl \<noteq> [] \<and> last tmpl = CHR ''*'' then tmpl else tmpl @ ''*'') e"

datatype ('w, 'any) route_handler =
    RouteZones "('w, 'any) route_zones"
  | CustomHandler "('w, 'any) zone_handler"

record ('w, 'any) route =
  rt_opts :: route_options
  rt_handler :: "('w, 'any) route_handler option"
  rt_err :: "string option"

text \<open>The functions of \<^verbatim>\<open>gorilla/mux\<close> the code calls; a match names the route it found, if any.\<close>

record 'g mux_ops =
  mx_NewRouter :: 'g
  mx_NewRoute :: "'g \<Rightarrow> 'g"
  mx_Name :: "nat \<Rightarrow> string \<Rightarrow> 'g \<Rightarrow> 'g"
  mx_Methods :: "nat \<Rightarrow> string list \<Rightarrow> 'g \<Rightarrow> 'g"
  mx_Path :: "nat \<Rightarrow> string \<Rightarrow> 'g \<Rightarrow> 'g"
  mx_PathPrefix :: "nat \<Rightarrow> string \<Rightarrow> 'g \<Rightarrow> 'g"
  mx_GetError :: "nat \<Rightarrow> 'g \<Rightarrow> string option"
  mx_Match :: "'g \<Rightarrow> http_request \<Rightarrow> nat option option"
  mx_GetName :: "nat \<Rightarrow> 'g \<Rightarrow> string"
  mx_MatcherFunc :: "nat \<Rightarrow> (http_request \<Rightarrow> bool) \<Rightarrow> 'g \<Rightarrow> 'g"

record ('g, 'w, 'any) router =
  mr_http :: 'g
  mr_zones :: "string \<Rightarrow> ('w, 'any) zone option"
  mr_routes :: "('w, 'any) route list"

definition NewRouter :: "'g mux_ops \<Rightarrow> ('g, 'w, 'any) router" where
  "NewRouter mx = \<lparr>mr_http = mx_NewRouter mx, mr_zones = Map.empty, mr_routes = []\<rparr>"

definition router_NewZone :: "('w, 'any) zone \<Rightarrow> ('g, 'w, 'any) router \<Rightarrow> ('g, 'w, 'any) router" where
  "router_NewZone zone c = c\<lparr>mr_zones := (mr_zones c)(zo_Name (zn_Options zone) \<mapsto> zone)\<rparr>"

text \<open>The new route is the last one; its index is returned.\<close>

definition NewRoute :: "'g mux_ops \<Rightarrow> ('g, 'w, 'any) router \<Rightarrow> nat \<times> ('g, 'w, 'any) router" where
  "NewRoute mx c =
     (length (mr_routes c),
      c\<lparr>mr_http := mx_NewRoute mx (mr_http c),
        mr_routes := mr_routes c @
          [\<lparr>rt_opts = \<lparr>ro_name = [], ro_path = [], ro_verb = []\<rparr>, rt_handler = None, rt_err = None\<rparr>]\<rparr>)"

definition route_GetError :: "'g mux_ops \<Rightarrow> nat \<Rightarrow> ('g, 'w, 'any) router \<Rightarrow> string option" where
  "route_GetError mx i c =
     (case rt_err (mr_routes c ! i) of Some e \<Rightarrow> Some e | None \<Rightarrow> mx_GetError mx i (mr_http c))"

definition upd_route ::
    "nat \<Rightarrow> (('w, 'any) route \<Rightarrow> ('w, 'any) route) \<Rightarrow> ('g, 'w, 'any) router \<Rightarrow> ('g, 'w, 'any) router" where
  "upd_route i f c = c\<lparr>mr_routes := (mr_routes c)[i := f (mr_routes c ! i)]\<rparr>"

definition route_Handler ::
    "'g mux_ops \<Rightarrow> nat \<Rightarrow> ('w, 'any) zone_handler option \<Rightarrow> ('g, 'w, 'any) router \<Rightarrow> ('g, 'w, 'any) router" where
  "route_Handler mx i hook c =
     (if route_GetError mx i c = None
      then upd_route i (\<lambda>r. r\<lparr>rt_handler := map_option CustomHandler hook\<rparr>) c else c)"

definition route_Name :: "'g mux_ops \<Rightarrow> nat \<Rightarrow> string \<Rightarrow> ('g, 'w, 'any) router \<Rightarrow> ('g, 'w, 'any) router" where
  "route_Name mx i name c =
     (if route_GetError mx i c = None
      then upd_route i (\<lambda>r. r\<lparr>rt_opts := setName name (rt_opts r)\<rparr>)
             (c\<lparr>mr_http := mx_Name mx i name (mr_http c)\<rparr>)
      else c)"

definition route_Methods :: "'g mux_ops \<Rightarrow> nat \<Rightarrow> string list \<Rightarrow> ('g, 'w, 'any) router \<Rightarrow> ('g, 'w, 'any) router" where
  "route_Methods mx i verb c =
     (if verb = [] then c
      else if route_GetError mx i c = None
      then upd_route i (\<lambda>r. r\<lparr>rt_opts := addMethods verb (rt_opts r)\<rparr>)
             (c\<lparr>mr_http := mx_Methods mx i verb (mr_http c)\<rparr>)
      else c)"

definition route_Path :: "'g mux_ops \<Rightarrow> nat \<Rightarrow> string \<Rightarrow> ('g, 'w, 'any) router \<Rightarrow> ('g, 'w, 'any) router" where
  "route_Path mx i tmpl c =
     (if tmpl = [] then c
      else upd_route i (\<lambda>r. r\<lparr>rt_opts := setPath tmpl (rt_opts r)\<rparr>)
             (c\<lparr>mr_http := mx_Path mx i tmpl (mr_http c)\<rparr>))"

definition route_PathPrefix :: "'g mux_ops \<Rightarrow> nat \<Rightarrow> string \<Rightarrow> ('g, 'w, 'any) router \<Rightarrow> ('g, 'w, 'any) router" where
  "route_PathPrefix mx i tmpl c =
     (if tmpl = [] then c
      else upd_route i (\<lambda>r. r\<lparr>rt_opts := setPathPrefix tmpl (rt_opts r)\<rparr>)
             (c\<lparr>mr_http := mx_PathPrefix mx i tmpl (mr_http c)\<rparr>))"

definition route_Zone ::
    "nat \<Rightarrow> string \<Rightarrow> limit_options \<Rightarrow> ('g, 'w, 'any) router \<Rightarrow> ('g, 'w, 'any) router" where
  "route_Zone i name opts c =
     (let r = mr_routes c ! i
      in if rt_err r \<noteq> None then c
         else
           (case mr_zones c name of
              None \<Rightarrow> upd_route i (\<lambda>r. r\<lparr>rt_err := Some (''route: zone '' @ name @ '' not found'')\<rparr>) c
            | Some zone \<Rightarrow>
                (case rt_handler r of
                   Some (CustomHandler _) \<Rightarrow> c
                 | None \<Rightarrow>
                     upd_route i (\<lambda>r. r\<lparr>rt_handler :=
                       Some (RouteZones \<lparr>rz_opts = [name \<mapsto> opts], rz_zone = [zone]\<rparr>)\<rparr>) c
                 | Some (RouteZones h) \<Rightarrow>
                     upd_route i (\<lambda>r. r\<lparr>rt_handler :=
                       Some (RouteZones \<lparr>rz_opts = (rz_opts h)(name \<mapsto> opts),
                                         rz_zone = (if rz_opts h name \<noteq> None then rz_zone h
                                                    else rz_zone h @ [zone])\<rparr>)\<rparr>) c)))"

definition GetZone :: "('w, 'any) route \<Rightarrow> (('w, 'any) zone \<times> limit_options) list option" where
  "GetZone r =
     (case rt_handler r of
        Some (RouteZones h) \<Rightarrow> Some (map (\<lambda>z. (z, rz_options h z)) (rz_zone h))
      | _ \<Rightarrow> None)"

definition route_GetName :: "'g mux_ops \<Rightarrow> nat \<Rightarrow> ('g, 'w, 'any) router \<Rightarrow> string" where
  "route_GetName mx i c = mx_GetName mx i (mr_http c)"

definition route_MatcherFunc ::
    "'g mux_ops \<Rightarrow> nat \<Rightarrow> (http_request \<Rightarrow> bool) \<Rightarrow> ('g, 'w, 'any) router \<Rightarrow> ('g, 'w, 'any) router" where
  "route_MatcherFunc mx i match c = c\<lparr>mr_http := mx_MatcherFunc mx i match (mr_http c)\<rparr>"

text \<open>The router's own methods make a route and set it up.\<close>

definition router_Name :: "'g mux_ops \<Rightarrow> string \<Rightarrow> ('g, 'w, 'any) router \<Rightarrow> nat \<times> ('g, 'w, 'any) router" where
  "router_Name mx name c = (let (i, c') = NewRoute mx c in (i, route_Name mx i name c'))"

definition router_MatcherFunc ::
    "'g mux_ops \<Rightarrow> (http_request \<Rightarrow> bool) \<Rightarrow> ('g, 'w, 'any) router \<Rightarrow> nat \<times> ('g, 'w, 'any) router" where
  "router_MatcherFunc mx match c = (let (i, c') = NewRoute mx c in (i, route_MatcherFunc mx i match c'))"

definition router_Methods :: "'g mux_ops \<Rightarrow> string list \<Rightarrow> ('g, 'w, 'any) router \<Rightarrow> nat \<times> ('g, 'w, 'any) router" where
  "router_Methods mx verb c = (let (i, c') = NewRoute mx c in (i, route_Methods mx i verb c'))"

definition router_Path :: "'g mux_ops \<Rightarrow> string \<Rightarrow> ('g, 'w, 'any) router \<Rightarrow> nat \<times> ('g, 'w, 'any) router" where
  "router_Path mx tmpl c = (let (i, c') = NewRoute mx c in (i, route_Path mx i tmpl c'))"

definition router_PathPrefix :: "'g mux_ops \<Rightarrow> string \<Rightarrow> ('g, 'w, 'any) router \<Rightarrow> nat \<times> ('g, 'w, 'any) router" where
  "router_PathPrefix mx tmpl c = (let (i, c') = NewRoute mx c in (i, route_PathPrefix mx i tmpl c'))"

section \<open>Handling a request (http.go, router.go)\<close>

definition routeHandler_LimitRequest ::
    "(status list \<Rightarrow> status list) \<Rightarrow> ('w, 'any) route \<Rightarrow> ('w, 'any) zone_handler" where
  "routeHandler_LimitRequest pdq r ctx req env w =
     (case rt_handler r of
        None \<Rightarrow> Inr ((Some (Allow req []), NilError), env, w)
      | Some (RouteZones h) \<Rightarrow> rz_LimitRequest pdq h ctx req env w
      | Some (CustomHandler h) \<Rightarrow> h ctx req env w)"

definition router_Match :: "'g mux_ops \<Rightarrow> ('g, 'w, 'any) router \<Rightarrow> http_request \<Rightarrow> ('w, 'any) route option" where
  "router_Match mx c r =
     (case mx_Match mx (mr_http c) r of Some (Some i) \<Rightarrow> Some (mr_routes c ! i) | _ \<Rightarrow> None)"

definition router_LimitRequest ::
    "(status list \<Rightarrow> status list) \<Rightarrow> 'g mux_ops \<Rightarrow> ('g, 'w, 'any) router \<Rightarrow> ('w, 'any) zone_handler" where
  "router_LimitRequest pdq mx c ctx req env w =
     (case rq_Http req of
        None \<Rightarrow> Inr ((None, NilError), env, w)
      | Some http \<Rightarrow>
          (case mx_Match mx (mr_http c) http of
             None \<Rightarrow> Inr ((None, NilError), env, w)
           | Some None \<Rightarrow> Inr ((Some (Allow req []), NilError), env, w)
           | Some (Some i) \<Rightarrow> routeHandler_LimitRequest pdq (mr_routes c ! i) ctx req env w))"

text \<open>The router's own middleware; an error of the handler is dropped and only its status counts.\<close>

definition router_HttpMiddleware ::
    "'any err_codec \<Rightarrow> (error option \<Rightarrow> string + string) \<Rightarrow> (status list \<Rightarrow> status list) \<Rightarrow>
     'g mux_ops \<Rightarrow> ('g, 'w, 'any) router \<Rightarrow> (response \<Rightarrow> response or_panic) option \<Rightarrow> limit_context \<Rightarrow>
     instant \<Rightarrow> http_request \<Rightarrow> response \<Rightarrow> 'w \<Rightarrow> (response \<times> 'w) or_panic option" where
  "router_HttpMiddleware cd marshal pdq mx c inner ctx now r w world =
     (let inner = (case inner of None \<Rightarrow> default_back | Some b \<Rightarrow> b)
      in case mx_Match mx (mr_http c) r of
           Some (Some i) \<Rightarrow>
             (case NewRequest now [\<lambda>req. req\<lparr>rq_Http := Some r\<rparr>] of
                (req, env) \<Rightarrow>
                  (case routeHandler_LimitRequest pdq (mr_routes c ! i) ctx req env world of
                     Inl p \<Rightarrow> Some (Inl p)
                   | Inr ((status, _), _, world') \<Rightarrow>
                       (case HttpWriteStatus cd marshal w status of
                          None \<Rightarrow> None
                        | Some (Inl p) \<Rightarrow> Some (Inl p)
                        | Some (Inr (w', False)) \<Rightarrow> Some (Inr (w', world'))
                        | Some (Inr (w', True)) \<Rightarrow> Some (map_sum id (\<lambda>w. (w, world')) (inner w')))))
         | _ \<Rightarrow> Some (map_sum id (\<lambda>w. (w, world)) (inner w)))"


section \<open>Sorting by a Less that is a total preorder\<close>

text \<open>
  What \<^verbatim>\<open>sort.Sort\<close> asks of an interface, in the reflexive form the code has: on the elements at hand,
  \<^verbatim>\<open>Less\<close> is total and transitive.
\<close>

locale sort_less =
  fixes dom :: "'a set" and lt :: "'a \<Rightarrow> 'a \<Rightarrow> bool"
  assumes total: "a \<in> dom \<Longrightarrow> b \<in> dom \<Longrightarrow> lt a b \<or> lt b a"
    and trans: "a \<in> dom \<Longrightarrow> b \<in> dom \<Longrightarrow> c \<in> dom \<Longrightarrow> lt a b \<Longrightarrow> lt b c \<Longrightarrow> lt a c"
begin

lemma mset_sift: "mset (sift lt x xs) = add_mset x (mset xs)"
  by (induction xs) auto

lemma set_sift: "set (sift lt x xs) = insert x (set xs)"
  by (induction xs) auto

lemma sift_sorted:
  assumes "x \<in> dom" "set xs \<subseteq> dom" "sorted_wrt (\<lambda>a b. lt b a) xs"
  shows "sorted_wrt (\<lambda>a b. lt b a) (sift lt x xs)"
  using assms
proof (induction xs)
  case (Cons y ys)
  show ?case
  proof (cases "lt x y")
    case True
    with Cons show ?thesis by (auto simp: set_sift)
  next
    case False
    with Cons.prems have "lt y x" using total [of x y] by auto
    with Cons.prems False show ?thesis by (auto intro: trans [of _ y x])
  qed
qed simp

lemma insertionSort_mset: "mset (insertionSort lt acc xs) = mset acc + mset xs"
  by (induction xs arbitrary: acc) (auto simp: mset_sift)

lemma insertionSort_sorted:
  assumes "set acc \<union> set xs \<subseteq> dom" "sorted_wrt (\<lambda>a b. lt b a) acc"
  shows "sorted_wrt lt (insertionSort lt acc xs)"
  using assms
proof (induction xs arbitrary: acc)
  case (Cons x xs)
  then show ?case by (auto simp: set_sift intro!: Cons.IH sift_sorted)
qed (simp add: sorted_wrt_rev)

lemma sort_Sort_hd:
  assumes "xs \<noteq> []" "length xs \<le> 12" "set xs \<subseteq> dom"
  shows "hd (sort_Sort pdq lt xs) \<in> set xs \<and> (\<forall>x \<in> set xs. lt (hd (sort_Sort pdq lt xs)) x)"
proof -
  let ?s = "insertionSort lt [] xs"
  have m: "mset ?s = mset xs" by (simp add: insertionSort_mset)
  then have set: "set ?s = set xs" by (rule mset_eq_setD)
  have so: "sorted_wrt lt ?s" using assms by (intro insertionSort_sorted) auto
  obtain y ys where y: "?s = y # ys" using m assms(1) by (cases ?s) auto
  have "y \<in> set xs" using set y by auto
  moreover from this assms(3) have "lt y y" using total [of y y] by auto
  ultimately have "\<forall>x \<in> set xs. lt y x" using so y set by auto
  with \<open>y \<in> set xs\<close> show ?thesis using assms(2) y by (simp add: sort_Sort_def)
qed

end

definition retry_range :: "status set" where
  "retry_range = {s. - (2 ^ 62) \<le> st_RetryAfter s \<and> st_RetryAfter s < 2 ^ 62}"

lemma topWorst_retry:
  assumes "a \<in> retry_range" "b \<in> retry_range" "st_RetryAfter a > 0"
  shows "topWorst_Less a b \<longleftrightarrow> st_RetryAfter b \<le> st_RetryAfter a"
proof -
  have "in_int64 (st_RetryAfter a - st_RetryAfter b)"
    using assms by (simp add: in_int64_def retry_range_def)
  then show ?thesis using assms(3) by (simp add: topWorst_Less_def)
qed

interpretation worst: sort_less retry_range topWorst_Less
proof (unfold_locales, goal_cases)
  case (1 a b)
  then show ?case
    using topWorst_retry [OF 1] topWorst_retry [OF 1(2,1)]
    by (cases "st_RetryAfter a > 0"; cases "st_RetryAfter b > 0")
      (auto simp: topWorst_Less_def linear)
next
  case (2 a b c)
  note r = topWorst_retry [OF 2(1,2)] topWorst_retry [OF 2(2,3)] topWorst_retry [OF 2(1,3)]
  show ?case
  proof (cases "st_RetryAfter b > 0")
    case True
    with 2(4) have "st_RetryAfter a > 0" by (auto simp: topWorst_Less_def split: if_splits)
    with True r 2(4,5) show ?thesis by simp
  next
    case False
    show ?thesis
    proof (cases "st_RetryAfter a > 0")
      case True
      have "\<not> st_RetryAfter c > 0" using 2(5) False by (auto simp: topWorst_Less_def)
      with True r(3) show ?thesis by simp
    next
      case a: False
      with False 2(4,5) show ?thesis
        by (auto simp: topWorst_Less_def split: if_splits intro: order_trans)
    qed
  qed
qed

lemma topWorst_refused:
  assumes "topWorst_Less a b" and "st_Allowed b = 0" and "st_RetryAfter a \<le> 0"
  shows "st_Allowed a = 0"
  using assms by (auto simp: topWorst_Less_def split: if_splits)

section \<open>Properties\<close>

lemma rz_LimitRequest_group:
  assumes "rz_zone h = z1 # z2 # zs"
    and "group_loop h ctx req (rz_zone h) [] env w = Inr (grp, env', w')" and "grp \<noteq> []"
  shows "rz_LimitRequest pdq h ctx req env w =
           Inr ((Some (hd (sort_Sort pdq topWorst_Less grp)), NilError), env', w')"
  using assms by (auto simp: rz_LimitRequest_def split: list.splits)

text \<open>
  C5: a route with two to twelve zones that answered reports one of their statuses, and none of the
  others is worse. When no status that allows the request asks to retry, as with the limiters of the
  local zone, the route lets the request pass exactly if every zone that answered does.
\<close>

theorem route_reports_worst:
  assumes "rz_zone h = z1 # z2 # zs"
    and "group_loop h ctx req (rz_zone h) [] env w = Inr (grp, env', w')" and "grp \<noteq> []"
    and "length grp \<le> 12" and "set grp \<subseteq> retry_range"
  shows "\<exists>res. rz_LimitRequest pdq h ctx req env w = Inr ((Some res, NilError), env', w') \<and>
           res \<in> set grp \<and> (\<forall>s \<in> set grp. topWorst_Less res s) \<and>
           ((\<forall>s \<in> set grp. st_Allowed s \<noteq> 0 \<longrightarrow> st_RetryAfter s \<le> 0) \<longrightarrow>
            status_OK (Some res) = (\<forall>s \<in> set grp. status_OK (Some s)))"
proof -
  let ?r = "hd (sort_Sort pdq topWorst_Less grp)"
  have r: "?r \<in> set grp" "\<forall>s \<in> set grp. topWorst_Less ?r s"
    using worst.sort_Sort_hd [OF assms(3-5), of pdq] by auto
  moreover have "status_OK (Some ?r) = (\<forall>s \<in> set grp. status_OK (Some s))"
    if "\<forall>s \<in> set grp. st_Allowed s \<noteq> 0 \<longrightarrow> st_RetryAfter s \<le> 0"
    using r that topWorst_refused by (fastforce simp: status_OK_iff)
  ultimately show ?thesis
    using rz_LimitRequest_group [OF assms(1-3)] by blast
qed

definition const_zone :: "string \<Rightarrow> status \<Rightarrow> ('w, 'any) zone" where
  "const_zone name s =
     \<lparr>zn_Options = NewOptions [\<lambda>z. z\<lparr>zo_Name := name\<rparr>],
      zn_LimitRequest = \<lambda>ctx req env w. Inr ((Some s, NilError), env, w)\<rparr>"

lemma const_zone_LimitRequest [simp]:
  "zn_LimitRequest (const_zone name s) ctx req env w = Inr ((Some s, NilError), env, w)"
  by (simp add: const_zone_def)

lemma Forbidden_zone_LimitRequest [simp]:
  "zn_LimitRequest (Forbidden_zone opts) ctx req env w = Inr ((Some (Deny req []), NilError), env, w)"
  by (simp add: Forbidden_zone_def Forbidden_LimitRequest_def)

definition sample_status :: "u32 \<Rightarrow> u32 \<Rightarrow> duration \<Rightarrow> status" where
  "sample_status quota allowed retry =
     \<lparr>st_Date = 0, st_Limit = quota, st_Allowed = allowed, st_Remaining = 0, st_ResetAfter = retry,
      st_RetryAfter = retry\<rparr>"

theorem route_reports_worst_witness:
  "\<exists>res. rz_LimitRequest id
       \<lparr>rz_opts = Map.empty,
        rz_zone = [const_zone ''a'' (sample_status 3 1 0), const_zone ''b'' (sample_status 0 0 0)]\<rparr>
       None \<lparr>rq_Date = 0, rq_Cost = 1, rq_Http = None\<rparr> Map.empty ()
     = Inr ((Some res, NilError :: unit go_error), Map.empty, ()) \<and> \<not> status_OK (Some res)"
proof -
  let ?h = "\<lparr>rz_opts = Map.empty,
        rz_zone = [const_zone ''a'' (sample_status 3 1 0), const_zone ''b'' (sample_status 0 0 0)]\<rparr>
        :: (unit, unit) route_zones"
  let ?q = "\<lparr>rq_Date = 0, rq_Cost = 1, rq_Http = None\<rparr> :: request"
  have "group_loop ?h None ?q (rz_zone ?h) [] Map.empty () =
      Inr ([sample_status 3 1 0, sample_status 0 0 0], Map.empty, ())"
    by (simp add: const_zone_def)
  from route_reports_worst [OF _ this, where pdq = id] show ?thesis
    by (auto simp: sample_status_def retry_range_def status_OK_iff)
qed

text \<open>
  A zone that allows the request while it asks to retry later (the Redis fixed window does on
  the last request of a window) hides a zone that forbids it: the route reports the first, and the
  request passes.
\<close>

theorem forbidden_zone_hidden:
  assumes "rz_zone h = [z1, z2]"
    and "zn_LimitRequest z1 (Some (rz_options h z1)) req env w = Inr ((Some s1, NilError), envm, wm)"
    and "zn_LimitRequest z2 (Some (rz_options h z2)) req envm wm = Inr ((Some (Deny req []), NilError), env2, w2)"
    and "st_Allowed s1 \<noteq> 0" and "0 < st_RetryAfter s1" and "s1 \<in> retry_range"
  shows "rz_LimitRequest pdq h ctx req env w = Inr ((Some s1, NilError), env2, w2)"
proof -
  let ?d = "Deny req []"
  have d: "st_RetryAfter ?d = 0" by (simp add: Deny_def status_apply_def)
  have g: "group_loop h ctx req (rz_zone h) [] env w = Inr ([s1, ?d], env2, w2)"
    using assms(1-3) by (simp add: WithLimitOptions_def)
  have "\<not> topWorst_Less ?d s1" using d assms(5) by (simp add: topWorst_Less_def)
  then have "hd (sort_Sort pdq topWorst_Less [s1, ?d]) = s1" by (simp add: sort_Sort_def)
  with rz_LimitRequest_group [OF assms(1) g, of pdq] show ?thesis by simp
qed

theorem forbidden_zone_hidden_witness:
  "rz_LimitRequest id
     \<lparr>rz_opts = Map.empty,
      rz_zone = [const_zone ''a'' (sample_status 3 1 1),
                 Forbidden_zone (NewOptions [\<lambda>z. z\<lparr>zo_Name := ''b''\<rparr>])]\<rparr>
     None \<lparr>rq_Date = 0, rq_Cost = 1, rq_Http = None\<rparr> Map.empty ()
   = Inr ((Some (sample_status 3 1 1), NilError :: unit go_error), Map.empty, ())"
  by (rule forbidden_zone_hidden [where envm = Map.empty and wm = "()"])
    (simp_all only: const_zone_LimitRequest Forbidden_zone_LimitRequest route_zones.simps,
      simp_all add: sample_status_def retry_range_def)

text \<open>
  The limit options given to a route's only zone have no effect: a route made of one zone handles
  every request as the same zone without options does.
\<close>

theorem single_zone_options_ignored:
  assumes "i < length (mr_routes c)" and "mr_routes c ! i = \<lparr>rt_opts = o', rt_handler = None, rt_err = None\<rparr>"
    and "mr_zones c name = Some zone"
  shows "routeHandler_LimitRequest pdq (mr_routes (route_Zone i name opts c) ! i) ctx req env w =
         zn_LimitRequest zone ctx req env w"
  using assms
  by (simp add: route_Zone_def upd_route_def routeHandler_LimitRequest_def rz_LimitRequest_def)

definition one_route_mux :: "unit mux_ops" where
  "one_route_mux =
     \<lparr>mx_NewRouter = (), mx_NewRoute = id, mx_Name = \<lambda>_ _. id, mx_Methods = \<lambda>_ _. id, mx_Path = \<lambda>_ _. id,
      mx_PathPrefix = \<lambda>_ _. id, mx_GetError = \<lambda>_ _. None, mx_Match = \<lambda>_ _. Some (Some 0),
      mx_GetName = \<lambda>_ _. [], mx_MatcherFunc = \<lambda>_ _. id\<rparr>"

theorem single_zone_options_ignored_witness:
  "routeHandler_LimitRequest id
     (mr_routes (route_Zone 0 ''a'' \<lparr>lo_Salt = [KeyValue ''k'' ''v'']\<rparr>
        (snd (NewRoute one_route_mux (router_NewZone (const_zone ''a'' (sample_status 3 1 0) :: (unit, unit) zone)
          (NewRouter one_route_mux))))) ! 0)
     None \<lparr>rq_Date = 0, rq_Cost = 1, rq_Http = None\<rparr> Map.empty ()
   = Inr ((Some (sample_status 3 1 0), NilError), Map.empty, ())"
  by (subst single_zone_options_ignored)
    (auto simp: NewRoute_def router_NewZone_def NewRouter_def const_zone_def NewOptions_def zone_setup_def)

section \<open>The zones of a route\<close>

definition route_Zones :: "nat \<Rightarrow> (string \<times> limit_options) list \<Rightarrow> ('g, 'w, 'any) router \<Rightarrow> ('g, 'w, 'any) router" where
  "route_Zones i ops c = fold (\<lambda>(name, opts). route_Zone i name opts) ops c"

text \<open>The names in the order of their first mention.\<close>

definition mentioned :: "'a list \<Rightarrow> 'a list" where
  "mentioned xs = rev (remdups (rev xs))"

lemma mentioned_snoc: "mentioned (xs @ [x]) = (if x \<in> set xs then mentioned xs else mentioned xs @ [x])"
  by (simp add: mentioned_def)

lemma set_mentioned [simp]: "set (mentioned xs) = set xs"
  by (simp add: mentioned_def)

lemma route_Zones_built:
  assumes "i < length (mr_routes c)" and "rt_handler (mr_routes c ! i) = None" and "rt_err (mr_routes c ! i) = None"
    and "list_all (\<lambda>(name, _). mr_zones c name \<noteq> None) ops" and "ops \<noteq> []"
  shows "mr_zones (route_Zones i ops c) = mr_zones c \<and> length (mr_routes (route_Zones i ops c)) = length (mr_routes c) \<and>
    rt_err (mr_routes (route_Zones i ops c) ! i) = None \<and>
    rt_handler (mr_routes (route_Zones i ops c) ! i) =
      Some (RouteZones \<lparr>rz_opts = map_of (rev ops), rz_zone = map (\<lambda>n. the (mr_zones c n)) (mentioned (map fst ops))\<rparr>)"
  using assms(4,5)
proof (induction ops rule: rev_induct)
  case (snoc op ops)
  obtain name opts where op: "op = (name, opts)" by fastforce
  from snoc.prems(1) op obtain zone where z: "mr_zones c name = Some zone" by auto
  let ?c = "route_Zones i ops c"
  have step: "route_Zones i (ops @ [(name, opts)]) c = route_Zone i name opts ?c" by (simp add: route_Zones_def)
  show ?case
  proof (cases "ops = []")
    case True
    then show ?thesis using assms(1-3) z unfolding op step
      by (simp add: route_Zones_def route_Zone_def upd_route_def Let_def mentioned_def fun_eq_iff)
  next
    case False
    with snoc have c: "mr_zones ?c = mr_zones c" "length (mr_routes ?c) = length (mr_routes c)" "rt_err (mr_routes ?c ! i) = None"
      "rt_handler (mr_routes ?c ! i) =
        Some (RouteZones \<lparr>rz_opts = map_of (rev ops), rz_zone = map (\<lambda>n. the (mr_zones c n)) (mentioned (map fst ops))\<rparr>)" by simp_all
    have seen: "map_of (rev ops) name = None \<longleftrightarrow> name \<notin> fst ` set ops" by (simp add: map_of_eq_None_iff)
    show ?thesis using c z assms(1) seen unfolding op step
      by (auto simp: route_Zone_def upd_route_def Let_def mentioned_snoc fun_eq_iff)
  qed
qed simp

text \<open>
  The zones of a route: naming zones of the registry in any order and any number of times gives every zone once, in the order of the
  first mention, with the options of the last.
\<close>

theorem route_zones_listed:
  assumes "i < length (mr_routes c)" and "rt_handler (mr_routes c ! i) = None" and "rt_err (mr_routes c ! i) = None"
    and "list_all (\<lambda>(name, _). \<exists>z. mr_zones c name = Some z \<and> zo_Name (zn_Options z) = name) ops" and "ops \<noteq> []"
  shows "GetZone (mr_routes (route_Zones i ops c) ! i) =
    Some (map (\<lambda>name. (the (mr_zones c name), the (map_of (rev ops) name))) (mentioned (map fst ops)))"
proof -
  have "list_all (\<lambda>(name, _). mr_zones c name \<noteq> None) ops" using assms(4) by (auto simp: list_all_iff)
  note b = route_Zones_built [OF assms(1-3) this assms(5)]
  have "zo_Name (zn_Options (the (mr_zones c n))) = n" "map_of (rev ops) n \<noteq> None" if "n \<in> fst ` set ops" for n
    using that assms(4) by (auto simp: list_all_iff map_of_eq_None_iff)
  then show ?thesis using b by (fastforce simp: GetZone_def rz_options_def split: option.splits)
qed

theorem route_zones_listed_witness:
  "GetZone (mr_routes (route_Zones 0 [(''b'', \<lparr>lo_Salt = []\<rparr>), (''a'', \<lparr>lo_Salt = []\<rparr>), (''b'', \<lparr>lo_Salt = [KeyValue ''k'' ''v'']\<rparr>)]
     (snd (NewRoute one_route_mux (router_NewZone (const_zone ''b'' (sample_status 3 1 0)) (router_NewZone (const_zone ''a'' (sample_status 3 1 0) :: (unit, unit) zone)
        (NewRouter one_route_mux))))) ) ! 0) =
   Some [(const_zone ''b'' (sample_status 3 1 0), \<lparr>lo_Salt = [KeyValue ''k'' ''v'']\<rparr>), (const_zone ''a'' (sample_status 3 1 0), \<lparr>lo_Salt = []\<rparr>)]"
  by (subst route_zones_listed)
    (auto simp: NewRoute_def router_NewZone_def NewRouter_def const_zone_def NewOptions_def zone_setup_def mentioned_def)

end
