(* ===== verification/Limit_Logs.thy ===== *)
theory Limit_Logs
  imports Limit_Mux "HOL-Library.Sublist"
begin

text \<open>
  The log of the rate limits: \<^verbatim>\<open>src/infra/ratelimit/logs.go\<close> (values of a status, the handler that puts the name of a module in front of
  every message) and \<^verbatim>\<open>src/infra/ratelimit/mux/logs.go\<close>, \<^verbatim>\<open>ctx.go\<close> (the handler that draws nested routes as a tree, the routes a request is
  in). Texts are their UTF-8 bytes.
\<close>

section \<open>Records and handlers\<close>

text \<open>An attribute holds a text, a duration, or a group of attributes.\<close>

datatype log_attr =
    StringAttr string string
  | DurationAttr string duration
  | GroupAttr string "log_attr list"

fun attr_Key :: "log_attr \<Rightarrow> string" where
  "attr_Key (StringAttr k _) = k"
| "attr_Key (DurationAttr k _) = k"
| "attr_Key (GroupAttr k _) = k"

record slog_record =
  sr_Level :: int
  sr_Message :: string
  sr_Attrs :: "log_attr list"

text \<open>The operations of a handler \<open>'h\<close> from elsewhere, which writes to \<open>'o\<close>.\<close>

record ('h, 'o) slog_ops =
  sl_Enabled :: "'h \<Rightarrow> int \<Rightarrow> bool"
  sl_Handle :: "'h \<Rightarrow> slog_record \<Rightarrow> 'o \<Rightarrow> 'o"
  sl_WithAttrs :: "log_attr list \<Rightarrow> 'h \<Rightarrow> 'h"
  sl_WithGroup :: "string \<Rightarrow> 'h \<Rightarrow> 'h"

datatype 'h slog_handler = OtherHandler 'h | PrefixLogHandler string "'h slog_handler"

fun prefix_Enabled :: "('h, 'o) slog_ops \<Rightarrow> 'h slog_handler \<Rightarrow> int \<Rightarrow> bool" where
  "prefix_Enabled sl (OtherHandler h) level = sl_Enabled sl h level"
| "prefix_Enabled sl (PrefixLogHandler pre h) level = prefix_Enabled sl h level"

fun prefix_Handle :: "('h, 'o) slog_ops \<Rightarrow> 'h slog_handler \<Rightarrow> slog_record \<Rightarrow> 'o \<Rightarrow> 'o" where
  "prefix_Handle sl (OtherHandler h) event out = sl_Handle sl h event out"
| "prefix_Handle sl (PrefixLogHandler pre h) event out =
     prefix_Handle sl h
       (if \<not> prefix pre (sr_Message event) then event\<lparr>sr_Message := pre @ sr_Message event\<rparr> else event) out"

fun prefix_WithAttrs :: "('h, 'o) slog_ops \<Rightarrow> log_attr list \<Rightarrow> 'h slog_handler \<Rightarrow> 'h slog_handler" where
  "prefix_WithAttrs sl attrs (OtherHandler h) = OtherHandler (sl_WithAttrs sl attrs h)"
| "prefix_WithAttrs sl attrs (PrefixLogHandler pre h) = PrefixLogHandler pre (prefix_WithAttrs sl attrs h)"

fun prefix_WithGroup :: "('h, 'o) slog_ops \<Rightarrow> string \<Rightarrow> 'h slog_handler \<Rightarrow> 'h slog_handler" where
  "prefix_WithGroup sl name (OtherHandler h) = OtherHandler (sl_WithGroup sl name h)"
| "prefix_WithGroup sl name (PrefixLogHandler pre h) = PrefixLogHandler name (prefix_WithGroup sl name h)"

definition LogHandler :: "string \<Rightarrow> 'h slog_handler \<Rightarrow> 'h slog_handler" where
  "LogHandler modname handler =
     (let modname = trim_space modname
      in if modname = [] then handler
         else let modname = modname @ '' ''
              in case handler of
                   PrefixLogHandler pre inner \<Rightarrow> if pre = modname then handler else PrefixLogHandler modname inner
                 | OtherHandler h \<Rightarrow> PrefixLogHandler modname handler)"

text \<open>A logger is its handler.\<close>

definition ModuleLog :: "string \<Rightarrow> 'h slog_handler \<Rightarrow> 'h slog_handler" where
  "ModuleLog modname logger = (let h2 = LogHandler modname logger in if h2 = logger then logger else h2)"

text \<open>\<^verbatim>\<open>Log\<close>: the record reaches the handler when there is a logger and it is enabled for the level.\<close>

definition limit_Log :: "('h, 'o) slog_ops \<Rightarrow> 'h slog_handler option \<Rightarrow> slog_record \<Rightarrow> 'o \<Rightarrow> 'o" where
  "limit_Log sl logger event out =
     (case logger of
        None \<Rightarrow> out
      | Some h \<Rightarrow> if prefix_Enabled sl h (sr_Level event) then prefix_Handle sl h event out else out)"

section \<open>The values of a status\<close>

text \<open>\<^verbatim>\<open>Duration.Round\<close> for a positive unit: half away from zero, and the nearest end when the result does not fit.\<close>

definition duration_Round :: "duration \<Rightarrow> duration \<Rightarrow> duration" where
  "duration_Round d m =
     (let r = \<bar>d\<bar> mod m
      in if d < 0 then (if 2 * r < m then d + r else if in_int64 (d - m + r) then d - m + r else - (2 ^ 63))
         else if 2 * r < m then d - r else if in_int64 (d + m - r) then d + m - r else 2 ^ 63 - 1)"

definition status_code :: "status option \<Rightarrow> string" where
  "status_code res =
     (case res of
        None \<Rightarrow> ''BYPASS''
      | Some s \<Rightarrow>
          if st_RetryAfter s > 0 then ''FLOOD_WAIT_'' @ fmt_int (MinSeconds (st_RetryAfter s))
          else if st_Allowed s > 0 then (if st_Limit s > 0 then ''ALLOW'' else ''PASS'')
          else if st_Limit s > 0 then ''DENY'' else ''FORBIDDEN'')"

definition status_LogValue :: "string \<Rightarrow> status option \<Rightarrow> log_attr" where
  "status_LogValue key res =
     (case res of
        None \<Rightarrow> StringAttr key (status_code None)
      | Some s \<Rightarrow>
          GroupAttr key
            ([StringAttr ''remain'' (fmt_int (uint (st_Remaining s)) @ ''/'' @ fmt_int (uint (st_Limit s))),
              DurationAttr ''reset'' (duration_Round (st_ResetAfter s) 1000000)] @
             (if st_RetryAfter s > 0 then [DurationAttr ''retry'' (duration_Round (st_RetryAfter s) 1000000)] else []) @
             [StringAttr ''code'' (status_code res)]))"

section \<open>The tree of routes (mux/logs.go)\<close>

definition treePath :: string where "treePath = [CHR 0xE2, CHR 0x94, CHR 0x82, CHR '' '', CHR '' '']"

definition treeFile :: string where "treeFile = [CHR 0xE2, CHR 0x94, CHR 0x9C, CHR 0xE2, CHR 0x94, CHR 0x80, CHR '' '']"

definition treeExit :: string where "treeExit = [CHR 0xE2, CHR 0x94, CHR 0x94, CHR 0xE2, CHR 0x94, CHR 0x80, CHR '' '']"

text \<open>A \<^verbatim>\<open>treeDir\<close> is its depth, a number of eight bits.\<close>

definition tree_path :: "u8 \<Rightarrow> bool \<Rightarrow> string" where
  "tree_path depth exit =
     (if depth = 0 then []
      else (if depth > 1 then concat (replicate (unat depth - 1) treePath) else []) @ (if exit then treeExit else treeFile))"

definition tree_open :: "u8 \<Rightarrow> string \<times> u8" where
  "tree_open depth = (tree_path depth False, depth + 1)"

definition tree_exit :: "u8 \<Rightarrow> string \<times> u8" where
  "tree_exit depth = (tree_path depth True, if depth > 0 then depth - 1 else depth)"

record route_log =
  rl_attrs :: "log_attr list"
  rl_depth :: u8
  rl_exit :: bool

definition newRouteLog :: route_log where
  "newRouteLog = \<lparr>rl_attrs = [], rl_depth = 0, rl_exit = False\<rparr>"

text \<open>What the handler inside is given, and the state that is left.\<close>

definition routeLog_Handle :: "slog_record \<Rightarrow> route_log \<Rightarrow> slog_record \<times> route_log" where
  "routeLog_Handle r c =
     (let (cd, c') = (if \<not> rl_exit c then (tree_path (rl_depth c) False, c)
                      else let (dir, depth) = tree_exit (rl_depth c) in (dir, c\<lparr>rl_depth := depth, rl_exit := False\<rparr>))
      in (r\<lparr>sr_Message := (if \<not> prefix cd (sr_Message r) then cd @ sr_Message r else sr_Message r),
            sr_Attrs := sr_Attrs r @ rl_attrs c\<rparr>, c'))"

definition openDir :: "route_log \<Rightarrow> string \<times> route_log" where
  "openDir c = (let (pwd, depth) = tree_open (rl_depth c) in (pwd, c\<lparr>rl_depth := depth\<rparr>))"

definition exitDir :: "route_log \<Rightarrow> route_log" where
  "exitDir c = c\<lparr>rl_exit := True\<rparr>"

fun set_attr :: "log_attr \<Rightarrow> log_attr list \<Rightarrow> log_attr list" where
  "set_attr add [] = [add]"
| "set_attr add (a # as) = (if attr_Key a = attr_Key add then add # as else a # set_attr add as)"

definition routeLog_WithAttrs :: "log_attr list \<Rightarrow> route_log \<Rightarrow> route_log" where
  "routeLog_WithAttrs attrs c = (if attrs = [] then c else c\<lparr>rl_attrs := fold set_attr attrs (rl_attrs c)\<rparr>)"

section \<open>The lines of a route (mux/http.go)\<close>

definition passMark :: string where "passMark = [CHR 0xF0, CHR 0x9F, CHR 0x97, CHR 0xB9, CHR '' '']"

definition stopMark :: string where "stopMark = [CHR 0xF0, CHR 0x9F, CHR 0x97, CHR 0xB7, CHR '' '']"

definition route_status_text :: "status option \<Rightarrow> string" where
  "route_status_text res =
     (case res of
        None \<Rightarrow> passMark @ ''BYPASS''
      | Some s \<Rightarrow>
          if st_Allowed s > 0 then (if st_Limit s > 0 then passMark @ ''ALLOW'' else passMark @ ''PASS'')
          else if st_Limit s > 0 then stopMark @ ''DENY'' else stopMark @ ''FORBIDDEN'')"

text \<open>\<^verbatim>\<open>cmp.Or\<close> of two texts, and the first line of a route.\<close>

definition cmp_Or :: "string \<Rightarrow> string \<Rightarrow> string" where
  "cmp_Or a b = (if a \<noteq> [] then a else b)"

definition route_begin_text :: "string \<Rightarrow> route_options \<Rightarrow> string" where
  "route_begin_text method opts =
     [CHR 0xE2, CHR 0x80, CHR 0xA2] @ '' ROUTE / '' @ method @ '' '' @ cmp_Or (ro_path opts) ''/*''"

definition route_attrs :: "string \<Rightarrow> route_options \<Rightarrow> string option \<Rightarrow> log_attr list" where
  "route_attrs urlPath opts warn =
     (if ro_name opts \<noteq> [] then [StringAttr ''name'' (ro_name opts)] else []) @
     (if ro_path opts \<noteq> [] \<and> ro_path opts \<noteq> urlPath then [StringAttr ''path'' (ro_path opts)] else []) @
     (case warn of Some e \<Rightarrow> [StringAttr ''err'' e] | None \<Rightarrow> [])"

text \<open>
  The handling of a request by a route whose handler hands it to other routes in turn: the line the route begins with, the calls, and
  the line with the status. \<open>on\<close> says whether the handler inside is enabled for a level; \<open>out\<close> are the messages it was given.
\<close>

datatype route_call = RouteCall (rc_level: int) (rc_begin: string) (rc_calls: "route_call list") (rc_end_level: int) (rc_end: string)

definition routeLog_emit :: "(int \<Rightarrow> bool) \<Rightarrow> int \<Rightarrow> string \<Rightarrow> route_log \<times> string list \<Rightarrow> route_log \<times> string list" where
  "routeLog_emit on level msg st =
     (case st of (c, out) \<Rightarrow>
        if on level
        then let (r, c') = routeLog_Handle \<lparr>sr_Level = level, sr_Message = msg, sr_Attrs = []\<rparr> c in (c', out @ [sr_Message r])
        else (c, out))"

fun route_logs :: "(int \<Rightarrow> bool) \<Rightarrow> route_call \<Rightarrow> route_log \<times> string list \<Rightarrow> route_log \<times> string list" where
  "route_logs on (RouteCall level begin calls endLevel end) st =
     (let (c, out) = routeLog_emit on level begin st;
          (c, out) = fold (route_logs on) calls (snd (openDir c), out)
      in routeLog_emit on endLevel end (exitDir c, out))"

section \<open>The routes of a request (mux/ctx.go)\<close>

text \<open>The value in the context of an HTTP request: the routes it is in, the innermost last. A request is given with its context.\<close>

type_synonym routed_request = "request \<times> nat list option"

definition CurrentRoute :: "routed_request \<Rightarrow> nat list" where
  "CurrentRoute req = (case snd req of Some vs \<Rightarrow> vs | None \<Rightarrow> [])"

definition request_Clone :: "request \<Rightarrow> request" where
  "request_Clone req = req"

definition requestWithRoute :: "routed_request \<Rightarrow> nat \<Rightarrow> routed_request" where
  "requestWithRoute req route =
     (let vs = CurrentRoute req
      in if vs \<noteq> [] \<and> last vs = route then req else (request_Clone (fst req), Some (vs @ [route])))"

section \<open>Lemmas\<close>

text \<open>At most one handler of the package is around another's, and not with an empty prefix.\<close>

fun one_prefix :: "'h slog_handler \<Rightarrow> bool" where
  "one_prefix (PrefixLogHandler _ (PrefixLogHandler _ _)) \<longleftrightarrow> False"
| "one_prefix _ \<longleftrightarrow> True"

lemma LogHandler_one_prefix: "one_prefix h \<Longrightarrow> one_prefix (LogHandler name h)"
  by (cases h rule: one_prefix.cases) (auto simp: LogHandler_def Let_def)

lemma prefix_With_one_prefix:
  "one_prefix h \<Longrightarrow> one_prefix (prefix_WithAttrs sl attrs h)" "one_prefix h \<Longrightarrow> one_prefix (prefix_WithGroup sl g h)"
  by (cases h rule: one_prefix.cases; simp)+

lemma LogHandler_shape:
  assumes "one_prefix h" and "trim_space name \<noteq> []"
  shows "\<exists>i. LogHandler name h = PrefixLogHandler (trim_space name @ '' '') (OtherHandler i)"
  using assms by (cases h rule: one_prefix.cases) (auto simp: LogHandler_def Let_def)

text \<open>The rendering of nested routes, by the depth of the nesting.\<close>

definition indent :: "nat \<Rightarrow> string \<Rightarrow> string" where
  "indent d leaf = (if d = 0 then [] else concat (replicate (d - 1) treePath) @ leaf)"

fun render :: "nat \<Rightarrow> route_call \<Rightarrow> string list" where
  "render d (RouteCall level begin calls endLevel end) =
     (indent d treeFile @ begin) # concat (map (render (Suc d)) calls) @ [indent (Suc d) treeExit @ end]"

fun height :: "route_call \<Rightarrow> nat" where
  "height (RouteCall level begin calls endLevel end) = Suc (Max (set (0 # map height calls)))"

text \<open>The messages of a call do not look like a line of the tree.\<close>

definition plain_text :: "string \<Rightarrow> bool" where
  "plain_text msg \<longleftrightarrow> \<not> prefix [CHR 0xE2, CHR 0x94] msg"

fun plain_call :: "route_call \<Rightarrow> bool" where
  "plain_call (RouteCall level begin calls endLevel end) \<longleftrightarrow> plain_text begin \<and> plain_text end \<and> list_all plain_call calls"

lemma tree_path_indent: "tree_path depth exit = indent (unat depth) (if exit then treeExit else treeFile)"
proof (cases "unat depth \<le> 1")
  case True
  then have "depth = 0 \<or> unat depth = 1" by (auto simp: le_Suc_eq unat_eq_0)
  then show ?thesis by (auto simp: tree_path_def indent_def)
next
  case False
  then have "depth > 1" "depth \<noteq> 0" by (auto simp: word_less_nat_alt)
  then show ?thesis by (simp add: tree_path_def indent_def unat_eq_0)
qed

lemma indent_head: "leaf \<in> {treeExit, treeFile} \<Longrightarrow> prefix [CHR 0xE2, CHR 0x94] (indent (Suc d) leaf)"
  by (cases d) (auto simp: indent_def treePath_def treeExit_def treeFile_def)

lemma not_indented:
  assumes "plain_text msg" and "leaf \<in> {treeExit, treeFile}"
  shows "prefix (indent d leaf) msg \<longleftrightarrow> d = 0"
proof (cases d)
  case (Suc n)
  then show ?thesis
    using indent_head [OF assms(2), of n] assms(1) prefix_order.order_trans unfolding plain_text_def by blast
qed (simp add: indent_def)

lemma indent_0 [simp]: "indent 0 leaf = []"
  by (simp add: indent_def)

lemma emit_line:
  "on level \<Longrightarrow> plain_text msg \<Longrightarrow> \<not> rl_exit c \<Longrightarrow>
   routeLog_emit on level msg (c, out) = (c, out @ [indent (unat (rl_depth c)) treeFile @ msg])"
  by (simp add: routeLog_emit_def routeLog_Handle_def tree_path_indent not_indented)

lemma emit_exit:
  "on level \<Longrightarrow> plain_text msg \<Longrightarrow> rl_depth c > 0 \<Longrightarrow>
   routeLog_emit on level msg (exitDir c, out) =
     (c\<lparr>rl_depth := rl_depth c - 1, rl_exit := False\<rparr>, out @ [indent (unat (rl_depth c)) treeExit @ msg])"
  by (simp add: routeLog_emit_def routeLog_Handle_def exitDir_def tree_exit_def tree_path_indent not_indented)

lemma route_logs_fold:
  assumes "\<And>x c out. x \<in> set calls \<Longrightarrow> rl_depth c = d \<Longrightarrow> \<not> rl_exit c \<Longrightarrow> route_logs on x (c, out) = (c, out @ render n x)"
    and "rl_depth c = d" and "\<not> rl_exit c"
  shows "fold (route_logs on) calls (c, out) = (c, out @ concat (map (render n) calls))"
  using assms by (induction calls arbitrary: out) auto

lemma route_logs_render:
  assumes "plain_call x" and "unat (rl_depth c) + height x < 256" and "\<not> rl_exit c"
  shows "route_logs (\<lambda>_. True) x (c, out) = (c, out @ render (unat (rl_depth c)) x)"
  using assms
proof (induction x arbitrary: c out)
  case (RouteCall level b calls endLevel e)
  let ?c = "snd (openDir c)"
  have h: "height y < height (RouteCall level b calls endLevel e)" if "y \<in> set calls" for y
    using that by (simp add: less_Suc_eq_le)
  from RouteCall.prems(2) have "unat (rl_depth c) + 1 < 256" by simp
  then have d: "unat (rl_depth ?c) = Suc (unat (rl_depth c))" "rl_depth ?c = rl_depth c + 1"
    by (simp_all add: openDir_def tree_open_def unat_word_ariths)
  have calls: "fold (route_logs (\<lambda>_. True)) calls (?c, out @ [indent (unat (rl_depth c)) treeFile @ b]) =
    (?c, (out @ [indent (unat (rl_depth c)) treeFile @ b]) @ concat (map (render (Suc (unat (rl_depth c)))) calls))"
  proof (rule route_logs_fold [where d = "rl_depth ?c"])
    fix y and c' :: route_log and out' assume y: "y \<in> set calls" "rl_depth c' = rl_depth ?c" "\<not> rl_exit c'"
    have "plain_call y" using RouteCall.prems(1) y(1) by (simp add: list_all_iff)
    moreover have "unat (rl_depth c') + height y < 256" using h [OF y(1)] RouteCall.prems(2) d(1) unfolding y(2) by linarith
    ultimately show "route_logs (\<lambda>_. True) y (c', out') = (c', out' @ render (Suc (unat (rl_depth c))) y)"
      using RouteCall.IH [OF y(1), of c' out'] y d(1) by simp
  qed (use RouteCall.prems(3) in \<open>simp_all add: openDir_def tree_open_def\<close>)
  have "rl_depth ?c > 0" using d(1) by (simp add: word_less_nat_alt)
  moreover have "?c\<lparr>rl_depth := rl_depth ?c - 1, rl_exit := False\<rparr> = c"
    using RouteCall.prems(3) by (simp add: openDir_def tree_open_def)
  ultimately show ?case
    using RouteCall.prems calls d by (simp add: emit_line emit_exit)
qed

lemma set_attr_keys: "distinct (map attr_Key as) \<Longrightarrow> distinct (map attr_Key (set_attr a as)) \<and>
   set (map attr_Key (set_attr a as)) = insert (attr_Key a) (set (map attr_Key as))"
  by (induction as) auto

lemma set_attr_find:
  "find (\<lambda>x. attr_Key x = k) (set_attr a as) = (if attr_Key a = k then Some a else find (\<lambda>x. attr_Key x = k) as)"
  by (induction as) auto

lemma route_stack_step:
  assumes "distinct_adj (CurrentRoute req)"
  shows "distinct_adj (CurrentRoute (requestWithRoute req r)) \<and> last (CurrentRoute (requestWithRoute req r)) = r"
  using assms by (auto simp: requestWithRoute_def CurrentRoute_def Let_def distinct_adj_append_iff split: option.splits)

section \<open>Properties\<close>

text \<open>
  The log of a request that passes through nested routes is the tree of the calls: with a handler enabled for every level, every route
  writes its first line at its depth, then the lines of the routes it hands the request to, and its status one level deeper; the logger
  is left as it was found. Fewer than 256 levels fit the depth.
\<close>

theorem route_logs_tree:
  assumes "plain_call x" and "height x < 256"
  shows "route_logs (\<lambda>_. True) x (newRouteLog, out) = (newRouteLog, out @ render 0 x)"
  using route_logs_render [of x newRouteLog out] assms by (simp add: newRouteLog_def)

definition demo_call :: route_call where
  "demo_call =
     RouteCall (-4) (route_begin_text ''GET'' \<lparr>ro_name = [], ro_path = ''/a*'', ro_verb = []\<rparr>)
       [RouteCall (-4) (route_begin_text ''GET'' \<lparr>ro_name = [], ro_path = [], ro_verb = []\<rparr>) [] (-4) (route_status_text None)]
       (-4) (route_status_text None)"

lemma texts_plain: "plain_text (route_begin_text method opts)" "plain_text (route_status_text res)"
  by (auto simp: plain_text_def route_begin_text_def route_status_text_def passMark_def stopMark_def split: option.splits)

theorem route_logs_tree_witness:
  "snd (route_logs (\<lambda>_. True) demo_call (newRouteLog, [])) =
     [route_begin_text ''GET'' \<lparr>ro_name = [], ro_path = ''/a*'', ro_verb = []\<rparr>,
      treeFile @ route_begin_text ''GET'' \<lparr>ro_name = [], ro_path = [], ro_verb = []\<rparr>,
      treePath @ treeExit @ route_status_text None,
      treeExit @ route_status_text None]"
proof -
  have "plain_call demo_call" "height demo_call < 256" by (simp_all add: demo_call_def texts_plain)
  from route_logs_tree [OF this, of "[]"] show ?thesis
    by (simp add: demo_call_def indent_def numeral_2_eq_2)
qed

text \<open>
  A handler that drops the debug level loses the tree: the status of an inner route at that level leaves the end of its level pending, and
  the depth grows by one with every such route.
\<close>

theorem route_logs_leak:
  assumes "\<not> on level" and "\<not> on endLevel"
  shows "rl_depth (fst (route_logs on (RouteCall level b [] endLevel e) (c, out))) = rl_depth c + 1"
  using assms by (simp add: routeLog_emit_def exitDir_def openDir_def tree_open_def)

text \<open>
  A module's logger puts the name of the module in front of a message, once, however often and under whichever names it was wrapped before.
\<close>

theorem module_prefix_once:
  fixes sl :: "('h, 'o) slog_ops"
  assumes "trim_space name \<noteq> []" and "one_prefix h"
  shows "ModuleLog name (ModuleLog name h) = ModuleLog name h \<and> ModuleLog name (ModuleLog other h) = ModuleLog name h \<and>
    (\<exists>i. prefix_Handle sl (ModuleLog name h) r out =
       sl_Handle sl i (r\<lparr>sr_Message := (let p = trim_space name @ '' '' in if prefix p (sr_Message r) then sr_Message r else p @ sr_Message r)\<rparr>) out)"
proof -
  have m: "ModuleLog n k = LogHandler n k" for n and k :: "'h slog_handler" by (simp add: ModuleLog_def)
  obtain i where i: "LogHandler name h = PrefixLogHandler (trim_space name @ '' '') (OtherHandler i)"
    using LogHandler_shape [OF assms(2,1)] by blast
  have "LogHandler name (LogHandler other h) = LogHandler name h"
    using assms by (cases h rule: one_prefix.cases) (auto simp: LogHandler_def Let_def)
  moreover have "LogHandler name (LogHandler name h) = LogHandler name h" using assms(1) by (simp add: i) (simp add: LogHandler_def)
  ultimately show ?thesis by (auto simp: m i Let_def intro!: exI [of _ i])
qed

text \<open>\<^verbatim>\<open>WithGroup\<close> takes the name of the group for the prefix: the name of the module is lost, and so is the prefix with an empty group.\<close>

lemma WithGroup_loses_module:
  "prefix_WithGroup sl g (PrefixLogHandler p h) = PrefixLogHandler g (prefix_WithGroup sl g h)"
  by simp

text \<open>The code in the log says whether the request passed: without a time to retry it is one of the passing codes exactly for a status that allows.\<close>

theorem status_code_tells:
  assumes "\<And>s. res = Some s \<Longrightarrow> st_RetryAfter s \<le> 0"
  shows "status_code res \<in> {''BYPASS'', ''ALLOW'', ''PASS''} \<longleftrightarrow> status_OK res"
  using assms by (auto simp: status_code_def status_OK_def not_less split: option.splits)

text \<open>Rounding of a duration.\<close>

theorem duration_Round_near:
  assumes "0 < m" and "in_int64 d" and "in_int64 (d - m)" and "in_int64 (d + m)"
  shows "2 * \<bar>duration_Round d m - d\<bar> \<le> m \<and> m dvd duration_Round d m"
proof -
  let ?r = "\<bar>d\<bar> mod m"
  have r: "0 \<le> ?r" "?r < m" using assms(1) by simp_all
  have dvd: "m dvd \<bar>d\<bar> - ?r" by (simp add: dvd_minus_mod)
  show ?thesis
  proof (cases "d < 0")
    case True
    then have "\<bar>d\<bar> - ?r = - (d + ?r)" by simp
    then have "m dvd d + ?r" using dvd by (metis dvd_minus_iff)
    moreover from this have "m dvd d - m + ?r" by (metis add.commute add_diff_eq dvd_diff dvd_refl)
    moreover have "in_int64 (d - m + ?r)" using assms(2,3) r by (auto simp: in_int64_def)
    ultimately show ?thesis using True r by (simp add: duration_Round_def Let_def abs_if)
  next
    case False
    then have "m dvd d - ?r" using dvd by simp
    moreover from this have "m dvd d + m - ?r" by (metis add.commute add_diff_eq dvd_add dvd_refl)
    moreover have "in_int64 (d + m - ?r)" using assms(2,4) r by (auto simp: in_int64_def)
    ultimately show ?thesis using False r by (simp add: duration_Round_def Let_def abs_if)
  qed
qed

end
