(* ===== verification/Etag_Codec.thy ===== *)
theory Etag_Codec
  imports Kit_Prelude
begin

text \<open>
  \<^verbatim>\<open>src/pkg/etag/etag.go\<close>, \<^verbatim>\<open>oid.go\<close>, \<^verbatim>\<open>type.go\<close>, \<^verbatim>\<open>etagtype_string.go\<close> and \<^verbatim>\<open>proto.go\<close>: tuple
  identifiers, their encoding as a text tag and the parsing of tags and plain ids.

  The standard library's base32 is modelled here; \<^verbatim>\<open>protowire\<close> is not part of the repository, and its
  varint functions are the record \<open>varint_ops\<close>.
\<close>

unbundle bit_operations_syntax

section \<open>Base32 without padding\<close>

text \<open>The bytes of a group of up to five and their five-bit symbols, as \<^verbatim>\<open>Encode\<close> shifts them.\<close>

definition b32_unpack :: "u8 list \<Rightarrow> u8 list" where
  "b32_unpack g =
     (case g of
        [b0] \<Rightarrow> [drop_bit 3 b0, push_bit 2 b0 AND 31]
      | [b0, b1] \<Rightarrow>
          [drop_bit 3 b0, (push_bit 2 b0 AND 31) OR (drop_bit 6 b1 AND 31), drop_bit 1 b1 AND 31,
           push_bit 4 b1 AND 31]
      | [b0, b1, b2] \<Rightarrow>
          [drop_bit 3 b0, (push_bit 2 b0 AND 31) OR (drop_bit 6 b1 AND 31), drop_bit 1 b1 AND 31,
           (push_bit 4 b1 AND 31) OR (drop_bit 4 b2 AND 31), push_bit 1 b2 AND 31]
      | [b0, b1, b2, b3] \<Rightarrow>
          [drop_bit 3 b0, (push_bit 2 b0 AND 31) OR (drop_bit 6 b1 AND 31), drop_bit 1 b1 AND 31,
           (push_bit 4 b1 AND 31) OR (drop_bit 4 b2 AND 31),
           (push_bit 1 b2 AND 31) OR drop_bit 7 b3, drop_bit 2 b3 AND 31, push_bit 3 b3 AND 31]
      | b0 # b1 # b2 # b3 # b4 # _ \<Rightarrow>
          [drop_bit 3 b0, (push_bit 2 b0 AND 31) OR (drop_bit 6 b1 AND 31), drop_bit 1 b1 AND 31,
           (push_bit 4 b1 AND 31) OR (drop_bit 4 b2 AND 31),
           (push_bit 1 b2 AND 31) OR drop_bit 7 b3, drop_bit 2 b3 AND 31,
           (push_bit 3 b3 AND 31) OR drop_bit 5 b4, b4 AND 31]
      | [] \<Rightarrow> [])"

definition b32_pack :: "u8 list \<Rightarrow> u8 list" where
  "b32_pack d =
     (case d of
        [d0, d1] \<Rightarrow> [push_bit 3 d0 OR drop_bit 2 d1]
      | [d0, d1, d2, d3] \<Rightarrow>
          [push_bit 3 d0 OR drop_bit 2 d1, push_bit 6 d1 OR push_bit 1 d2 OR drop_bit 4 d3]
      | [d0, d1, d2, d3, d4] \<Rightarrow>
          [push_bit 3 d0 OR drop_bit 2 d1, push_bit 6 d1 OR push_bit 1 d2 OR drop_bit 4 d3,
           push_bit 4 d3 OR drop_bit 1 d4]
      | [d0, d1, d2, d3, d4, d5, d6] \<Rightarrow>
          [push_bit 3 d0 OR drop_bit 2 d1, push_bit 6 d1 OR push_bit 1 d2 OR drop_bit 4 d3,
           push_bit 4 d3 OR drop_bit 1 d4, push_bit 7 d4 OR push_bit 2 d5 OR drop_bit 3 d6]
      | [d0, d1, d2, d3, d4, d5, d6, d7] \<Rightarrow>
          [push_bit 3 d0 OR drop_bit 2 d1, push_bit 6 d1 OR push_bit 1 d2 OR drop_bit 4 d3,
           push_bit 4 d3 OR drop_bit 1 d4, push_bit 7 d4 OR push_bit 2 d5 OR drop_bit 3 d6,
           push_bit 5 d6 OR d7]
      | _ \<Rightarrow> [])"

definition encodeEtag :: string where
  "encodeEtag = ''QRSTVWXYZabcdefghjklmnpqrstvwxyz''"

definition b32_char :: "u8 \<Rightarrow> char" where
  "b32_char v = encodeEtag ! unat v"

definition b32_value :: "char \<Rightarrow> u8 option" where
  "b32_value c = map_of (zip encodeEtag (map of_nat [0..<32])) c"

fun b32_symbols :: "u8 list \<Rightarrow> u8 list" where
  "b32_symbols (b0 # b1 # b2 # b3 # b4 # rest) = b32_unpack [b0, b1, b2, b3, b4] @ b32_symbols rest"
| "b32_symbols g = b32_unpack g"

definition EncodeToString :: "u8 list \<Rightarrow> string" where
  "EncodeToString src = map b32_char (b32_symbols src)"

text \<open>
  One quantum of \<^verbatim>\<open>decode\<close>: up to eight symbols, the rest of the text, and whether the text ended.
  The padding character of an encoding without padding is the byte \<open>0xFF\<close>, which the loop still
  accepts as padding at the end.
\<close>

function quantum :: "string \<Rightarrow> u8 list \<Rightarrow> (u8 list \<times> string \<times> bool) option" where
  "quantum src dbuf =
     (if length dbuf \<ge> 8 then Some (dbuf, src, False)
      else
        (case src of
           [] \<Rightarrow> Some (dbuf, [], True)
         | c # cs \<Rightarrow>
             if c = CHR 0xFF \<and> length dbuf \<ge> 2 \<and> length cs < 8 then
               (if length cs + length dbuf < 7 then None
                else if list_ex (\<lambda>k. k < length cs \<and> cs ! k \<noteq> CHR 0xFF) [0..<7 - length dbuf] then None
                else if length dbuf = 3 \<or> length dbuf = 6 then None
                else Some (dbuf, cs, True))
             else
               (case b32_value c of
                  None \<Rightarrow> None
                | Some v \<Rightarrow> quantum cs (dbuf @ [v]))))"
  by pat_completeness auto
termination
  by (relation "measure (\<lambda>(src, dbuf). length src)") auto

declare quantum.simps [simp del]

lemma quantum_shorter:
  "quantum src dbuf = Some (d, rest, False) \<Longrightarrow> length dbuf < 8 \<Longrightarrow> length rest < length src"
proof (induction src dbuf rule: quantum.induct)
  case (1 src dbuf)
  show ?case
  proof (cases src)
    case Nil
    with 1 show ?thesis by (simp add: quantum.simps [of "[]"])
  next
    case (Cons c cs)
    with 1(2,3) obtain v where v: "b32_value c = Some v" "quantum cs (dbuf @ [v]) = Some (d, rest, False)"
      and g: "\<not> (c = CHR 0xFF \<and> length dbuf \<ge> 2 \<and> length cs < 8)"
      by (auto simp: quantum.simps [of "c # cs"] split: if_splits option.splits)
    show ?thesis
    proof (cases "length (dbuf @ [v]) < 8")
      case True
      with 1(1) [OF _ Cons g v(1) v(2)] 1(3) Cons show ?thesis by simp
    next
      case False
      with v(2) Cons show ?thesis by (simp add: quantum.simps [of cs])
    qed
  qed
qed

function b32_decode :: "string \<Rightarrow> u8 list option" where
  "b32_decode src =
     (if src = [] then Some []
      else
        (case quantum src [] of
           None \<Rightarrow> None
         | Some (d, rest, True) \<Rightarrow> Some (b32_pack d)
         | Some (d, rest, False) \<Rightarrow> map_option ((@) (b32_pack d)) (b32_decode rest)))"
  by pat_completeness auto
termination
  by (relation "measure length") (auto dest: quantum_shorter)

declare b32_decode.simps [simp del]

text \<open>\<^verbatim>\<open>DecodeString\<close> first drops line breaks.\<close>

definition DecodeString :: "string \<Rightarrow> u8 list option" where
  "DecodeString s = b32_decode (filter (\<lambda>c. c \<noteq> CHR 0x0D \<and> c \<noteq> CHR 0x0A) s)"

section \<open>Tuple identifiers\<close>

text \<open>\<^verbatim>\<open>EtagType\<close> is a uint32; an oid is an int64 and a version an int32, as integers.\<close>

definition NoType :: u32 where "NoType = 0"
definition EtagCase :: u32 where "EtagCase = 1"
definition EtagCaseComment :: u32 where "EtagCaseComment = 2"
definition EtagCaseLink :: u32 where "EtagCaseLink = 3"
definition EtagRelatedCase :: u32 where "EtagRelatedCase = 4"
definition EtagCaseCommunication :: u32 where "EtagCaseCommunication = 5"

definition validType :: "u32 \<Rightarrow> bool" where
  "validType typ \<longleftrightarrow> NoType < typ"

definition EtagType_name :: string where
  "EtagType_name = ''NoTypeEtagCaseEtagCaseCommentEtagCaseLinkEtagRelatedCaseEtagCaseCommunication''"

definition EtagType_index :: "nat list" where
  "EtagType_index = [0, 6, 14, 29, 41, 56, 77]"

definition EtagType_String :: "u32 \<Rightarrow> string" where
  "EtagType_String i =
     (if unat i \<ge> length EtagType_index - 1 then ''EtagType('' @ fmt_nat (unat i) @ '')''
      else (let a = EtagType_index ! unat i; b = EtagType_index ! (unat i + 1)
            in take (b - a) (drop a EtagType_name)))"

record tid =
  tid_Ver :: "int option"
  tid_Oid :: int

text \<open>\<^verbatim>\<open>Tag\<close>: the tuple identifier with its encoding.\<close>

record tag = tid +
  tag_Id :: string

definition Tag_IsZero :: "tag option \<Rightarrow> bool" where
  "Tag_IsZero e \<longleftrightarrow> (case e of None \<Rightarrow> True | Some t \<Rightarrow> tid_Oid t = 0)"

definition Tag_IsEtag :: "tag option \<Rightarrow> bool" where
  "Tag_IsEtag e \<longleftrightarrow> (case e of None \<Rightarrow> False | Some t \<Rightarrow> \<not> Tag_IsZero e \<and> tid_Ver t \<noteq> None)"

text \<open>The methods have a pointer receiver; \<^const>\<open>None\<close> is nil.\<close>

definition Tid_GetOid :: "tid option \<Rightarrow> int" where
  "Tid_GetOid e = (case e of Some t \<Rightarrow> if tid_Oid t > 0 then tid_Oid t else 0 | None \<Rightarrow> 0)"

definition Tid_HasOid :: "tid option \<Rightarrow> bool" where
  "Tid_HasOid e \<longleftrightarrow> Tid_GetOid e > 0"

definition Tid_HasVer :: "tid option \<Rightarrow> bool" where
  "Tid_HasVer e \<longleftrightarrow> (case e of Some t \<Rightarrow> tid_Ver t \<noteq> None | None \<Rightarrow> False)"

definition Tid_GetVer :: "tid option \<Rightarrow> int" where
  "Tid_GetVer e = (case e of Some t \<Rightarrow> (case tid_Ver t of Some v \<Rightarrow> v | None \<Rightarrow> 0) | None \<Rightarrow> 0)"

definition Tid_IsVer :: "int \<Rightarrow> tid option \<Rightarrow> bool" where
  "Tid_IsVer num e \<longleftrightarrow>
     (case e of Some t \<Rightarrow> (case tid_Ver t of Some v \<Rightarrow> v = num | None \<Rightarrow> False) | None \<Rightarrow> False)"

definition Tid_IsNone :: "tid option \<Rightarrow> bool" where
  "Tid_IsNone e \<longleftrightarrow> \<not> Tid_HasOid e"

datatype etag_error =
    MissingTid | MissingOid | MissingType | MissingTag
  | BadType u32 | BadOid int | BadVer | InvalidEncoding string | Malformed string
  | IllegalType string | WrongType u32 | InvalidFormat string | NegativeValue string | NotPositive string
  | NotPositiveOid int | DuplicateInput string int | IdRequired | NodeIdRequired

definition Tid_Valid :: "tid option \<Rightarrow> etag_error option" where
  "Tid_Valid e =
     (case e of
        None \<Rightarrow> Some MissingTid
      | Some t \<Rightarrow> if tid_Oid t < 1 then Some MissingOid else None)"

definition Tids_IsNone :: "tid list \<Rightarrow> bool" where
  "Tids_IsNone e \<longleftrightarrow> length e > 0"

definition Tids_Oids :: "tid list \<Rightarrow> int list" where
  "Tids_Oids e = map (\<lambda>t. Tid_GetOid (Some t)) e"

section \<open>Ids (oid.go)\<close>

definition GetOid :: "u32 \<Rightarrow> string \<Rightarrow> etag_error + int" where
  "GetOid typ ident =
     (case parse_int64 ident of
        None \<Rightarrow> Inl (NotPositive ident)
      | Some oid \<Rightarrow> if oid < 1 then Inl (NotPositive ident) else Inr oid)"

definition GetId :: "u32 \<Rightarrow> int \<Rightarrow> etag_error + string" where
  "GetId typ oid = (if oid < 1 then Inl (NotPositiveOid oid) else Inr (fmt_int oid))"

definition MustId :: "u32 \<Rightarrow> string \<Rightarrow> etag_error option \<Rightarrow> string or_panic" where
  "MustId typ ident err =
     (case (if err = None \<and> ident = [] then Some IdRequired else err) of
        Some _ \<Rightarrow> Inl (Panic ''node ident'')
      | None \<Rightarrow> Inr ident)"

definition Tid_GetId :: "u32 \<Rightarrow> tid option \<Rightarrow> string" where
  "Tid_GetId typ e = (case GetId typ (Tid_GetOid e) of Inr ident \<Rightarrow> ident | Inl _ \<Rightarrow> [])"

section \<open>Tags\<close>

text \<open>\<^verbatim>\<open>AppendVarint(nil, v)\<close>, and \<^verbatim>\<open>ConsumeVarint\<close>: \<^const>\<open>None\<close> is a negative length.\<close>

record varint_ops =
  vi_Append :: "u64 \<Rightarrow> u8 list"
  vi_Consume :: "u8 list \<Rightarrow> (u64 \<times> nat) option"

definition AppendTag :: "varint_ops \<Rightarrow> u8 list \<Rightarrow> u32 \<Rightarrow> int \<Rightarrow> int \<Rightarrow> u8 list" where
  "AppendTag pw dst typ oid ver =
     dst @ vi_Append pw (word_of_int ver) @ vi_Append pw (ucast typ) @ vi_Append pw (word_of_int oid)"

fun consume_values :: "varint_ops \<Rightarrow> nat \<Rightarrow> u8 list \<Rightarrow> (u64 list \<times> nat) option" where
  "consume_values pw 0 src = Some ([], 0)"
| "consume_values pw (Suc k) src =
     (case vi_Consume pw src of
        None \<Rightarrow> None
      | Some (v, r) \<Rightarrow>
          (case consume_values pw k (drop r src) of
             None \<Rightarrow> None
           | Some (vs, n) \<Rightarrow> Some (v # vs, r + n)))"

text \<open>Malformed input yields zero values and the length \<^verbatim>\<open>errTagMalformed\<close>, which is 0.\<close>

definition ConsumeTag :: "varint_ops \<Rightarrow> u8 list \<Rightarrow> u32 \<times> int \<times> int \<times> nat" where
  "ConsumeTag pw src =
     (case consume_values pw 3 src of
        Some ([v0, v1, v2], n) \<Rightarrow> (ucast v1, sint v2, sint (ucast v0 :: 32 word), n)
      | _ \<Rightarrow> (0, 0, 0, 0))"

definition EncodeEtag :: "varint_ops \<Rightarrow> u32 \<Rightarrow> int \<Rightarrow> int \<Rightarrow> etag_error + string" where
  "EncodeEtag pw typ oid ver =
     (if typ \<le> NoType then Inl (BadType typ)
      else if oid < 1 then Inl (BadOid oid)
      else if ver < 0 then Inl BadVer
      else Inr (EncodeToString (AppendTag pw [] typ oid ver)))"

definition DecodeEtag :: "varint_ops \<Rightarrow> string \<Rightarrow> etag_error + u32 \<times> int \<times> int" where
  "DecodeEtag pw s =
     (case DecodeString s of
        None \<Rightarrow> Inl (InvalidEncoding s)
      | Some src \<Rightarrow>
          (case ConsumeTag pw src of
             (typ, oid, ver, n) \<Rightarrow>
               if n \<le> 0 \<or> n < length src then Inl (Malformed s) else Inr (typ, oid, ver)))"

definition DecodeTag :: "varint_ops \<Rightarrow> string \<Rightarrow> etag_error + u32 \<times> tid" where
  "DecodeTag pw s =
     (case DecodeEtag pw s of
        Inl e \<Rightarrow> Inl e
      | Inr (typ, oid, rv) \<Rightarrow> Inr (typ, \<lparr>tid_Ver = Some rv, tid_Oid = oid\<rparr>))"

definition EncodeTag :: "varint_ops \<Rightarrow> u32 \<Rightarrow> tid \<Rightarrow> etag_error + string" where
  "EncodeTag pw typ tag =
     (if \<not> validType typ then Inl (BadType typ)
      else if Tid_IsNone (Some tag) then Inl (BadOid (tid_Oid tag))
      else if \<not> Tid_HasVer (Some tag) \<or> Tid_GetVer (Some tag) < 0 then Inl BadVer
      else EncodeEtag pw typ (tid_Oid tag) (Tid_GetVer (Some tag)))"

definition ExpectEtag :: "varint_ops \<Rightarrow> u32 \<Rightarrow> string \<Rightarrow> etag_error + tid" where
  "ExpectEtag pw typeOf s =
     (if \<not> validType typeOf then Inl (BadType typeOf)
      else
        (case DecodeTag pw s of
           Inl e \<Rightarrow> Inl e
         | Inr (typ, tag) \<Rightarrow> if typeOf \<noteq> typ then Inl (WrongType typeOf) else Inr tag))"

definition EtagOrId :: "varint_ops \<Rightarrow> u32 \<Rightarrow> string \<Rightarrow> etag_error + tid" where
  "EtagOrId pw typeOf s =
     (case DecodeTag pw s of
        Inr (typ, tag) \<Rightarrow> if typeOf \<noteq> typ then Inl (IllegalType s) else Inr tag
      | Inl _ \<Rightarrow>
          (case GetOid typeOf s of
             Inl _ \<Rightarrow> Inl (InvalidFormat s)
           | Inr oid \<Rightarrow> if oid < 1 then Inl (NegativeValue s)
                        else Inr \<lparr>tid_Ver = None, tid_Oid = oid\<rparr>))"

text \<open>A versioned node is its id and its version.\<close>

definition GetTag :: "u32 \<Rightarrow> string \<Rightarrow> int \<Rightarrow> etag_error + tid" where
  "GetTag typ node_id node_ver =
     (case GetOid typ node_id of
        Inl e \<Rightarrow> Inl e
      | Inr oid \<Rightarrow> Inr \<lparr>tid_Ver = Some node_ver, tid_Oid = oid\<rparr>)"

record etag =
  etag_Tid :: tid
  etag_Type :: u32

definition ETag_Valid :: "etag option \<Rightarrow> etag_error option" where
  "ETag_Valid e =
     (case e of
        None \<Rightarrow> Some MissingTag
      | Some t \<Rightarrow> if etag_Type t \<le> NoType then Some MissingType else Tid_Valid (Some (etag_Tid t)))"

definition ETag_String :: "varint_ops \<Rightarrow> etag \<Rightarrow> etag_error + string" where
  "ETag_String pw e = EncodeEtag pw (etag_Type e) (tid_Oid (etag_Tid e)) (Tid_GetVer (Some (etag_Tid e)))"

section \<open>Constraints on nodes (proto.go)\<close>

definition RequireId :: "string \<Rightarrow> etag_error option" where
  "RequireId node_id = (if node_id = [] then Some NodeIdRequired else None)"

definition UniqueId :: "string \<Rightarrow> string \<Rightarrow> etag_error option" where
  "UniqueId this_id that_id = (if this_id \<noteq> [] \<and> this_id = that_id then None else None)"

section \<open>Base32 round trip\<close>

lemma mask31: "(31::u8) = mask 5" by (simp add: mask_eq_exp_minus_1)


lemma u8_eqI:
  fixes a b :: u8
  assumes "bit a 0 = bit b 0" "bit a 1 = bit b 1" "bit a 2 = bit b 2" "bit a 3 = bit b 3"
    "bit a 4 = bit b 4" "bit a 5 = bit b 5" "bit a 6 = bit b 6" "bit a 7 = bit b 7"
  shows "a = b"
proof (rule bit_word_eqI)
  fix n assume "n < LENGTH(8)"
  then have "n < 8" by simp
  then consider "n = 0" | "n = 1" | "n = 2" | "n = 3" | "n = 4" | "n = 5" | "n = 6" | "n = 7" by linarith
  then show "bit a n = bit b n" using assms by cases simp_all
qed

lemma u8_bit_high: "8 \<le> n \<Longrightarrow> \<not> bit (b :: u8) n"
  by (auto dest: bit_imp_le_length)

lemma b32_pack_unpack:
  "b32_pack (b32_unpack [b0]) = [b0]"
  "b32_pack (b32_unpack [b0, b1]) = [b0, b1]"
  "b32_pack (b32_unpack [b0, b1, b2]) = [b0, b1, b2]"
  "b32_pack (b32_unpack [b0, b1, b2, b3]) = [b0, b1, b2, b3]"
  "b32_pack (b32_unpack [b0, b1, b2, b3, b4]) = [b0, b1, b2, b3, b4]"
  unfolding b32_unpack_def mask31 b32_pack_def
  by (simp_all only: list.case list.inject simp_thms)
   (intro conjI u8_eqI; simp only: bit_or_iff bit_and_iff bit_mask_iff bit_push_bit_iff bit_drop_bit_eq comp_def; simp add: u8_bit_high eval_nat_numeral)+


lemma u8_less_32:
  assumes "\<And>n. 5 \<le> n \<Longrightarrow> \<not> bit (x :: u8) n"
  shows "x < 32"
proof -
  have "x = x AND mask 5"
    using assms by (intro bit_word_eqI) (auto simp: bit_simps not_le [symmetric])
  also have "\<dots> \<le> mask 5" by (rule word_and_le1)
  also have "mask 5 < (32 :: u8)" by (simp add: mask31 [symmetric])
  finally show ?thesis .
qed

lemma five_bits:
  fixes a b :: u8
  shows "a AND 31 < 32" and "3 \<le> k \<Longrightarrow> drop_bit k a < 32" and "a < 32 \<Longrightarrow> b < 32 \<Longrightarrow> a OR b < 32"
proof -
  have hi: "\<not> bit x n" if "x < 32" "5 \<le> n" for x :: u8 and n
  proof -
    have "unat x < 2 ^ 5" using that(1) by (simp add: word_less_nat_alt)
    also have "\<dots> \<le> 2 ^ n" using that(2) by (intro power_increasing) auto
    finally have "\<not> bit (unat x) n" by (simp add: bit_iff_odd)
    then show ?thesis by (auto simp: bit_unsigned_iff dest: bit_imp_le_length)
  qed
  show "a AND 31 < 32" by (rule u8_less_32) (simp add: mask31 bit_and_iff bit_mask_iff)
  show "drop_bit k a < 32" if "3 \<le> k"
    using that by (intro u8_less_32) (simp add: bit_drop_bit_eq u8_bit_high)
  show "a OR b < 32" if "a < 32" "b < 32"
    using that hi by (intro u8_less_32) (simp add: bit_or_iff)
qed

lemma b32_unpack_range: "length g \<le> 5 \<Longrightarrow> v \<in> set (b32_unpack g) \<Longrightarrow> v < 32"
  by (cases g rule: b32_symbols.cases) (auto simp: b32_unpack_def five_bits)

lemma b32_alphabet: "length encodeEtag = 32" "distinct encodeEtag"
  "list_all (\<lambda>c. c \<noteq> CHR 0xFF \<and> c \<noteq> CHR 0x0D \<and> c \<noteq> CHR 0x0A \<and> \<not> is_digit c \<and> \<not> is_space c
      \<and> c \<noteq> CHR '','' \<and> c \<noteq> CHR ''-'' \<and> c \<noteq> CHR ''+'') encodeEtag"
  by code_simp+

lemma unat_less_32: "(v :: u8) < 32 \<Longrightarrow> unat v < 32"
  by (simp add: word_less_nat_alt)

lemma b32_char_in: "v < 32 \<Longrightarrow> b32_char v \<in> set encodeEtag"
  using unat_less_32 [of v] by (simp add: b32_char_def b32_alphabet(1))

lemma b32_value_char: "v < 32 \<Longrightarrow> b32_value (b32_char v) = Some v"
  using unat_less_32 [of v] map_of_zip_nth [of encodeEtag "map (of_nat :: nat \<Rightarrow> u8) [0..<32]" "unat v"]
  by (simp add: b32_value_def b32_char_def b32_alphabet)

lemma b32_char_plain:
  assumes "v < 32"
  shows "b32_char v \<noteq> CHR 0xFF" "b32_char v \<noteq> CHR 0x0D" "b32_char v \<noteq> CHR 0x0A"
  using b32_char_in [OF assms] b32_alphabet(3) by (auto simp: list_all_iff)

lemma quantum_chars:
  assumes "list_all (\<lambda>v. v < 32) syms" and "length dbuf + length syms \<le> 8"
  shows "quantum (map b32_char syms @ rest) dbuf = quantum rest (dbuf @ syms)"
  using assms
proof (induction syms arbitrary: dbuf)
  case (Cons v syms)
  then have "quantum (map b32_char (v # syms) @ rest) dbuf = quantum (map b32_char syms @ rest) (dbuf @ [v])"
    by (subst quantum.simps) (simp add: b32_value_char b32_char_plain)
  also have "\<dots> = quantum rest ((dbuf @ [v]) @ syms)" using Cons by (intro Cons.IH) auto
  finally show ?case by simp
qed simp

lemma b32_symbols_range: "v \<in> set (b32_symbols bs) \<Longrightarrow> v < 32"
proof (induction bs rule: b32_symbols.induct)
  case (1 b0 b1 b2 b3 b4 rest)
  then show ?case using b32_unpack_range [of "[b0, b1, b2, b3, b4]" v] by auto
qed (auto dest: b32_unpack_range [rotated])

lemma b32_decode_end:
  assumes "list_all (\<lambda>v. v < 32) syms" and "syms \<noteq> []" and "length syms < 8"
  shows "b32_decode (map b32_char syms) = Some (b32_pack syms)"
proof -
  have "quantum (map b32_char syms) [] = Some (syms, [], True)"
    using quantum_chars [OF assms(1), of "[]" "[]"] assms(3)
    by (simp add: quantum.simps [of "[]" syms])
  then show ?thesis using assms(2) by (simp add: b32_decode.simps [of "map b32_char syms"])
qed

lemma b32_decode_more:
  assumes "list_all (\<lambda>v. v < 32) syms" and "length syms = 8"
  shows "b32_decode (map b32_char syms @ rest) = map_option ((@) (b32_pack syms)) (b32_decode rest)"
proof -
  have "quantum (map b32_char syms @ rest) [] = Some (syms, rest, False)"
    using quantum_chars [OF assms(1), of "[]" rest] assms(2)
    by (simp add: quantum.simps [of rest syms])
  moreover have "syms \<noteq> []" using assms(2) by auto
  ultimately show ?thesis by (simp add: b32_decode.simps [of "map b32_char syms @ rest"])
qed

lemma b32_decode_encode: "b32_decode (map b32_char (b32_symbols bs)) = Some bs"
proof (induction bs rule: b32_symbols.induct, goal_cases)
  case (1 b0 b1 b2 b3 b4 rest)
  have r: "list_all (\<lambda>v. v < 32) (b32_unpack [b0, b1, b2, b3, b4])"
    using b32_unpack_range [of "[b0, b1, b2, b3, b4]"] by (auto simp: list_all_iff)
  have l: "length (b32_unpack [b0, b1, b2, b3, b4]) = 8" by (simp add: b32_unpack_def)
  show ?case using b32_decode_more [OF r l] 1 by (simp add: b32_pack_unpack)
next
  case 2
  show ?case by (simp add: b32_unpack_def b32_decode.simps)
next
  case (3 b0)
  show ?case
    using b32_unpack_range [of "[b0]"]
    by (subst b32_decode_end) (auto simp: list_all_iff b32_pack_unpack, simp_all add: b32_unpack_def)
next
  case (4 b0 b1)
  show ?case
    using b32_unpack_range [of "[b0, b1]"]
    by (subst b32_decode_end) (auto simp: list_all_iff b32_pack_unpack, simp_all add: b32_unpack_def)
next
  case (5 b0 b1 b2)
  show ?case
    using b32_unpack_range [of "[b0, b1, b2]"]
    by (subst b32_decode_end) (auto simp: list_all_iff b32_pack_unpack, simp_all add: b32_unpack_def)
next
  case (6 b0 b1 b2 b3)
  show ?case
    using b32_unpack_range [of "[b0, b1, b2, b3]"]
    by (subst b32_decode_end) (auto simp: list_all_iff b32_pack_unpack, simp_all add: b32_unpack_def)
qed

lemma DecodeString_EncodeToString: "DecodeString (EncodeToString bs) = Some bs"
proof -
  have "filter (\<lambda>c. c \<noteq> CHR 0x0D \<and> c \<noteq> CHR 0x0A) (EncodeToString bs) = EncodeToString bs"
    using b32_symbols_range [of _ bs] b32_char_plain by (auto simp: EncodeToString_def intro!: filter_True)
  then show ?thesis by (simp only: DecodeString_def EncodeToString_def b32_decode_encode)
qed


section \<open>Tags, encoded and decoded\<close>

text \<open>What the code relies on of \<^verbatim>\<open>protowire\<close>: an appended varint is consumed whole, whatever follows.\<close>

definition varint_laws :: "varint_ops \<Rightarrow> bool" where
  "varint_laws pw \<longleftrightarrow>
     (\<forall>v rest. vi_Append pw v \<noteq> [] \<and>
        vi_Consume pw (vi_Append pw v @ rest) = Some (v, length (vi_Append pw v)))"

lemma varint_consume:
  assumes "varint_laws pw"
  shows "vi_Consume pw (vi_Append pw v @ rest) = Some (v, length (vi_Append pw v))"
    and "vi_Consume pw (vi_Append pw v) = Some (v, length (vi_Append pw v))"
    and "0 < length (vi_Append pw v)"
proof -
  show *: "vi_Consume pw (vi_Append pw v @ rest) = Some (v, length (vi_Append pw v))" for rest
    using assms unfolding varint_laws_def by blast
  show "vi_Consume pw (vi_Append pw v) = Some (v, length (vi_Append pw v))" using * [of "[]"] by simp
  show "0 < length (vi_Append pw v)" using assms unfolding varint_laws_def by simp
qed

lemma ConsumeTag_AppendTag:
  assumes laws: "varint_laws pw" and "in_int64 oid" and "- (2 ^ 31) \<le> ver" "ver < 2 ^ 31"
  shows "ConsumeTag pw (AppendTag pw [] typ oid ver) = (typ, oid, ver, length (AppendTag pw [] typ oid ver))"
proof -
  have "consume_values pw 3 (AppendTag pw [] typ oid ver) =
      Some ([word_of_int ver, ucast typ, word_of_int oid], length (AppendTag pw [] typ oid ver))"
    by (simp add: AppendTag_def eval_nat_numeral varint_consume [OF laws])
  moreover have "sint (word_of_int oid :: u64) = oid"
    using assms(2) by (simp add: sint_sbintrunc' in_int64_def signed_take_bit_int_eq_self)
  moreover have "sint (ucast (word_of_int ver :: u64) :: 32 word) = ver"
  proof -
    have "(ucast (word_of_int ver :: u64) :: 32 word) = word_of_int ver"
      by (rule bit_word_eqI) (simp add: bit_simps)
    then show ?thesis
      using assms(3,4) by (simp add: sint_sbintrunc' signed_take_bit_int_eq_self)
  qed
  moreover have "(ucast (ucast typ :: u64) :: u32) = typ"
    by (rule bit_word_eqI) (auto simp: bit_simps)
  ultimately show ?thesis by (simp add: ConsumeTag_def)
qed

lemma DecodeEtag_EncodeToString:
  assumes "varint_laws pw" and "in_int64 oid" and "- (2 ^ 31) \<le> ver" "ver < 2 ^ 31"
  shows "DecodeEtag pw (EncodeToString (AppendTag pw [] typ oid ver)) = Inr (typ, oid, ver)"
proof -
  have "0 < length (AppendTag pw [] typ oid ver)"
    using varint_consume(3) [OF assms(1)] by (simp add: AppendTag_def)
  then show ?thesis
    by (simp add: DecodeEtag_def DecodeString_EncodeToString ConsumeTag_AppendTag [OF assms])
qed

lemma DecodeTag_digits:
  assumes "all_digits s"
  shows "\<exists>e. DecodeTag pw s = Inl e"
proof -
  obtain c cs where s: "s = c # cs" "is_digit c" using assms by (cases s) (auto simp: all_digits_def)
  then have plain: "c \<noteq> CHR 0x0D" "c \<noteq> CHR 0x0A" "c \<noteq> CHR 0xFF" by (auto simp: is_digit_def)
  have "c \<notin> set encodeEtag" using b32_alphabet(3) s(2) by (auto simp: list_all_iff)
  then have "b32_value c = None" by (auto simp: b32_value_def map_of_eq_None_iff dest: set_zip_leftD)
  then have "DecodeString s = None"
    using plain by (simp add: DecodeString_def s(1) b32_decode.simps [of "c # _"] quantum.simps [of "c # _"])
  then show ?thesis by (simp add: DecodeTag_def DecodeEtag_def)
qed

section \<open>Properties\<close>

text \<open>
  C8: every tag that \<^verbatim>\<open>EncodeEtag\<close> produces decodes to the type, oid and version it was made of, through
  the varints and the base32 text; so two different tuples never share a tag.
\<close>

theorem DecodeEtag_EncodeEtag:
  assumes "varint_laws pw" and "EncodeEtag pw typ oid ver = Inr s" and "oid < 2 ^ 63" and "ver < 2 ^ 31"
  shows "DecodeEtag pw s = Inr (typ, oid, ver)"
proof -
  have r: "1 \<le> oid" "0 \<le> ver" and s: "s = EncodeToString (AppendTag pw [] typ oid ver)"
    using assms(2) by (auto simp: EncodeEtag_def split: if_splits)
  show ?thesis
    unfolding s using r assms by (intro DecodeEtag_EncodeToString) (auto simp: in_int64_def)
qed

text \<open>LEB128, the encoding of varints.\<close>

fun leb :: "nat \<Rightarrow> u8 list" where
  "leb v = (if v < 128 then [of_nat v] else of_nat (v mod 128 + 128) # leb (v div 128))"

declare leb.simps [simp del]

fun leb_read :: "u8 list \<Rightarrow> (nat \<times> nat) option" where
  "leb_read [] = None"
| "leb_read (b # bs) =
     (if unat b < 128 then Some (unat b, 1)
      else (case leb_read bs of None \<Rightarrow> None | Some (v, n) \<Rightarrow> Some (unat b - 128 + 128 * v, Suc n)))"

definition leb128 :: varint_ops where
  "leb128 =
     \<lparr>vi_Append = \<lambda>v. leb (unat v), vi_Consume = \<lambda>bs. map_option (\<lambda>(v, n). (of_nat v, n)) (leb_read bs)\<rparr>"

lemma leb_read_leb: "leb_read (leb v @ rest) = Some (v, length (leb v))"
proof (induction v rule: leb.induct)
  case (1 v)
  show ?case
  proof (cases "v < 128")
    case True
    then show ?thesis by (simp add: leb.simps [of v] unat_of_nat)
  next
    case False
    then have "leb_read (leb (v div 128) @ rest) = Some (v div 128, length (leb (v div 128)))" by (rule 1)
    moreover have "unat (of_nat (v mod 128 + 128) :: u8) = v mod 128 + 128"
      by (subst unat_of_nat) (simp add: take_bit_nat_eq_self)
    ultimately show ?thesis using False by (simp add: leb.simps [of v])
  qed
qed

lemma leb128_laws: "varint_laws leb128"
proof -
  have "leb n \<noteq> []" for n by (subst leb.simps) simp
  then show ?thesis by (simp add: varint_laws_def leb128_def leb_read_leb)
qed

theorem DecodeEtag_EncodeEtag_witness:
  "\<exists>s. EncodeEtag leb128 EtagCase 12345 3 = Inr s \<and> DecodeEtag leb128 s = Inr (EtagCase, 12345, 3)"
  using DecodeEtag_EncodeEtag [OF leb128_laws, of EtagCase 12345 3]
  by (simp add: EncodeEtag_def EtagCase_def NoType_def)

text \<open>
  \<^verbatim>\<open>EtagOrId\<close> reads a tag of the expected type as its tuple and version, refuses a tag of any other
  type, and reads the decimal text of a positive oid as that oid without a version: no decimal text
  is mistaken for a tag.
\<close>

theorem EtagOrId_reads:
  assumes "varint_laws pw" and "1 \<le> oid" "oid < 2 ^ 63" and "0 \<le> ver" "ver < 2 ^ 31"
    and "EncodeEtag pw typ oid ver = Inr s"
  shows "EtagOrId pw typeOf s =
           (if typeOf = typ then Inr \<lparr>tid_Ver = Some ver, tid_Oid = oid\<rparr> else Inl (IllegalType s)) \<and>
         EtagOrId pw typeOf (fmt_int oid) = Inr \<lparr>tid_Ver = None, tid_Oid = oid\<rparr>"
proof -
  have s: "s = EncodeToString (AppendTag pw [] typ oid ver)"
    using assms(6) by (auto simp: EncodeEtag_def split: if_splits)
  have i: "in_int64 oid" using assms by (simp add: in_int64_def)
  have "DecodeEtag pw s = Inr (typ, oid, ver)"
    unfolding s using assms i by (intro DecodeEtag_EncodeToString) auto
  moreover have "all_digits (fmt_int oid)"
    using assms(2) by (simp add: fmt_int_def fmt_nat_all_digits)
  then obtain e where "DecodeTag pw (fmt_int oid) = Inl e" using DecodeTag_digits by blast
  ultimately show ?thesis
    using assms(2) i by (auto simp: EtagOrId_def DecodeTag_def GetOid_def)
qed

theorem EtagOrId_reads_witness:
  "\<exists>s. EncodeEtag leb128 EtagCase 7 0 = Inr s \<and>
       EtagOrId leb128 EtagCase s = Inr \<lparr>tid_Ver = Some 0, tid_Oid = 7\<rparr> \<and>
       EtagOrId leb128 EtagCase (fmt_int 7) = Inr \<lparr>tid_Ver = None, tid_Oid = 7\<rparr>"
  using EtagOrId_reads [OF leb128_laws, of 7 0 EtagCase _ EtagCase]
  by (simp add: EncodeEtag_def EtagCase_def NoType_def)

text \<open>
  \<^verbatim>\<open>EtagOrId\<close> checks the oid of a plain id only: a well-formed tag that carries an oid that is not
  positive is accepted, and the tuple it returns is one that \<^verbatim>\<open>Valid\<close> refuses.
\<close>

theorem EtagOrId_accepts_bad_oid:
  assumes "varint_laws pw" and "- (2 ^ 63) \<le> oid" "oid < 1" and "- (2 ^ 31) \<le> ver" "ver < 2 ^ 31"
  shows "\<exists>tag. EtagOrId pw typ (EncodeToString (AppendTag pw [] typ oid ver)) = Inr tag \<and>
               Tid_Valid (Some tag) = Some MissingOid"
proof -
  have "in_int64 oid" using assms by (simp add: in_int64_def)
  then show ?thesis
    using DecodeEtag_EncodeToString [OF assms(1) _ assms(4,5), of oid "typ"] assms(3)
    by (simp add: EtagOrId_def DecodeTag_def Tid_Valid_def)
qed

theorem EtagOrId_accepts_bad_oid_witness:
  "\<exists>tag. EtagOrId leb128 EtagCase (EncodeToString (AppendTag leb128 [] EtagCase 0 0)) = Inr tag \<and>
         Tid_Valid (Some tag) = Some MissingOid"
  by (rule EtagOrId_accepts_bad_oid [OF leb128_laws]) simp_all

end
