(* ===== verification/Etag_Fields.thy ===== *)
theory Etag_Fields
  imports Etag_Codec
begin

text \<open>
  \<^verbatim>\<open>src/pkg/etag/syntax.go\<close>, \<^verbatim>\<open>fields.go\<close> and \<^verbatim>\<open>InputIdOrEtag\<close>: scopes and lists of field names without
  duplicates, selectors with their wildcards, and lists of ids and tags.
\<close>

section \<open>Scopes (syntax.go)\<close>

definition Name :: "string \<Rightarrow> string" where
  "Name s = to_lower (trim_space s)"

definition HasScope :: "string list \<Rightarrow> string \<Rightarrow> bool" where
  "HasScope scope name =
     (if scope = [] then False
      else (let name = Name name in if name = [] then True else name \<in> set scope))"

fun AddScope :: "string list \<Rightarrow> string list \<Rightarrow> string list" where
  "AddScope scope [] = scope"
| "AddScope scope (c # names) =
     (let name = Name c
      in if name = [] then AddScope scope names
         else if \<not> HasScope scope name then AddScope (scope @ [name]) names
         else AddScope scope names)"

definition FieldsCopy :: "string list \<Rightarrow> string list" where
  "FieldsCopy flds = AddScope [] flds"

section \<open>Fields (flds.go)\<close>

text \<open>\<^verbatim>\<open>strings.EqualFold\<close> on ASCII text.\<close>

definition EqualFold :: "string \<Rightarrow> string \<Rightarrow> bool" where
  "EqualFold s t \<longleftrightarrow> to_lower s = to_lower t"

fun MergeFields :: "string list \<Rightarrow> string list \<Rightarrow> string list" where
  "MergeFields dst [] = dst"
| "MergeFields dst (attr # src) =
     (if attr = [] then MergeFields dst src
      else if list_ex (\<lambda>d. EqualFold d attr) dst then MergeFields dst src
      else MergeFields (dst @ [attr]) src)"

definition is_split :: "char \<Rightarrow> bool" where
  "is_split r \<longleftrightarrow> r = CHR '','' \<or> is_space r"

text \<open>\<^verbatim>\<open>strings.FieldsFunc\<close>: the maximal runs of characters that do not split.\<close>

fun fields_acc :: "string \<Rightarrow> string \<Rightarrow> string list" where
  "fields_acc cur [] = (if cur = [] then [] else [cur])"
| "fields_acc cur (c # cs) =
     (if is_split c then (if cur = [] then fields_acc [] cs else cur # fields_acc [] cs)
      else fields_acc (cur @ [c]) cs)"

definition strings_FieldsFunc :: "string \<Rightarrow> string list" where
  "strings_FieldsFunc s = fields_acc [] s"

definition InlineFields :: "string \<Rightarrow> string list" where
  "InlineFields selector = strings_FieldsFunc (to_lower selector)"

text \<open>
  The loop of \<^verbatim>\<open>SelectFields\<close>: a wildcard replaces the fields in place and moves the index, so it may
  run forever (with a wildcard among the attributes, say).
\<close>

partial_function (option) select_loop ::
    "string list \<Rightarrow> string list \<Rightarrow> string list \<Rightarrow> nat \<Rightarrow> string list option" where
  "select_loop userattrs operational flds i =
     (if i < length flds then
        (let n = length flds;
             flds' =
               (if flds ! i = ''*'' then
                  MergeFields (take i flds) (MergeFields userattrs (drop (i + 1) flds))
                else if flds ! i = ''+'' then
                  MergeFields (take i flds)
                    (MergeFields (MergeFields operational userattrs) (drop (i + 1) flds))
                else flds);
             i' = (if length flds' > n then length flds' - n - 1 else i)
         in select_loop userattrs operational flds' (i' + 1))
      else Some flds)"

definition SelectFields :: "string list \<Rightarrow> string list \<Rightarrow> string \<Rightarrow> string list option" where
  "SelectFields userattrs operational selector =
     (let flds = strings_FieldsFunc (to_lower selector)
      in if flds = [] then Some userattrs else select_loop userattrs operational flds 0)"

text \<open>
  The loop of \<^verbatim>\<open>FieldsFunc\<close>: \<open>seen\<close> is the part of \<open>src\<close> before the index, rewritten in place, and
  \<open>dst\<close> the output list once it had to be rebuilt.
\<close>

fun fields_loop ::
    "(string \<Rightarrow> string list) \<Rightarrow> string list \<Rightarrow> string list option \<Rightarrow> string list \<Rightarrow> string list" where
  "fields_loop fn seen dst [] = (case dst of None \<Rightarrow> seen | Some d \<Rightarrow> d)"
| "fields_loop fn seen dst (s # src) =
     (case fn s of
        [] \<Rightarrow> fields_loop fn seen dst src
      | [x] \<Rightarrow>
          if x = [] then fields_loop fn seen dst src
          else
            (case dst of
               None \<Rightarrow> fields_loop fn (seen @ [x]) None src
             | Some d \<Rightarrow> fields_loop fn (seen @ [s]) (Some (MergeFields d [x])) src)
      | many \<Rightarrow>
          (let d = (case dst of None \<Rightarrow> seen | Some d \<Rightarrow> d)
           in fields_loop fn (seen @ [s]) (Some (MergeFields d many)) src))"

definition FieldsFunc :: "string list \<Rightarrow> (string \<Rightarrow> string list) \<Rightarrow> string list" where
  "FieldsFunc src fn = (if src = [] then fn [] else fields_loop fn [] None src)"

section \<open>Lists of ids and tags (etag.go)\<close>

fun input_loop :: "varint_ops \<Rightarrow> u32 \<Rightarrow> tid list \<Rightarrow> string list \<Rightarrow> etag_error + tid list" where
  "input_loop pw typeOf seen [] = Inr seen"
| "input_loop pw typeOf seen (s # input) =
     (case EtagOrId pw typeOf s of
        Inl e \<Rightarrow> Inl e
      | Inr t \<Rightarrow>
          if list_ex (\<lambda>e. tid_Oid t = tid_Oid e) seen then Inl (DuplicateInput s (tid_Oid t))
          else input_loop pw typeOf (seen @ [t]) input)"

text \<open>\<^const>\<open>None\<close> is the nil list of no input.\<close>

definition InputIdOrEtag :: "varint_ops \<Rightarrow> u32 \<Rightarrow> string list \<Rightarrow> etag_error + tid list option" where
  "InputIdOrEtag pw typeOf input0 =
     (let input = FieldsFunc input0 strings_FieldsFunc
      in if input = [] \<or> input = [[]] then Inr None
         else map_sum id Some (input_loop pw typeOf [] input))"

section \<open>Merged fields are distinct\<close>

definition fold_distinct :: "string list \<Rightarrow> bool" where
  "fold_distinct xs \<longleftrightarrow> distinct (map to_lower xs)"

lemma MergeFields_prefix: "\<exists>new. MergeFields dst src = dst @ new \<and> set new \<subseteq> set src"
proof (induction dst src rule: MergeFields.induct)
  case (2 dst attr src)
  then show ?case by (cases "attr = []"; cases "list_ex (\<lambda>d. EqualFold d attr) dst") fastforce+
qed simp

lemma MergeFields_distinct: "fold_distinct dst \<Longrightarrow> fold_distinct (MergeFields dst src)"
proof (induction dst src rule: MergeFields.induct)
  case (2 dst attr src)
  have "fold_distinct (dst @ [attr])" if "\<not> list_ex (\<lambda>d. EqualFold d attr) dst"
    using that 2(4) by (auto simp: fold_distinct_def list_ex_iff EqualFold_def)
  with 2 show ?case by simp
qed simp

lemma MergeFields_covers:
  "a \<in> set src \<Longrightarrow> a \<noteq> [] \<Longrightarrow> \<exists>b \<in> set (MergeFields dst src). EqualFold b a"
proof (induction dst src rule: MergeFields.induct)
  case (2 dst attr src)
  obtain new where new: "MergeFields (dst @ [attr]) src = (dst @ [attr]) @ new"
    using MergeFields_prefix [of "dst @ [attr]" src] by blast
  obtain new' where new': "MergeFields dst src = dst @ new'"
    using MergeFields_prefix [of dst src] by blast
  show ?case
  proof (cases "a = attr")
    case True
    with 2(5) show ?thesis
      by (cases "list_ex (\<lambda>d. EqualFold d attr) dst")
        (auto simp: list_ex_iff new new' EqualFold_def)
  next
    case False
    with 2 show ?thesis by auto
  qed
qed simp

section \<open>Properties\<close>

text \<open>
  \<^verbatim>\<open>MergeFields\<close> keeps the destination as a prefix, adds only fields of the source, loses none of
  them up to letter case, and never creates a duplicate: a list without duplicates stays one.
\<close>

theorem MergeFields_set:
  assumes "fold_distinct dst"
  shows "\<exists>new. MergeFields dst src = dst @ new \<and> set new \<subseteq> set src \<and>
           fold_distinct (MergeFields dst src) \<and>
           (\<forall>a. a \<in> set src \<and> a \<noteq> [] \<longrightarrow> (\<exists>b \<in> set (MergeFields dst src). EqualFold b a))"
  using MergeFields_prefix [of dst src] MergeFields_distinct [OF assms, of src]
    MergeFields_covers [of _ src dst] by blast

theorem MergeFields_set_witness:
  "\<exists>new. MergeFields [''id''] [''ID'', ''name''] = [''id''] @ new \<and> set new \<subseteq> {''ID'', ''name''}"
  using MergeFields_set [of "[''id'']" "[''ID'', ''name'']"] by (auto simp: fold_distinct_def)

text \<open>
  A wildcard whose attributes are all selected already makes \<^verbatim>\<open>SelectFields\<close> skip the next field: in
  the selector \<open>id,*,+\<close> with the single user attribute \<open>id\<close> the second wildcard is left in the result
  and the operational attributes are missing, whatever they are.
\<close>

theorem SelectFields_skips_wildcard:
  "SelectFields [''id''] operational ''id,*,+'' = Some [''id'', ''+'']"
proof -
  have f: "strings_FieldsFunc (to_lower ''id,*,+'') = [''id'', ''*'', ''+'']" by code_simp
  have m1: "MergeFields [''id''] [''+''] = [''id'', ''+'']" by code_simp
  have m2: "MergeFields [''id''] [''id'', ''+''] = [''id'', ''+'']" by code_simp
  let ?l = "select_loop [''id''] operational"
  have "?l [''id'', ''*'', ''+''] 0 = ?l [''id'', ''*'', ''+''] 1"
    by (subst select_loop.simps) simp
  also have "\<dots> = ?l [''id'', ''+''] 2"
    by (subst select_loop.simps) (simp add: m1 m2 eval_nat_numeral del: MergeFields.simps)
  also have "\<dots> = Some [''id'', ''+'']"
    by (subst select_loop.simps) simp
  finally have "?l [''id'', ''*'', ''+''] 0 = Some [''id'', ''+'']" .
  then show ?thesis by (simp add: SelectFields_def f)
qed


lemma input_loop_Inr:
  "input_loop pw typeOf seen input = Inr data \<Longrightarrow> distinct (map tid_Oid seen) \<Longrightarrow>
   \<exists>new. data = seen @ new \<and> list_all2 (\<lambda>s t. EtagOrId pw typeOf s = Inr t) input new \<and>
         distinct (map tid_Oid data)"
proof (induction input arbitrary: seen)
  case (Cons s input)
  then obtain t where t: "EtagOrId pw typeOf s = Inr t" "\<not> list_ex (\<lambda>e. tid_Oid t = tid_Oid e) seen"
    "input_loop pw typeOf (seen @ [t]) input = Inr data"
    by (auto split: sum.splits if_splits)
  then have "distinct (map tid_Oid (seen @ [t]))" using Cons.prems(2) by (auto simp: list_ex_iff)
  from Cons.IH [OF t(3) this] t(1) show ?case by fastforce
qed simp

text \<open>
  What \<^verbatim>\<open>InputIdOrEtag\<close> returns has one tuple per item of the input, each the reading of its item, and
  no two of them name the same oid.
\<close>

theorem InputIdOrEtag_unique:
  assumes "InputIdOrEtag pw typeOf input = Inr (Some data)"
  shows "list_all2 (\<lambda>s t. EtagOrId pw typeOf s = Inr t) (FieldsFunc input strings_FieldsFunc) data \<and>
         distinct (map tid_Oid data)"
proof -
  have "input_loop pw typeOf [] (FieldsFunc input strings_FieldsFunc) = Inr data"
    using assms by (auto simp: InputIdOrEtag_def Let_def map_sum_def split: if_splits sum.splits)
  from input_loop_Inr [OF this] show ?thesis by simp
qed

theorem InputIdOrEtag_unique_witness:
  "InputIdOrEtag leb128 EtagCase [''7, 9''] =
     Inr (Some [\<lparr>tid_Ver = None, tid_Oid = 7\<rparr>, \<lparr>tid_Ver = None, tid_Oid = 9\<rparr>]) \<and>
   distinct (map tid_Oid [\<lparr>tid_Ver = None, tid_Oid = 7\<rparr>, \<lparr>tid_Ver = None, tid_Oid = 9\<rparr>])"
proof -
  have f: "FieldsFunc [''7, 9''] strings_FieldsFunc = [''7'', ''9'']" by code_simp
  have e: "EtagOrId leb128 EtagCase ''7'' = Inr \<lparr>tid_Ver = None, tid_Oid = 7\<rparr>"
    "EtagOrId leb128 EtagCase ''9'' = Inr \<lparr>tid_Ver = None, tid_Oid = 9\<rparr>" by code_simp+
  have i: "InputIdOrEtag leb128 EtagCase [''7, 9''] =
      Inr (Some [\<lparr>tid_Ver = None, tid_Oid = 7\<rparr>, \<lparr>tid_Ver = None, tid_Oid = 9\<rparr>])"
    by (simp add: InputIdOrEtag_def f e)
  with InputIdOrEtag_unique [OF i] show ?thesis by simp
qed

end
