(* ===== verification/Kit_Cache.thy ===== *)
theory Kit_Cache
  imports Kit_Prelude
begin

text \<open>
  \<^verbatim>\<open>src/pkg/cache\<close>: the cache interface, its in-memory, Ristretto and Redis implementations, the
  two-level cache, the instrumented cache and the bulk helpers.

  A cache is a record of its methods over a world \<open>'w\<close>, the storage behind it. A layer wrapped around
  another has the product of their worlds. Errors are texts.
\<close>

section \<open>The interface (cache.go)\<close>

text \<open>\<^verbatim>\<open>Get\<close> answers an error, a miss (\<^term>\<open>Inr None\<close>) or a hit; the others an error or nothing.\<close>

record ('k, 'v, 'w) cache =
  c_Get :: "'k \<Rightarrow> 'w \<Rightarrow> (string + 'v option) \<times> 'w"
  c_Set :: "'k \<Rightarrow> 'v \<Rightarrow> 'w \<Rightarrow> string option \<times> 'w"
  c_SetTTL :: "'k \<Rightarrow> 'v \<Rightarrow> duration \<Rightarrow> 'w \<Rightarrow> string option \<times> 'w"
  c_Delete :: "'k \<Rightarrow> 'w \<Rightarrow> string option \<times> 'w"
  c_Close :: "'w \<Rightarrow> string option \<times> 'w"

text \<open>A cache of one component of a product world.\<close>

definition on_fst :: "('a \<Rightarrow> 'r \<times> 'a) \<Rightarrow> 'a \<times> 'b \<Rightarrow> 'r \<times> 'a \<times> 'b" where
  "on_fst f w = (case f (fst w) of (r, a) \<Rightarrow> (r, a, snd w))"

definition on_snd :: "('b \<Rightarrow> 'r \<times> 'b) \<Rightarrow> 'a \<times> 'b \<Rightarrow> 'r \<times> 'a \<times> 'b" where
  "on_snd f w = (case f (snd w) of (r, b) \<Rightarrow> (r, fst w, b))"

definition lift_fst :: "('k, 'v, 'a) cache \<Rightarrow> ('k, 'v, 'a \<times> 'b) cache" where
  "lift_fst c =
     \<lparr>c_Get = \<lambda>k. on_fst (c_Get c k), c_Set = \<lambda>k v. on_fst (c_Set c k v),
      c_SetTTL = \<lambda>k v ttl. on_fst (c_SetTTL c k v ttl), c_Delete = \<lambda>k. on_fst (c_Delete c k),
      c_Close = on_fst (c_Close c)\<rparr>"

definition lift_snd :: "('k, 'v, 'b) cache \<Rightarrow> ('k, 'v, 'a \<times> 'b) cache" where
  "lift_snd c =
     \<lparr>c_Get = \<lambda>k. on_snd (c_Get c k), c_Set = \<lambda>k v. on_snd (c_Set c k v),
      c_SetTTL = \<lambda>k v ttl. on_snd (c_SetTTL c k v ttl), c_Delete = \<lambda>k. on_snd (c_Delete c k),
      c_Close = on_snd (c_Close c)\<rparr>"

section \<open>In memory, for tests (noop.go)\<close>

definition Noop :: "('k, 'v, 'k \<rightharpoonup> 'v) cache" where
  "Noop =
     \<lparr>c_Get = \<lambda>k m. (Inr (m k), m),
      c_Set = \<lambda>k v m. (None, m(k \<mapsto> v)),
      c_SetTTL = \<lambda>k v ttl m. (None, m(k \<mapsto> v)),
      c_Delete = \<lambda>k m. (None, m(k := None)),
      c_Close = \<lambda>m. (None, m)\<rparr>"

section \<open>Ristretto (ristretto.go)\<close>

text \<open>\<^verbatim>\<open>dgraph-io/ristretto\<close> is not part of the repository: the methods of its cache over the store \<open>'s\<close>.\<close>

record ('v, 's) ristretto_ops =
  ri_Get :: "string \<Rightarrow> 's \<Rightarrow> 'v option \<times> 's"
  ri_Set :: "string \<Rightarrow> 'v \<Rightarrow> int \<Rightarrow> 's \<Rightarrow> 's"
  ri_SetWithTTL :: "string \<Rightarrow> 'v \<Rightarrow> int \<Rightarrow> duration \<Rightarrow> 's \<Rightarrow> 's"
  ri_Del :: "string \<Rightarrow> 's \<Rightarrow> 's"
  ri_Close :: "'s \<Rightarrow> 's"

record ristretto_config =
  rc_MaxCost :: int
  rc_NumCounters :: int
  rc_BufferItems :: int
  rc_TTL :: duration
  rc_DefaultCost :: int

definition ristretto_defaults :: "ristretto_config \<Rightarrow> ristretto_config" where
  "ristretto_defaults cfg =
     cfg\<lparr>rc_NumCounters := (if rc_NumCounters cfg = 0 then int64 (rc_MaxCost cfg * 10) else rc_NumCounters cfg),
         rc_BufferItems := (if rc_BufferItems cfg = 0 then 64 else rc_BufferItems cfg),
         rc_DefaultCost := (if rc_DefaultCost cfg = 0 then 1 else rc_DefaultCost cfg)\<rparr>"

definition ristretto_cache ::
    "('v, 's) ristretto_ops \<Rightarrow> ristretto_config \<Rightarrow> ('k \<Rightarrow> string) \<Rightarrow> ('k, 'v, 's) cache" where
  "ristretto_cache ri cfg keyFn =
     \<lparr>c_Get = \<lambda>k s. (case ri_Get ri (keyFn k) s of (v, s') \<Rightarrow> (Inr v, s')),
      c_Set = \<lambda>k v s. (None,
        if rc_TTL cfg > 0 then ri_SetWithTTL ri (keyFn k) v (rc_DefaultCost cfg) (rc_TTL cfg) s
        else ri_Set ri (keyFn k) v (rc_DefaultCost cfg) s),
      c_SetTTL = \<lambda>k v ttl s. (None, ri_SetWithTTL ri (keyFn k) v (rc_DefaultCost cfg) ttl s),
      c_Delete = \<lambda>k s. (None, ri_Del ri (keyFn k) s),
      c_Close = \<lambda>s. (None, ri_Close ri s)\<rparr>"

text \<open>\<open>new\<close> is \<^verbatim>\<open>ristretto.NewCache\<close> on the counters, the cost bound and the buffer size.\<close>

definition newRistretto ::
    "(int \<Rightarrow> int \<Rightarrow> int \<Rightarrow> string option) \<Rightarrow> ('v, 's) ristretto_ops \<Rightarrow> ristretto_config \<Rightarrow> ('k \<Rightarrow> string) \<Rightarrow>
     string + ('k, 'v, 's) cache" where
  "newRistretto new ri cfg0 keyFn =
     (let cfg = ristretto_defaults cfg0
      in case new (rc_NumCounters cfg) (rc_MaxCost cfg) (rc_BufferItems cfg) of
           Some e \<Rightarrow> Inl e
         | None \<Rightarrow> Inr (ristretto_cache ri cfg keyFn))"

section \<open>Redis (redis.go, codec.go)\<close>

text \<open>The client's commands over its server \<open>'s\<close>: \<^verbatim>\<open>GET\<close> answers \<^term>\<open>Inr None\<close> for \<^verbatim>\<open>redis.Nil\<close>.\<close>

record 's redis_ops =
  rd_Get :: "string \<Rightarrow> 's \<Rightarrow> (string + string option) \<times> 's"
  rd_Set :: "string \<Rightarrow> string \<Rightarrow> duration \<Rightarrow> 's \<Rightarrow> string option \<times> 's"
  rd_Del :: "string \<Rightarrow> 's \<Rightarrow> string option \<times> 's"

record 'v codec =
  cd_Marshal :: "'v \<Rightarrow> string + string"
  cd_Unmarshal :: "string \<Rightarrow> string + 'v"

definition RawString :: "string codec" where
  "RawString = \<lparr>cd_Marshal = Inr, cd_Unmarshal = Inr\<rparr>"

record 'v redis_config =
  rd_Prefix :: string
  rd_TTL :: duration
  rd_Codec :: "'v codec"

definition redis_key :: "'v redis_config \<Rightarrow> ('k \<Rightarrow> string) \<Rightarrow> 'k \<Rightarrow> string" where
  "redis_key cfg keyFn k = rd_Prefix cfg @ '':'' @ keyFn k"

definition redis_SetTTL ::
    "'s redis_ops \<Rightarrow> 'v redis_config \<Rightarrow> ('k \<Rightarrow> string) \<Rightarrow> 'k \<Rightarrow> 'v \<Rightarrow> duration \<Rightarrow> 's \<Rightarrow> string option \<times> 's" where
  "redis_SetTTL rd cfg keyFn k v ttl s =
     (case cd_Marshal (rd_Codec cfg) v of
        Inl e \<Rightarrow> (Some e, s)
      | Inr data \<Rightarrow> rd_Set rd (redis_key cfg keyFn k) data ttl s)"

definition newRedisCache :: "'s redis_ops \<Rightarrow> 'v redis_config \<Rightarrow> ('k \<Rightarrow> string) \<Rightarrow> ('k, 'v, 's) cache" where
  "newRedisCache rd cfg keyFn =
     \<lparr>c_Get = \<lambda>k s.
        (case rd_Get rd (redis_key cfg keyFn k) s of
           (Inl e, s') \<Rightarrow> (Inl e, s')
         | (Inr None, s') \<Rightarrow> (Inr None, s')
         | (Inr (Some data), s') \<Rightarrow>
             (case cd_Unmarshal (rd_Codec cfg) data of
                Inl e \<Rightarrow> (Inl e, s')
              | Inr v \<Rightarrow> (Inr (Some v), s'))),
      c_Set = \<lambda>k v s. redis_SetTTL rd cfg keyFn k v (rd_TTL cfg) s,
      c_SetTTL = \<lambda>k v ttl s. redis_SetTTL rd cfg keyFn k v ttl s,
      c_Delete = \<lambda>k s. rd_Del rd (redis_key cfg keyFn k) s,
      c_Close = \<lambda>s. (None, s)\<rparr>"

section \<open>Two levels (multilevel.go)\<close>

definition ml_Get ::
    "('k, 'v, 'a) cache \<Rightarrow> ('k, 'v, 'b) cache \<Rightarrow> 'k \<Rightarrow> 'a \<times> 'b \<Rightarrow> (string + 'v option) \<times> 'a \<times> 'b" where
  "ml_Get l1 l2 k w =
     (case c_Get l1 k (fst w) of
        (Inr (Some v), a) \<Rightarrow> (Inr (Some v), a, snd w)
      | (_, a) \<Rightarrow>
          (case c_Get l2 k (snd w) of
             (Inr (Some v), b) \<Rightarrow> (Inr (Some v), snd (c_Set l1 k v a), b)
           | (r, b) \<Rightarrow> (r, a, b)))"

text \<open>\<^verbatim>\<open>Set\<close>, \<^verbatim>\<open>SetTTL\<close> and \<^verbatim>\<open>Delete\<close>: the first layer, and the second only if the first succeeded.\<close>

definition ml_both ::
    "('a \<Rightarrow> string option \<times> 'a) \<Rightarrow> ('b \<Rightarrow> string option \<times> 'b) \<Rightarrow> 'a \<times> 'b \<Rightarrow> string option \<times> 'a \<times> 'b" where
  "ml_both f g w =
     (case f (fst w) of
        (Some e, a) \<Rightarrow> (Some e, a, snd w)
      | (None, a) \<Rightarrow> (case g (snd w) of (r, b) \<Rightarrow> (r, a, b)))"

definition multiLevel :: "('k, 'v, 'a) cache \<Rightarrow> ('k, 'v, 'b) cache \<Rightarrow> ('k, 'v, 'a \<times> 'b) cache" where
  "multiLevel l1 l2 =
     \<lparr>c_Get = ml_Get l1 l2,
      c_Set = \<lambda>k v. ml_both (c_Set l1 k v) (c_Set l2 k v),
      c_SetTTL = \<lambda>k v ttl. ml_both (c_SetTTL l1 k v ttl) (c_SetTTL l2 k v ttl),
      c_Delete = \<lambda>k. ml_both (c_Delete l1 k) (c_Delete l2 k),
      c_Close = \<lambda>w. (case c_Close l1 (fst w) of (_, a) \<Rightarrow> (case c_Close l2 (snd w) of (r, b) \<Rightarrow> (r, a, b)))\<rparr>"

section \<open>Statistics (metrics.go)\<close>

datatype stat_event =
    Hit string string
  | Miss string string
  | StatError string string string

definition ic_Get ::
    "string \<Rightarrow> string \<Rightarrow> ('k, 'v, 'b) cache \<Rightarrow> 'k \<Rightarrow> stat_event list \<times> 'b \<Rightarrow>
     (string + 'v option) \<times> stat_event list \<times> 'b" where
  "ic_Get name layer inner k w =
     (case c_Get inner k (snd w) of
        (r, b) \<Rightarrow>
          (r, fst w @ [case r of
                         Inl _ \<Rightarrow> StatError name layer ''get''
                       | Inr (Some _) \<Rightarrow> Hit name layer
                       | Inr None \<Rightarrow> Miss name layer], b))"

definition ic_op ::
    "string \<Rightarrow> string \<Rightarrow> string \<Rightarrow> ('b \<Rightarrow> string option \<times> 'b) \<Rightarrow> stat_event list \<times> 'b \<Rightarrow>
     string option \<times> stat_event list \<times> 'b" where
  "ic_op name layer op f w =
     (case f (snd w) of
        (Some e, b) \<Rightarrow> (Some e, fst w @ [StatError name layer op], b)
      | (None, b) \<Rightarrow> (None, fst w, b))"

definition newInstrumentedCache ::
    "('k, 'v, 'b) cache \<Rightarrow> string \<Rightarrow> string \<Rightarrow> ('k, 'v, stat_event list \<times> 'b) cache" where
  "newInstrumentedCache inner name layer =
     \<lparr>c_Get = ic_Get name layer inner,
      c_Set = \<lambda>k v. ic_op name layer ''set'' (c_Set inner k v),
      c_SetTTL = \<lambda>k v ttl. ic_op name layer ''set'' (c_SetTTL inner k v ttl),
      c_Delete = \<lambda>k. ic_op name layer ''delete'' (c_Delete inner k),
      c_Close = on_snd (c_Close inner)\<rparr>"

section \<open>Bulk operations (helpers.go)\<close>

text \<open>
  Every key is handled by a goroutine of its own; \<open>keys\<close> is the order in which they finish. The error
  returned by \<^verbatim>\<open>GetMany\<close> is the last one received, that of the others the first.
\<close>

fun GetMany ::
    "('k, 'v, 'w) cache \<Rightarrow> 'k list \<Rightarrow> ('k \<rightharpoonup> 'v) \<times> 'k list \<times> string option \<Rightarrow> 'w \<Rightarrow>
     (('k \<rightharpoonup> 'v) \<times> 'k list \<times> string option) \<times> 'w" where
  "GetMany c [] acc w = (acc, w)"
| "GetMany c (k # keys) (found, missed, err) w =
     (case c_Get c k w of
        (Inl e, w') \<Rightarrow> GetMany c keys (found, missed, Some e) w'
      | (Inr (Some v), w') \<Rightarrow> GetMany c keys (found(k \<mapsto> v), missed, err) w'
      | (Inr None, w') \<Rightarrow> GetMany c keys (found, missed @ [k], err) w')"

fun run_all :: "('w \<Rightarrow> string option \<times> 'w) list \<Rightarrow> string option \<Rightarrow> 'w \<Rightarrow> string option \<times> 'w" where
  "run_all [] first w = (first, w)"
| "run_all (f # fs) first w =
     (case f w of (e, w') \<Rightarrow> run_all fs (case first of None \<Rightarrow> e | Some x \<Rightarrow> Some x) w')"

definition SetMany :: "('k, 'v, 'w) cache \<Rightarrow> ('k \<times> 'v) list \<Rightarrow> 'w \<Rightarrow> string option \<times> 'w" where
  "SetMany c entries w = run_all (map (\<lambda>(k, v). c_Set c k v) entries) None w"

definition DeleteMany :: "('k, 'v, 'w) cache \<Rightarrow> 'k list \<Rightarrow> 'w \<Rightarrow> string option \<times> 'w" where
  "DeleteMany c keys w = run_all (map (c_Delete c) keys) None w"

section \<open>Sequences of operations\<close>

datatype ('k, 'v) cache_op = OpGet 'k | OpSet 'k 'v | OpSetTTL 'k 'v duration | OpDelete 'k

text \<open>The world after a sequence of operations whose writes all succeed.\<close>

fun cache_run :: "('k, 'v, 'w) cache \<Rightarrow> ('k, 'v) cache_op list \<Rightarrow> 'w \<Rightarrow> 'w option" where
  "cache_run c [] w = Some w"
| "cache_run c (OpGet k # ops) w = cache_run c ops (snd (c_Get c k w))"
| "cache_run c (OpSet k v # ops) w =
     (case c_Set c k v w of (None, w') \<Rightarrow> cache_run c ops w' | (Some _, _) \<Rightarrow> None)"
| "cache_run c (OpSetTTL k v ttl # ops) w =
     (case c_SetTTL c k v ttl w of (None, w') \<Rightarrow> cache_run c ops w' | (Some _, _) \<Rightarrow> None)"
| "cache_run c (OpDelete k # ops) w =
     (case c_Delete c k w of (None, w') \<Rightarrow> cache_run c ops w' | (Some _, _) \<Rightarrow> None)"

fun last_written :: "('k, 'v) cache_op list \<Rightarrow> ('k \<rightharpoonup> 'v) \<Rightarrow> ('k \<rightharpoonup> 'v)" where
  "last_written [] m = m"
| "last_written (OpGet k # ops) m = last_written ops m"
| "last_written (OpSet k v # ops) m = last_written ops (m(k \<mapsto> v))"
| "last_written (OpSetTTL k v ttl # ops) m = last_written ops (m(k \<mapsto> v))"
| "last_written (OpDelete k # ops) m = last_written ops (m(k := None))"

section \<open>Coherent caches\<close>

text \<open>
  \<open>R w m\<close>: the storage \<open>w\<close> holds no value that differs from \<open>m\<close>. A cache can be read from when its hits are values of \<open>m\<close> and storing a
  value of \<open>m\<close> once more, with or without success, adds no other.
\<close>

locale readable_cache =
  fixes c :: "('k, 'v, 'w) cache" and R :: "'w \<Rightarrow> ('k \<rightharpoonup> 'v) \<Rightarrow> bool"
  assumes get: "R w m \<Longrightarrow> c_Get c k w = (r, w') \<Longrightarrow> R w' m \<and> (\<forall>v. r = Inr (Some v) \<longrightarrow> m k = Some v)"
    and refill: "R w m \<Longrightarrow> m k = Some v \<Longrightarrow> R (snd (c_Set c k v w)) m"
begin

lemma GetMany_coherent:
  assumes "R w m" and "GetMany c keys (found, missed, err) w = ((found', missed', err'), w')"
    and "found \<subseteq>\<^sub>m m"
  shows "R w' m \<and> found' \<subseteq>\<^sub>m m"
  using assms
proof (induction keys arbitrary: found missed err w)
  case (Cons k keys)
  obtain r w1 where g: "c_Get c k w = (r, w1)" by fastforce
  note ok = get [OF Cons.prems(1) g]
  show ?case
  proof (cases r)
    case (Inl e)
    with Cons g ok show ?thesis by simp
  next
    case (Inr x)
    show ?thesis
    proof (cases x)
      case None
      with Cons g ok Inr show ?thesis by simp
    next
      case (Some v)
      with ok Inr Cons.prems(3) have "found(k \<mapsto> v) \<subseteq>\<^sub>m m" by (auto simp: map_le_def)
      moreover have "GetMany c keys (found(k \<mapsto> v), missed, err) w1 = ((found', missed', err'), w')"
        using Cons.prems(2) g Inr Some by simp
      ultimately show ?thesis using Cons.IH ok by blast
    qed
  qed
qed simp

end

text \<open>
  With \<open>m\<close> the last values written, a cache is coherent when its hits are the last values written: it may forget, but it never
  answers an old value after a write or a deletion that succeeded.
\<close>

locale coherent_cache = readable_cache c R
  for c :: "('k, 'v, 'w) cache" and R +
  assumes set: "R w m \<Longrightarrow> c_Set c k v w = (None, w') \<Longrightarrow> R w' (m(k \<mapsto> v))"
    and setTTL: "R w m \<Longrightarrow> c_SetTTL c k v ttl w = (None, w') \<Longrightarrow> R w' (m(k \<mapsto> v))"
    and delete: "R w m \<Longrightarrow> c_Delete c k w = (None, w') \<Longrightarrow> R w' (m(k := None))"
begin

lemma run_coherent: "R w m \<Longrightarrow> cache_run c ops w = Some w' \<Longrightarrow> R w' (last_written ops m)"
proof (induction ops arbitrary: w m)
  case (Cons op ops)
  show ?case
  proof (cases op)
    case (OpGet k)
    with Cons show ?thesis using get [of w m k] by (cases "c_Get c k w") auto
  next
    case (OpSet k v)
    with Cons show ?thesis using set [of w m k v] by (auto split: prod.splits option.splits)
  next
    case (OpSetTTL k v ttl)
    with Cons show ?thesis using setTTL [of w m k v ttl] by (auto split: prod.splits option.splits)
  next
    case (OpDelete k)
    with Cons show ?thesis using delete [of w m k] by (auto split: prod.splits option.splits)
  qed
qed simp

lemma hit_is_last_write:
  assumes "R w m" and "cache_run c ops w = Some w'" and "c_Get c k w' = (Inr (Some v), w'')"
  shows "last_written ops m k = Some v"
  using get [OF run_coherent [OF assms(1,2)] assms(3)] by simp

end

interpretation noop: coherent_cache Noop "(\<subseteq>\<^sub>m)"
  by unfold_locales (auto simp: Noop_def map_le_def dom_def split: if_splits)

text \<open>Two layers make a cache of the same kind.\<close>

definition pair_R :: "('a \<Rightarrow> 'm \<Rightarrow> bool) \<Rightarrow> ('b \<Rightarrow> 'm \<Rightarrow> bool) \<Rightarrow> 'a \<times> 'b \<Rightarrow> 'm \<Rightarrow> bool" where
  "pair_R R1 R2 w m \<longleftrightarrow> R1 (fst w) m \<and> R2 (snd w) m"

locale two_readable =
  a: readable_cache l1 R1 + b: readable_cache l2 R2
  for l1 :: "('k, 'v, 'a) cache" and R1 and l2 :: "('k, 'v, 'b) cache" and R2
begin

lemma ml_Get_coherent:
  assumes "pair_R R1 R2 w m" and "ml_Get l1 l2 k w = (r, w')"
  shows "pair_R R1 R2 w' m \<and> (\<forall>v. r = Inr (Some v) \<longrightarrow> m k = Some v)"
proof -
  obtain r1 w1 where g1: "c_Get l1 k (fst w) = (r1, w1)" by fastforce
  obtain r2 w2 where g2: "c_Get l2 k (snd w) = (r2, w2)" by fastforce
  have 1: "R1 w1 m" "\<And>v. r1 = Inr (Some v) \<Longrightarrow> m k = Some v"
    using a.get [OF _ g1] assms(1) by (auto simp: pair_R_def)
  have 2: "R2 w2 m" "\<And>v. r2 = Inr (Some v) \<Longrightarrow> m k = Some v"
    using b.get [OF _ g2] assms(1) by (auto simp: pair_R_def)
  have 3: "R1 (snd (c_Set l1 k v w1)) m" if "r2 = Inr (Some v)" for v
    using a.refill [OF 1(1) 2(2) [OF that]] .
  show ?thesis
    using assms 1 2 3
    by (auto simp: ml_Get_def g1 g2 pair_R_def split: sum.splits option.splits)
qed

lemma ml_refill:
  assumes "pair_R R1 R2 w m" and "m k = Some v"
  shows "pair_R R1 R2 (snd (ml_both (c_Set l1 k v) (c_Set l2 k v) w)) m"
  using assms a.refill [of "fst w" m k v] b.refill [of "snd w" m k v]
  by (auto simp: ml_both_def pair_R_def split: prod.splits option.splits)

end

sublocale two_readable \<subseteq> ml: readable_cache "multiLevel l1 l2" "pair_R R1 R2"
proof (unfold_locales, goal_cases)
  case (1 w m k r w')
  then show ?case using ml_Get_coherent by (simp add: multiLevel_def)
next
  case (2 w m k v)
  then show ?case using ml_refill by (simp add: multiLevel_def)
qed

context two_readable
begin

lemma ml_readable: "readable_cache (multiLevel l1 l2) (pair_R R1 R2)"
  by (rule ml.readable_cache_axioms)

end

locale two_levels = two_readable l1 R1 l2 R2 + a: coherent_cache l1 R1 + b: coherent_cache l2 R2
  for l1 :: "('k, 'v, 'a) cache" and R1 and l2 :: "('k, 'v, 'b) cache" and R2
begin

lemma ml_both_coherent:
  assumes "pair_R R1 R2 w m" and "ml_both f g w = (None, w')"
    and "\<And>x. R1 (fst w) m \<Longrightarrow> f (fst w) = (None, x) \<Longrightarrow> R1 x m'"
    and "\<And>x. R2 (snd w) m \<Longrightarrow> g (snd w) = (None, x) \<Longrightarrow> R2 x m'"
  shows "pair_R R1 R2 w' m'"
  using assms by (auto simp: ml_both_def pair_R_def split: prod.splits option.splits)

end

sublocale two_levels \<subseteq> ml: coherent_cache "multiLevel l1 l2" "pair_R R1 R2"
proof (unfold_locales, goal_cases)
  case (1 w m k v w')
  then show ?case
    by (auto simp: multiLevel_def intro: ml_both_coherent [OF 1(1)] a.set b.set)
next
  case (2 w m k v ttl w')
  then show ?case
    by (auto simp: multiLevel_def intro: ml_both_coherent [OF 2(1)] a.setTTL b.setTTL)
next
  case (3 w m k w')
  then show ?case
    by (auto simp: multiLevel_def intro: ml_both_coherent [OF 3(1)] a.delete b.delete)
qed

context two_levels
begin

lemma ml_coherent: "coherent_cache (multiLevel l1 l2) (pair_R R1 R2)"
  by (rule ml.coherent_cache_axioms)

lemma ml_hit_is_last_write:
  "pair_R R1 R2 w m \<Longrightarrow> cache_run (multiLevel l1 l2) ops w = Some w' \<Longrightarrow>
   c_Get (multiLevel l1 l2) k w' = (Inr (Some v), w'') \<Longrightarrow> last_written ops m k = Some v"
  by (rule ml.hit_is_last_write)

end

lemma two_levelsI: "coherent_cache l1 R1 \<Longrightarrow> coherent_cache l2 R2 \<Longrightarrow> two_levels l1 R1 l2 R2"
  by (intro two_levels.intro two_readable.intro coherent_cache.axioms(1))

section \<open>The layers the builder uses\<close>

text \<open>
  What the code relies on of Ristretto: \<open>view\<close> is what the store may answer. It may drop and evict
  entries, but it keeps no older value of a key that was set or deleted.
\<close>

definition ristretto_laws :: "('v, 's) ristretto_ops \<Rightarrow> ('s \<Rightarrow> string \<rightharpoonup> 'v) \<Rightarrow> bool" where
  "ristretto_laws ri view \<longleftrightarrow>
     (\<forall>k s v s'. ri_Get ri k s = (v, s') \<longrightarrow> view s' \<subseteq>\<^sub>m view s \<and> (v = None \<or> v = view s k)) \<and>
     (\<forall>k v cost s. view (ri_Set ri k v cost s) \<subseteq>\<^sub>m (view s)(k \<mapsto> v)) \<and>
     (\<forall>k v cost ttl s. view (ri_SetWithTTL ri k v cost ttl s) \<subseteq>\<^sub>m (view s)(k \<mapsto> v)) \<and>
     (\<forall>k s. view (ri_Del ri k s) \<subseteq>\<^sub>m (view s)(k := None))"

definition ristretto_R :: "('s \<Rightarrow> string \<rightharpoonup> 'v) \<Rightarrow> ('k \<Rightarrow> string) \<Rightarrow> 's \<Rightarrow> ('k \<rightharpoonup> 'v) \<Rightarrow> bool" where
  "ristretto_R view keyFn s m \<longleftrightarrow> (\<forall>k v. view s (keyFn k) = Some v \<longrightarrow> m k = Some v)"

lemma ristretto_R_mono: "ristretto_R view keyFn s m \<Longrightarrow> view s' \<subseteq>\<^sub>m view s \<Longrightarrow> ristretto_R view keyFn s' m"
  unfolding ristretto_R_def map_le_def by (metis domI)

lemma ristretto_R_set:
  assumes "inj keyFn" "ristretto_R view keyFn s m" "view s' \<subseteq>\<^sub>m (view s)(keyFn k \<mapsto> v)"
  shows "ristretto_R view keyFn s' (m(k \<mapsto> v))"
  using assms unfolding ristretto_R_def map_le_def
  by (metis domI fun_upd_apply inj_eq option.inject)

lemma ristretto_R_del:
  assumes "inj keyFn" "ristretto_R view keyFn s m" "view s' \<subseteq>\<^sub>m (view s)(keyFn k := None)"
  shows "ristretto_R view keyFn s' (m(k := None))"
  using assms unfolding ristretto_R_def map_le_def
  by (metis domI fun_upd_apply inj_eq option.discI)

lemma ristretto_coherent:
  assumes laws: "ristretto_laws ri view" and inj: "inj keyFn"
  shows "coherent_cache (ristretto_cache ri cfg keyFn) (ristretto_R view keyFn)"
proof (unfold_locales, goal_cases)
  case (1 w m k r w')
  then obtain v where g: "ri_Get ri (keyFn k) w = (v, w')" "r = Inr v"
    by (auto simp: ristretto_cache_def split: prod.splits)
  with laws have "view w' \<subseteq>\<^sub>m view w" "v = None \<or> v = view w (keyFn k)"
    unfolding ristretto_laws_def by blast+
  moreover from this have "ristretto_R view keyFn w' m" using ristretto_R_mono [OF 1(1)] by blast
  moreover have "m k = Some x" if "view w (keyFn k) = Some x" for x
    using 1(1) that by (simp add: ristretto_R_def)
  ultimately show ?case using g(2) by (metis Inr_inject option.distinct(1))
next
  case (2 w m k v)
  then have idem: "m(k \<mapsto> v) = m" by auto
  have "ristretto_R view keyFn (snd (c_Set (ristretto_cache ri cfg keyFn) k v w)) (m(k \<mapsto> v))"
    using laws by (auto simp: ristretto_cache_def ristretto_laws_def intro!: ristretto_R_set [OF inj 2(1)])
  then show ?case unfolding idem .
next
  case (3 w m k v w')
  then show ?case
    using laws by (auto simp: ristretto_cache_def ristretto_laws_def
        intro!: ristretto_R_set [OF inj 3(1)] split: if_splits)
next
  case (4 w m k v ttl w')
  then show ?case
    using laws by (auto simp: ristretto_cache_def ristretto_laws_def intro!: ristretto_R_set [OF inj 4(1)])
next
  case (5 w m k w')
  then show ?case
    using laws by (auto simp: ristretto_cache_def ristretto_laws_def intro!: ristretto_R_del [OF inj 5(1)])
qed

text \<open>Of Redis: the same for commands that succeed; a command that fails may still have run.\<close>

definition redis_laws :: "'s redis_ops \<Rightarrow> ('s \<Rightarrow> string \<rightharpoonup> string) \<Rightarrow> bool" where
  "redis_laws rd view \<longleftrightarrow>
     (\<forall>k s r s'. rd_Get rd k s = (r, s') \<longrightarrow> view s' \<subseteq>\<^sub>m view s \<and> (\<forall>d. r = Inr (Some d) \<longrightarrow> view s k = Some d)) \<and>
     (\<forall>k d ttl s s'. rd_Set rd k d ttl s = (None, s') \<longrightarrow> view s' \<subseteq>\<^sub>m (view s)(k \<mapsto> d)) \<and>
     (\<forall>k d ttl s e s'. rd_Set rd k d ttl s = (Some e, s') \<longrightarrow>
        view s' \<subseteq>\<^sub>m view s \<or> view s' \<subseteq>\<^sub>m (view s)(k \<mapsto> d)) \<and>
     (\<forall>k s s'. rd_Del rd k s = (None, s') \<longrightarrow> view s' \<subseteq>\<^sub>m (view s)(k := None))"

definition codec_ok :: "'v codec \<Rightarrow> bool" where
  "codec_ok cd \<longleftrightarrow> (\<forall>v d. cd_Marshal cd v = Inr d \<longrightarrow> cd_Unmarshal cd d = Inr v)"

definition redis_R ::
    "('s \<Rightarrow> string \<rightharpoonup> string) \<Rightarrow> 'v redis_config \<Rightarrow> ('k \<Rightarrow> string) \<Rightarrow> 's \<Rightarrow> ('k \<rightharpoonup> 'v) \<Rightarrow> bool" where
  "redis_R view cfg keyFn s m \<longleftrightarrow>
     (\<forall>k d v. view s (redis_key cfg keyFn k) = Some d \<and> cd_Unmarshal (rd_Codec cfg) d = Inr v \<longrightarrow> m k = Some v)"

lemma redis_R_mono: "redis_R view cfg keyFn s m \<Longrightarrow> view s' \<subseteq>\<^sub>m view s \<Longrightarrow> redis_R view cfg keyFn s' m"
  unfolding redis_R_def map_le_def by (metis domI)

lemma redis_key_inj: "inj keyFn \<Longrightarrow> redis_key cfg keyFn j = redis_key cfg keyFn k \<longleftrightarrow> j = k"
  by (simp add: redis_key_def inj_eq)

lemma redis_R_set:
  assumes "inj keyFn" "codec_ok (rd_Codec cfg)" "redis_R view cfg keyFn s m"
    "cd_Marshal (rd_Codec cfg) v = Inr d" "view s' \<subseteq>\<^sub>m (view s)(redis_key cfg keyFn k \<mapsto> d)"
  shows "redis_R view cfg keyFn s' (m(k \<mapsto> v))"
  unfolding redis_R_def
proof (intro allI impI, elim conjE)
  fix j d' v'
  assume v: "view s' (redis_key cfg keyFn j) = Some d'" and u: "cd_Unmarshal (rd_Codec cfg) d' = Inr v'"
  have d': "((view s)(redis_key cfg keyFn k \<mapsto> d)) (redis_key cfg keyFn j) = Some d'"
    using assms(5) v unfolding map_le_def by (metis domI)
  show "(m(k \<mapsto> v)) j = Some v'"
  proof (cases "j = k")
    case True
    with d' u assms(2,4) show ?thesis by (auto simp: codec_ok_def)
  next
    case False
    with d' u assms(1,3) show ?thesis by (auto simp: redis_R_def redis_key_inj)
  qed
qed

lemma redis_R_del:
  assumes "inj keyFn" "redis_R view cfg keyFn s m" "view s' \<subseteq>\<^sub>m (view s)(redis_key cfg keyFn k := None)"
  shows "redis_R view cfg keyFn s' (m(k := None))"
  using assms unfolding redis_R_def map_le_def
  by (metis domI fun_upd_apply option.discI redis_key_inj)

lemma redis_coherent:
  assumes laws: "redis_laws rd view" and inj: "inj keyFn" and cd: "codec_ok (rd_Codec cfg)"
  shows "coherent_cache (newRedisCache rd cfg keyFn) (redis_R view cfg keyFn)"
proof (unfold_locales, goal_cases)
  case (1 w m k r w')
  obtain d s' where g: "rd_Get rd (redis_key cfg keyFn k) w = (d, s')" by fastforce
  then have s': "view s' \<subseteq>\<^sub>m view w" "\<And>x. d = Inr (Some x) \<Longrightarrow> view w (redis_key cfg keyFn k) = Some x"
    using laws unfolding redis_laws_def by blast+
  have "redis_R view cfg keyFn s' m" using redis_R_mono [OF 1(1) s'(1)] .
  moreover have "m k = Some v" if "d = Inr (Some x)" "cd_Unmarshal (rd_Codec cfg) x = Inr v" for x v
    using 1(1) s'(2) [OF that(1)] that(2) unfolding redis_R_def by blast
  ultimately show ?case
    using 1(2) g by (auto simp: newRedisCache_def split: sum.splits option.splits)
next
  case (2 w m k v)
  have idem: "m(k \<mapsto> v) = m" using 2(2) by auto
  show ?case
  proof (cases "cd_Marshal (rd_Codec cfg) v")
    case (Inl e)
    then show ?thesis using 2 by (simp add: newRedisCache_def redis_SetTTL_def)
  next
    case (Inr d)
    obtain e w' where s: "rd_Set rd (redis_key cfg keyFn k) d (rd_TTL cfg) w = (e, w')" by fastforce
    then have "view w' \<subseteq>\<^sub>m view w \<or> view w' \<subseteq>\<^sub>m (view w)(redis_key cfg keyFn k \<mapsto> d)"
      using laws unfolding redis_laws_def by (cases e) blast+
    then have "redis_R view cfg keyFn w' m"
      using redis_R_mono [OF 2(1)] redis_R_set [OF inj cd 2(1) Inr] idem by metis
    with Inr s show ?thesis by (simp add: newRedisCache_def redis_SetTTL_def)
  qed
next
  case (3 w m k v w')
  then show ?case
    using laws by (auto simp: newRedisCache_def redis_SetTTL_def redis_laws_def
        intro!: redis_R_set [OF inj cd 3(1)] split: sum.splits)
next
  case (4 w m k v ttl w')
  then show ?case
    using laws by (auto simp: newRedisCache_def redis_SetTTL_def redis_laws_def
        intro!: redis_R_set [OF inj cd 4(1)] split: sum.splits)
next
  case (5 w m k w')
  then show ?case
    using laws by (auto simp: newRedisCache_def redis_laws_def intro!: redis_R_del [OF inj 5(1)])
qed


section \<open>Properties\<close>

text \<open>
  The two-level cache of Ristretto over Redis is coherent: after any sequence of operations whose
  writes succeed, a hit is the last value written to its key and not deleted since, whatever either
  layer dropped, evicted or expired in between. The key function has to be injective, and the codec
  has to read back what it wrote.
\<close>

theorem multiLevel_hit_is_last_write:
  assumes "ristretto_laws ri view1" and "redis_laws rd view2" and "inj keyFn"
    and "codec_ok (rd_Codec rcfg)"
    and "view1 (fst w) = Map.empty" and "view2 (snd w) = Map.empty"
    and "cache_run (multiLevel (ristretto_cache ri cfg keyFn) (newRedisCache rd rcfg keyFn)) ops w = Some w'"
    and "c_Get (multiLevel (ristretto_cache ri cfg keyFn) (newRedisCache rd rcfg keyFn)) k w' = (Inr (Some v), w'')"
  shows "last_written ops Map.empty k = Some v"
proof -
  have t: "two_levels (ristretto_cache ri cfg keyFn) (ristretto_R view1 keyFn)
             (newRedisCache rd rcfg keyFn) (redis_R view2 rcfg keyFn)"
    using ristretto_coherent [OF assms(1,3)] redis_coherent [OF assms(2-4)] by (rule two_levelsI)
  have "pair_R (ristretto_R view1 keyFn) (redis_R view2 rcfg keyFn) w Map.empty"
    using assms(5,6) by (simp add: pair_R_def ristretto_R_def redis_R_def)
  from two_levels.ml_hit_is_last_write [OF t this assms(7,8)] show ?thesis .
qed


text \<open>Stores that satisfy the laws: maps.\<close>

definition map_ristretto :: "('v, string \<rightharpoonup> 'v) ristretto_ops" where
  "map_ristretto =
     \<lparr>ri_Get = \<lambda>k s. (s k, s), ri_Set = \<lambda>k v _ s. s(k \<mapsto> v), ri_SetWithTTL = \<lambda>k v _ _ s. s(k \<mapsto> v),
      ri_Del = \<lambda>k s. s(k := None), ri_Close = \<lambda>s. s\<rparr>"

definition map_redis :: "(string \<rightharpoonup> string) redis_ops" where
  "map_redis =
     \<lparr>rd_Get = \<lambda>k s. (Inr (s k), s), rd_Set = \<lambda>k d _ s. (None, s(k \<mapsto> d)), rd_Del = \<lambda>k s. (None, s(k := None))\<rparr>"

lemma map_ristretto_laws: "ristretto_laws map_ristretto id"
  by (simp add: ristretto_laws_def map_ristretto_def)

lemma map_redis_laws: "redis_laws map_redis id"
  by (simp add: redis_laws_def map_redis_def)

lemma RawString_ok: "codec_ok RawString"
  by (simp add: codec_ok_def RawString_def)

interpretation layered: two_levels "ristretto_cache map_ristretto cfg id" "ristretto_R id id"
  "newRedisCache map_redis (rcfg\<lparr>rd_Codec := RawString\<rparr>) id" "redis_R id (rcfg\<lparr>rd_Codec := RawString\<rparr>) id"
  for cfg rcfg
  by (rule two_levelsI [OF ristretto_coherent [OF map_ristretto_laws inj_on_id] redis_coherent [OF map_redis_laws inj_on_id]])
    (simp add: RawString_ok)

theorem multiLevel_hit_is_last_write_witness:
  "last_written [OpSet ''a'' ''1'', OpGet ''a'', OpSet ''a'' ''2''] Map.empty ''a'' = Some ''2''"
proof -
  let ?c = "multiLevel
      (ristretto_cache map_ristretto
         (ristretto_defaults \<lparr>rc_MaxCost = 10, rc_NumCounters = 0, rc_BufferItems = 0, rc_TTL = 0, rc_DefaultCost = 0\<rparr>)
         (id :: string \<Rightarrow> string))
      (newRedisCache map_redis \<lparr>rd_Prefix = ''p'', rd_TTL = 60, rd_Codec = RawString\<rparr> id)"
  let ?ops = "[OpSet ''a'' ''1'', OpGet ''a'', OpSet ''a'' ''2'']"
  have "\<exists>w' w''. cache_run ?c ?ops (Map.empty, Map.empty) = Some w' \<and> c_Get ?c ''a'' w' = (Inr (Some ''2''), w'')"
    by (simp add: multiLevel_def ml_both_def ml_Get_def ristretto_cache_def newRedisCache_def map_ristretto_def
        map_redis_def redis_SetTTL_def RawString_def ristretto_defaults_def)
  then show ?thesis
    using multiLevel_hit_is_last_write [OF map_ristretto_laws map_redis_laws inj_on_id,
        where rcfg = "\<lparr>rd_Prefix = ''p'', rd_TTL = 60, rd_Codec = RawString\<rparr>" and w = "(Map.empty, Map.empty)"]
      RawString_ok by fastforce
qed

end
