(* ===== verification/Kit_Breaker.thy ===== *)
theory Kit_Breaker
  imports Kit_Cache
begin

text \<open>
  \<^verbatim>\<open>src/pkg/cache/circuitbreaker.go\<close>: the circuit breaker around the second cache level, as a cache and
  as a state machine with any number of calls under way.
\<close>

section \<open>The breaker\<close>

datatype cb_mode = CbClosed | CbOpen | CbHalfOpen

record breaker =
  cb_state :: cb_mode
  cb_failures :: int
  cb_openedAt :: instant

record breaker_config =
  cb_Threshold :: int
  cb_Timeout :: duration

definition cb_init :: breaker where
  "cb_init = \<lparr>cb_state = CbClosed, cb_failures = 0, cb_openedAt = 0\<rparr>"

definition cb_allow :: "breaker_config \<Rightarrow> instant \<Rightarrow> breaker \<Rightarrow> bool \<times> breaker" where
  "cb_allow cfg now b =
     (case cb_state b of
        CbClosed \<Rightarrow> (True, b)
      | CbOpen \<Rightarrow>
          if time_sub now (cb_openedAt b) \<ge> cb_Timeout cfg then (True, b\<lparr>cb_state := CbHalfOpen\<rparr>)
          else (False, b)
      | CbHalfOpen \<Rightarrow> (True, b))"

definition cb_recordSuccess :: "breaker \<Rightarrow> breaker" where
  "cb_recordSuccess b = b\<lparr>cb_failures := 0, cb_state := CbClosed\<rparr>"

definition cb_recordFailure :: "breaker_config \<Rightarrow> instant \<Rightarrow> breaker \<Rightarrow> breaker" where
  "cb_recordFailure cfg now b =
     (let b = b\<lparr>cb_failures := cb_failures b + 1\<rparr>
      in if cb_failures b \<ge> cb_Threshold cfg \<and> cb_state b \<in> {CbClosed, CbHalfOpen}
         then b\<lparr>cb_state := CbOpen, cb_openedAt := now\<rparr> else b)"

text \<open>A call through the breaker; \<open>clock\<close> reads the time of the world the inner cache lives in.\<close>

definition cb_Get ::
    "breaker_config \<Rightarrow> ('w \<Rightarrow> instant) \<Rightarrow> ('k, 'v, 'w) cache \<Rightarrow> 'k \<Rightarrow> breaker \<times> 'w \<Rightarrow>
     (string + 'v option) \<times> breaker \<times> 'w" where
  "cb_Get cfg clock inner k bw =
     (case bw of
        (b, w) \<Rightarrow>
          (case cb_allow cfg (clock w) b of
             (False, b') \<Rightarrow> (Inr None, b', w)
           | (True, b') \<Rightarrow>
               (case c_Get inner k w of
                  (Inl e, w') \<Rightarrow> (Inl e, cb_recordFailure cfg (clock w') b', w')
                | (Inr r, w') \<Rightarrow> (Inr r, cb_recordSuccess b', w'))))"

text \<open>\<^verbatim>\<open>Set\<close>, \<^verbatim>\<open>SetTTL\<close> and \<^verbatim>\<open>Delete\<close> have the same text around the call of the inner cache.\<close>

definition cb_op ::
    "breaker_config \<Rightarrow> ('w \<Rightarrow> instant) \<Rightarrow> ('w \<Rightarrow> string option \<times> 'w) \<Rightarrow> breaker \<times> 'w \<Rightarrow>
     string option \<times> breaker \<times> 'w" where
  "cb_op cfg clock f bw =
     (case bw of
        (b, w) \<Rightarrow>
          (case cb_allow cfg (clock w) b of
             (False, b') \<Rightarrow> (None, b', w)
           | (True, b') \<Rightarrow>
               (case f w of
                  (Some e, w') \<Rightarrow> (Some e, cb_recordFailure cfg (clock w') b', w')
                | (None, w') \<Rightarrow> (None, cb_recordSuccess b', w'))))"

definition newCircuitBreaker ::
    "breaker_config \<Rightarrow> ('w \<Rightarrow> instant) \<Rightarrow> ('k, 'v, 'w) cache \<Rightarrow> ('k, 'v, breaker \<times> 'w) cache" where
  "newCircuitBreaker cfg clock inner =
     \<lparr>c_Get = cb_Get cfg clock inner,
      c_Set = \<lambda>k v. cb_op cfg clock (c_Set inner k v),
      c_SetTTL = \<lambda>k v ttl. cb_op cfg clock (c_SetTTL inner k v ttl),
      c_Delete = \<lambda>k. cb_op cfg clock (c_Delete inner k),
      c_Close = on_snd (c_Close inner)\<rparr>"

section \<open>The state machine\<close>

text \<open>
  Calls run concurrently: \<open>cs_calls\<close> counts those that passed \<^verbatim>\<open>allow\<close> and have not recorded their
  outcome. Here each of \<^verbatim>\<open>allow\<close>, \<^verbatim>\<open>recordSuccess\<close> and \<^verbatim>\<open>recordFailure\<close> is one step, though the code makes
  several accesses to its atomic variables in each; the section on single accesses below takes them
  apart. Time may pass at any point.
\<close>

record breaker_sys =
  cs_breaker :: breaker
  cs_now :: instant
  cs_calls :: nat

inductive cb_step :: "breaker_config \<Rightarrow> breaker_sys \<Rightarrow> breaker_sys \<Rightarrow> bool" for cfg where
  tick: "0 \<le> d \<Longrightarrow> cb_step cfg s (s\<lparr>cs_now := cs_now s + d\<rparr>)"
| admit: "cb_allow cfg (cs_now s) (cs_breaker s) = (True, b) \<Longrightarrow>
    cb_step cfg s (s\<lparr>cs_breaker := b, cs_calls := Suc (cs_calls s)\<rparr>)"
| reject: "cb_allow cfg (cs_now s) (cs_breaker s) = (False, b) \<Longrightarrow>
    cb_step cfg s (s\<lparr>cs_breaker := b\<rparr>)"
| succeed: "cs_calls s = Suc n \<Longrightarrow>
    cb_step cfg s (s\<lparr>cs_breaker := cb_recordSuccess (cs_breaker s), cs_calls := n\<rparr>)"
| fail: "cs_calls s = Suc n \<Longrightarrow>
    cb_step cfg s (s\<lparr>cs_breaker := cb_recordFailure cfg (cs_now s) (cs_breaker s), cs_calls := n\<rparr>)"

inductive_cases cb_stepE: "cb_step cfg s s'"

inductive cb_reach :: "breaker_config \<Rightarrow> breaker_sys \<Rightarrow> bool" for cfg where
  start: "0 \<le> t \<Longrightarrow> cb_reach cfg \<lparr>cs_breaker = cb_init, cs_now = t, cs_calls = 0\<rparr>"
| step: "cb_reach cfg s \<Longrightarrow> cb_step cfg s s' \<Longrightarrow> cb_reach cfg s'"

section \<open>Invariant\<close>

definition cb_inv :: "breaker_config \<Rightarrow> breaker \<Rightarrow> instant \<Rightarrow> bool" where
  "cb_inv cfg b now \<longleftrightarrow>
     0 \<le> cb_failures b \<and> (cb_state b = CbClosed \<longleftrightarrow> cb_failures b < cb_Threshold cfg) \<and> cb_openedAt b \<le> now"

lemma cb_inv_allow:
  "cb_inv cfg b now \<Longrightarrow> cb_allow cfg now b = (r, b') \<Longrightarrow> cb_inv cfg b' now"
  by (auto simp: cb_allow_def cb_inv_def split: cb_mode.splits if_splits)

lemma cb_inv_success: "1 \<le> cb_Threshold cfg \<Longrightarrow> cb_inv cfg b now \<Longrightarrow> cb_inv cfg (cb_recordSuccess b) now"
  by (simp add: cb_recordSuccess_def cb_inv_def)

lemma cb_inv_failure: "cb_inv cfg b now \<Longrightarrow> cb_inv cfg (cb_recordFailure cfg now b) now"
  by (cases "cb_state b") (auto simp: cb_recordFailure_def cb_inv_def Let_def)

lemma cb_inv_later: "cb_inv cfg b now \<Longrightarrow> now \<le> t \<Longrightarrow> cb_inv cfg b t"
  by (auto simp: cb_inv_def)

lemma cb_inv_step:
  assumes "cb_step cfg s s'" and "1 \<le> cb_Threshold cfg" and "cb_inv cfg (cs_breaker s) (cs_now s)"
  shows "cb_inv cfg (cs_breaker s') (cs_now s')"
  using assms
  by cases (auto intro: cb_inv_later cb_inv_allow cb_inv_success cb_inv_failure)

lemma cb_inv_reach:
  assumes "cb_reach cfg s" and "1 \<le> cb_Threshold cfg"
  shows "cb_inv cfg (cs_breaker s) (cs_now s)"
  using assms(1)
proof induction
  case (start t)
  then show ?case using assms(2) by (simp add: cb_inv_def cb_init_def)
next
  case (step s s')
  then show ?case using cb_inv_step assms(2) by blast
qed

section \<open>Single accesses\<close>

text \<open>
  The same methods, one access to \<^verbatim>\<open>state\<close>, \<^verbatim>\<open>failures\<close> or \<^verbatim>\<open>openedAt\<close> at a time, for threads that run
  them concurrently. A thread is where it stands in the code: before a call, in \<^verbatim>\<open>allow\<close> after it read
  an open state, before its compare-and-swap, in the inner cache, between the two stores of
  \<^verbatim>\<open>recordSuccess\<close>, before the two compare-and-swaps of \<^verbatim>\<open>recordFailure\<close> and before its last store.
\<close>

datatype cb_pc = PcIdle | PcAllowOpened | PcAllowSwap | PcCalling | PcSuccessState | PcFailSwap1 | PcFailSwap2 | PcFailStamp

record breaker_threads =
  ct_breaker :: breaker
  ct_pc :: "nat \<Rightarrow> cb_pc"

text \<open>The next access of thread \<open>i\<close> at the time \<open>now\<close>; \<open>good\<close> is whether its inner call succeeds.\<close>

definition cb_access :: "breaker_config \<Rightarrow> instant \<Rightarrow> nat \<Rightarrow> bool \<Rightarrow> breaker_threads \<Rightarrow> breaker_threads" where
  "cb_access cfg now i good s =
     (let b = ct_breaker s;
          goto = (\<lambda>b' pc. \<lparr>ct_breaker = b', ct_pc = (ct_pc s)(i := pc)\<rparr>)
      in case ct_pc s i of
           PcIdle \<Rightarrow> goto b (if cb_state b = CbOpen then PcAllowOpened else PcCalling)
         | PcAllowOpened \<Rightarrow>
             goto b (if time_sub now (cb_openedAt b) \<ge> cb_Timeout cfg then PcAllowSwap else PcIdle)
         | PcAllowSwap \<Rightarrow> goto (if cb_state b = CbOpen then b\<lparr>cb_state := CbHalfOpen\<rparr> else b) PcCalling
         | PcCalling \<Rightarrow>
             if good then goto (b\<lparr>cb_failures := 0\<rparr>) PcSuccessState
             else goto (b\<lparr>cb_failures := cb_failures b + 1\<rparr>)
                    (if cb_failures b + 1 \<ge> cb_Threshold cfg then PcFailSwap1 else PcIdle)
         | PcSuccessState \<Rightarrow> goto (b\<lparr>cb_state := CbClosed\<rparr>) PcIdle
         | PcFailSwap1 \<Rightarrow>
             if cb_state b = CbClosed then goto (b\<lparr>cb_state := CbOpen\<rparr>) PcFailStamp else goto b PcFailSwap2
         | PcFailSwap2 \<Rightarrow>
             if cb_state b = CbHalfOpen then goto (b\<lparr>cb_state := CbOpen\<rparr>) PcFailStamp else goto b PcIdle
         | PcFailStamp \<Rightarrow> goto (b\<lparr>cb_openedAt := now\<rparr>) PcIdle)"

lemma cb_access_pc:
  "ct_pc s i = PcIdle \<Longrightarrow> cb_state (ct_breaker s) = CbOpen \<Longrightarrow>
     cb_access cfg now i good s = s\<lparr>ct_pc := (ct_pc s)(i := PcAllowOpened)\<rparr>"
  "ct_pc s i = PcAllowOpened \<Longrightarrow> cb_Timeout cfg \<le> time_sub now (cb_openedAt (ct_breaker s)) \<Longrightarrow>
     cb_access cfg now i good s = s\<lparr>ct_pc := (ct_pc s)(i := PcAllowSwap)\<rparr>"
  "ct_pc s i = PcAllowSwap \<Longrightarrow> cb_state (ct_breaker s) = CbOpen \<Longrightarrow>
     cb_access cfg now i good s =
       s\<lparr>ct_breaker := (ct_breaker s)\<lparr>cb_state := CbHalfOpen\<rparr>, ct_pc := (ct_pc s)(i := PcCalling)\<rparr>"
  "ct_pc s i = PcCalling \<Longrightarrow> cb_Threshold cfg \<le> cb_failures (ct_breaker s) + 1 \<Longrightarrow>
     cb_access cfg now i False s =
       s\<lparr>ct_breaker := (ct_breaker s)\<lparr>cb_failures := cb_failures (ct_breaker s) + 1\<rparr>, ct_pc := (ct_pc s)(i := PcFailSwap1)\<rparr>"
  "ct_pc s i = PcFailSwap1 \<Longrightarrow> cb_state (ct_breaker s) = CbClosed \<Longrightarrow>
     cb_access cfg now i good s =
       s\<lparr>ct_breaker := (ct_breaker s)\<lparr>cb_state := CbOpen\<rparr>, ct_pc := (ct_pc s)(i := PcFailStamp)\<rparr>"
  "ct_pc s i = PcFailStamp \<Longrightarrow>
     cb_access cfg now i good s = s\<lparr>ct_breaker := (ct_breaker s)\<lparr>cb_openedAt := now\<rparr>, ct_pc := (ct_pc s)(i := PcIdle)\<rparr>"
  by (simp_all add: cb_access_def Let_def)

text \<open>The accesses of the threads in the order given, at one instant.\<close>

fun cb_accesses :: "breaker_config \<Rightarrow> instant \<Rightarrow> (nat \<times> bool) list \<Rightarrow> breaker_threads \<Rightarrow> breaker_threads" where
  "cb_accesses cfg now [] s = s"
| "cb_accesses cfg now ((i, good) # as) s = cb_accesses cfg now as (cb_access cfg now i good s)"

text \<open>Uninterrupted, the accesses are the methods.\<close>

lemma cb_accesses_allow:
  assumes "ct_pc s i = PcIdle" and "cb_allow cfg now (ct_breaker s) = (r, b)"
  shows "\<exists>n. cb_accesses cfg now (replicate n (i, good)) s =
               \<lparr>ct_breaker = b, ct_pc = (ct_pc s)(i := if r then PcCalling else PcIdle)\<rparr>"
proof (cases "cb_state (ct_breaker s) = CbOpen")
  case False
  with assms have "cb_accesses cfg now (replicate 1 (i, good)) s =
      \<lparr>ct_breaker = b, ct_pc = (ct_pc s)(i := if r then PcCalling else PcIdle)\<rparr>"
    by (auto simp: cb_access_def cb_allow_def split: cb_mode.splits)
  then show ?thesis by blast
next
  case True
  with assms have "cb_accesses cfg now (replicate (if r then 3 else 2) (i, good)) s =
      \<lparr>ct_breaker = b, ct_pc = (ct_pc s)(i := if r then PcCalling else PcIdle)\<rparr>"
    by (auto simp: cb_access_def cb_allow_def eval_nat_numeral split: if_splits)
  then show ?thesis by blast
qed

lemma cb_accesses_recordSuccess:
  assumes "ct_pc s i = PcCalling"
  shows "cb_accesses cfg now [(i, True), (i, good)] s =
         \<lparr>ct_breaker = cb_recordSuccess (ct_breaker s), ct_pc = (ct_pc s)(i := PcIdle)\<rparr>"
  using assms by (simp add: cb_access_def cb_recordSuccess_def)

lemma cb_accesses_recordFailure:
  assumes "ct_pc s i = PcCalling"
  shows "\<exists>n. cb_accesses cfg now ((i, False) # replicate n (i, good)) s =
               \<lparr>ct_breaker = cb_recordFailure cfg now (ct_breaker s), ct_pc = (ct_pc s)(i := PcIdle)\<rparr>"
proof -
  let ?b = "ct_breaker s"
  let ?n = "if cb_failures ?b + 1 < cb_Threshold cfg then 0 else if cb_state ?b = CbHalfOpen then 3 else 2 :: nat"
  have "cb_accesses cfg now ((i, False) # replicate ?n (i, good)) s =
      \<lparr>ct_breaker = cb_recordFailure cfg now ?b, ct_pc = (ct_pc s)(i := PcIdle)\<rparr>"
    using assms by (cases "cb_state ?b") (auto simp: cb_access_def cb_recordFailure_def eval_nat_numeral Let_def)
  then show ?thesis by blast
qed

section \<open>Properties\<close>



text \<open>
  A half-open circuit lets any number of probes through at once: from an open circuit whose timeout
  has passed, every number of calls under way can be reached without the circuit leaving half-open.
\<close>

theorem breaker_many_probes:
  assumes "cb_reach cfg s" and "cb_state (cs_breaker s) = CbOpen" and "cs_calls s = 0"
    and "time_sub (cs_now s) (cb_openedAt (cs_breaker s)) \<ge> cb_Timeout cfg"
  shows "\<exists>s'. cb_reach cfg s' \<and> cb_state (cs_breaker s') = CbHalfOpen \<and> cs_calls s' = Suc n"
proof (induction n)
  case 0
  have "cb_allow cfg (cs_now s) (cs_breaker s) = (True, (cs_breaker s)\<lparr>cb_state := CbHalfOpen\<rparr>)"
    using assms by (simp add: cb_allow_def)
  from cb_reach.step [OF assms(1) cb_step.admit [OF this]] assms(3) show ?case by fastforce
next
  case (Suc n)
  then obtain s' where s': "cb_reach cfg s'" "cb_state (cs_breaker s') = CbHalfOpen" "cs_calls s' = Suc n"
    by blast
  then have "cb_allow cfg (cs_now s') (cs_breaker s') = (True, cs_breaker s')" by (simp add: cb_allow_def)
  from cb_reach.step [OF s'(1) cb_step.admit [OF this]] s' show ?case by fastforce
qed

theorem breaker_many_probes_witness:
  "\<exists>s'. cb_reach \<lparr>cb_Threshold = 1, cb_Timeout = 0\<rparr> s' \<and> cb_state (cs_breaker s') = CbHalfOpen \<and> cs_calls s' = 2"
proof -
  let ?c = "\<lparr>cb_Threshold = 1, cb_Timeout = 0\<rparr> :: breaker_config"
  let ?s0 = "\<lparr>cs_breaker = cb_init, cs_now = 0, cs_calls = 0\<rparr> :: breaker_sys"
  let ?s1 = "?s0\<lparr>cs_breaker := cb_init, cs_calls := Suc 0\<rparr>"
  let ?s2 = "?s1\<lparr>cs_breaker := cb_recordFailure ?c (cs_now ?s1) (cs_breaker ?s1), cs_calls := 0\<rparr>"
  have "cb_step ?c ?s0 ?s1"
    using cb_step.admit [of ?c ?s0 cb_init] by (simp add: cb_allow_def cb_init_def)
  moreover have "cb_step ?c ?s1 ?s2" using cb_step.fail [of ?s1 0 ?c] by simp
  ultimately have r: "cb_reach ?c ?s2"
    using cb_reach.start [of 0 ?c] cb_reach.step by blast
  show ?thesis
    using breaker_many_probes [OF r, of 1] by (simp add: cb_recordFailure_def cb_init_def numeral_2_eq_2 time_sub_nonneg_iff)
qed

text \<open>
  A write through an open circuit is reported as done and is lost: \<^verbatim>\<open>Set\<close> returns no error and the
  inner cache is untouched, so the first read after the timeout answers the old value.
\<close>

theorem breaker_stale_after_drop:
  assumes "cb_state b = CbOpen" and "time_sub (clock w) (cb_openedAt b) < cb_Timeout cfg"
    and "c_Get inner k w2 = (Inr (Some old), wb)" and "time_sub (clock w2) (cb_openedAt b) \<ge> cb_Timeout cfg"
  shows "c_Set (newCircuitBreaker cfg clock inner) k new (b, w) = (None, b, w) \<and>
         fst (c_Get (newCircuitBreaker cfg clock inner) k (b, w2)) = Inr (Some old)"
  using assms by (simp add: newCircuitBreaker_def cb_op_def cb_Get_def cb_allow_def)

text \<open>A map with a clock.\<close>

definition timed :: "('k, 'v, instant \<times> ('k \<rightharpoonup> 'v)) cache" where
  "timed = lift_snd Noop"

theorem breaker_stale_after_drop_witness:
  "c_Set (newCircuitBreaker \<lparr>cb_Threshold = 1, cb_Timeout = 10\<rparr> fst timed) ''k'' ''new''
     (\<lparr>cb_state = CbOpen, cb_failures = 1, cb_openedAt = 0\<rparr>, 5, [''k'' \<mapsto> ''old''])
   = (None, \<lparr>cb_state = CbOpen, cb_failures = 1, cb_openedAt = 0\<rparr>, 5, [''k'' \<mapsto> ''old'']) \<and>
   fst (c_Get (newCircuitBreaker \<lparr>cb_Threshold = 1, cb_Timeout = 10\<rparr> fst timed) ''k''
     (\<lparr>cb_state = CbOpen, cb_failures = 1, cb_openedAt = 0\<rparr>, 20, [''k'' \<mapsto> ''old''])) = Inr (Some ''old'')"
  by (rule breaker_stale_after_drop [where wb = "(20, [''k'' \<mapsto> ''old''])"])
    (simp_all add: timed_def lift_snd_def on_snd_def Noop_def in_int64_def)

text \<open>
  The accesses of the methods may interleave so that the timeout is skipped. When a failure trips a
  closed circuit, the state is open before \<^verbatim>\<open>openedAt\<close> is written; a caller that comes between reads the
  time of an earlier opening, long past, and is let through at the instant the circuit opened, which
  also leaves the circuit half-open instead of open.
\<close>

theorem breaker_race_skips_timeout:
  assumes "i \<noteq> j" and "ct_pc s i = PcCalling" and "ct_pc s j = PcIdle"
    and "cb_state (ct_breaker s) = CbClosed" and "cb_Threshold cfg \<le> cb_failures (ct_breaker s) + 1"
    and "cb_Timeout cfg \<le> time_sub now (cb_openedAt (ct_breaker s))"
  shows "\<exists>as. let s' = cb_accesses cfg now as s
              in cb_state (ct_breaker s') = CbHalfOpen \<and> cb_openedAt (ct_breaker s') = now \<and>
                 ct_pc s' i = PcIdle \<and> ct_pc s' j = PcCalling"
proof -
  let ?as = "[(i, False), (i, False), (j, True), (j, True), (j, True), (i, False)]"
  let ?s = "cb_accesses cfg now ?as s"
  have "cb_state (ct_breaker ?s) = CbHalfOpen" "cb_openedAt (ct_breaker ?s) = now"
    "ct_pc ?s i = PcIdle" "ct_pc ?s j = PcCalling"
    using assms by (simp_all add: cb_access_pc)
  then show ?thesis unfolding Let_def by blast
qed

theorem breaker_race_skips_timeout_witness:
  "\<exists>as. let s' = cb_accesses \<lparr>cb_Threshold = 1, cb_Timeout = 1000\<rparr> 5000 as
                   \<lparr>ct_breaker = cb_init, ct_pc = (\<lambda>_. PcIdle)(0 := PcCalling)\<rparr>
        in cb_state (ct_breaker s') = CbHalfOpen \<and> cb_openedAt (ct_breaker s') = 5000 \<and>
           ct_pc s' 0 = PcIdle \<and> ct_pc s' 1 = PcCalling"
  by (rule breaker_race_skips_timeout) (simp_all add: cb_init_def in_int64_def)

end
