(* ===== verification/Kit_Loading.thy ===== *)
theory Kit_Loading
  imports Kit_Breaker
begin

text \<open>
  \<^verbatim>\<open>src/pkg/cache/loading.go\<close> and \<^verbatim>\<open>builder.go\<close>: the cache that loads missing values, with its memory of
  absent keys and its refresh of stale entries, and the builder that puts the layers together.

  The world of a loading cache is its own state, the negative cache's store, and the world of the
  cache inside, where the clock and the source of the loader are too.
\<close>

section \<open>State\<close>

text \<open>
  \<open>ld_pending\<close> lists the keys of the background refreshes that were started and have not run; their
  goroutines run at any later time, one \<open>lc_refresh\<close> each.
\<close>

record 'k loading =
  ld_soft :: "string \<rightharpoonup> instant"
  ld_refreshing :: "string set"
  ld_pending :: "'k list"

datatype load_error = LoadNotFound | LoadFailed string

record loading_config =
  lg_SoftTTL :: duration
  lg_NegativeTTL :: duration

type_synonym ('k, 'n, 'w) lworld = "'k loading \<times> 'n \<times> 'w"

record ('k, 'v, 'n, 'w) loading_parts =
  lp_cache :: "('k, 'v, 'w) cache"
  lp_loader :: "'k \<Rightarrow> 'w \<Rightarrow> (load_error + 'v) \<times> 'w"
  lp_keyFn :: "'k \<Rightarrow> string"
  lp_softTTL :: duration
  lp_negative :: "('k, unit, 'n) cache option"
  lp_clock :: "'w \<Rightarrow> instant"

definition ErrNotFound :: string where "ErrNotFound = ''cache: not found''"

definition load_error_text :: "load_error \<Rightarrow> string" where
  "load_error_text e = (case e of LoadNotFound \<Rightarrow> ErrNotFound | LoadFailed s \<Rightarrow> s)"

text \<open>The negative cache is a Ristretto cache of its own; if it cannot be made there is none.\<close>

definition newLoadingCache_negative ::
    "(int \<Rightarrow> int \<Rightarrow> int \<Rightarrow> string option) \<Rightarrow> (unit, 'n) ristretto_ops \<Rightarrow> ('k \<Rightarrow> string) \<Rightarrow> loading_config \<Rightarrow>
     ('k, unit, 'n) cache option" where
  "newLoadingCache_negative new ri keyFn cfg =
     (if lg_NegativeTTL cfg > 0 then
        (case newRistretto new ri
                \<lparr>rc_MaxCost = 10000, rc_NumCounters = 100000, rc_BufferItems = 0,
                 rc_TTL = lg_NegativeTTL cfg, rc_DefaultCost = 0\<rparr> keyFn of
           Inr neg \<Rightarrow> Some neg
         | Inl _ \<Rightarrow> None)
      else None)"

section \<open>Operations\<close>

text \<open>
  The load shared by the callers of one key. The caller may stop waiting (\<open>cancelled\<close>, the text of its
  context's error): the load still runs and stores what it finds.
\<close>

definition lc_load ::
    "('k, 'v, 'n, 'w) loading_parts \<Rightarrow> 'k \<Rightarrow> ('k, 'n, 'w) lworld \<Rightarrow> (string + 'v) \<times> ('k, 'n, 'w) lworld" where
  "lc_load c k lw =
     (case lw of
        (l, n, w) \<Rightarrow>
          (case lp_loader c k w of
             (Inl LoadNotFound, w') \<Rightarrow>
               (Inl ErrNotFound, l,
                (case lp_negative c of Some neg \<Rightarrow> snd (c_Set neg k () n) | None \<Rightarrow> n), w')
           | (Inl (LoadFailed e), w') \<Rightarrow> (Inl e, l, n, w')
           | (Inr v, w') \<Rightarrow>
               (let w'' = snd (c_Set (lp_cache c) k v w')
                in (Inr v,
                    if lp_softTTL c > 0
                    then l\<lparr>ld_soft := (ld_soft l)(lp_keyFn c k \<mapsto> time_add (lp_clock c w'') (lp_softTTL c))\<rparr>
                    else l,
                    n, w''))))"

definition lc_doLoad ::
    "('k, 'v, 'n, 'w) loading_parts \<Rightarrow> string option \<Rightarrow> 'k \<Rightarrow> ('k, 'n, 'w) lworld \<Rightarrow> (string + 'v) \<times> ('k, 'n, 'w) lworld" where
  "lc_doLoad c cancelled k lw =
     (case lc_load c k lw of
        (r, lw') \<Rightarrow>
          (case cancelled of Some e \<Rightarrow> Inl (''cache: load cancelled: '' @ e) | None \<Rightarrow> r, lw'))"

definition lc_trigger :: "'k \<Rightarrow> string \<Rightarrow> 'k loading \<Rightarrow> 'k loading" where
  "lc_trigger k keyStr l =
     (if keyStr \<in> ld_refreshing l then l
      else l\<lparr>ld_refreshing := insert keyStr (ld_refreshing l), ld_pending := ld_pending l @ [k]\<rparr>)"

text \<open>The body of a background refresh, for the first pending key.\<close>

definition lc_refresh ::
    "('k, 'v, 'n, 'w) loading_parts \<Rightarrow> ('k, 'n, 'w) lworld \<Rightarrow> ('k, 'n, 'w) lworld" where
  "lc_refresh c lw =
     (case lw of
        (l, n, w) \<Rightarrow>
          (case ld_pending l of
             [] \<Rightarrow> lw
           | k # rest \<Rightarrow>
               (let l' = l\<lparr>ld_pending := rest, ld_refreshing := ld_refreshing l - {lp_keyFn c k}\<rparr>
                in case lp_loader c k w of
                     (Inl _, w') \<Rightarrow> (l', n, w')
                   | (Inr v, w') \<Rightarrow>
                       (let w'' = snd (c_Set (lp_cache c) k v w')
                        in (l'\<lparr>ld_soft := (ld_soft l')(lp_keyFn c k \<mapsto> time_add (lp_clock c w'') (lp_softTTL c))\<rparr>,
                            n, w'')))))"

text \<open>Whether the negative cache knows the key as absent, and the rest of \<^verbatim>\<open>Get\<close> when it does not.\<close>

definition lc_absent ::
    "('k, 'v, 'n, 'w) loading_parts \<Rightarrow> 'k \<Rightarrow> 'n \<Rightarrow> bool \<times> 'n" where
  "lc_absent c k n =
     (case lp_negative c of
        None \<Rightarrow> (False, n)
      | Some neg \<Rightarrow> (case c_Get neg k n of (Inr (Some _), n') \<Rightarrow> (True, n') | (_, n') \<Rightarrow> (False, n')))"

definition lc_Get ::
    "('k, 'v, 'n, 'w) loading_parts \<Rightarrow> string option \<Rightarrow> 'k \<Rightarrow> ('k, 'n, 'w) lworld \<Rightarrow>
     (string + 'v option) \<times> ('k, 'n, 'w) lworld" where
  "lc_Get c cancelled k lw =
     (case lw of
        (l, n, w) \<Rightarrow>
          (case lc_absent c k n of
             (True, n') \<Rightarrow> (Inl ErrNotFound, l, n', w)
           | (False, n') \<Rightarrow>
               (case c_Get (lp_cache c) k w of
                  (Inr (Some v), w') \<Rightarrow>
                    (let keyStr = lp_keyFn c k;
                         stale = (lp_softTTL c > 0 \<and>
                                  (case ld_soft l keyStr of
                                     Some exp \<Rightarrow> time_after (lp_clock c w') exp | None \<Rightarrow> False))
                     in (Inr (Some v), if stale then lc_trigger k keyStr l else l, n', w'))
                | (_, w') \<Rightarrow>
                    (case lc_doLoad c cancelled k (l, n', w') of
                       (Inl e, lw') \<Rightarrow> (Inl e, lw')
                     | (Inr v, lw') \<Rightarrow> (Inr (Some v), lw')))))"

definition neg_Delete :: "('k, 'v, 'n, 'w) loading_parts \<Rightarrow> 'k \<Rightarrow> 'n \<Rightarrow> 'n" where
  "neg_Delete c k n = (case lp_negative c of Some neg \<Rightarrow> snd (c_Delete neg k n) | None \<Rightarrow> n)"

definition lc_Set ::
    "('k, 'v, 'n, 'w) loading_parts \<Rightarrow> 'k \<Rightarrow> 'v \<Rightarrow> ('k, 'n, 'w) lworld \<Rightarrow> string option \<times> ('k, 'n, 'w) lworld" where
  "lc_Set c k v lw =
     (case lw of
        (l, n, w) \<Rightarrow>
          (let l' = (if lp_softTTL c > 0
                     then l\<lparr>ld_soft := (ld_soft l)(lp_keyFn c k \<mapsto> time_add (lp_clock c w) (lp_softTTL c))\<rparr>
                     else l);
               n' = neg_Delete c k n
           in case c_Set (lp_cache c) k v w of (r, w') \<Rightarrow> (r, l', n', w')))"

definition lc_SetTTL ::
    "('k, 'v, 'n, 'w) loading_parts \<Rightarrow> 'k \<Rightarrow> 'v \<Rightarrow> duration \<Rightarrow> ('k, 'n, 'w) lworld \<Rightarrow>
     string option \<times> ('k, 'n, 'w) lworld" where
  "lc_SetTTL c k v ttl lw =
     (case lw of (l, n, w) \<Rightarrow> (case c_SetTTL (lp_cache c) k v ttl w of (r, w') \<Rightarrow> (r, l, n, w')))"

definition lc_Delete ::
    "('k, 'v, 'n, 'w) loading_parts \<Rightarrow> 'k \<Rightarrow> ('k, 'n, 'w) lworld \<Rightarrow> string option \<times> ('k, 'n, 'w) lworld" where
  "lc_Delete c k lw =
     (case lw of
        (l, n, w) \<Rightarrow>
          (let keyStr = lp_keyFn c k;
               l' = l\<lparr>ld_soft := (ld_soft l)(keyStr := None), ld_refreshing := ld_refreshing l - {keyStr}\<rparr>;
               n' = neg_Delete c k n
           in case c_Delete (lp_cache c) k w of (r, w') \<Rightarrow> (r, l', n', w')))"

definition lc_Close ::
    "('k, 'v, 'n, 'w) loading_parts \<Rightarrow> ('k, 'n, 'w) lworld \<Rightarrow> string option \<times> ('k, 'n, 'w) lworld" where
  "lc_Close c lw =
     (case lw of
        (l, n, w) \<Rightarrow>
          (let n' = (case lp_negative c of Some neg \<Rightarrow> snd (c_Close neg n) | None \<Rightarrow> n)
           in case c_Close (lp_cache c) w of (r, w') \<Rightarrow> (r, l, n', w')))"

text \<open>As a cache, for a caller that waits for its loads.\<close>

definition newLoadingCache :: "('k, 'v, 'n, 'w) loading_parts \<Rightarrow> ('k, 'v, ('k, 'n, 'w) lworld) cache" where
  "newLoadingCache c =
     \<lparr>c_Get = lc_Get c None, c_Set = lc_Set c, c_SetTTL = lc_SetTTL c, c_Delete = lc_Delete c, c_Close = lc_Close c\<rparr>"

section \<open>The builder (builder.go)\<close>

record ('k, 'v, 'w) builder =
  bd_name :: string
  bd_l1Cfg :: "ristretto_config option"
  bd_l2Cfg :: "'v redis_config option"
  bd_keyFn :: "'k \<Rightarrow> string"
  bd_cbCfg :: "breaker_config option"
  bd_stats :: bool
  bd_loader :: "('k \<Rightarrow> 'w \<Rightarrow> (load_error + 'v) \<times> 'w) option"
  bd_loadCfg :: loading_config

definition builder_New :: "('k \<Rightarrow> string) \<Rightarrow> ('k, 'v, 'w) builder" where
  "builder_New sprint =
     \<lparr>bd_name = [], bd_l1Cfg = None, bd_l2Cfg = None, bd_keyFn = sprint, bd_cbCfg = None, bd_stats = False,
      bd_loader = None, bd_loadCfg = \<lparr>lg_SoftTTL = 0, lg_NegativeTTL = 0\<rparr>\<rparr>"

definition builder_Name :: "string \<Rightarrow> ('k, 'v, 'w) builder \<Rightarrow> ('k, 'v, 'w) builder" where
  "builder_Name name b = b\<lparr>bd_name := name\<rparr>"

definition builder_KeyFunc :: "('k \<Rightarrow> string) \<Rightarrow> ('k, 'v, 'w) builder \<Rightarrow> ('k, 'v, 'w) builder" where
  "builder_KeyFunc fn b = b\<lparr>bd_keyFn := fn\<rparr>"

definition builder_L1 :: "ristretto_config \<Rightarrow> ('k, 'v, 'w) builder \<Rightarrow> ('k, 'v, 'w) builder" where
  "builder_L1 cfg b = b\<lparr>bd_l1Cfg := Some cfg\<rparr>"

definition builder_L2 :: "'v redis_config \<Rightarrow> ('k, 'v, 'w) builder \<Rightarrow> ('k, 'v, 'w) builder" where
  "builder_L2 cfg b = b\<lparr>bd_l2Cfg := Some cfg\<rparr>"

definition builder_WithCircuitBreaker :: "breaker_config \<Rightarrow> ('k, 'v, 'w) builder \<Rightarrow> ('k, 'v, 'w) builder" where
  "builder_WithCircuitBreaker cfg b = b\<lparr>bd_cbCfg := Some cfg\<rparr>"

text \<open>\<open>stats\<close>: whether the hook given is not nil.\<close>

definition builder_WithStats :: "bool \<Rightarrow> ('k, 'v, 'w) builder \<Rightarrow> ('k, 'v, 'w) builder" where
  "builder_WithStats stats b = b\<lparr>bd_stats := stats\<rparr>"

definition builder_WithLoader ::
    "('k \<Rightarrow> 'w \<Rightarrow> (load_error + 'v) \<times> 'w) \<Rightarrow> loading_config list \<Rightarrow> ('k, 'v, 'w) builder \<Rightarrow> ('k, 'v, 'w) builder" where
  "builder_WithLoader fn cfgs b =
     (let b' = b\<lparr>bd_loader := Some fn\<rparr>
      in case cfgs of [] \<Rightarrow> b' | cfg # _ \<Rightarrow> b'\<lparr>bd_loadCfg := cfg\<rparr>)"

text \<open>
  The world of a built cache: the two stores, each under the event list of its layer, and the breaker
  in front of the second; then the loading state. A part that is not configured is not touched.
\<close>

type_synonym ('s1, 's2) layers = "(stat_event list \<times> 's1) \<times> (stat_event list \<times> breaker \<times> 's2)"

definition build_l1 ::
    "('v, 's1) ristretto_ops \<Rightarrow> ('k, 'v, 'w) builder \<Rightarrow> ristretto_config \<Rightarrow> ('k, 'v, stat_event list \<times> 's1) cache" where
  "build_l1 ri b cfg =
     (let l1 = ristretto_cache ri (ristretto_defaults cfg) (bd_keyFn b)
      in if bd_stats b then newInstrumentedCache l1 (bd_name b) ''l1'' else lift_snd l1)"

definition build_l2 ::
    "'s2 redis_ops \<Rightarrow> ('s2 \<Rightarrow> instant) \<Rightarrow> ('k, 'v, 'w) builder \<Rightarrow> 'v redis_config \<Rightarrow>
     ('k, 'v, stat_event list \<times> breaker \<times> 's2) cache" where
  "build_l2 rd clock b cfg =
     (let chain = (case bd_cbCfg b of
                     Some cb \<Rightarrow> newCircuitBreaker cb clock (newRedisCache rd cfg (bd_keyFn b))
                   | None \<Rightarrow> lift_snd (newRedisCache rd cfg (bd_keyFn b)))
      in if bd_stats b then newInstrumentedCache chain (bd_name b) ''l2'' else lift_snd chain)"

text \<open>\<open>new\<close> is the constructor of Ristretto caches, which may refuse a configuration.\<close>

definition build_layers ::
    "(int \<Rightarrow> int \<Rightarrow> int \<Rightarrow> string option) \<Rightarrow> ('v, 's1) ristretto_ops \<Rightarrow> 's2 redis_ops \<Rightarrow> ('s2 \<Rightarrow> instant) \<Rightarrow>
     ('k, 'v, 'w) builder \<Rightarrow> string + ('k, 'v, ('s1, 's2) layers) cache" where
  "build_layers new ri rd clock b =
     (case (bd_l1Cfg b, bd_l2Cfg b) of
        (None, None) \<Rightarrow> Inl ''cache: at least one layer (L1 or L2) must be configured''
      | (Some cfg, l2) \<Rightarrow>
          (case newRistretto new ri cfg (bd_keyFn b) of
             Inl e \<Rightarrow> Inl (''cache: init L1: '' @ e)
           | Inr _ \<Rightarrow>
               (case l2 of
                  Some cfg2 \<Rightarrow> Inr (multiLevel (build_l1 ri b cfg) (build_l2 rd clock b cfg2))
                | None \<Rightarrow> Inr (lift_fst (build_l1 ri b cfg))))
      | (None, Some cfg2) \<Rightarrow> Inr (lift_snd (build_l2 rd clock b cfg2)))"

definition built_parts ::
    "(int \<Rightarrow> int \<Rightarrow> int \<Rightarrow> string option) \<Rightarrow> (unit, 'n) ristretto_ops \<Rightarrow> ('s2 \<Rightarrow> instant) \<Rightarrow>
     ('k, 'v, ('s1, 's2) layers) builder \<Rightarrow> ('k, 'v, ('s1, 's2) layers) cache \<Rightarrow>
     ('k \<Rightarrow> ('s1, 's2) layers \<Rightarrow> (load_error + 'v) \<times> ('s1, 's2) layers) \<Rightarrow> ('k, 'v, 'n, ('s1, 's2) layers) loading_parts" where
  "built_parts new rneg clock b result loader =
     \<lparr>lp_cache = result, lp_loader = loader, lp_keyFn = bd_keyFn b,
      lp_softTTL = lg_SoftTTL (bd_loadCfg b),
      lp_negative = newLoadingCache_negative new rneg (bd_keyFn b) (bd_loadCfg b),
      lp_clock = \<lambda>w. clock (snd (snd (snd w)))\<rparr>"

definition Build ::
    "(int \<Rightarrow> int \<Rightarrow> int \<Rightarrow> string option) \<Rightarrow> ('v, 's1) ristretto_ops \<Rightarrow> 's2 redis_ops \<Rightarrow> (unit, 'n) ristretto_ops \<Rightarrow>
     ('s2 \<Rightarrow> instant) \<Rightarrow> ('k, 'v, ('s1, 's2) layers) builder \<Rightarrow>
     string + ('k, 'v, ('k, 'n, ('s1, 's2) layers) lworld) cache" where
  "Build new ri rd rneg clock b =
     (case build_layers new ri rd clock b of
        Inl e \<Rightarrow> Inl e
      | Inr result \<Rightarrow>
          (case bd_loader b of
             None \<Rightarrow> Inr (lift_snd (lift_snd result))
           | Some loader \<Rightarrow> Inr (newLoadingCache (built_parts new rneg clock b result loader))))"

definition MustBuild ::
    "(int \<Rightarrow> int \<Rightarrow> int \<Rightarrow> string option) \<Rightarrow> ('v, 's1) ristretto_ops \<Rightarrow> 's2 redis_ops \<Rightarrow> (unit, 'n) ristretto_ops \<Rightarrow>
     ('s2 \<Rightarrow> instant) \<Rightarrow> ('k, 'v, ('s1, 's2) layers) builder \<Rightarrow>
     ('k, 'v, ('k, 'n, ('s1, 's2) layers) lworld) cache or_panic" where
  "MustBuild new ri rd rneg clock b =
     (case Build new ri rd rneg clock b of Inl e \<Rightarrow> Inl (Panic e) | Inr c \<Rightarrow> Inr c)"


section \<open>Interleavings of reads and background refreshes\<close>

datatype 'k load_act = ActGet 'k | ActRefresh

text \<open>The answers of the reads, in order.\<close>

fun lc_trace ::
    "('k, 'v, 'n, 'w) loading_parts \<Rightarrow> 'k load_act list \<Rightarrow> ('k, 'n, 'w) lworld \<Rightarrow> ('k \<times> (string + 'v option)) list" where
  "lc_trace c [] lw = []"
| "lc_trace c (ActGet k # acts) lw =
     (case lc_Get c None k lw of (r, lw') \<Rightarrow> (k, r) # lc_trace c acts lw')"
| "lc_trace c (ActRefresh # acts) lw = lc_trace c acts (lc_refresh c lw)"

section \<open>A loading cache over a fixed source\<close>

text \<open>
  The parts rely on: a cache that can be read from, a loader that reads the source \<open>src\<close>, and a negative cache that can be
  read from, over the set of absent keys.
\<close>

definition absent_keys :: "('k \<rightharpoonup> 'v) \<Rightarrow> 'k \<rightharpoonup> unit" where
  "absent_keys src k = (if src k = None then Some () else None)"

lemma absent_keys_Some [simp]: "absent_keys src k = Some u \<longleftrightarrow> src k = None"
  by (simp add: absent_keys_def)

locale loading_source = inner: readable_cache "lp_cache c" R
  for c :: "('k, 'v, 'n, 'w) loading_parts" and R +
  fixes Rn :: "'n \<Rightarrow> ('k \<rightharpoonup> unit) \<Rightarrow> bool" and src :: "'k \<rightharpoonup> 'v"
  assumes neg: "lp_negative c = Some neg \<Longrightarrow> readable_cache neg Rn"
    and loader: "R w src \<Longrightarrow> \<exists>w'. lp_loader c k w =
                   (case src k of Some v \<Rightarrow> Inr v | None \<Rightarrow> Inl LoadNotFound, w') \<and> R w' src"
begin

definition ok :: "('k, 'n, 'w) lworld \<Rightarrow> bool" where
  "ok lw \<longleftrightarrow> R (snd (snd lw)) src \<and> (lp_negative c \<noteq> None \<longrightarrow> Rn (fst (snd lw)) (absent_keys src))"

lemma lc_absent_ok:
  assumes "ok (l, n, w)" and "lc_absent c k n = (r, n')"
  shows "ok (l', n', w) \<and> (r \<longrightarrow> src k = None)"
proof (cases "lp_negative c")
  case None
  with assms show ?thesis by (auto simp: lc_absent_def ok_def)
next
  case (Some ng)
  obtain x y where g: "c_Get ng k n = (x, y)" by fastforce
  have "Rn n (absent_keys src)" using assms(1) Some by (simp add: ok_def)
  from readable_cache.get [OF neg [OF Some] this g]
  have "Rn y (absent_keys src)" "\<And>u. x = Inr (Some u) \<Longrightarrow> src k = None"
    by auto
  with assms Some g show ?thesis
    by (auto simp: lc_absent_def ok_def split: sum.splits option.splits)
qed

lemma lc_load_ok:
  assumes "ok (l, n, w)" and "lc_load c k (l, n, w) = (r, lw')"
  shows "ok lw' \<and> r = (case src k of Some v \<Rightarrow> Inr v | None \<Rightarrow> Inl ErrNotFound)"
proof -
  obtain w' where w': "lp_loader c k w = (case src k of Some v \<Rightarrow> Inr v | None \<Rightarrow> Inl LoadNotFound, w')" "R w' src"
    using loader [of w k] assms(1) by (auto simp: ok_def)
  show ?thesis
  proof (cases "src k")
    case None
    have "Rn (snd (c_Set ng k () n)) (absent_keys src)" if "lp_negative c = Some ng" for ng
      using readable_cache.refill [OF neg [OF that]] assms(1) that None by (simp add: ok_def)
    with None w' assms show ?thesis by (auto simp: lc_load_def ok_def split: option.splits)
  next
    case (Some v)
    have "R (snd (c_Set (lp_cache c) k v w')) src" by (rule inner.refill [OF w'(2) Some])
    with Some w' assms show ?thesis by (auto simp: lc_load_def ok_def Let_def)
  qed
qed

lemma lc_Get_ok:
  assumes "ok (l, n, w)" and "lc_Get c None k (l, n, w) = (r, lw')"
  shows "ok lw' \<and> r = (case src k of Some v \<Rightarrow> Inr (Some v) | None \<Rightarrow> Inl ErrNotFound)"
proof -
  obtain b n' where ab: "lc_absent c k n = (b, n')" by fastforce
  note abs = lc_absent_ok [OF assms(1) ab]
  obtain x w' where g: "c_Get (lp_cache c) k w = (x, w')" by fastforce
  have in_ok: "R w' src" "\<And>v. x = Inr (Some v) \<Longrightarrow> src k = Some v"
    using inner.get [OF _ g] assms(1) by (auto simp: ok_def)
  show ?thesis
  proof (cases b)
    case True
    with abs ab assms(2) show ?thesis by (auto simp: lc_Get_def ok_def)
  next
    case False
    show ?thesis
    proof (cases "\<exists>v. x = Inr (Some v)")
      case True
      with False ab g assms(2) in_ok abs [of l] show ?thesis
        by (auto simp: lc_Get_def ok_def Let_def)
    next
      case miss: False
      obtain r' lw2 where ld: "lc_load c k (l, n', w') = (r', lw2)"
        by (cases "lc_load c k (l, n', w')") auto
      have "ok (l, n', w')" using abs [of l] in_ok(1) by (simp add: ok_def)
      note ldok = lc_load_ok [OF this ld]
      have "lc_Get c None k (l, n, w) =
          (case r' of Inl e \<Rightarrow> (Inl e, lw2) | Inr v \<Rightarrow> (Inr (Some v), lw2))"
        using False miss ab g ld
        by (auto simp: lc_Get_def lc_doLoad_def split: sum.splits option.splits)
      with assms(2) ldok show ?thesis by (auto split: option.splits)
    qed
  qed
qed

lemma lc_refresh_ok: "ok (l, n, w) \<Longrightarrow> ok (lc_refresh c (l, n, w))"
proof (cases "ld_pending l")
  case Nil
  then show "ok (l, n, w) \<Longrightarrow> ok (lc_refresh c (l, n, w))" by (simp add: lc_refresh_def)
next
  case (Cons k rest)
  assume ok: "ok (l, n, w)"
  obtain w' where w': "lp_loader c k w = (case src k of Some v \<Rightarrow> Inr v | None \<Rightarrow> Inl LoadNotFound, w')" "R w' src"
    using loader [of w k] ok by (auto simp: ok_def)
  show "ok (lc_refresh c (l, n, w))"
  proof (cases "src k")
    case None
    with ok Cons w' show ?thesis by (simp add: lc_refresh_def ok_def)
  next
    case (Some v)
    have "R (snd (c_Set (lp_cache c) k v w')) src" by (rule inner.refill [OF w'(2) Some])
    with Some ok Cons w' show ?thesis by (simp add: lc_refresh_def ok_def Let_def)
  qed
qed

lemma lc_trace_ok:
  "ok lw \<Longrightarrow> (k, r) \<in> set (lc_trace c acts lw) \<Longrightarrow>
   r = (case src k of Some v \<Rightarrow> Inr (Some v) | None \<Rightarrow> Inl ErrNotFound)"
proof (induction acts arbitrary: lw)
  case (Cons a acts)
  obtain l n w where lw: "lw = (l, n, w)" by (cases lw)
  show ?case
  proof (cases a)
    case (ActGet j)
    obtain x lw' where g: "lc_Get c None j (l, n, w) = (x, lw')" by (cases "lc_Get c None j (l, n, w)") auto
    note gk = lc_Get_ok [OF Cons.prems(1) [unfolded lw] g]
    show ?thesis using Cons.IH [of lw'] Cons.prems(2) gk g by (auto simp: ActGet lw)
  next
    case ActRefresh
    with Cons show ?thesis using lc_refresh_ok [of l n w] by (simp add: lw)
  qed
qed simp

end

text \<open>The in-memory cache, loaded from a map, with an in-memory set of absent keys.\<close>

definition noop_parts :: "('k \<rightharpoonup> 'v) \<Rightarrow> ('k \<Rightarrow> string) \<Rightarrow> duration \<Rightarrow> ('k, 'v, 'k \<rightharpoonup> unit, 'k \<rightharpoonup> 'v) loading_parts" where
  "noop_parts src keyFn soft =
     \<lparr>lp_cache = Noop,
      lp_loader = \<lambda>k w. (case src k of Some v \<Rightarrow> Inr v | None \<Rightarrow> Inl LoadNotFound, w),
      lp_keyFn = keyFn, lp_softTTL = soft, lp_negative = Some Noop, lp_clock = \<lambda>_. 0\<rparr>"

interpretation nl: loading_source "noop_parts src keyFn soft" "(\<subseteq>\<^sub>m)" "(\<subseteq>\<^sub>m)" src
  for src keyFn soft
proof -
  have "readable_cache (lp_cache (noop_parts src keyFn soft)) (\<subseteq>\<^sub>m)"
    using noop.readable_cache_axioms by (simp add: noop_parts_def)
  moreover have "loading_source_axioms (noop_parts src keyFn soft) (\<subseteq>\<^sub>m) (\<subseteq>\<^sub>m) src"
  proof (rule loading_source_axioms.intro)
    fix ng
    assume "lp_negative (noop_parts src keyFn soft) = Some ng"
    then show "readable_cache ng (\<subseteq>\<^sub>m)"
      using noop.readable_cache_axioms by (auto simp: noop_parts_def)
  qed (simp add: noop_parts_def)
  ultimately show "loading_source (noop_parts src keyFn soft) (\<subseteq>\<^sub>m) (\<subseteq>\<^sub>m) src"
    by (rule loading_source.intro)
qed

section \<open>Properties\<close>

text \<open>
  Over a source that does not change, a loading cache answers every read as the source does: the
  source's value when there is one, also when the entry was dropped or is stale, and the not-found
  error when there is none; and this for every interleaving of reads with background refreshes,
  starting from any stores that hold nothing but the source's values and absent keys.
\<close>

theorem loading_answers_source:
  assumes "loading_source c R Rn src" and "R w src" and "lp_negative c \<noteq> None \<longrightarrow> Rn n (absent_keys src)"
    and "(k, r) \<in> set (lc_trace c acts (l, n, w))"
  shows "r = (case src k of Some v \<Rightarrow> Inr (Some v) | None \<Rightarrow> Inl ErrNotFound)"
proof -
  have "loading_source.ok c R Rn src (l, n, w)"
    using assms(2,3) by (simp add: loading_source.ok_def [OF assms(1)])
  from loading_source.lc_trace_ok [OF assms(1) this assms(4)] show ?thesis .
qed

theorem loading_answers_source_witness:
  "\<exists>r1 r2 r3. lc_trace (noop_parts [''a'' \<mapsto> (1::nat)] id 5) [ActGet ''a'', ActGet ''b'', ActRefresh, ActGet ''b'']
       (\<lparr>ld_soft = Map.empty, ld_refreshing = {}, ld_pending = []\<rparr>, Map.empty, Map.empty)
     = [(''a'', r1), (''b'', r2), (''b'', r3)] \<and>
     r1 = Inr (Some 1) \<and> r2 = Inl ErrNotFound \<and> r3 = Inl ErrNotFound"
proof -
  let ?c = "noop_parts [''a'' \<mapsto> (1::nat)] id 5"
  let ?w = "(\<lparr>ld_soft = Map.empty, ld_refreshing = {}, ld_pending = []\<rparr>, Map.empty, Map.empty)
    :: (string, string \<rightharpoonup> unit, string \<rightharpoonup> nat) lworld"
  let ?acts = "[ActGet ''a'', ActGet ''b'', ActRefresh, ActGet ''b'']"
  have ans: "r = (case [''a'' \<mapsto> 1] k of Some v \<Rightarrow> Inr (Some v) | None \<Rightarrow> Inl ErrNotFound)"
    if "(k, r) \<in> set (lc_trace ?c ?acts ?w)" for k r
    using loading_answers_source [where c = ?c and R = "(\<subseteq>\<^sub>m)" and Rn = "(\<subseteq>\<^sub>m)" and k = k and r = r
        and acts = ?acts and n = Map.empty and w = Map.empty, OF nl.loading_source_axioms] that by simp
  have "\<exists>ra rb rc. lc_trace ?c ?acts ?w = [(''a'', ra), (''b'', rb), (''b'', rc)]"
    by (simp add: case_prod_beta)
  then obtain ra rb rc where t: "lc_trace ?c ?acts ?w = [(''a'', ra), (''b'', rb), (''b'', rc)]" by blast
  have "ra = Inr (Some 1)" using ans [of "''a''" ra] unfolding t by simp
  moreover have "rb = Inl ErrNotFound" using ans [of "''b''" rb] unfolding t by simp
  moreover have "rc = Inl ErrNotFound" using ans [of "''b''" rc] unfolding t by simp
  ultimately show ?thesis using t by blast
qed

text \<open>
  \<^verbatim>\<open>SetTTL\<close> does not clear the memory of absent keys, as \<^verbatim>\<open>Set\<close> does: a value stored by it for a key
  that was looked up before in vain stays invisible, and \<^verbatim>\<open>Get\<close> keeps answering that it is not found.
\<close>

theorem SetTTL_stays_absent:
  assumes "lc_absent c k n = (True, n')" and "lc_SetTTL c k v ttl (l, n, w) = (None, lw')"
  shows "fst (lc_Get c cancelled k lw') = Inl ErrNotFound"
  using assms by (auto simp: lc_SetTTL_def lc_Get_def split: prod.splits)

theorem SetTTL_stays_absent_witness:
  "fst (lc_Get (noop_parts Map.empty id 0) None ''k''
     (snd (lc_SetTTL (noop_parts Map.empty id 0) ''k'' (1::nat) 60
        (\<lparr>ld_soft = Map.empty, ld_refreshing = {}, ld_pending = []\<rparr>, [''k'' \<mapsto> ()], Map.empty)))) = Inl ErrNotFound"
proof -
  let ?c = "noop_parts Map.empty id 0 :: (string, nat, _, _) loading_parts"
  let ?l = "\<lparr>ld_soft = Map.empty, ld_refreshing = {}, ld_pending = []\<rparr> :: string loading"
  have a: "lc_absent ?c ''k'' [''k'' \<mapsto> ()] = (True, [''k'' \<mapsto> ()])"
    by (simp add: lc_absent_def noop_parts_def Noop_def)
  have s: "lc_SetTTL ?c ''k'' 1 60 (?l, [''k'' \<mapsto> ()], Map.empty) = (None, ?l, [''k'' \<mapsto> ()], [''k'' \<mapsto> 1])"
    by (simp add: lc_SetTTL_def noop_parts_def Noop_def)
  show ?thesis using SetTTL_stays_absent [OF a s] s by simp
qed

end
