(* ===== verification/Cache_Build.thy ===== *)
theory Cache_Build
  imports Kit_Loading Go_Float
begin

text \<open>
  \<^verbatim>\<open>src/pkg/cache/builder.go\<close>, the caches it builds: every layer the builder puts around a store (statistics, circuit breaker, the second
  level) is readable or coherent when the store is, so that what is proved of a store, and of a loading cache over a store, holds of the
  cache a service is given, for every combination of options. Also \<^verbatim>\<open>Jitter\<close> of \<^verbatim>\<open>helpers.go\<close>.
\<close>

section \<open>Jitter (helpers.go)\<close>

text \<open>\<open>draw\<close> is what \<^verbatim>\<open>rand.Float64\<close> returns, a number of at least 0 and less than 1; every product and difference is rounded.\<close>

definition Jitter :: "rat \<Rightarrow> duration \<Rightarrow> rat \<Rightarrow> duration" where
  "Jitter draw ttl fraction =
     (if fraction \<le> 0 then ttl
      else let delta = f64 (f64 (f64 (rat_of_int ttl) * fraction) * f64 (f64 (2 * draw) - 1))
           in int64 (ttl + int64 (f64_trunc delta)))"

section \<open>The layers\<close>

lemma lift_fst_simps [simp]:
  "c_Get (lift_fst c) k = on_fst (c_Get c k)" "c_Set (lift_fst c) k v = on_fst (c_Set c k v)"
  "c_SetTTL (lift_fst c) k v ttl = on_fst (c_SetTTL c k v ttl)" "c_Delete (lift_fst c) k = on_fst (c_Delete c k)"
  by (simp_all add: lift_fst_def)

lemma lift_snd_simps [simp]:
  "c_Get (lift_snd c) k = on_snd (c_Get c k)" "c_Set (lift_snd c) k v = on_snd (c_Set c k v)"
  "c_SetTTL (lift_snd c) k v ttl = on_snd (c_SetTTL c k v ttl)" "c_Delete (lift_snd c) k = on_snd (c_Delete c k)"
  by (simp_all add: lift_snd_def)

lemma instrumented_simps [simp]:
  "c_Get (newInstrumentedCache c name layer) k = ic_Get name layer c k"
  "c_Set (newInstrumentedCache c name layer) k v = ic_op name layer ''set'' (c_Set c k v)"
  "c_SetTTL (newInstrumentedCache c name layer) k v ttl = ic_op name layer ''set'' (c_SetTTL c k v ttl)"
  "c_Delete (newInstrumentedCache c name layer) k = ic_op name layer ''delete'' (c_Delete c k)"
  by (simp_all add: newInstrumentedCache_def)

lemma on_fst_eq: "on_fst f w = (r, w') \<longleftrightarrow> f (fst w) = (r, fst w') \<and> snd w' = snd w"
  by (cases w') (auto simp: on_fst_def split: prod.splits)

lemma on_snd_eq: "on_snd f w = (r, w') \<longleftrightarrow> f (snd w) = (r, snd w') \<and> fst w' = fst w"
  by (cases w') (auto simp: on_snd_def split: prod.splits)

lemma snd_on [simp]: "fst (snd (on_fst f w)) = snd (f (fst w))" "snd (snd (on_snd g w')) = snd (g (snd w'))"
  by (simp_all add: on_fst_def on_snd_def split: prod.splits)

lemma ic_op_eq: "ic_op name layer op f w = (None, w') \<Longrightarrow> f (snd w) = (None, snd w')"
  by (auto simp: ic_op_def split: prod.splits option.splits)

lemma snd_ic_op [simp]: "snd (snd (ic_op name layer op f w)) = snd (f (snd w))"
  by (auto simp: ic_op_def split: prod.splits option.splits)

lemma ic_Get_eq: "ic_Get name layer c k w = (r, w') \<Longrightarrow> c_Get c k (snd w) = (r, snd w')"
  by (auto simp: ic_Get_def split: prod.splits)

lemma cb_op_inner: "snd (snd (cb_op cfg clock f w)) \<in> {snd w, snd (f (snd w))}"
  by (auto simp: cb_op_def split: prod.splits option.splits bool.splits)

lemma cb_Get_inner:
  "cb_Get cfg clock c k w = (r, w') \<Longrightarrow> c_Get c k (snd w) = (r, snd w') \<or> r = Inr None \<and> snd w' = snd w"
  by (auto simp: cb_Get_def split: prod.splits sum.splits bool.splits)

lemma readable_lift_fst: "readable_cache c R \<Longrightarrow> readable_cache (lift_fst c) (\<lambda>w. R (fst w))"
  by (unfold_locales) (auto simp: on_fst_eq dest: readable_cache.get readable_cache.refill)

lemma readable_lift_snd: "readable_cache c R \<Longrightarrow> readable_cache (lift_snd c) (\<lambda>w. R (snd w))"
  by (unfold_locales) (auto simp: on_snd_eq dest: readable_cache.get readable_cache.refill)

lemma readable_instrumented: "readable_cache c R \<Longrightarrow> readable_cache (newInstrumentedCache c name layer) (\<lambda>w. R (snd w))"
  by (unfold_locales) (auto dest!: ic_Get_eq dest: readable_cache.get readable_cache.refill)

lemma readable_breaker:
  assumes "readable_cache c R"
  shows "readable_cache (newCircuitBreaker cfg clock c) (\<lambda>w. R (snd w))"
proof (unfold_locales, goal_cases)
  case (1 w m k r w')
  then have "cb_Get cfg clock c k w = (r, w')" by (simp add: newCircuitBreaker_def)
  from cb_Get_inner [OF this] show ?case using readable_cache.get [OF assms 1(1)] 1(1) by auto
next
  case (2 w m k v)
  have "snd (snd (c_Set (newCircuitBreaker cfg clock c) k v w)) \<in> {snd w, snd (c_Set c k v (snd w))}"
    using cb_op_inner by (simp add: newCircuitBreaker_def)
  then show ?case using 2(1) readable_cache.refill [OF assms 2] by auto
qed

lemmas coherent_writes = coherent_cache.set coherent_cache.setTTL coherent_cache.delete

lemma coherent_lift_fst:
  assumes "coherent_cache c R"
  shows "coherent_cache (lift_fst c) (\<lambda>w. R (fst w))"
  by (rule coherent_cache.intro [OF readable_lift_fst [OF coherent_cache.axioms(1) [OF assms]] coherent_cache_axioms.intro])
    (use assms in \<open>auto simp: on_fst_eq dest: coherent_writes\<close>)

lemma coherent_lift_snd:
  assumes "coherent_cache c R"
  shows "coherent_cache (lift_snd c) (\<lambda>w. R (snd w))"
  by (rule coherent_cache.intro [OF readable_lift_snd [OF coherent_cache.axioms(1) [OF assms]] coherent_cache_axioms.intro])
    (use assms in \<open>auto simp: on_snd_eq dest: coherent_writes\<close>)

lemma coherent_instrumented:
  assumes "coherent_cache c R"
  shows "coherent_cache (newInstrumentedCache c name layer) (\<lambda>w. R (snd w))"
  by (rule coherent_cache.intro [OF readable_instrumented [OF coherent_cache.axioms(1) [OF assms]] coherent_cache_axioms.intro])
    (use assms in \<open>auto dest!: ic_op_eq dest: coherent_writes\<close>)

section \<open>The built layers\<close>

text \<open>What the stores of a builder hold: only layers that are configured count.\<close>

definition built_R ::
    "('s1 \<Rightarrow> string \<rightharpoonup> 'v) \<Rightarrow> ('s2 \<Rightarrow> string \<rightharpoonup> string) \<Rightarrow> ('k, 'v, 'w) builder \<Rightarrow> ('s1, 's2) layers \<Rightarrow> ('k \<rightharpoonup> 'v) \<Rightarrow> bool" where
  "built_R view1 view2 b w m \<longleftrightarrow>
     (bd_l1Cfg b \<noteq> None \<longrightarrow> ristretto_R view1 (bd_keyFn b) (snd (fst w)) m) \<and>
     (\<forall>cfg. bd_l2Cfg b = Some cfg \<longrightarrow> redis_R view2 cfg (bd_keyFn b) (snd (snd (snd w))) m)"

text \<open>What a builder relies on: its libraries, a key function that keeps keys apart, and a codec that reads back what it wrote.\<close>

definition sound_parts ::
    "('v, 's1) ristretto_ops \<Rightarrow> ('s1 \<Rightarrow> string \<rightharpoonup> 'v) \<Rightarrow> 's2 redis_ops \<Rightarrow> ('s2 \<Rightarrow> string \<rightharpoonup> string) \<Rightarrow> ('k, 'v, 'w) builder \<Rightarrow> bool" where
  "sound_parts ri view1 rd view2 b \<longleftrightarrow>
     ristretto_laws ri view1 \<and> redis_laws rd view2 \<and> inj (bd_keyFn b) \<and> (\<forall>cfg. bd_l2Cfg b = Some cfg \<longrightarrow> codec_ok (rd_Codec cfg))"

lemma build_l1_coherent:
  assumes "ristretto_laws ri view1" and "inj (bd_keyFn b)"
  shows "coherent_cache (build_l1 ri b cfg) (\<lambda>w. ristretto_R view1 (bd_keyFn b) (snd w))"
  by (auto simp: build_l1_def Let_def intro!: coherent_instrumented coherent_lift_snd ristretto_coherent [OF assms])

lemma build_l2_readable:
  assumes "redis_laws rd view2" and "inj (bd_keyFn b)" and "codec_ok (rd_Codec cfg)"
  shows "readable_cache (build_l2 rd clock b cfg) (\<lambda>w. redis_R view2 cfg (bd_keyFn b) (snd (snd w)))"
proof -
  note r = coherent_cache.axioms(1) [OF redis_coherent [OF assms]]
  have "readable_cache (case bd_cbCfg b of Some cb \<Rightarrow> newCircuitBreaker cb clock (newRedisCache rd cfg (bd_keyFn b))
      | None \<Rightarrow> lift_snd (newRedisCache rd cfg (bd_keyFn b))) (\<lambda>w. redis_R view2 cfg (bd_keyFn b) (snd w))"
    by (cases "bd_cbCfg b") (use readable_breaker [OF r] in \<open>auto intro: readable_lift_snd [OF r]\<close>)
  then show ?thesis by (auto simp: build_l2_def Let_def intro: readable_instrumented readable_lift_snd)
qed

lemma build_l2_coherent:
  assumes "redis_laws rd view2" and "inj (bd_keyFn b)" and "codec_ok (rd_Codec cfg)" and "bd_cbCfg b = None"
  shows "coherent_cache (build_l2 rd clock b cfg) (\<lambda>w. redis_R view2 cfg (bd_keyFn b) (snd (snd w)))"
  using assms(4)
  by (auto simp: build_l2_def Let_def intro!: coherent_instrumented coherent_lift_snd redis_coherent [OF assms(1-3)])

text \<open>The shapes of the built layers.\<close>

lemma build_layers_cases:
  assumes "build_layers new ri rd clock b = Inr c"
  obtains (both) cfg cfg2 where "bd_l1Cfg b = Some cfg" "bd_l2Cfg b = Some cfg2" "c = multiLevel (build_l1 ri b cfg) (build_l2 rd clock b cfg2)"
  | (first) cfg where "bd_l1Cfg b = Some cfg" "bd_l2Cfg b = None" "c = lift_fst (build_l1 ri b cfg)"
  | (second) cfg2 where "bd_l1Cfg b = None" "bd_l2Cfg b = Some cfg2" "c = lift_snd (build_l2 rd clock b cfg2)"
  using assms by (auto simp: build_layers_def split: option.splits sum.splits)

lemma build_layers_readable:
  assumes "build_layers new ri rd clock b = Inr c" and "sound_parts ri view1 rd view2 b"
  shows "readable_cache c (built_R view1 view2 b)"
proof -
  from assms(2) have p: "ristretto_laws ri view1" "redis_laws rd view2" "inj (bd_keyFn b)"
    "\<And>cfg. bd_l2Cfg b = Some cfg \<Longrightarrow> codec_ok (rd_Codec cfg)" by (auto simp: sound_parts_def)
  note l1 = coherent_cache.axioms(1) [OF build_l1_coherent [OF p(1,3)]] and l2 = build_l2_readable [OF p(2,3)]
  show ?thesis using assms(1)
  proof (cases rule: build_layers_cases)
    case (both cfg cfg2)
    have "built_R view1 view2 b =
      pair_R (\<lambda>w. ristretto_R view1 (bd_keyFn b) (snd w)) (\<lambda>w. redis_R view2 cfg2 (bd_keyFn b) (snd (snd w)))"
      using both by (auto simp: built_R_def pair_R_def fun_eq_iff)
    with both two_readable.ml_readable [OF two_readable.intro [OF l1 l2 [OF p(4) [OF both(2)]]]] show ?thesis by simp
  next
    case (first cfg)
    have "built_R view1 view2 b = (\<lambda>w. ristretto_R view1 (bd_keyFn b) (snd (fst w)))"
      using first by (simp add: built_R_def fun_eq_iff)
    with first readable_lift_fst [OF l1] show ?thesis by simp
  next
    case (second cfg2)
    have "built_R view1 view2 b = (\<lambda>w. redis_R view2 cfg2 (bd_keyFn b) (snd (snd (snd w))))"
      using second by (simp add: built_R_def fun_eq_iff)
    with second readable_lift_snd [OF l2 [OF p(4) [OF second(2)]]] show ?thesis by simp
  qed
qed

lemma build_layers_coherent:
  assumes "build_layers new ri rd clock b = Inr c" and "sound_parts ri view1 rd view2 b" and "bd_cbCfg b = None"
  shows "coherent_cache c (built_R view1 view2 b)"
proof -
  from assms(2) have p: "ristretto_laws ri view1" "redis_laws rd view2" "inj (bd_keyFn b)"
    "\<And>cfg. bd_l2Cfg b = Some cfg \<Longrightarrow> codec_ok (rd_Codec cfg)" by (auto simp: sound_parts_def)
  note l1 = build_l1_coherent [OF p(1,3)] and l2 = build_l2_coherent [OF p(2,3) _ assms(3)]
  show ?thesis using assms(1)
  proof (cases rule: build_layers_cases)
    case (both cfg cfg2)
    have "built_R view1 view2 b =
      pair_R (\<lambda>w. ristretto_R view1 (bd_keyFn b) (snd w)) (\<lambda>w. redis_R view2 cfg2 (bd_keyFn b) (snd (snd w)))"
      using both by (auto simp: built_R_def pair_R_def fun_eq_iff)
    with both two_levels.ml_coherent [OF two_levelsI [OF l1 l2 [OF p(4) [OF both(2)]]]] show ?thesis by simp
  next
    case (first cfg)
    have "built_R view1 view2 b = (\<lambda>w. ristretto_R view1 (bd_keyFn b) (snd (fst w)))"
      using first by (simp add: built_R_def fun_eq_iff)
    with first coherent_lift_fst [OF l1] show ?thesis by simp
  next
    case (second cfg2)
    have "built_R view1 view2 b = (\<lambda>w. redis_R view2 cfg2 (bd_keyFn b) (snd (snd (snd w))))"
      using second by (simp add: built_R_def fun_eq_iff)
    with second coherent_lift_snd [OF l2 [OF p(4) [OF second(2)]]] show ?thesis by simp
  qed
qed

lemma built_R_mono:
  "built_R view1 view2 b w m \<Longrightarrow> view1 (snd (fst w')) \<subseteq>\<^sub>m view1 (snd (fst w)) \<Longrightarrow>
   view2 (snd (snd (snd w'))) \<subseteq>\<^sub>m view2 (snd (snd (snd w))) \<Longrightarrow> built_R view1 view2 b w' m"
  by (auto simp: built_R_def intro: ristretto_R_mono redis_R_mono)

lemma built_R_empty: "view1 (snd (fst w)) = Map.empty \<Longrightarrow> view2 (snd (snd (snd w))) = Map.empty \<Longrightarrow> built_R view1 view2 b w m"
  by (simp add: built_R_def ristretto_R_def redis_R_def)

section \<open>The built loading cache\<close>

text \<open>
  A loader reads the source: it answers what \<open>src\<close> has, and leaves the stores as they are but for entries that expire.
\<close>

definition reads_source ::
    "('s1 \<Rightarrow> string \<rightharpoonup> 'v) \<Rightarrow> ('s2 \<Rightarrow> string \<rightharpoonup> string) \<Rightarrow> ('k \<rightharpoonup> 'v) \<Rightarrow>
     ('k \<Rightarrow> ('s1, 's2) layers \<Rightarrow> (load_error + 'v) \<times> ('s1, 's2) layers) \<Rightarrow> bool" where
  "reads_source view1 view2 src loader \<longleftrightarrow>
     (\<forall>k w. \<exists>w'. loader k w = (case src k of Some v \<Rightarrow> Inr v | None \<Rightarrow> Inl LoadNotFound, w') \<and>
        view1 (snd (fst w')) \<subseteq>\<^sub>m view1 (snd (fst w)) \<and> view2 (snd (snd (snd w'))) \<subseteq>\<^sub>m view2 (snd (snd (snd w))))"

lemma negative_readable:
  assumes "newLoadingCache_negative new rneg keyFn cfg = Some neg" and "ristretto_laws rneg viewn" and "inj keyFn"
  shows "readable_cache neg (ristretto_R viewn keyFn)"
  using assms(1) coherent_cache.axioms(1) [OF ristretto_coherent [OF assms(2,3)]]
  by (auto simp: newLoadingCache_negative_def newRistretto_def Let_def split: if_splits option.splits sum.splits)

lemma built_loading_source:
  assumes "build_layers new ri rd clock b = Inr result" and "sound_parts ri view1 rd view2 b" and "ristretto_laws rneg viewn"
    and "reads_source view1 view2 src loader"
  shows "loading_source (built_parts new rneg clock b result loader) (built_R view1 view2 b) (ristretto_R viewn (bd_keyFn b)) src"
proof (intro loading_source.intro loading_source_axioms.intro, goal_cases)
  case 1
  show ?case using build_layers_readable [OF assms(1,2)] by (simp add: built_parts_def)
next
  case (2 neg)
  have "inj (bd_keyFn b)" using assms(2) by (simp add: sound_parts_def)
  with 2 show ?case using negative_readable [OF _ assms(3)] by (simp add: built_parts_def)
next
  case (3 w k)
  from assms(4) obtain w' where w': "loader k w = (case src k of Some v \<Rightarrow> Inr v | None \<Rightarrow> Inl LoadNotFound, w')"
    "view1 (snd (fst w')) \<subseteq>\<^sub>m view1 (snd (fst w))" "view2 (snd (snd (snd w'))) \<subseteq>\<^sub>m view2 (snd (snd (snd w)))"
    unfolding reads_source_def by blast
  with built_R_mono [OF 3 w'(2,3)] show ?case by (intro exI [of _ w']) (simp add: built_parts_def)
qed

text \<open>The built parts over stores that are maps, for every builder with a layer and a codec that writes texts as they are.\<close>

definition map_builder :: "(string, string, 'w) builder \<Rightarrow> (string, string, 'w) builder" where
  "map_builder b = b\<lparr>bd_keyFn := id, bd_l2Cfg := map_option (rd_Codec_update (\<lambda>_. RawString)) (bd_l2Cfg b),
     bd_l1Cfg := Some (case bd_l1Cfg b of Some cfg \<Rightarrow> cfg | None \<Rightarrow> \<lparr>rc_MaxCost = 1, rc_NumCounters = 0, rc_BufferItems = 0, rc_TTL = 0, rc_DefaultCost = 0\<rparr>)\<rparr>"

definition map_layers :: "(string, string, 'w) builder \<Rightarrow> (string, string, (string \<rightharpoonup> string, string \<rightharpoonup> string) layers) cache" where
  "map_layers b = projr (build_layers (\<lambda>_ _ _. None) map_ristretto map_redis (\<lambda>_. 0) (map_builder b))"

lemma map_layers_built:
  "build_layers (\<lambda>_ _ _. None) map_ristretto map_redis (\<lambda>_. 0) (map_builder b) = Inr (map_layers b)"
  by (auto simp: map_layers_def build_layers_def map_builder_def newRistretto_def Let_def split: option.splits)

lemma map_builder_sound: "sound_parts map_ristretto id map_redis id (map_builder b)"
  by (auto simp: sound_parts_def map_ristretto_laws map_redis_laws map_builder_def RawString_ok)

lemma pure_loader_reads:
  "reads_source view1 view2 src (\<lambda>k w. (case src k of Some v \<Rightarrow> Inr v | None \<Rightarrow> Inl LoadNotFound, w))"
  by (simp add: reads_source_def)

interpretation built: loading_source
  "built_parts (\<lambda>_ _ _. None) map_ristretto (\<lambda>_. 0) (map_builder b) (map_layers b)
     (\<lambda>k w. (case src k of Some v \<Rightarrow> Inr v | None \<Rightarrow> Inl LoadNotFound, w))"
  "built_R id id (map_builder b)" "ristretto_R id (bd_keyFn (map_builder b))" src
  for b src
  by (rule built_loading_source [OF map_layers_built map_builder_sound map_ristretto_laws pure_loader_reads])

section \<open>Bounds of the jitter\<close>

lemma f64_pos_f64: "0 < x \<Longrightarrow> f64 (f64_pos x) = f64_pos x"
  using rounded_significand_bounds [of x]
  by (intro f64_exact [where m = "round_half_even (x / 2 powi (flog2 x - 52))" and z = "flog2 x - 52"]) (auto simp: f64_pos_def Let_def)

lemma f64_f64: "f64 (f64 x) = f64 x"
  using f64_pos_f64 [of x] f64_pos_f64 [of "- x"] by (auto simp: f64_def [of x] f64_neg)

lemma f64_1: "f64 1 = 1"
  using f64_of_int [of 1] by simp

lemma f64_abs: "\<bar>x\<bar> \<le> y \<Longrightarrow> \<bar>f64 x\<bar> \<le> f64 y"
  using f64_mono [of x y] f64_mono [of "- x" y] by (simp add: f64_neg abs_le_iff)

lemma f64_trunc_abs:
  assumes "\<bar>x\<bar> \<le> y"
  shows "\<bar>f64_trunc x\<bar> \<le> \<lfloor>y\<rfloor>"
proof -
  have "\<bar>f64_trunc x\<bar> = \<lfloor>\<bar>x\<bar>\<rfloor>" by (auto simp: f64_trunc_def)
  then show ?thesis using floor_mono [OF assms] by simp
qed

lemma jitter_delta:
  assumes "0 \<le> draw" and "draw < 1" and "0 \<le> x" and "x = f64 x"
  shows "\<bar>f64 (x * f64 (f64 (2 * draw) - 1))\<bar> \<le> x"
proof -
  have "f64 (2 * draw) \<le> 2" using f64_mono [of "2 * draw" 2] f64_of_int [of 2] assms(2) by simp
  moreover have "0 \<le> f64 (2 * draw)" using f64_mono [of 0 "2 * draw"] assms(1) by simp
  ultimately have "\<bar>f64 (f64 (2 * draw) - 1)\<bar> \<le> 1" using f64_abs [of "f64 (2 * draw) - 1" 1] by (simp add: f64_1 abs_le_iff)
  then have "\<bar>x * f64 (f64 (2 * draw) - 1)\<bar> \<le> x" using assms(3) by (simp add: abs_mult mult_left_le)
  from f64_abs [OF this] assms(4) show ?thesis by simp
qed

section \<open>Properties\<close>


text \<open>Two levels over maps, with statistics, and a cache that is loaded, with a breaker and a memory of absent keys.\<close>

definition demo_builder :: "bool \<Rightarrow> (string, string, (string \<rightharpoonup> string, string \<rightharpoonup> string) layers) builder" where
  "demo_builder loading =
     \<lparr>bd_name = ''users'',
      bd_l1Cfg = Some \<lparr>rc_MaxCost = 10, rc_NumCounters = 0, rc_BufferItems = 0, rc_TTL = 60, rc_DefaultCost = 0\<rparr>,
      bd_l2Cfg = Some \<lparr>rd_Prefix = ''u'', rd_TTL = 60, rd_Codec = RawString\<rparr>, bd_keyFn = id,
      bd_cbCfg = (if loading then Some \<lparr>cb_Threshold = 1, cb_Timeout = 10\<rparr> else None), bd_stats = True,
      bd_loader = (if loading then Some (\<lambda>k w. (case [''a'' \<mapsto> ''1''] k of Some v \<Rightarrow> Inr v | None \<Rightarrow> Inl LoadNotFound, w)) else None),
      bd_loadCfg = \<lparr>lg_SoftTTL = 5, lg_NegativeTTL = 5\<rparr>\<rparr>"

definition demo_world :: "(string \<rightharpoonup> string, string \<rightharpoonup> string) layers" where
  "demo_world = (([], Map.empty), ([], cb_init, Map.empty))"

abbreviation demo_build where
  "demo_build loading \<equiv> Build (\<lambda>_ _ _. None) map_ristretto map_redis map_ristretto (\<lambda>_. 0) (demo_builder loading)"

lemma demo_sound: "sound_parts map_ristretto id map_redis id (demo_builder loading)"
  by (simp add: sound_parts_def map_ristretto_laws map_redis_laws demo_builder_def RawString_ok)

lemma demo_empty: "id (snd (fst demo_world)) = Map.empty" "id (snd (snd (snd demo_world))) = Map.empty"
  by (simp_all add: demo_world_def)

definition demo_layers :: "bool \<Rightarrow> (string, string, (string \<rightharpoonup> string, string \<rightharpoonup> string) layers) cache" where
  "demo_layers loading =
     multiLevel (build_l1 map_ristretto (demo_builder loading) (the (bd_l1Cfg (demo_builder loading))))
       (build_l2 map_redis (\<lambda>_. 0) (demo_builder loading) (the (bd_l2Cfg (demo_builder loading))))"

lemma demo_build:
  "demo_build loading = (if loading then Inr (newLoadingCache (built_parts (\<lambda>_ _ _. None) map_ristretto (\<lambda>_. 0) (demo_builder True) (demo_layers True)
       (the (bd_loader (demo_builder True))))) else Inr (lift_snd (lift_snd (demo_layers False))))"
  by (cases loading) (simp_all add: Build_def build_layers_def newRistretto_def demo_layers_def demo_builder_def Let_def)

lemmas demo_defs = demo_builder_def demo_layers_def demo_world_def build_l1_def build_l2_def multiLevel_def ml_both_def
  ml_Get_def ic_op_def ic_Get_def ristretto_cache_def newRedisCache_def redis_SetTTL_def map_ristretto_def map_redis_def RawString_def on_snd_def
  ristretto_defaults_def redis_key_def lift_snd_def newInstrumentedCache_def

definition demo_state :: "(string, string \<rightharpoonup> unit, (string \<rightharpoonup> string, string \<rightharpoonup> string) layers) lworld" where
  "demo_state = (\<lparr>ld_soft = Map.empty, ld_refreshing = {}, ld_pending = []\<rparr>, Map.empty, demo_world)"


text \<open>
  C13: every cache built with a loader answers as its source does, for a source that does not change: with either level or both, with or
  without circuit breaker, statistics, memory of absent keys and refresh of stale entries, and for every interleaving of reads with
  background refreshes, a read returns the value of the source, or that there is none, whatever the stores dropped and whichever
  calls the breaker refused.
\<close>

theorem built_cache_answers_source:
  assumes "Build new ri rd rneg clock b = Inr c" and "bd_loader b = Some loader"
    and "sound_parts ri view1 rd view2 b" and "ristretto_laws rneg viewn" and "reads_source view1 view2 src loader"
    and "view1 (snd (fst w)) = Map.empty" and "view2 (snd (snd (snd w))) = Map.empty" and "viewn n = Map.empty"
  shows "\<exists>parts. c = newLoadingCache parts \<and>
    (\<forall>(k, r)\<in>set (lc_trace parts acts (l, n, w)). r = (case src k of Some v \<Rightarrow> Inr (Some v) | None \<Rightarrow> Inl ErrNotFound))"
proof -
  from assms(1,2) obtain result where r: "build_layers new ri rd clock b = Inr result"
    "c = newLoadingCache (built_parts new rneg clock b result loader)" by (auto simp: Build_def split: sum.splits)
  note ls = built_loading_source [OF r(1) assms(3-5)]
  have "loading_source.ok (built_parts new rneg clock b result loader) (built_R view1 view2 b) (ristretto_R viewn (bd_keyFn b)) src (l, n, w)"
    using built_R_empty [of view1 w view2 b, OF assms(6,7)] assms(8) by (simp add: loading_source.ok_def [OF ls] ristretto_R_def)
  with r(2) loading_source.lc_trace_ok [OF ls] show ?thesis by blast
qed

theorem built_cache_answers_source_witness:
  "\<exists>c parts. demo_build True = Inr c \<and> c = newLoadingCache parts \<and>
     map snd (lc_trace parts [ActGet ''a'', ActRefresh, ActGet ''b'', ActGet ''b''] demo_state) =
     [Inr (Some ''1''), Inl ErrNotFound, Inl ErrNotFound]"
proof -
  let ?acts = "[ActGet ''a'', ActRefresh, ActGet ''b'', ActGet ''b'']"
  let ?loader = "\<lambda>k w. (case [''a'' \<mapsto> ''1''] k of Some v \<Rightarrow> Inr v | None \<Rightarrow> Inl LoadNotFound, w)"
  have "\<exists>c. demo_build True = Inr c" by (simp add: demo_build)
  then obtain c where c: "demo_build True = Inr c" by blast
  have ld: "bd_loader (demo_builder True) = Some ?loader" by (simp add: demo_builder_def)
  from built_cache_answers_source [OF c ld demo_sound map_ristretto_laws pure_loader_reads,
      where w = demo_world and n = Map.empty and acts = ?acts] demo_empty
  obtain parts where parts: "c = newLoadingCache parts"
    "\<forall>(k, r)\<in>set (lc_trace parts ?acts demo_state). r = (case [''a'' \<mapsto> ''1''] k of Some v \<Rightarrow> Inr (Some v) | None \<Rightarrow> Inl ErrNotFound)"
    unfolding demo_state_def by auto
  have "\<exists>x y z. lc_trace parts ?acts demo_state = [(''a'', x), (''b'', y), (''b'', z)]" by (simp add: case_prod_beta)
  then obtain x y z where t: "lc_trace parts ?acts demo_state = [(''a'', x), (''b'', y), (''b'', z)]" by blast
  have "map snd (lc_trace parts ?acts demo_state) = [Inr (Some ''1''), Inl ErrNotFound, Inl ErrNotFound]"
    using parts(2) unfolding t by simp
  with c parts(1) show ?thesis by (intro exI conjI)
qed

text \<open>
  C35: for a fraction of at most 1, a time to live of up to \<open>2\<^sup>5\<^sup>3\<close> nanoseconds (104 days) is changed by no more than the fraction of it,
  rounded to a float64, whatever number is drawn; the result is not negative and at most twice the time.
\<close>

theorem Jitter_bounds:
  assumes "0 \<le> draw" and "draw < 1" and "0 \<le> ttl" and "ttl \<le> 2 ^ 53" and "0 < fraction" and "fraction \<le> 1"
  shows "\<bar>Jitter draw ttl fraction - ttl\<bar> \<le> \<lfloor>f64 (rat_of_int ttl * fraction)\<rfloor> \<and>
    0 \<le> Jitter draw ttl fraction \<and> Jitter draw ttl fraction \<le> 2 * ttl"
proof -
  let ?x = "f64 (rat_of_int ttl * fraction)"
  let ?d = "f64_trunc (f64 (?x * f64 (f64 (2 * draw) - 1)))"
  have ttl: "f64 (rat_of_int ttl) = rat_of_int ttl" using f64_of_int [of ttl] assms(3,4) by simp
  have "0 \<le> ?x" using f64_mono [of 0 "rat_of_int ttl * fraction"] assms(3,5) by simp
  then have d: "\<bar>?d\<bar> \<le> \<lfloor>?x\<rfloor>" using jitter_delta [OF assms(1,2), of ?x] f64_trunc_abs by (simp add: f64_f64)
  have "rat_of_int ttl * fraction \<le> rat_of_int ttl" using assms(3,6) by (simp add: mult_left_le)
  then have "?x \<le> rat_of_int ttl" using f64_mono [of "rat_of_int ttl * fraction" "rat_of_int ttl"] ttl by simp
  then have "\<lfloor>?x\<rfloor> \<le> ttl" by (simp add: floor_le_iff)
  with d have le: "\<bar>?d\<bar> \<le> ttl" by linarith
  have "Jitter draw ttl fraction = ttl + ?d"
    using le assms(3-5) by (simp add: Jitter_def ttl in_int64_def abs_le_iff)
  with d le show ?thesis by (simp add: abs_le_iff)
qed

theorem Jitter_bounds_witness:
  "\<bar>Jitter (3 / 4) 86400000000000 (1 / 10) - 86400000000000\<bar> \<le> \<lfloor>f64 (rat_of_int 86400000000000 * (1 / 10))\<rfloor>"
  using Jitter_bounds [of "3 / 4" 86400000000000 "1 / 10"] by simp

end
