(* ===== verification/Grpc_Pool.thy ===== *)
theory Grpc_Pool
  imports Kit_Prelude
begin

text \<open>
  \<^verbatim>\<open>src/infra/transport/gRPC/pool/pool.go\<close>: the pool of gRPC connections.

  The pool keeps its idle connections, and empty slots for those still to be made, in a buffered
  channel. A connection is a number; \<open>conns\<close> keeps which of them are open, and dialling is
  \<^verbatim>\<open>grpc.NewClient\<close> behind the pool's factory, whose outcome is a parameter of each operation. What
  callers hold are pointers to wrappers, as the code hands them out: they live in a table of their own,
  since \<^verbatim>\<open>Close\<close> changes them in place and may be called again.
\<close>

section \<open>State\<close>

record slot =
  sl_conn :: "nat option"
  sl_timeUsed :: instant
  sl_timeInitiated :: instant
  sl_unhealthy :: bool

text \<open>The channel is shared by everyone who read it from the pool, also after the pool forgot it.\<close>

record pool =
  pl_hasClients :: bool
  pl_closed :: bool
  pl_buf :: "slot list"
  pl_cap :: nat
  pl_chanClosed :: bool
  pl_idleTimeout :: duration
  pl_maxLifeDuration :: duration

record conns =
  cn_next :: nat
  cn_open :: "nat set"

definition conn_dial :: "string option \<Rightarrow> conns \<Rightarrow> (string + nat) \<times> conns" where
  "conn_dial err cn =
     (case err of
        Some e \<Rightarrow> (Inl e, cn)
      | None \<Rightarrow> (Inr (cn_next cn), cn\<lparr>cn_next := Suc (cn_next cn), cn_open := insert (cn_next cn) (cn_open cn)\<rparr>))"

definition conn_close :: "nat \<Rightarrow> conns \<Rightarrow> conns" where
  "conn_close n cn = cn\<lparr>cn_open := cn_open cn - {n}\<rparr>"

definition slot_close :: "nat option \<Rightarrow> conns \<Rightarrow> conns" where
  "slot_close c cn = (case c of Some n \<Rightarrow> conn_close n cn | None \<Rightarrow> cn)"

definition empty_slot :: slot where
  "empty_slot = \<lparr>sl_conn = None, sl_timeUsed = 0, sl_timeInitiated = 0, sl_unhealthy = False\<rparr>"

section \<open>Operations\<close>

text \<open>\<^verbatim>\<open>NewWithContext\<close>: \<open>errs\<close> are the outcomes of the dials, one for each initial connection.\<close>

fun pool_fill :: "instant \<Rightarrow> string option list \<Rightarrow> conns \<Rightarrow> (string + slot list) \<times> conns" where
  "pool_fill now [] cn = (Inr [], cn)"
| "pool_fill now (err # errs) cn =
     (case conn_dial err cn of
        (Inl e, cn') \<Rightarrow> (Inl e, cn')
      | (Inr n, cn') \<Rightarrow>
          (case pool_fill now errs cn' of
             (Inl e, cn'') \<Rightarrow> (Inl e, cn'')
           | (Inr ss, cn'') \<Rightarrow>
               (Inr (\<lparr>sl_conn = Some n, sl_timeUsed = now, sl_timeInitiated = now, sl_unhealthy = False\<rparr> # ss), cn'')))"

definition pool_sizes :: "int \<Rightarrow> int \<Rightarrow> nat \<times> nat" where
  "pool_sizes ini capacity =
     (let capacity = (if capacity \<le> 0 then 1 else capacity);
          ini = (if ini < 0 then 0 else ini);
          ini = (if ini > capacity then capacity else ini)
      in (nat ini, nat capacity))"

definition NewWithContext ::
    "instant \<Rightarrow> (nat \<Rightarrow> string option) \<Rightarrow> int \<Rightarrow> int \<Rightarrow> duration \<Rightarrow> duration list \<Rightarrow> conns \<Rightarrow> (string + pool) \<times> conns" where
  "NewWithContext now dials ini0 cap0 idleTimeout maxLife cn =
     (case pool_sizes ini0 cap0 of
        (ini, capacity) \<Rightarrow>
          (case pool_fill now (map dials [0..<ini]) cn of
             (Inl e, cn') \<Rightarrow> (Inl e, cn')
           | (Inr ss, cn') \<Rightarrow>
               (Inr \<lparr>pl_hasClients = True, pl_closed = False,
                     pl_buf = ss @ replicate (capacity - ini) empty_slot, pl_cap = capacity,
                     pl_chanClosed = False, pl_idleTimeout = idleTimeout,
                     pl_maxLifeDuration = (case maxLife of [] \<Rightarrow> 0 | d # _ \<Rightarrow> d)\<rparr>, cn')))"

fun drain :: "slot list \<Rightarrow> conns \<Rightarrow> conns" where
  "drain [] cn = cn"
| "drain (s # ss) cn = drain ss (slot_close (sl_conn s) cn)"

definition pool_Close :: "pool \<Rightarrow> conns \<Rightarrow> pool \<times> conns" where
  "pool_Close p cn =
     (if \<not> pl_hasClients p then (p, cn)
      else
        (let p1 = p\<lparr>pl_hasClients := False\<rparr>
         in if pl_closed p1 then (p1, cn)
            else (p1\<lparr>pl_closed := True, pl_chanClosed := True, pl_buf := []\<rparr>, drain (pl_buf p1) cn)))"

definition pool_IsClosed :: "pool option \<Rightarrow> bool" where
  "pool_IsClosed p = (case p of None \<Rightarrow> True | Some p \<Rightarrow> \<not> pl_hasClients p)"

definition pool_Capacity :: "pool \<Rightarrow> nat" where
  "pool_Capacity p = (if pool_IsClosed (Some p) then 0 else pl_cap p)"

definition pool_Available :: "pool \<Rightarrow> nat" where
  "pool_Available p = (if pool_IsClosed (Some p) then 0 else length (pl_buf p))"

text \<open>
  \<^verbatim>\<open>Get\<close> in its two halves. The first reads the channel; the second waits for a slot, and answers
  \<^term>\<open>None\<close> while there is none, the channel is open and the context is not done. A closed and empty
  channel gives the zero wrapper at once. The result is the wrapper for the caller.
\<close>

definition pool_Get_begin :: "pool \<Rightarrow> string option" where
  "pool_Get_begin p = (if pl_hasClients p then None else Some ''[gRPC POOL] client pool is closed'')"

definition idle_expired :: "pool \<Rightarrow> instant \<Rightarrow> slot \<Rightarrow> bool" where
  "idle_expired p now s \<longleftrightarrow> sl_conn s \<noteq> None \<and> pl_idleTimeout p > 0 \<and>
     time_before (time_add (sl_timeUsed s) (pl_idleTimeout p)) now"

definition pool_Get_slot ::
    "instant \<Rightarrow> string option \<Rightarrow> slot \<Rightarrow> pool \<Rightarrow> conns \<Rightarrow> ((string + slot) \<times> pool \<times> conns) or_panic" where
  "pool_Get_slot now err s0 p cn0 =
     (let (s, cn) = (if idle_expired p now s0 then (s0\<lparr>sl_conn := None\<rparr>, slot_close (sl_conn s0) cn0) else (s0, cn0))
      in case sl_conn s of
           Some _ \<Rightarrow> Inr (Inr s, p, cn)
         | None \<Rightarrow>
             (case conn_dial err cn of
                (Inl e, cn') \<Rightarrow>
                  if pl_chanClosed p then Inl (Panic ''send on closed channel'')
                  else Inr (Inl e, p\<lparr>pl_buf := pl_buf p @ [s]\<rparr>, cn')
              | (Inr n, cn') \<Rightarrow> Inr (Inr (s\<lparr>sl_conn := Some n, sl_timeInitiated := now\<rparr>), p, cn')))"

definition pool_Get_wait ::
    "bool \<Rightarrow> instant \<Rightarrow> string option \<Rightarrow> pool \<Rightarrow> conns \<Rightarrow> ((string + slot) \<times> pool \<times> conns) or_panic option" where
  "pool_Get_wait done now err p cn =
     (if done then Some (Inr (Inl ''[gRPC POOL] context deadline exceeded'', p, cn))
      else
        (case pl_buf p of
           s # rest \<Rightarrow> Some (pool_Get_slot now err s (p\<lparr>pl_buf := rest\<rparr>) cn)
         | [] \<Rightarrow> if pl_chanClosed p then Some (pool_Get_slot now err empty_slot p cn) else None))"

definition slot_Unhealthy :: "slot \<Rightarrow> slot" where
  "slot_Unhealthy c = c\<lparr>sl_unhealthy := True\<rparr>"

text \<open>\<^verbatim>\<open>Close\<close> of a wrapper: its error, the wrapper as the call leaves it, the pool and the connections.\<close>

definition slot_Close :: "instant \<Rightarrow> slot \<Rightarrow> pool \<Rightarrow> conns \<Rightarrow> string option \<times> slot \<times> pool \<times> conns" where
  "slot_Close now c0 p cn0 =
     (case sl_conn c0 of
        None \<Rightarrow> (Some ''[gRPC pool] already closed'', c0, p, cn0)
      | Some n \<Rightarrow>
          (let c = (if pl_maxLifeDuration p > 0 \<and>
                       time_before (time_add (sl_timeInitiated c0) (pl_maxLifeDuration p)) now
                    then slot_Unhealthy c0 else c0);
               (w, cn) =
                 (if sl_unhealthy c
                  then (\<lparr>sl_conn = None, sl_timeUsed = now, sl_timeInitiated = 0, sl_unhealthy = False\<rparr>, conn_close n cn0)
                  else (\<lparr>sl_conn = Some n, sl_timeUsed = now, sl_timeInitiated = sl_timeInitiated c, sl_unhealthy = False\<rparr>, cn0))
           in if pl_closed p then (None, c, p, conn_close n cn)
              else if pl_hasClients p \<and> length (pl_buf p) < pl_cap p
              then (None, c\<lparr>sl_conn := None\<rparr>, p\<lparr>pl_buf := pl_buf p @ [w]\<rparr>, cn)
              else (None, c\<lparr>sl_conn := None\<rparr>, p, conn_close n cn)))"

section \<open>The pool and its users\<close>

text \<open>
  Any number of \<^verbatim>\<open>Get\<close> calls wait at once; a caller may mark its wrapper, close it, close it again, and
  the pool may be closed at any time. Wrappers are listed in the order they were handed out.
\<close>

record pool_sys =
  sy_pool :: pool
  sy_conns :: conns
  sy_now :: instant
  sy_waiting :: nat
  sy_handles :: "slot list"

inductive pool_step :: "pool_sys \<Rightarrow> pool_sys \<Rightarrow> bool" where
  tick: "0 \<le> d \<Longrightarrow> pool_step s (s\<lparr>sy_now := sy_now s + d\<rparr>)"
| await: "pool_Get_begin (sy_pool s) = None \<Longrightarrow> pool_step s (s\<lparr>sy_waiting := Suc (sy_waiting s)\<rparr>)"
| refuse: "sy_waiting s = Suc n \<Longrightarrow>
    pool_Get_wait cancelled (sy_now s) err (sy_pool s) (sy_conns s) = Some (Inr (Inl e, p, cn)) \<Longrightarrow>
    pool_step s (s\<lparr>sy_waiting := n, sy_pool := p, sy_conns := cn\<rparr>)"
| grant: "sy_waiting s = Suc n \<Longrightarrow>
    pool_Get_wait cancelled (sy_now s) err (sy_pool s) (sy_conns s) = Some (Inr (Inr c, p, cn)) \<Longrightarrow>
    pool_step s (s\<lparr>sy_waiting := n, sy_pool := p, sy_conns := cn, sy_handles := sy_handles s @ [c]\<rparr>)"
| mark: "sy_handles s = xs @ c # ys \<Longrightarrow> pool_step s (s\<lparr>sy_handles := xs @ slot_Unhealthy c # ys\<rparr>)"
| release: "sy_handles s = xs @ c # ys \<Longrightarrow>
    slot_Close (sy_now s) c (sy_pool s) (sy_conns s) = (e, c', p, cn) \<Longrightarrow>
    pool_step s (s\<lparr>sy_pool := p, sy_conns := cn, sy_handles := xs @ c' # ys\<rparr>)"
| close: "pool_Close (sy_pool s) (sy_conns s) = (p, cn) \<Longrightarrow> pool_step s (s\<lparr>sy_pool := p, sy_conns := cn\<rparr>)"

inductive pool_reach :: "pool_sys \<Rightarrow> bool" where
  start: "NewWithContext now dials ini capacity idle life \<lparr>cn_next = 0, cn_open = {}\<rparr> = (Inr p, cn) \<Longrightarrow>
    pool_reach \<lparr>sy_pool = p, sy_conns = cn, sy_now = now, sy_waiting = 0, sy_handles = []\<rparr>"
| step: "pool_reach s \<Longrightarrow> pool_step s s' \<Longrightarrow> pool_reach s'"

section \<open>Invariant\<close>

definition conns_of :: "slot list \<Rightarrow> nat list" where
  "conns_of ss = List.map_filter sl_conn ss"

lemma conns_of_simps [simp]:
  "conns_of [] = []"
  "conns_of (s # ss) = (case sl_conn s of None \<Rightarrow> conns_of ss | Some n \<Rightarrow> n # conns_of ss)"
  "conns_of (ss @ ts) = conns_of ss @ conns_of ts"
  by (induction ss) (auto simp: conns_of_def map_filter_simps split: option.splits)

lemma conns_of_replicate [simp]: "sl_conn s = None \<Longrightarrow> conns_of (replicate n s) = []"
  by (induction n) auto

text \<open>
  Every connection in the channel is open, every open one is in the channel or with one caller, no two
  of them share it, and while the pool is open the slots in the channel and the connections with
  callers make up the capacity.
\<close>

definition pool_inv :: "pool \<Rightarrow> conns \<Rightarrow> slot list \<Rightarrow> bool" where
  "pool_inv p cn hs \<longleftrightarrow>
     (\<forall>n \<in> set (conns_of (pl_buf p)) \<union> set (conns_of hs). n < cn_next cn) \<and>
     distinct (conns_of (pl_buf p) @ conns_of hs) \<and>
     set (conns_of (pl_buf p)) \<subseteq> cn_open cn \<and> cn_open cn \<subseteq> set (conns_of (pl_buf p)) \<union> set (conns_of hs) \<and>
     pl_hasClients p = (\<not> pl_closed p) \<and> pl_chanClosed p = pl_closed p \<and>
     (if pl_closed p then pl_buf p = []
      else set (conns_of hs) \<subseteq> cn_open cn \<and> length (pl_buf p) + length (conns_of hs) = pl_cap p)"

lemma pool_fill_inv:
  assumes "pool_fill now errs cn = (Inr ss, cn')" and "\<forall>n \<in> cn_open cn. n < cn_next cn"
  shows "length ss = length errs \<and> cn_open cn' = cn_open cn \<union> set (conns_of ss) \<and>
         distinct (conns_of ss) \<and> (\<forall>n \<in> set (conns_of ss). cn_next cn \<le> n \<and> n < cn_next cn') \<and> cn_next cn \<le> cn_next cn'"
  using assms
proof (induction errs arbitrary: cn ss)
  case (Cons err errs)
  show ?case
  proof (cases err)
    case None
    let ?cn = "cn\<lparr>cn_next := Suc (cn_next cn), cn_open := insert (cn_next cn) (cn_open cn)\<rparr>"
    obtain ts where ts: "pool_fill now errs ?cn = (Inr ts, cn')"
      and ss: "ss = \<lparr>sl_conn = Some (cn_next cn), sl_timeUsed = now, sl_timeInitiated = now, sl_unhealthy = False\<rparr> # ts"
      using Cons.prems(1) None by (auto simp: conn_dial_def split: prod.splits sum.splits)
    have "\<forall>n \<in> cn_open ?cn. n < cn_next ?cn" using Cons.prems(2) by auto
    from Cons.IH [OF ts this] show ?thesis by (fastforce simp: ss)
  qed (use Cons.prems(1) in \<open>simp add: conn_dial_def\<close>)
qed simp

lemma pool_inv_new:
  assumes "NewWithContext now dials ini capacity idle life \<lparr>cn_next = 0, cn_open = {}\<rparr> = (Inr p, cn)"
  shows "pool_inv p cn []"
proof -
  obtain i c where sizes: "pool_sizes ini capacity = (i, c)" by fastforce
  then have "i \<le> c" by (auto simp: pool_sizes_def Let_def split: if_splits)
  obtain ss where fill: "pool_fill now (map dials [0..<i]) \<lparr>cn_next = 0, cn_open = {}\<rparr> = (Inr ss, cn)"
    and p: "pl_buf p = ss @ replicate (c - i) empty_slot" "pl_cap p = c" "pl_hasClients p" "\<not> pl_closed p" "\<not> pl_chanClosed p"
    using assms sizes by (auto simp: NewWithContext_def split: prod.splits sum.splits)
  from pool_fill_inv [OF fill] p \<open>i \<le> c\<close> show ?thesis
    by (auto simp: pool_inv_def empty_slot_def)
qed

lemma drain_open: "cn_open (drain ss cn) = cn_open cn - set (conns_of ss)" "cn_next (drain ss cn) = cn_next cn"
  by (induction ss arbitrary: cn) (auto simp: slot_close_def conn_close_def split: option.splits)

lemma pool_inv_Close:
  assumes "pool_inv p cn hs" and "pool_Close p cn = (p', cn')"
  shows "pool_inv p' cn' hs"
proof (cases "pl_closed p")
  case True
  with assms show ?thesis by (auto simp: pool_Close_def pool_inv_def)
next
  case False
  with assms have "p' = p\<lparr>pl_hasClients := False, pl_closed := True, pl_chanClosed := True, pl_buf := []\<rparr>"
    "cn' = drain (pl_buf p) cn"
    by (auto simp: pool_Close_def pool_inv_def Let_def)
  with assms(1) False show ?thesis by (auto simp: pool_inv_def drain_open)
qed

lemmas get_slot_defs = pool_Get_slot_def idle_expired_def conn_dial_def slot_close_def conn_close_def

lemma pool_inv_Get_slot:
  assumes "pool_inv p cn hs" and "pl_buf p = s # rest"
    and "pool_Get_slot now err s (p\<lparr>pl_buf := rest\<rparr>) cn = Inr (r, p', cn')"
  shows "pool_inv p' cn' (case r of Inr c \<Rightarrow> hs @ [c] | Inl _ \<Rightarrow> hs)"
proof -
  have op: "\<not> pl_closed p" using assms(1,2) by (auto simp: pool_inv_def)
  show ?thesis
  proof (cases "sl_conn s")
    case None
    then have e: "\<not> idle_expired (p\<lparr>pl_buf := rest\<rparr>) now s" by (simp add: idle_expired_def)
    show ?thesis
    proof (cases err)
      case err: None
      then have "r = Inr (s\<lparr>sl_conn := Some (cn_next cn), sl_timeInitiated := now\<rparr>)" "p' = p\<lparr>pl_buf := rest\<rparr>"
        "cn_next cn' = Suc (cn_next cn)" "cn_open cn' = insert (cn_next cn) (cn_open cn)"
        using assms(3) e None by (auto simp: pool_Get_slot_def conn_dial_def)
      with assms(1,2) op None show ?thesis by (auto simp: pool_inv_def intro: less_SucI)
    next
      case (Some x)
      then have "r = Inl x" "p' = p\<lparr>pl_buf := rest @ [s]\<rparr>" "cn' = cn"
        using assms(1,3) e op None by (auto simp: pool_Get_slot_def conn_dial_def pool_inv_def)
      with assms(1,2) op None show ?thesis by (auto simp: pool_inv_def)
    qed
  next
    case (Some n)
    show ?thesis
    proof (cases "idle_expired p now s")
      case True
      then have e: "idle_expired (p\<lparr>pl_buf := rest\<rparr>) now s" by (simp add: idle_expired_def)
      have inv: "\<forall>m \<in> set (conns_of rest) \<union> set (conns_of hs). m < cn_next cn" "n < cn_next cn"
        "distinct (conns_of rest @ conns_of hs)" "n \<notin> set (conns_of rest)" "n \<notin> set (conns_of hs)"
        "set (conns_of rest) \<subseteq> cn_open cn" "cn_open cn \<subseteq> insert n (set (conns_of rest) \<union> set (conns_of hs))"
        "set (conns_of hs) \<subseteq> cn_open cn" "Suc (length rest) + length (conns_of hs) = pl_cap p"
        using assms(1,2) op Some by (auto simp: pool_inv_def)
      show ?thesis
      proof (cases err)
        case None
        then have "r = Inr (s\<lparr>sl_conn := Some (cn_next cn), sl_timeInitiated := now\<rparr>)" "p' = p\<lparr>pl_buf := rest\<rparr>"
          "cn_next cn' = Suc (cn_next cn)" "cn_open cn' = insert (cn_next cn) (cn_open cn - {n})"
          using assms(3) e Some by (auto simp: pool_Get_slot_def conn_dial_def slot_close_def conn_close_def)
        with inv assms(1) op show ?thesis by (auto simp: pool_inv_def intro: less_SucI)
      next
        case (Some x)
        then have "r = Inl x" "p' = p\<lparr>pl_buf := rest @ [s\<lparr>sl_conn := None\<rparr>]\<rparr>"
          "cn_next cn' = cn_next cn" "cn_open cn' = cn_open cn - {n}"
          using assms(1,3) e op \<open>sl_conn s = Some n\<close>
          by (auto simp: pool_Get_slot_def conn_dial_def slot_close_def conn_close_def pool_inv_def)
        with inv assms(1) op show ?thesis by (auto simp: pool_inv_def)
      qed
    next
      case False
      with assms Some have "r = Inr s" "p' = p\<lparr>pl_buf := rest\<rparr>" "cn' = cn"
        by (auto simp: pool_Get_slot_def idle_expired_def)
      with assms(1,2) op Some show ?thesis by (auto simp: pool_inv_def)
    qed
  qed
qed

lemma pool_inv_Get_closed:
  assumes "pool_inv p cn hs" and "pl_chanClosed p"
    and "pool_Get_slot now err empty_slot p cn = Inr (r, p', cn')"
  shows "pool_inv p' cn' (case r of Inr c \<Rightarrow> hs @ [c] | Inl _ \<Rightarrow> hs)"
  using assms by (cases err) (fastforce simp: get_slot_defs empty_slot_def pool_inv_def)+

lemma pool_inv_Get_wait:
  assumes "pool_inv p cn hs" and "pool_Get_wait cancelled now err p cn = Some (Inr (r, p', cn'))"
  shows "pool_inv p' cn' (case r of Inr c \<Rightarrow> hs @ [c] | Inl _ \<Rightarrow> hs)"
proof (cases cancelled)
  case True
  with assms show ?thesis by (auto simp: pool_Get_wait_def)
next
  case False
  show ?thesis
  proof (cases "pl_buf p")
    case Nil
    with False assms(2) have "pl_chanClosed p" "pool_Get_slot now err empty_slot p cn = Inr (r, p', cn')"
      by (auto simp: pool_Get_wait_def split: if_splits)
    with assms(1) show ?thesis by (intro pool_inv_Get_closed)
  next
    case (Cons s rest)
    with False assms(2) have "pool_Get_slot now err s (p\<lparr>pl_buf := rest\<rparr>) cn = Inr (r, p', cn')"
      by (simp add: pool_Get_wait_def)
    with assms(1) Cons show ?thesis by (intro pool_inv_Get_slot)
  qed
qed

lemma pool_inv_slot_Close:
  assumes "pool_inv p cn (xs @ c # ys)" and "slot_Close now c p cn = (e, c', p', cn')"
  shows "pool_inv p' cn' (xs @ c' # ys)"
proof (cases "sl_conn c")
  case None
  with assms show ?thesis by (auto simp: slot_Close_def)
next
  case (Some n)
  show ?thesis
  proof (cases "pl_closed p")
    case True
    then have "sl_conn c' = Some n" "p' = p" "cn_next cn' = cn_next cn" "cn_open cn' = cn_open cn - {n}"
      using assms(2) Some
      by (auto simp: slot_Close_def slot_Unhealthy_def conn_close_def Let_def split: if_splits)
    with assms(1) True Some show ?thesis by (auto simp: pool_inv_def)
  next
    case False
    with assms(1) Some have room: "pl_hasClients p" "length (pl_buf p) < pl_cap p" by (auto simp: pool_inv_def)
    then obtain w where "sl_conn c' = None" "p' = p\<lparr>pl_buf := pl_buf p @ [w]\<rparr>" "cn_next cn' = cn_next cn"
      "sl_conn w = Some n \<and> cn' = cn \<or> sl_conn w = None \<and> cn_open cn' = cn_open cn - {n}"
      using assms(2) Some False
      by (auto simp: slot_Close_def slot_Unhealthy_def conn_close_def Let_def split: if_splits)
    with assms(1) False Some show ?thesis by (auto simp: pool_inv_def)
  qed
qed

lemma pool_inv_step:
  assumes "pool_step s s'" and "pool_inv (sy_pool s) (sy_conns s) (sy_handles s)"
  shows "pool_inv (sy_pool s') (sy_conns s') (sy_handles s')"
  using assms
proof cases
  case (refuse n cancelled err e p cn)
  with assms(2) pool_inv_Get_wait [of _ _ _ cancelled _ err "Inl e"] show ?thesis by fastforce
next
  case (grant n cancelled err c p cn)
  with assms(2) pool_inv_Get_wait [of _ _ _ cancelled _ err "Inr c"] show ?thesis by fastforce
next
  case (mark xs c ys)
  with assms(2) show ?thesis by (auto simp: pool_inv_def slot_Unhealthy_def split: option.splits)
next
  case (release xs c ys e c' p cn)
  with assms(2) pool_inv_slot_Close show ?thesis by simp
next
  case (close p cn)
  with assms(2) pool_inv_Close show ?thesis by simp
qed simp_all

lemma pool_inv_reach: "pool_reach s \<Longrightarrow> pool_inv (sy_pool s) (sy_conns s) (sy_handles s)"
  by (induction rule: pool_reach.induct) (auto intro: pool_inv_new pool_inv_step)

lemma slot_Close_closes:
  assumes "slot_Close now c p cn = (e, c', p', cn')" and "pl_closed p"
  shows "cn_open cn' = cn_open cn - set (conns_of [c])"
  using assms by (auto simp: slot_Close_def slot_Unhealthy_def conn_close_def Let_def split: option.splits if_splits)

text \<open>A constructor that fails after its first dial forgets the connections it made.\<close>

lemma NewWithContext_leaks:
  assumes "dials 0 = None" and "dials 1 = Some e" and "2 \<le> ini" and "2 \<le> capacity"
  shows "NewWithContext now dials ini capacity idle life \<lparr>cn_next = 0, cn_open = {}\<rparr> = (Inl e, \<lparr>cn_next = 1, cn_open = {0}\<rparr>)"
proof -
  obtain i c where sizes: "pool_sizes ini capacity = (i, c)" by fastforce
  then have "2 \<le> i" using assms(3,4) by (auto simp: pool_sizes_def Let_def split: if_splits)
  then have "[0..<i] = 0 # 1 # [2..<i]" by (simp add: upt_rec numeral_2_eq_2)
  then show ?thesis using sizes assms(1,2) by (simp add: NewWithContext_def conn_dial_def)
qed

section \<open>Properties\<close>


definition sample_pool :: "pool_sys" where
  "sample_pool =
     \<lparr>sy_pool = \<lparr>pl_hasClients = True, pl_closed = False, pl_buf = [empty_slot, empty_slot], pl_cap = 2,
                 pl_chanClosed = False, pl_idleTimeout = 0, pl_maxLifeDuration = 0\<rparr>,
      sy_conns = \<lparr>cn_next = 0, cn_open = {}\<rparr>, sy_now = 0, sy_waiting = 0, sy_handles = []\<rparr>"

lemma sample_pool_reach: "pool_reach sample_pool"
  using pool_reach.start [of 0 "\<lambda>_. None" 0 2 0 "[]"]
  by (simp add: NewWithContext_def pool_sizes_def sample_pool_def numeral_2_eq_2)


text \<open>
  A \<^verbatim>\<open>Get\<close> that waits while the pool is closed does not fail: it receives the zero wrapper from the
  closed channel and dials; when the dial fails too, it sends to the closed channel and panics, and
  when it succeeds the caller gets a connection of a closed pool.
\<close>

theorem waiting_Get_after_Close:
  assumes "pool_reach s" and "pl_closed (sy_pool s)"
  shows "pool_Get_wait False now (Some e) (sy_pool s) (sy_conns s) = Some (Inl (Panic ''send on closed channel'')) \<and>
         (\<exists>c cn. pool_Get_wait False now None (sy_pool s) (sy_conns s) = Some (Inr (Inr c, sy_pool s, cn)) \<and>
                 set (conns_of [c]) \<subseteq> cn_open cn \<and> conns_of [c] \<noteq> [])"
proof -
  have "pl_buf (sy_pool s) = []" "pl_chanClosed (sy_pool s)"
    using pool_inv_reach [OF assms(1)] assms(2) by (auto simp: pool_inv_def)
  then show ?thesis by (simp add: pool_Get_wait_def pool_Get_slot_def idle_expired_def empty_slot_def conn_dial_def)
qed

theorem waiting_Get_after_Close_witness:
  "\<exists>s. pool_reach s \<and> sy_waiting s = 1 \<and>
       pool_Get_wait False 7 (Some ''refused'') (sy_pool s) (sy_conns s) = Some (Inl (Panic ''send on closed channel''))"
proof -
  let ?s1 = "sample_pool\<lparr>sy_waiting := Suc (sy_waiting sample_pool)\<rparr>"
  obtain p cn where c: "pool_Close (sy_pool ?s1) (sy_conns ?s1) = (p, cn)" by fastforce
  let ?s2 = "?s1\<lparr>sy_pool := p, sy_conns := cn\<rparr>"
  have "pool_step sample_pool ?s1" by (rule pool_step.await) (simp add: sample_pool_def pool_Get_begin_def)
  then have "pool_reach ?s2"
    using pool_step.close [OF c] sample_pool_reach pool_reach.step by blast
  moreover have "pl_closed (sy_pool ?s2)" "sy_waiting ?s2 = 1"
    using c by (auto simp: sample_pool_def pool_Close_def)
  ultimately show ?thesis using waiting_Get_after_Close [of ?s2 7 "''refused''"] by blast
qed

end
