(* ===== verification/Grpc_Client.thy ===== *)
theory Grpc_Client
  imports Grpc_Pool Kit_Errors Rate_Size
begin

text \<open>
  \<^verbatim>\<open>src/infra/transport/gRPC/client.go\<close> and \<^verbatim>\<open>options.go\<close>: the options of a client, the dial options made
  of them, and calls through the pool.

  A service configuration is passed around by pointer, and options and dials write through it, so
  configurations live in a heap: address 0 is the package's \<^verbatim>\<open>defaultServiceConfig\<close>. TLS configurations,
  interceptors and dial options of gRPC are opaque and stand as numbers; \<^verbatim>\<open>json.Marshal\<close> on a
  configuration is a parameter.
\<close>

section \<open>Durations as text\<close>

text \<open>\<^verbatim>\<open>time.Duration.String\<close>; the micro sign is its two bytes in UTF-8.\<close>

definition duration_format :: "nat \<Rightarrow> string" where
  "duration_format u =
     (if u = 0 then ''0s''
      else if u < 1000000000 then
        (let (unit, prec) =
               (if u < 1000 then (''ns'', 0)
                else if u < 1000000 then ([char_of (194::nat), char_of (181::nat)] @ ''s'', 3) else (''ms'', 6));
             (buf, v) = fmtFrac unit u prec
         in fmtInt buf v)
      else
        (let (buf, secs) = fmtFrac ''s'' u 9;
             buf = fmtInt buf (secs mod 60);
             mins = secs div 60
         in if mins > 0 then
              (let buf = fmtInt (CHR ''m'' # buf) (mins mod 60);
                   hours = mins div 60
               in if hours > 0 then fmtInt (CHR ''h'' # buf) hours else buf)
            else buf))"

definition duration_String :: "duration \<Rightarrow> string" where
  "duration_String d = (if d < 0 then CHR ''-'' # duration_format (nat (- d)) else duration_format (nat d))"

section \<open>Options (options.go)\<close>

record retry_config =
  rt_MaxAttempts :: int
  rt_InitialBackoff :: duration
  rt_MaxBackoff :: duration
  rt_BackoffMultiplier :: rat

record pool_config =
  pc_InitialSize :: int
  pc_MaxSize :: int
  pc_IdleTimeout :: duration
  pc_MaxLifeDuration :: duration

record keepalive =
  ka_Time :: duration
  ka_Timeout :: duration
  ka_PermitWithoutStream :: bool

record retry_policy =
  rp_MaxAttempts :: int
  rp_InitialBackoff :: string
  rp_MaxBackoff :: string
  rp_BackoffMultiplier :: rat
  rp_RetryableStatusCodes :: "string list"

text \<open>Each element of the load-balancing list names one policy, with an empty configuration.\<close>

record service_config =
  sc_LoadBalancing :: "string list"
  sc_HealthCheck :: "string option"
  sc_RetryPolicy :: "retry_policy option"

record config_heap =
  ch_next :: nat
  ch_at :: "nat \<Rightarrow> service_config"

record client_options =
  co_target :: string
  co_timeout :: duration
  co_tlsConfig :: "nat option"
  co_healthCheck :: bool
  co_retryConfig :: "retry_config option"
  co_poolConfig :: pool_config
  co_unary :: "nat list"
  co_stream :: "nat list"
  co_dialOptions :: "nat list"
  co_serviceConfig :: "nat option"
  co_keepaliveParams :: keepalive

datatype client_option =
    WithTarget string | WithTimeout duration | WithTLS "nat option" | WithHealthCheck | WithRetry retry_config
  | WithPool pool_config | WithUnaryInterceptors "nat list" | WithStreamInterceptors "nat list"
  | WithDialOptions "nat list" | WithServiceConfig "nat option" | WithKeepalive keepalive | WithLoadBalancing string

definition empty_config :: service_config where
  "empty_config = \<lparr>sc_LoadBalancing = [], sc_HealthCheck = None, sc_RetryPolicy = None\<rparr>"

definition config_new :: "service_config \<Rightarrow> config_heap \<Rightarrow> nat \<times> config_heap" where
  "config_new sc h = (ch_next h, h\<lparr>ch_next := Suc (ch_next h), ch_at := (ch_at h)(ch_next h := sc)\<rparr>)"

fun apply_option :: "client_option \<Rightarrow> client_options \<times> config_heap \<Rightarrow> client_options \<times> config_heap" where
  "apply_option (WithTarget target) (o1, h) = (o1\<lparr>co_target := target\<rparr>, h)"
| "apply_option (WithTimeout timeout) (o1, h) = (o1\<lparr>co_timeout := timeout\<rparr>, h)"
| "apply_option (WithTLS config) (o1, h) = (o1\<lparr>co_tlsConfig := config\<rparr>, h)"
| "apply_option WithHealthCheck (o1, h) = (o1\<lparr>co_healthCheck := True\<rparr>, h)"
| "apply_option (WithRetry config) (o1, h) = (o1\<lparr>co_retryConfig := Some config\<rparr>, h)"
| "apply_option (WithPool config) (o1, h) = (o1\<lparr>co_poolConfig := config\<rparr>, h)"
| "apply_option (WithUnaryInterceptors is) (o1, h) = (o1\<lparr>co_unary := co_unary o1 @ is\<rparr>, h)"
| "apply_option (WithStreamInterceptors is) (o1, h) = (o1\<lparr>co_stream := co_stream o1 @ is\<rparr>, h)"
| "apply_option (WithDialOptions opts) (o1, h) = (o1\<lparr>co_dialOptions := co_dialOptions o1 @ opts\<rparr>, h)"
| "apply_option (WithServiceConfig config) (o1, h) = (o1\<lparr>co_serviceConfig := config\<rparr>, h)"
| "apply_option (WithKeepalive params) (o1, h) = (o1\<lparr>co_keepaliveParams := params\<rparr>, h)"
| "apply_option (WithLoadBalancing policy) (o1, h) =
     (let (a, o1, h) = (case co_serviceConfig o1 of
                          Some a \<Rightarrow> (a, o1, h)
                        | None \<Rightarrow> (case config_new empty_config h of (a, h) \<Rightarrow> (a, o1\<lparr>co_serviceConfig := Some a\<rparr>, h)))
      in (o1, h\<lparr>ch_at := (ch_at h)(a := (ch_at h a)\<lparr>sc_LoadBalancing := [policy]\<rparr>)\<rparr>))"

definition DefaultRetryConfig :: retry_config where
  "DefaultRetryConfig =
     \<lparr>rt_MaxAttempts = 3, rt_InitialBackoff = 100 * 1000000, rt_MaxBackoff = 1000000000, rt_BackoffMultiplier = 2\<rparr>"

definition AggressiveKeepalive :: keepalive where
  "AggressiveKeepalive = \<lparr>ka_Time = 5 * 1000000000, ka_Timeout = 2 * 1000000000, ka_PermitWithoutStream = True\<rparr>"

definition ConservativeKeepalive :: keepalive where
  "ConservativeKeepalive = \<lparr>ka_Time = 30 * 1000000000, ka_Timeout = 10 * 1000000000, ka_PermitWithoutStream = False\<rparr>"

section \<open>The client (client.go)\<close>

text \<open>What the package starts with, and the options every client starts from.\<close>

definition defaultServiceConfig :: service_config where
  "defaultServiceConfig = empty_config\<lparr>sc_LoadBalancing := [''round_robin'']\<rparr>"

definition initial_heap :: config_heap where
  "initial_heap = \<lparr>ch_next = 1, ch_at = (\<lambda>_. empty_config)(0 := defaultServiceConfig)\<rparr>"

definition default_options :: client_options where
  "default_options =
     \<lparr>co_target = [], co_timeout = 30 * 1000000000, co_tlsConfig = None, co_healthCheck = False, co_retryConfig = None,
      co_poolConfig = \<lparr>pc_InitialSize = 5, pc_MaxSize = 20, pc_IdleTimeout = 5 * 60 * 1000000000,
                       pc_MaxLifeDuration = 30 * 60 * 1000000000\<rparr>,
      co_unary = [], co_stream = [], co_dialOptions = [], co_serviceConfig = Some 0,
      co_keepaliveParams = \<lparr>ka_Time = 10 * 1000000000, ka_Timeout = 3 * 1000000000, ka_PermitWithoutStream = True\<rparr>\<rparr>"

definition validateOptions :: "client_options \<Rightarrow> string option" where
  "validateOptions opts = (if co_target opts = [] then Some ''target is required'' else None)"

text \<open>The configuration is completed in place, then marshalled; an error of the marshaller gives the empty text.\<close>

definition complete_config :: "client_options \<Rightarrow> service_config \<Rightarrow> service_config" where
  "complete_config opts sc =
     (let sc = (if co_healthCheck opts \<and> sc_HealthCheck sc = None then sc\<lparr>sc_HealthCheck := Some []\<rparr> else sc)
      in case (co_retryConfig opts, sc_RetryPolicy sc) of
           (Some rc, None) \<Rightarrow>
             sc\<lparr>sc_RetryPolicy := Some
                \<lparr>rp_MaxAttempts = rt_MaxAttempts rc,
                 rp_InitialBackoff = duration_String (rt_InitialBackoff rc),
                 rp_MaxBackoff = duration_String (rt_MaxBackoff rc),
                 rp_BackoffMultiplier = rt_BackoffMultiplier rc,
                 rp_RetryableStatusCodes = [code_name C_Unavailable, code_name C_DeadlineExceeded]\<rparr>\<rparr>
         | _ \<Rightarrow> sc)"

definition buildServiceConfig ::
    "(service_config \<Rightarrow> string option) \<Rightarrow> client_options \<Rightarrow> config_heap \<Rightarrow> string \<times> config_heap" where
  "buildServiceConfig marshal opts h =
     (case co_serviceConfig opts of
        None \<Rightarrow> ([], h)
      | Some a \<Rightarrow>
          (let sc = complete_config opts (ch_at h a);
               h' = h\<lparr>ch_at := (ch_at h)(a := sc)\<rparr>
           in (case marshal sc of Some text \<Rightarrow> text | None \<Rightarrow> [], h')))"

datatype dial_option =
    DialTLS nat | DialInsecure | DialServiceConfig string | DialKeepalive keepalive
  | DialUnary "nat list" | DialStream "nat list" | DialOther nat

definition buildDialOptions ::
    "(service_config \<Rightarrow> string option) \<Rightarrow> client_options \<Rightarrow> config_heap \<Rightarrow> dial_option list \<times> config_heap" where
  "buildDialOptions marshal opts h =
     (case buildServiceConfig marshal opts h of
        (sc, h') \<Rightarrow>
          ([case co_tlsConfig opts of Some t \<Rightarrow> DialTLS t | None \<Rightarrow> DialInsecure] @
           (if sc \<noteq> [] then [DialServiceConfig sc] else []) @
           [DialKeepalive (co_keepaliveParams opts)] @
           (if co_unary opts \<noteq> [] then [DialUnary (co_unary opts)] else []) @
           (if co_stream opts \<noteq> [] then [DialStream (co_stream opts)] else []) @
           map DialOther (co_dialOptions opts), h'))"

text \<open>
  The factory of the pool: \<^verbatim>\<open>grpc.NewClient\<close> on the target and the options is the parameter \<open>newClient\<close>,
  which answers an error text or none. Each dial builds its options afresh.
\<close>

definition dial_error ::
    "(string \<Rightarrow> dial_option list \<Rightarrow> nat \<Rightarrow> string option) \<Rightarrow> (service_config \<Rightarrow> string option) \<Rightarrow>
     client_options \<Rightarrow> config_heap \<Rightarrow> nat \<Rightarrow> string option" where
  "dial_error newClient marshal opts h i =
     map_option (\<lambda>e. ''[gRPC client] failed to dial '' @ co_target opts @ '': '' @ e)
       (newClient (co_target opts) (fst (buildDialOptions marshal opts h)) i)"

text \<open>The dials of the constructor: how many are made, and the heap they leave.\<close>

definition dials_made :: "(nat \<Rightarrow> string option) \<Rightarrow> nat \<Rightarrow> nat" where
  "dials_made dials n = length (takeWhile (\<lambda>i. dials i = None) [0..<n]) + (if list_all (\<lambda>i. dials i = None) [0..<n] then 0 else 1)"

definition NewClient ::
    "(string \<Rightarrow> dial_option list \<Rightarrow> nat \<Rightarrow> string option) \<Rightarrow> (service_config \<Rightarrow> string option) \<Rightarrow> instant \<Rightarrow>
     client_option list \<Rightarrow> config_heap \<Rightarrow> conns \<Rightarrow> (string + client_options \<times> pool) \<times> config_heap \<times> conns" where
  "NewClient newClient marshal now opts h cn =
     (case fold apply_option opts (default_options, h) of
        (options, h1) \<Rightarrow>
          (case validateOptions options of
             Some e \<Rightarrow> (Inl (''[gRPC client] invalid options: '' @ e), h1, cn)
           | None \<Rightarrow>
               (let pc = co_poolConfig options;
                    dials = dial_error newClient marshal options h1;
                    n = dials_made dials (fst (pool_sizes (pc_InitialSize pc) (pc_MaxSize pc)));
                    h2 = ((\<lambda>h. snd (buildDialOptions marshal options h)) ^^ n) h1
                in case NewWithContext now dials (pc_InitialSize pc) (pc_MaxSize pc) (pc_IdleTimeout pc)
                          [pc_MaxLifeDuration pc] cn of
                     (Inl e, cn') \<Rightarrow> (Inl (''[gRPC client] failed to create connection pool: '' @ e), h2, cn')
                   | (Inr p, cn') \<Rightarrow> (Inr (options, p), h2, cn'))))"

section \<open>Calls\<close>

text \<open>An error of a call: one with a gRPC status (itself or wrapped), or another.\<close>

datatype rpc_error = RpcStatus grpc_code string | RpcOther string

definition isConnectionError :: "rpc_error option \<Rightarrow> bool" where
  "isConnectionError err =
     (case err of
        Some (RpcStatus code _) \<Rightarrow> code \<in> {C_Unavailable, C_Canceled, C_Aborted}
      | _ \<Rightarrow> False)"

datatype exec_error = PoolFailed string | CallFailed rpc_error

text \<open>
  \<^verbatim>\<open>Execute\<close>: take a connection, call \<open>fn\<close> with it (which may take time), mark it when the call failed
  for the connection, and close the wrapper. The pool is \<^term>\<open>None\<close> while the call waits for a slot.
\<close>

definition client_Execute ::
    "bool \<Rightarrow> instant \<Rightarrow> string option \<Rightarrow> instant \<Rightarrow> (nat \<Rightarrow> rpc_error option) \<Rightarrow> pool \<Rightarrow> conns \<Rightarrow>
     (exec_error option \<times> pool \<times> conns) or_panic option" where
  "client_Execute cancelled now dial later fn p cn =
     (case pool_Get_begin p of
        Some e \<Rightarrow> Some (Inr (Some (PoolFailed (''[gRPC client] failed to get connection from pool: '' @ e)), p, cn))
      | None \<Rightarrow>
          (case pool_Get_wait cancelled now dial p cn of
             None \<Rightarrow> None
           | Some (Inl pa) \<Rightarrow> Some (Inl pa)
           | Some (Inr (Inl e, p', cn')) \<Rightarrow>
               Some (Inr (Some (PoolFailed (''[gRPC client] failed to get connection from pool: '' @ e)), p', cn'))
           | Some (Inr (Inr conn, p', cn')) \<Rightarrow>
               (let err = (case sl_conn conn of Some n \<Rightarrow> fn n | None \<Rightarrow> None);
                    conn' = (if isConnectionError err then slot_Unhealthy conn else conn)
                in case slot_Close later conn' p' cn' of
                     (_, _, p'', cn'') \<Rightarrow> Some (Inr (map_option CallFailed err, p'', cn'')))))"

text \<open>\<^verbatim>\<open>GetAPI\<close> hands the wrapper out; its cleanup is \<open>slot_Close\<close>.\<close>

definition client_GetAPI ::
    "bool \<Rightarrow> instant \<Rightarrow> string option \<Rightarrow> pool \<Rightarrow> conns \<Rightarrow> ((string + slot) \<times> pool \<times> conns) or_panic option" where
  "client_GetAPI cancelled now dial p cn =
     (case pool_Get_begin p of
        Some e \<Rightarrow> Some (Inr (Inl (''[gRPC client] failed to get connection: '' @ e), p, cn))
      | None \<Rightarrow>
          map_option (map_sum id (\<lambda>(r, pc). (map_sum (\<lambda>e. ''[gRPC client] failed to get connection: '' @ e) id r, pc)))
            (pool_Get_wait cancelled now dial p cn))"

record pool_stats =
  ps_Capacity :: int
  ps_Available :: int
  ps_InUse :: int
  ps_Utilization :: rat

definition client_Stats :: "pool option \<Rightarrow> pool_stats" where
  "client_Stats p =
     (case p of
        Some p \<Rightarrow>
          if pool_IsClosed (Some p) then \<lparr>ps_Capacity = 0, ps_Available = 0, ps_InUse = 0, ps_Utilization = 0\<rparr>
          else
            (let capacity = int (pool_Capacity p); available = int (pool_Available p)
             in \<lparr>ps_Capacity = capacity, ps_Available = available, ps_InUse = capacity - available,
                 ps_Utilization = f64 (f64 (f64 (of_int (capacity - available)) / f64 (of_int capacity)) * 100)\<rparr>)
      | None \<Rightarrow> \<lparr>ps_Capacity = 0, ps_Available = 0, ps_InUse = 0, ps_Utilization = 0\<rparr>)"

section \<open>Lemmas\<close>

lemma pool_inv_released: "sl_conn c = None \<Longrightarrow> pool_inv p cn (hs @ [c]) \<longleftrightarrow> pool_inv p cn hs"
  by (simp add: pool_inv_def)

lemma pool_Available_inv:
  "pool_inv p cn hs \<Longrightarrow> \<not> pl_closed p \<Longrightarrow> pool_Available p = pl_cap p - length (conns_of hs)"
  by (auto simp: pool_inv_def pool_Available_def pool_IsClosed_def)

lemma pool_Get_slot_frame:
  "pool_Get_slot now err s p cn = Inr (r, p', cn') \<Longrightarrow>
     pl_closed p' = pl_closed p \<and> pl_cap p' = pl_cap p \<and> (\<forall>c. r = Inr c \<longrightarrow> sl_conn c \<noteq> None)"
  by (auto simp: pool_Get_slot_def Let_def split: if_splits prod.splits sum.splits option.splits)

lemma pool_Get_wait_frame:
  assumes "pool_Get_wait cancelled now err p cn = Some (Inr (r, p', cn'))"
  shows "pl_closed p' = pl_closed p \<and> pl_cap p' = pl_cap p \<and> (\<forall>c. r = Inr c \<longrightarrow> sl_conn c \<noteq> None)"
  using assms by (auto simp: pool_Get_wait_def split: if_splits list.splits dest: pool_Get_slot_frame)

lemma slot_Close_open_pool:
  assumes "slot_Close later c p cn = (e, c', p', cn')" and "sl_conn c = Some n" and "\<not> pl_closed p"
  shows "sl_conn c' = None" and "\<not> pl_closed p'" and "pl_cap p' = pl_cap p"
    and "sl_unhealthy c \<Longrightarrow> n \<notin> cn_open cn'"
  using assms by (auto simp: slot_Close_def slot_Unhealthy_def conn_close_def Let_def split: if_splits)

lemma client_Execute_steps:
  assumes inv: "pool_inv p cn hs" and op: "\<not> pl_closed p"
    and run: "client_Execute cancelled now dial later fn p cn = Some (Inr (err, p', cn'))"
  shows "pool_inv p' cn' hs \<and> \<not> pl_closed p' \<and> pl_cap p' = pl_cap p \<and>
         (\<forall>e. err = Some (CallFailed e) \<and> isConnectionError (Some e) \<longrightarrow> (\<exists>n. fn n = Some e \<and> n \<notin> cn_open cn'))"
proof (cases "pool_Get_begin p")
  case (Some e)
  with inv op run show ?thesis by (auto simp: client_Execute_def)
next
  case None
  then obtain r p1 cn1 where g: "pool_Get_wait cancelled now dial p cn = Some (Inr (r, p1, cn1))"
    using run by (auto simp: client_Execute_def split: option.splits sum.splits)
  note inv1 = pool_inv_Get_wait [OF inv g]
  note fr = pool_Get_wait_frame [OF g]
  show ?thesis
  proof (cases r)
    case (Inl e)
    with None g run inv1 fr op show ?thesis by (auto simp: client_Execute_def)
  next
    case (Inr c)
    then obtain n where n: "sl_conn c = Some n" using fr by auto
    let ?c = "if isConnectionError (fn n) then slot_Unhealthy c else c"
    obtain e1 c2 p2 cn2 where cl: "slot_Close later ?c p1 cn1 = (e1, c2, p2, cn2)" by (metis prod_cases4)
    have out: "err = map_option CallFailed (fn n)" "p' = p2" "cn' = cn2"
      using None g run Inr n cl by (auto simp: client_Execute_def Let_def)
    have c: "sl_conn ?c = Some n" using n by (simp add: slot_Unhealthy_def)
    have inv2: "pool_inv p1 cn1 (hs @ [?c])" using inv1 Inr n by (auto simp: pool_inv_def slot_Unhealthy_def)
    note close = slot_Close_open_pool [OF cl c] 
    have "pool_inv p2 cn2 (hs @ [c2])"
      using pool_inv_slot_Close [of p1 cn1 hs ?c "[]"] inv2 cl by simp
    then have "pool_inv p2 cn2 hs" using close(1) fr op by (simp add: pool_inv_released)
    moreover have "n \<notin> cn_open cn2" if "isConnectionError (fn n)"
      using close(4) that fr op by (simp add: slot_Unhealthy_def)
    ultimately show ?thesis using out close(2,3) fr op by auto
  qed
qed

section \<open>Properties\<close>

text \<open>
  A call through the client gives its slot back whatever happens: the pool has as many slots
  available after it as before, when the call succeeds, when it fails, and when the dial for it fails
  or its context ends; and a call that fails for the connection leaves that connection closed.
\<close>

theorem Execute_returns_slot:
  assumes "pool_reach s" and "\<not> pl_closed (sy_pool s)"
    and "client_Execute cancelled now dial later fn (sy_pool s) (sy_conns s) = Some (Inr (err, p', cn'))"
  shows "pool_Available p' = pool_Available (sy_pool s) \<and>
         (\<forall>e. err = Some (CallFailed e) \<and> isConnectionError (Some e) \<longrightarrow> (\<exists>n. fn n = Some e \<and> n \<notin> cn_open cn'))"
  using client_Execute_steps [OF pool_inv_reach [OF assms(1)] assms(2,3)]
    pool_Available_inv [OF pool_inv_reach [OF assms(1)] assms(2)] pool_Available_inv [of p' cn' "sy_handles s"]
  by simp

theorem Execute_returns_slot_witness:
  "\<exists>p' cn'. client_Execute False 1 None 2 (\<lambda>n. Some (RpcStatus C_Unavailable ''down'')) (sy_pool sample_pool) (sy_conns sample_pool)
       = Some (Inr (Some (CallFailed (RpcStatus C_Unavailable ''down'')), p', cn')) \<and> pool_Available p' = 2"
proof -
  obtain p' cn' where r: "client_Execute False 1 None 2 (\<lambda>n. Some (RpcStatus C_Unavailable ''down''))
      (sy_pool sample_pool) (sy_conns sample_pool) = Some (Inr (Some (CallFailed (RpcStatus C_Unavailable ''down'')), p', cn'))"
    by (simp add: client_Execute_def sample_pool_def pool_Get_begin_def pool_Get_wait_def pool_Get_slot_def
        idle_expired_def empty_slot_def conn_dial_def slot_Close_def slot_Unhealthy_def isConnectionError_def Let_def)
  have "\<not> pl_closed (sy_pool sample_pool)" "pool_Available (sy_pool sample_pool) = 2"
    by (simp_all add: sample_pool_def pool_Available_def pool_IsClosed_def)
  with Execute_returns_slot [OF sample_pool_reach _ r] r show ?thesis by auto
qed

text \<open>
  The options of one client change the defaults of all: a client made with \<^verbatim>\<open>WithLoadBalancing\<close> writes
  its policy through the pointer to the package's default configuration, so that a client made later
  with a target only is dialled with that policy instead of \<^verbatim>\<open>round_robin\<close>.
\<close>

theorem LoadBalancing_leaks:
  assumes "fold apply_option [WithTarget t, WithLoadBalancing policy] (default_options, h) = (opts1, h1)"
    and "fold apply_option [WithTarget u] (default_options, h1) = (opts2, h2)"
  shows "\<exists>sc. sc_LoadBalancing sc = [policy] \<and>
           (\<forall>marshal text. marshal sc = Some text \<and> text \<noteq> [] \<longrightarrow>
              DialServiceConfig text \<in> set (fst (buildDialOptions marshal opts2 h2)))"
proof -
  have "opts2 = default_options\<lparr>co_target := u\<rparr>" "sc_LoadBalancing (ch_at h2 0) = [policy]"
    using assms by (auto simp: default_options_def)
  then show ?thesis
    by (intro exI [of _ "ch_at h2 0"])
      (simp add: buildDialOptions_def buildServiceConfig_def complete_config_def default_options_def Let_def)
qed

theorem LoadBalancing_leaks_witness:
  "\<exists>opts1 h1 opts2 h2 sc.
     fold apply_option [WithTarget ''a:1'', WithLoadBalancing ''pick_first''] (default_options, initial_heap) = (opts1, h1) \<and>
     fold apply_option [WithTarget ''b:1''] (default_options, h1) = (opts2, h2) \<and>
     sc_LoadBalancing (sc :: service_config) = [''pick_first''] \<and>
     DialServiceConfig ''json'' \<in> set (fst (buildDialOptions (\<lambda>_. Some ''json'') opts2 h2))"
proof -
  obtain opts1 h1 where 1: "fold apply_option [WithTarget ''a:1'', WithLoadBalancing ''pick_first''] (default_options, initial_heap) = (opts1, h1)"
    by fastforce
  obtain opts2 h2 where 2: "fold apply_option [WithTarget ''b:1''] (default_options, h1) = (opts2, h2)" by fastforce
  obtain sc where sc: "sc_LoadBalancing sc = [''pick_first'']"
      and dial: "\<And>marshal text. marshal sc = Some text \<and> text \<noteq> [] \<Longrightarrow>
              DialServiceConfig text \<in> set (fst (buildDialOptions marshal opts2 h2))"
    using LoadBalancing_leaks [OF 1 2] by blast
  have "DialServiceConfig ''json'' \<in> set (fst (buildDialOptions (\<lambda>_. Some ''json'') opts2 h2))"
    by (rule dial) simp
  with 1 2 sc show ?thesis by blast
qed

end
