(* ===== verification/Hash_Ring.thy ===== *)
theory Hash_Ring
  imports Kit_Prelude "HOL-Library.AList"
begin

text \<open>
  \<^verbatim>\<open>src/infra/transport/internal/consistent/consistent.go\<close> and \<^verbatim>\<open>internal/subset/subset.go\<close>: the
  consistent-hash circle that spreads clients over the instances of a service, and the choice of a
  subset of the instances by it. The methods take the circle's lock for their whole body, so each is
  one step.

  The hash functions are those of the standard library: \<^verbatim>\<open>hash/fnv\<close> (32 bit, variant 1a) and
  \<^verbatim>\<open>hash/crc32\<close> (IEEE), and \<^verbatim>\<open>sort.Search\<close> is its binary search.
\<close>

unbundle bit_operations_syntax

section \<open>Hash functions and binary search\<close>

definition fnv32a :: "string \<Rightarrow> u32" where
  "fnv32a s = foldl (\<lambda>h c. (h XOR of_char c) * 16777619) 2166136261 s"

definition crc32_bit :: "u32 \<Rightarrow> u32" where
  "crc32_bit r = (if bit r 0 then drop_bit 1 r XOR 0xEDB88320 else drop_bit 1 r)"

definition crc32_IEEE :: "string \<Rightarrow> u32" where
  "crc32_IEEE s = NOT (foldl (\<lambda>r c. (crc32_bit ^^ 8) (r XOR of_char c)) (NOT 0) s)"

text \<open>A published value of FNV-1a.\<close>

lemma fnv32a_check: "fnv32a ''a'' = 0xE40C292C"
  by code_simp

function sort_Search_loop :: "(nat \<Rightarrow> bool) \<Rightarrow> nat \<Rightarrow> nat \<Rightarrow> nat" where
  "sort_Search_loop f i j =
     (if i < j then
        (let h = (i + j) div 2
         in if \<not> f h then sort_Search_loop f (h + 1) j else sort_Search_loop f i h)
      else i)"
  by pat_completeness auto
termination by (relation "measure (\<lambda>(f, i, j). j - i)") auto

declare sort_Search_loop.simps [simp del]

definition sort_Search :: "nat \<Rightarrow> (nat \<Rightarrow> bool) \<Rightarrow> nat" where
  "sort_Search n f = sort_Search_loop f 0 n"

lemma sort_Search_loop_bound:
  assumes "i \<le> j"
  shows "i \<le> sort_Search_loop f i j \<and> sort_Search_loop f i j \<le> j"
  using assms
proof (induction f i j rule: sort_Search_loop.induct)
  case (1 f i j)
  show ?case
  proof (cases "i < j")
    case True
    then show ?thesis
      using "1.IH"(1) [OF True refl] "1.IH"(2) [OF True refl]
      by (subst (1 2) sort_Search_loop.simps) (fastforce simp: Let_def)
  next
    case False
    with 1 show ?thesis by (subst (1 2) sort_Search_loop.simps) simp
  qed
qed

text \<open>For a predicate that is false up to some point and true from there on, the point is found.\<close>

lemma sort_Search_loop_point:
  assumes "\<And>x. x < n \<Longrightarrow> f x \<longleftrightarrow> p \<le> x" and "i \<le> p" and "p \<le> j" and "j \<le> n"
  shows "sort_Search_loop f i j = p"
  using assms
proof (induction f i j rule: sort_Search_loop.induct)
  case (1 f i j)
  note pt = 1(3) and ip = 1(4) and pj = 1(5) and jn = 1(6)
  show ?case
  proof (cases "i < j")
    case True
    let ?h = "(i + j) div 2"
    have h: "i \<le> ?h" "?h < j" using True by auto
    then have fh: "f ?h \<longleftrightarrow> p \<le> ?h" using pt jn by simp
    have "sort_Search_loop f (?h + 1) j = p" if "\<not> f ?h"
      using "1.IH"(1) [OF True refl that pt] that fh pj jn by simp
    moreover have "sort_Search_loop f i ?h = p" if "f ?h"
      using "1.IH"(2) [OF True refl _ pt] that fh ip h jn by simp
    ultimately show ?thesis
      using True by (subst sort_Search_loop.simps) (simp add: Let_def)
  next
    case False
    with ip pj show ?thesis by (subst sort_Search_loop.simps) simp
  qed
qed

lemma sort_Search_sorted:
  assumes "sorted xs"
  shows "sort_Search (length xs) (\<lambda>i. xs ! i > k) = length (takeWhile (\<lambda>x. x \<le> k) xs)"
proof -
  let ?p = "length (takeWhile (\<lambda>x. x \<le> k) xs)"
  have "xs ! i > k \<longleftrightarrow> ?p \<le> i" if "i < length xs" for i
  proof
    assume "k < xs ! i"
    show "?p \<le> i"
    proof (rule ccontr)
      assume "\<not> ?p \<le> i"
      then have "xs ! i \<in> set (takeWhile (\<lambda>x. x \<le> k) xs)"
        by (metis not_le nth_mem takeWhile_nth)
      with \<open>k < xs ! i\<close> show False using set_takeWhileD by fastforce
    qed
  next
    assume p: "?p \<le> i"
    then have "\<not> xs ! ?p \<le> k" using that nth_length_takeWhile [of "\<lambda>x. x \<le> k" xs] by auto
    moreover have "xs ! ?p \<le> xs ! i" using assms p that by (simp add: sorted_nth_mono)
    ultimately show "k < xs ! i" by auto
  qed
  then show ?thesis
    unfolding sort_Search_def
    by (intro sort_Search_loop_point [where n = "length xs"]) (auto simp: length_takeWhile_le)
qed

section \<open>The circle\<close>

text \<open>
  \<^verbatim>\<open>circle\<close> is the map from positions to members, as an association list with distinct keys, and
  \<^verbatim>\<open>members\<close> the set of names, as a list without repetition. \<^verbatim>\<open>mo_String\<close> is the members' method and
  \<^verbatim>\<open>mo_zero\<close> the zero value of their type, which a read of a missing position gives.
\<close>

record 'm member_ops =
  mo_String :: "'m \<Rightarrow> string"
  mo_zero :: 'm

record 'm ring =
  circle :: "(u32 \<times> 'm) list"
  members :: "string list"
  sortedHashes :: "u32 list"
  NumberOfReplicas :: int
  ring_count :: int
  UseFnv :: bool

definition ring_New :: "'m ring" where
  "ring_New = \<lparr>circle = [], members = [], sortedHashes = [], NumberOfReplicas = 20, ring_count = 0, UseFnv = False\<rparr>"

definition eltKey :: "string \<Rightarrow> int \<Rightarrow> string" where
  "eltKey elt idx = fmt_int idx @ elt"

text \<open>A short key is copied into an array of 64 bytes, of which the length of the key is hashed.\<close>

definition hashKeyCRC32 :: "string \<Rightarrow> u32" where
  "hashKeyCRC32 key =
     (if length key < 64
      then (let scratch = key @ replicate (64 - length key) (char_of (0::nat)) in crc32_IEEE (take (length key) scratch))
      else crc32_IEEE key)"

definition hashKey :: "'m ring \<Rightarrow> string \<Rightarrow> u32" where
  "hashKey c key = (if UseFnv c then fnv32a key else hashKeyCRC32 key)"

text \<open>The quotient by the number of replicas is only compared with a size, but it is computed.\<close>

definition updateSortedHashes :: "'m ring \<Rightarrow> 'm ring or_panic" where
  "updateSortedHashes c =
     (if int64 (NumberOfReplicas c * 4) = 0 then Inl (Panic ''integer divide by zero'')
      else Inr (c\<lparr>sortedHashes := sort (map fst (circle c))\<rparr>))"

text \<open>The positions of a name: one per replica.\<close>

definition positions :: "'m ring \<Rightarrow> string \<Rightarrow> u32 list" where
  "positions c elt = map (\<lambda>i. hashKey c (eltKey elt i)) [0..NumberOfReplicas c - 1]"

definition ring_add :: "'m member_ops \<Rightarrow> 'm \<Rightarrow> 'm ring \<Rightarrow> 'm ring or_panic" where
  "ring_add mo elt c =
     (let c1 = c\<lparr>circle := fold (\<lambda>h. AList.update h elt) (positions c (mo_String mo elt)) (circle c)\<rparr>;
          c2 = c1\<lparr>members := List.insert (mo_String mo elt) (members c1)\<rparr>
      in case updateSortedHashes c2 of
           Inl p \<Rightarrow> Inl p
         | Inr c3 \<Rightarrow> Inr (c3\<lparr>ring_count := int64 (ring_count c3 + 1)\<rparr>))"

definition ring_remove :: "string \<Rightarrow> 'm ring \<Rightarrow> 'm ring or_panic" where
  "ring_remove elt c =
     (let c1 = c\<lparr>circle := fold AList.delete (positions c elt) (circle c)\<rparr>;
          c2 = c1\<lparr>members := removeAll elt (members c1)\<rparr>
      in case updateSortedHashes c2 of
           Inl p \<Rightarrow> Inl p
         | Inr c3 \<Rightarrow> Inr (c3\<lparr>ring_count := int64 (ring_count c3 - 1)\<rparr>))"

definition ring_Add :: "'m member_ops \<Rightarrow> 'm \<Rightarrow> 'm ring \<Rightarrow> 'm ring or_panic" where
  "ring_Add mo elt c = ring_add mo elt c"

definition ring_Remove :: "'m member_ops \<Rightarrow> 'm \<Rightarrow> 'm ring \<Rightarrow> 'm ring or_panic" where
  "ring_Remove mo elt c = ring_remove (mo_String mo elt) c"

text \<open>\<^verbatim>\<open>Set\<close> first ranges over the names, in an order the runtime chooses (the list given), then over the elements.\<close>

fun ring_prune :: "'m member_ops \<Rightarrow> 'm list \<Rightarrow> string list \<Rightarrow> 'm ring \<Rightarrow> 'm ring or_panic" where
  "ring_prune mo elts [] c = Inr c"
| "ring_prune mo elts (k # ks) c =
     (if list_ex (\<lambda>v. k = mo_String mo v) elts then ring_prune mo elts ks c
      else (case ring_remove k c of Inl p \<Rightarrow> Inl p | Inr c' \<Rightarrow> ring_prune mo elts ks c'))"

fun ring_fill :: "'m member_ops \<Rightarrow> 'm list \<Rightarrow> 'm ring \<Rightarrow> 'm ring or_panic" where
  "ring_fill mo [] c = Inr c"
| "ring_fill mo (v # vs) c =
     (if mo_String mo v \<in> set (members c) then ring_fill mo vs c
      else (case ring_add mo v c of Inl p \<Rightarrow> Inl p | Inr c' \<Rightarrow> ring_fill mo vs c'))"

definition ring_Set :: "'m member_ops \<Rightarrow> string list \<Rightarrow> 'm list \<Rightarrow> 'm ring \<Rightarrow> 'm ring or_panic" where
  "ring_Set mo order elts c =
     (case ring_prune mo elts order c of Inl p \<Rightarrow> Inl p | Inr c' \<Rightarrow> ring_fill mo elts c')"

definition ring_search :: "'m ring \<Rightarrow> u32 \<Rightarrow> nat" where
  "ring_search c key =
     (let i = sort_Search (length (sortedHashes c)) (\<lambda>x. sortedHashes c ! x > key)
      in if i \<ge> length (sortedHashes c) then 0 else i)"

definition ring_at :: "'m member_ops \<Rightarrow> 'm ring \<Rightarrow> nat \<Rightarrow> 'm or_panic" where
  "ring_at mo c i =
     (if i < length (sortedHashes c)
      then Inr (case map_of (circle c) (sortedHashes c ! i) of Some m \<Rightarrow> m | None \<Rightarrow> mo_zero mo)
      else Inl (Panic ''index out of range''))"

definition ErrEmptyCircle :: string where "ErrEmptyCircle = ''empty circle''"

definition ring_Get :: "'m member_ops \<Rightarrow> 'm ring \<Rightarrow> string \<Rightarrow> (string + 'm) or_panic" where
  "ring_Get mo c name =
     (if circle c = [] then Inr (Inl ErrEmptyCircle)
      else map_sum id Inr (ring_at mo c (ring_search c (hashKey c name))))"

text \<open>The loops of \<^verbatim>\<open>GetTwo\<close> and \<^verbatim>\<open>GetN\<close>, which need not end.\<close>

partial_function (option) getTwo_loop ::
    "'m member_ops \<Rightarrow> 'm ring \<Rightarrow> nat \<Rightarrow> 'm \<Rightarrow> nat \<Rightarrow> 'm \<Rightarrow> 'm or_panic option" where
  [code]: "getTwo_loop mo c start a i b =
     (if i = start then Some (Inr b)
      else
        (let j = (if i \<ge> length (sortedHashes c) then 0 else i)
         in case ring_at mo c j of
              Inl p \<Rightarrow> Some (Inl p)
            | Inr b' \<Rightarrow>
                if mo_String mo b' \<noteq> mo_String mo a then Some (Inr b')
                else getTwo_loop mo c start a (j + 1) b'))"

definition ring_GetTwo :: "'m member_ops \<Rightarrow> 'm ring \<Rightarrow> string \<Rightarrow> (string + 'm \<times> 'm) or_panic option" where
  "ring_GetTwo mo c name =
     (if circle c = [] then Some (Inr (Inl ErrEmptyCircle))
      else
        (let i = ring_search c (hashKey c name)
         in case ring_at mo c i of
              Inl p \<Rightarrow> Some (Inl p)
            | Inr a \<Rightarrow>
                if ring_count c = 1 then Some (Inr (Inr (a, mo_zero mo)))
                else map_option (map_sum id (\<lambda>b. Inr (a, b))) (getTwo_loop mo c i a (i + 1) (mo_zero mo))))"

definition sliceContainsMember :: "'m member_ops \<Rightarrow> 'm list \<Rightarrow> 'm \<Rightarrow> bool" where
  "sliceContainsMember mo ms member \<longleftrightarrow> list_ex (\<lambda>m. mo_String mo m = mo_String mo member) ms"

definition add_new :: "'m member_ops \<Rightarrow> 'm list \<Rightarrow> 'm \<Rightarrow> 'm list" where
  "add_new mo res elem = (if \<not> sliceContainsMember mo res elem then res @ [elem] else res)"

partial_function (option) getN_loop ::
    "'m member_ops \<Rightarrow> 'm ring \<Rightarrow> int \<Rightarrow> nat \<Rightarrow> nat \<Rightarrow> 'm list \<Rightarrow> 'm list or_panic option" where
  [code]: "getN_loop mo c n start i res =
     (if i = start then Some (Inr res)
      else
        (let j = (if i \<ge> length (sortedHashes c) then 0 else i)
         in case ring_at mo c j of
              Inl p \<Rightarrow> Some (Inl p)
            | Inr elem \<Rightarrow>
                (let res' = add_new mo res elem
                 in if int (length res') = n then Some (Inr res')
                    else getN_loop mo c n start (j + 1) res')))"

definition ring_GetN :: "'m member_ops \<Rightarrow> 'm ring \<Rightarrow> string \<Rightarrow> int \<Rightarrow> (string + 'm list) or_panic option" where
  "ring_GetN mo c name n0 =
     (if circle c = [] then Some (Inr (Inl ErrEmptyCircle))
      else
        (let n = (if ring_count c < n0 then ring_count c else n0);
             i = ring_search c (hashKey c name)
         in case ring_at mo c i of
              Inl p \<Rightarrow> Some (Inl p)
            | Inr elem \<Rightarrow>
                if n < 0 then Some (Inl (Panic ''makeslice: cap out of range''))
                else if n = 1 then Some (Inr (Inr [elem]))
                else map_option (map_sum id Inr) (getN_loop mo c n i (i + 1) [elem])))"

section \<open>Subsets (subset.go)\<close>

definition subset_of :: "'m member_ops \<Rightarrow> 'm ring \<Rightarrow> string \<Rightarrow> 'm list \<Rightarrow> int \<Rightarrow> 'm list or_panic option" where
  "subset_of mo c selectKey inss num =
     map_option (map_sum id (\<lambda>r. case r of Inl _ \<Rightarrow> inss | Inr backends \<Rightarrow> backends)) (ring_GetN mo c selectKey num)"

definition subset_ring :: "'m ring" where
  "subset_ring = ring_New\<lparr>NumberOfReplicas := 160, UseFnv := True\<rparr>"

definition Subset :: "'m member_ops \<Rightarrow> string \<Rightarrow> 'm list \<Rightarrow> int \<Rightarrow> 'm list or_panic option" where
  "Subset mo selectKey inss num =
     (if int (length inss) \<le> num then Some (Inr inss)
      else (case ring_Set mo [] inss subset_ring of
              Inl p \<Rightarrow> Some (Inl p)
            | Inr c \<Rightarrow> subset_of mo c selectKey inss num))"

section \<open>Invariant\<close>

text \<open>
  The positions are sorted and those of the circle, and every position of the circle is one of its
  member's own and belongs to a known member.
\<close>

definition ring_ok :: "'m member_ops \<Rightarrow> 'm ring \<Rightarrow> bool" where
  "ring_ok mo c \<longleftrightarrow>
     distinct (map fst (circle c)) \<and> sortedHashes c = sort (map fst (circle c)) \<and> distinct (members c) \<and>
     (\<forall>(h, m) \<in> set (circle c). mo_String mo m \<in> set (members c) \<and> h \<in> set (positions c (mo_String mo m)))"

text \<open>Each member is counted once.\<close>

definition ring_tight :: "'m ring \<Rightarrow> bool" where
  "ring_tight c \<longleftrightarrow> ring_count c = int (length (members c)) \<and> length (members c) < 2 ^ 62"

lemma hashKey_cong [simp]:
  "hashKey (c\<lparr>circle := x\<rparr>) = hashKey c" "hashKey (c\<lparr>members := y\<rparr>) = hashKey c"
  "hashKey (c\<lparr>sortedHashes := z\<rparr>) = hashKey c" "hashKey (c\<lparr>ring_count := n\<rparr>) = hashKey c"
  by (simp_all add: hashKey_def fun_eq_iff)

lemma positions_cong [simp]:
  "positions (c\<lparr>circle := x\<rparr>) = positions c" "positions (c\<lparr>members := y\<rparr>) = positions c"
  "positions (c\<lparr>sortedHashes := z\<rparr>) = positions c" "positions (c\<lparr>ring_count := n\<rparr>) = positions c"
  by (simp_all add: positions_def fun_eq_iff)

lemma fold_AList_update:
  "map_of (fold (\<lambda>h. AList.update h m) hs xs) k = (if k \<in> set hs then Some m else map_of xs k)"
  "distinct (map fst xs) \<Longrightarrow> distinct (map fst (fold (\<lambda>h. AList.update h m) hs xs))"
  by (induction hs arbitrary: xs) (auto simp: update_conv' distinct_update)

lemma fold_AList_delete:
  "map_of (fold AList.delete hs xs) k = (if k \<in> set hs then None else map_of xs k)"
  "distinct (map fst xs) \<Longrightarrow> distinct (map fst (fold AList.delete hs xs))"
  by (induction hs arbitrary: xs) (auto simp: delete_conv' distinct_delete)

lemma ring_okD:
  assumes "ring_ok mo c" and "map_of (circle c) h = Some m"
  shows "mo_String mo m \<in> set (members c)" and "h \<in> set (positions c (mo_String mo m))"
  using assms map_of_SomeD [OF assms(2)] by (auto simp: ring_ok_def)

lemma ring_okI:
  assumes "distinct (map fst (circle c))" and "sortedHashes c = sort (map fst (circle c))" and "distinct (members c)"
    and "\<And>h m. map_of (circle c) h = Some m \<Longrightarrow>
           mo_String mo m \<in> set (members c) \<and> h \<in> set (positions c (mo_String mo m))"
  shows "ring_ok mo c"
  using assms by (auto simp: ring_ok_def)

lemma ring_add_Inr:
  assumes "ring_add mo elt c = Inr c'"
  shows "circle c' = fold (\<lambda>h. AList.update h elt) (positions c (mo_String mo elt)) (circle c)"
    and "members c' = List.insert (mo_String mo elt) (members c)"
    and "sortedHashes c' = sort (map fst (circle c'))"
    and "positions c' = positions c" and "hashKey c' = hashKey c"
    and "ring_count c' = int64 (ring_count c + 1)"
    and "NumberOfReplicas c' = NumberOfReplicas c"
  using assms by (auto simp: ring_add_def updateSortedHashes_def Let_def split: if_splits)

lemma ring_remove_Inr:
  assumes "ring_remove elt c = Inr c'"
  shows "circle c' = fold AList.delete (positions c elt) (circle c)"
    and "members c' = removeAll elt (members c)"
    and "sortedHashes c' = sort (map fst (circle c'))"
    and "positions c' = positions c" and "hashKey c' = hashKey c"
    and "ring_count c' = int64 (ring_count c - 1)"
    and "NumberOfReplicas c' = NumberOfReplicas c"
  using assms by (auto simp: ring_remove_def updateSortedHashes_def Let_def split: if_splits)

lemma ring_ok_New [simp]: "ring_ok mo (ring_New\<lparr>NumberOfReplicas := r, UseFnv := u\<rparr>)"
  by (simp add: ring_ok_def ring_New_def)

lemma ring_ok_add:
  assumes "ring_ok mo c" and "ring_add mo elt c = Inr c'"
  shows "ring_ok mo c'"
proof (rule ring_okI)
  show "distinct (map fst (circle c'))" "distinct (members c')"
    using assms ring_add_Inr [OF assms(2)] by (simp_all add: ring_ok_def fold_AList_update distinct_insert)
  show "mo_String mo m \<in> set (members c') \<and> h \<in> set (positions c' (mo_String mo m))"
    if "map_of (circle c') h = Some m" for h m
    using that ring_okD [OF assms(1)] ring_add_Inr [OF assms(2)]
    by (auto simp: fold_AList_update split: if_splits)
qed (rule ring_add_Inr(3) [OF assms(2)])

lemma ring_ok_remove:
  assumes "ring_ok mo c" and "ring_remove elt c = Inr c'"
  shows "ring_ok mo c'"
proof (rule ring_okI)
  show "distinct (map fst (circle c'))" "distinct (members c')"
    using assms ring_remove_Inr [OF assms(2)] by (simp_all add: ring_ok_def fold_AList_delete distinct_removeAll)
  show "mo_String mo m \<in> set (members c') \<and> h \<in> set (positions c' (mo_String mo m))"
    if "map_of (circle c') h = Some m" for h m
    using that ring_okD [OF assms(1)] ring_remove_Inr [OF assms(2)]
    by (auto simp: fold_AList_delete split: if_splits)
qed (rule ring_remove_Inr(3) [OF assms(2)])

lemma int64_len: "n < 2 ^ 62 \<Longrightarrow> int64 (int n + 1) = int n + 1" "n < 2 ^ 62 \<Longrightarrow> int64 (int n - 1) = int n - 1"
  by (simp_all add: in_int64_def)

lemma length_removeAll_distinct:
  "distinct xs \<Longrightarrow> x \<in> set xs \<Longrightarrow> Suc (length (removeAll x xs)) = length xs"
proof (induction xs)
  case (Cons y ys)
  then show ?case by (cases "x = y") auto
qed simp

lemma ring_tight_add:
  assumes "ring_tight c" and "mo_String mo elt \<notin> set (members c)" and "length (members c) + 1 < 2 ^ 62"
    and "ring_add mo elt c = Inr c'"
  shows "ring_tight c'"
  using assms ring_add_Inr(2,6) [OF assms(4)] int64_len(1) [of "length (members c)"]
  by (simp add: ring_tight_def)

lemma ring_tight_remove:
  assumes "ring_tight c" and "elt \<in> set (members c)" and "distinct (members c)" and "ring_remove elt c = Inr c'"
  shows "ring_tight c'"
proof -
  have "int (length (members c')) = int (length (members c)) - 1"
    using length_removeAll_distinct [OF assms(3,2)] ring_remove_Inr(2) [OF assms(4)] by simp
  then show ?thesis
    using assms(1) ring_remove_Inr(6) [OF assms(4)] int64_len(2) [of "length (members c)"]
    by (simp add: ring_tight_def)
qed

section \<open>The next position\<close>

text \<open>\<open>h\<close> is the position after \<open>k\<close> on the circle: the least above it, or the least of all.\<close>

definition is_succ :: "u32 set \<Rightarrow> u32 \<Rightarrow> u32 \<Rightarrow> bool" where
  "is_succ S k h \<longleftrightarrow> h \<in> S \<and>
     (if k < h then \<forall>x\<in>S. k < x \<longrightarrow> h \<le> x else \<forall>x\<in>S. x \<le> k \<and> h \<le> x)"

lemma is_succ_unique: "is_succ S k h \<Longrightarrow> is_succ S k h' \<Longrightarrow> h = h'"
  unfolding is_succ_def by (metis antisym not_less)

lemma is_succ_subset: "is_succ T k h \<Longrightarrow> S \<subseteq> T \<Longrightarrow> h \<in> S \<Longrightarrow> is_succ S k h"
  unfolding is_succ_def by (auto split: if_splits)

lemma is_succ_sorted:
  assumes "sorted xs" and "xs \<noteq> []" and "p = length (takeWhile (\<lambda>x. x \<le> k) xs)"
  shows "is_succ (set xs) k (xs ! (if p \<ge> length xs then 0 else p))"
proof (cases "p \<ge> length xs")
  case True
  then have "takeWhile (\<lambda>x. x \<le> k) xs = xs"
    using assms(3) by (metis takeWhile_eq_take take_all)
  then have le: "\<forall>x\<in>set xs. x \<le> k" by (metis takeWhile_eq_all_conv)
  have "\<forall>x\<in>set xs. xs ! 0 \<le> x"
    using assms(1,2) by (cases xs) auto
  moreover have "xs ! 0 \<in> set xs" using assms(2) by simp
  moreover from this le have "\<not> k < xs ! 0" by (meson not_less)
  ultimately show ?thesis using True le by (simp only: is_succ_def if_True if_False simp_thms) blast
next
  case False
  then have pk: "k < xs ! p" using nth_length_takeWhile [of "\<lambda>x. x \<le> k" xs] assms(3) by simp
  have "xs ! p \<le> x" if "x \<in> set xs" "k < x" for x
  proof -
    from that(1) obtain i where i: "i < length xs" "x = xs ! i" by (auto simp: in_set_conv_nth)
    have "p \<le> i"
    proof (rule ccontr)
      assume "\<not> p \<le> i"
      then have "x \<in> set (takeWhile (\<lambda>x. x \<le> k) xs)"
        using i assms(3) by (metis not_le nth_mem takeWhile_nth)
      with that show False using set_takeWhileD by fastforce
    qed
    with i assms(1) show ?thesis by (simp add: sorted_nth_mono)
  qed
  with pk False show ?thesis by (auto simp: is_succ_def)
qed

lemma ring_search_succ:
  assumes "ring_ok mo c" and "circle c \<noteq> []"
  shows "ring_search c k < length (sortedHashes c)"
    and "is_succ (dom (map_of (circle c))) k (sortedHashes c ! ring_search c k)"
proof -
  have s: "sorted (sortedHashes c)" "sortedHashes c \<noteq> []" "set (sortedHashes c) = dom (map_of (circle c))"
    using assms by (auto simp: ring_ok_def dom_map_of_conv_image_fst dest: arg_cong [where f = length])
  have i: "ring_search c k =
      (let p = length (takeWhile (\<lambda>x. x \<le> k) (sortedHashes c)) in if p \<ge> length (sortedHashes c) then 0 else p)"
    by (simp add: ring_search_def sort_Search_sorted [OF s(1)])
  then show "ring_search c k < length (sortedHashes c)" using s(2) by (auto simp: Let_def)
  show "is_succ (dom (map_of (circle c))) k (sortedHashes c ! ring_search c k)"
    using is_succ_sorted [OF s(1,2) refl, of k] unfolding i s(3) [symmetric] Let_def .
qed

lemma ring_Get_iff:
  assumes "ring_ok mo c" and "circle c \<noteq> []"
  shows "ring_Get mo c name = Inr (Inr m) \<longleftrightarrow>
         (\<exists>h. is_succ (dom (map_of (circle c))) (hashKey c name) h \<and> map_of (circle c) h = Some m)"
proof -
  let ?i = "ring_search c (hashKey c name)"
  note s = ring_search_succ [OF assms, of "hashKey c name"]
  then obtain m' where m': "map_of (circle c) (sortedHashes c ! ?i) = Some m'" by (auto simp: is_succ_def)
  then have "ring_Get mo c name = Inr (Inr m')" using s(1) assms(2) by (simp add: ring_Get_def ring_at_def)
  then have "ring_Get mo c name = Inr (Inr m) \<longleftrightarrow> m = m'" by auto
  also have "\<dots> \<longleftrightarrow> (\<exists>h. is_succ (dom (map_of (circle c))) (hashKey c name) h \<and> map_of (circle c) h = Some m)"
    using is_succ_unique [OF s(2)] s(2) m' by (metis option.inject)
  finally show ?thesis .
qed

section \<open>Whole sets of members\<close>

lemma ring_prune_ok:
  assumes "ring_ok mo c" and "ring_tight c" and "distinct ks" and "set ks \<subseteq> set (members c)"
    and "int64 (NumberOfReplicas c * 4) \<noteq> 0"
  shows "\<exists>c'. ring_prune mo elts ks c = Inr c' \<and> ring_ok mo c' \<and> ring_tight c' \<and>
           NumberOfReplicas c' = NumberOfReplicas c \<and>
           set (members c') = set (members c) - {k \<in> set ks. k \<notin> mo_String mo ` set elts}"
  using assms
proof (induction ks arbitrary: c)
  case (Cons k ks)
  show ?case
  proof (cases "k \<in> mo_String mo ` set elts")
    case True
    with Cons.IH [of c] Cons.prems show ?thesis by (auto simp: list_ex_iff)
  next
    case False
    obtain c1 where c1: "ring_remove k c = Inr c1"
      using Cons.prems(5) by (simp add: ring_remove_def updateSortedHashes_def Let_def)
    note r = ring_remove_Inr [OF c1]
    have ok1: "ring_ok mo c1" by (rule ring_ok_remove [OF Cons.prems(1) c1])
    have t1: "ring_tight c1"
      using ring_tight_remove [OF Cons.prems(2) _ _ c1] Cons.prems(1,4) by (simp add: ring_ok_def)
    have "\<exists>c'. ring_prune mo elts ks c1 = Inr c' \<and> ring_ok mo c' \<and> ring_tight c' \<and>
           NumberOfReplicas c' = NumberOfReplicas c1 \<and>
           set (members c') = set (members c1) - {k \<in> set ks. k \<notin> mo_String mo ` set elts}"
      using Cons.prems(3-5) r by (intro Cons.IH [OF ok1 t1]) auto
    with False c1 r(2,7) show ?thesis by (auto simp: list_ex_iff)
  qed
qed simp

lemma ring_fill_ok:
  assumes "ring_ok mo c" and "ring_tight c" and "length (members c) + length vs < 2 ^ 62"
    and "int64 (NumberOfReplicas c * 4) \<noteq> 0"
  shows "\<exists>c'. ring_fill mo vs c = Inr c' \<and> ring_ok mo c' \<and> ring_tight c' \<and>
           NumberOfReplicas c' = NumberOfReplicas c \<and> hashKey c' = hashKey c \<and>
           set (members c') = set (members c) \<union> mo_String mo ` set vs \<and>
           snd ` set (circle c') \<subseteq> snd ` set (circle c) \<union> set vs \<and>
           dom (map_of (circle c)) \<subseteq> dom (map_of (circle c'))"
  using assms
proof (induction vs arbitrary: c)
  case (Cons v vs)
  show ?case
  proof (cases "mo_String mo v \<in> set (members c)")
    case True
    have "length (members c) + length vs < 2 ^ 62" using Cons.prems(3) by simp
    from Cons.IH [OF Cons.prems(1,2) this Cons.prems(4)] obtain c' where
      c': "ring_fill mo vs c = Inr c'" "ring_ok mo c'" "ring_tight c'" "NumberOfReplicas c' = NumberOfReplicas c"
        "hashKey c' = hashKey c" "set (members c') = set (members c) \<union> mo_String mo ` set vs"
        "snd ` set (circle c') \<subseteq> snd ` set (circle c) \<union> set vs" "dom (map_of (circle c)) \<subseteq> dom (map_of (circle c'))"
      by blast
    have "snd ` set (circle c') \<subseteq> snd ` set (circle c) \<union> set (v # vs)" using c'(7) by (rule order_trans) auto
    moreover have "set (members c') = set (members c) \<union> mo_String mo ` set (v # vs)" using c'(6) True by auto
    ultimately show ?thesis using True c'(1-5,8) by simp
  next
    case False
    obtain c1 where c1: "ring_add mo v c = Inr c1"
      using Cons.prems(4) by (simp add: ring_add_def updateSortedHashes_def Let_def)
    note r = ring_add_Inr [OF c1]
    have ok1: "ring_ok mo c1" by (rule ring_ok_add [OF Cons.prems(1) c1])
    have t1: "ring_tight c1"
      using ring_tight_add [OF Cons.prems(2) False _ c1] Cons.prems(3) by simp
    have d1: "distinct (map fst (circle c1))" "distinct (map fst (circle c))"
      using ok1 Cons.prems(1) by (simp_all add: ring_ok_def)
    have v1: "snd ` set (circle c1) \<subseteq> insert v (snd ` set (circle c))"
    proof
      fix m
      assume "m \<in> snd ` set (circle c1)"
      then obtain h where "map_of (circle c1) h = Some m" using d1(1) by auto
      then show "m \<in> insert v (snd ` set (circle c))"
        using r(1) by (auto simp: fold_AList_update split: if_splits dest: map_of_SomeD intro: rev_image_eqI)
    qed
    have dm: "dom (map_of (circle c)) \<subseteq> dom (map_of (circle c1))"
      using r(1) by (auto simp: fold_AList_update)
    have "length (members c1) + length vs < 2 ^ 62" "int64 (NumberOfReplicas c1 * 4) \<noteq> 0"
      using Cons.prems(3,4) r(2,7) False by auto
    from Cons.IH [OF ok1 t1 this] obtain c' where
      c': "ring_fill mo vs c1 = Inr c'" "ring_ok mo c'" "ring_tight c'" "NumberOfReplicas c' = NumberOfReplicas c1"
        "hashKey c' = hashKey c1" "set (members c') = set (members c1) \<union> mo_String mo ` set vs"
        "snd ` set (circle c') \<subseteq> snd ` set (circle c1) \<union> set vs" "dom (map_of (circle c1)) \<subseteq> dom (map_of (circle c'))"
      by blast
    have "set (members c') = set (members c) \<union> mo_String mo ` set (v # vs)"
      using c'(6) r(2) by auto
    moreover have "snd ` set (circle c') \<subseteq> snd ` set (circle c) \<union> set (v # vs)"
      using c'(7) by (rule order_trans) (use v1 in auto)
    moreover have "dom (map_of (circle c)) \<subseteq> dom (map_of (circle c'))" using dm c'(8) by (rule order_trans)
    ultimately show ?thesis using False c1 c'(1-5) r(5,7) by simp
  qed
qed auto

section \<open>The members met clockwise\<close>

definition ring_member :: "'m member_ops \<Rightarrow> 'm ring \<Rightarrow> nat \<Rightarrow> 'm" where
  "ring_member mo c i = (case map_of (circle c) (sortedHashes c ! i) of Some m \<Rightarrow> m | None \<Rightarrow> mo_zero mo)"

text \<open>All of them from the position \<open>start\<close> on, and of each name the first.\<close>

definition clockwise :: "'m member_ops \<Rightarrow> 'm ring \<Rightarrow> nat \<Rightarrow> 'm list" where
  "clockwise mo c start =
     map (\<lambda>k. ring_member mo c ((start + k) mod length (sortedHashes c))) [0..<length (sortedHashes c)]"

definition nearest :: "'m member_ops \<Rightarrow> 'm ring \<Rightarrow> string \<Rightarrow> 'm list" where
  "nearest mo c name = foldl (add_new mo) [] (clockwise mo c (ring_search c (hashKey c name)))"

definition ring_names :: "'m member_ops \<Rightarrow> 'm ring \<Rightarrow> string set" where
  "ring_names mo c = mo_String mo ` snd ` set (circle c)"

lemma sliceContains_iff [simp]: "sliceContainsMember mo ms x \<longleftrightarrow> mo_String mo x \<in> mo_String mo ` set ms"
  by (auto simp: sliceContainsMember_def list_ex_iff image_iff eq_commute)

lemma add_new_names [simp]: "mo_String mo ` set (add_new mo res x) = insert (mo_String mo x) (mo_String mo ` set res)"
  by (auto simp: add_new_def)

lemma add_new_distinct [simp]: "distinct (map (mo_String mo) (add_new mo res x)) \<longleftrightarrow> distinct (map (mo_String mo) res)"
  by (auto simp: add_new_def)

lemma foldl_add_new_names:
  "mo_String mo ` set (foldl (add_new mo) res xs) = mo_String mo ` set res \<union> mo_String mo ` set xs"
  by (induction xs arbitrary: res) auto

lemma foldl_add_new_distinct:
  "distinct (map (mo_String mo) (foldl (add_new mo) res xs)) \<longleftrightarrow> distinct (map (mo_String mo) res)"
  by (induction xs arbitrary: res) auto

lemma foldl_add_new_subset: "set (foldl (add_new mo) res xs) \<subseteq> set res \<union> set xs"
proof (induction xs arbitrary: res)
  case (Cons x xs)
  show ?case using Cons.IH [of "add_new mo res x"] by (auto simp: add_new_def split: if_splits)
qed simp

lemma foldl_add_new_prefix: "\<exists>ys. foldl (add_new mo) res xs = res @ ys"
proof (induction xs arbitrary: res)
  case (Cons x xs)
  show ?case using Cons.IH [of "add_new mo res x"] by (auto simp: add_new_def split: if_splits)
qed simp

lemma length_add_new: "length (add_new mo res x) \<le> Suc (length res)"
  by (simp add: add_new_def)

lemma ring_at_member: "i < length (sortedHashes c) \<Longrightarrow> ring_at mo c i = Inr (ring_member mo c i)"
  by (simp add: ring_at_def ring_member_def)

lemma clockwise_rotate:
  "clockwise mo c start =
     map (\<lambda>h. case map_of (circle c) h of Some m \<Rightarrow> m | None \<Rightarrow> mo_zero mo) (rotate start (sortedHashes c))"
  by (rule nth_equalityI) (auto simp: clockwise_def ring_member_def nth_rotate)

lemma set_clockwise:
  assumes "ring_ok mo c"
  shows "set (clockwise mo c start) = snd ` set (circle c)"
proof -
  have "distinct (map fst (circle c))" "set (sortedHashes c) = fst ` set (circle c)"
    using assms by (auto simp: ring_ok_def)
  then show ?thesis by (force simp: clockwise_rotate image_iff)
qed


lemma nearest_names:
  assumes "ring_ok mo c"
  shows "mo_String mo ` set (nearest mo c name) = ring_names mo c"
    and "distinct (map (mo_String mo) (nearest mo c name))"
    and "length (nearest mo c name) = card (ring_names mo c)"
    and "set (nearest mo c name) \<subseteq> snd ` set (circle c)"
proof -
  show n: "mo_String mo ` set (nearest mo c name) = ring_names mo c"
    by (simp add: nearest_def foldl_add_new_names set_clockwise [OF assms] ring_names_def)
  show d: "distinct (map (mo_String mo) (nearest mo c name))"
    by (simp add: nearest_def foldl_add_new_distinct)
  show "length (nearest mo c name) = card (ring_names mo c)"
    using distinct_card [OF d] n by simp
  show "set (nearest mo c name) \<subseteq> snd ` set (circle c)"
    using foldl_add_new_subset [of mo "[]"] set_clockwise [OF assms] unfolding nearest_def by fastforce
qed

text \<open>
  The loop of \<^verbatim>\<open>GetN\<close> before its step \<open>k\<close>: the index is one above the position of the last step, and the
  result holds the first of each name met so far. It ends before it is back at its start, as long as
  there are enough names.
\<close>

lemma getN_loop_nearest:
  fixes mo :: "'m member_ops" and c :: "'m ring" and start :: nat
  defines "len \<equiv> length (sortedHashes c)" and "ms \<equiv> clockwise mo c start"
  assumes "start < len" and "n \<le> length (foldl (add_new mo) [] ms)"
    and "1 \<le> k" and "k \<le> len" and "length (foldl (add_new mo) [] (take k ms)) < n"
  shows "getN_loop mo c (int n) start ((start + k - 1) mod len + 1) (foldl (add_new mo) [] (take k ms)) =
         Some (Inr (take n (foldl (add_new mo) [] ms)))"
  using assms(5-7)
proof (induction "len - k" arbitrary: k)
  case 0
  then have "k = len" by simp
  then have "take k ms = ms" by (simp add: ms_def clockwise_def len_def)
  with 0 assms(4) show ?case by simp
next
  case (Suc d)
  have k: "k < len" using Suc.hyps(2) by simp
  have ms_len: "length ms = len" by (simp add: ms_def clockwise_def len_def)
  let ?i = "(start + k - 1) mod len + 1"
  let ?j = "if ?i \<ge> len then 0 else ?i"
  let ?res = "foldl (add_new mo) [] (take k ms)"
  have pos: "(start + k - 1) mod len = (if start + k - 1 < len then start + k - 1 else start + k - 1 - len)"
    using assms(3) k by (auto simp: mod_if)
  have "?i \<noteq> start" unfolding pos using assms(3) k Suc.prems(1) by (auto split: if_splits)
  have "(start + k) mod len = (if start + k < len then start + k else start + k - len)"
    using assms(3) k by (auto simp: mod_if)
  then have j: "?j = (start + k) mod len" unfolding pos using assms(3) k Suc.prems(1) by auto
  have jl: "?j < len" unfolding j using k by simp
  have mk: "ms ! k = ring_member mo c ((start + k) mod len)"
    using k by (simp add: ms_def clockwise_def len_def)
  have step: "foldl (add_new mo) [] (take (Suc k) ms) = add_new mo ?res (ms ! k)"
    using k ms_len by (simp add: take_Suc_conv_app_nth)
  obtain ys where all: "foldl (add_new mo) [] ms = add_new mo ?res (ms ! k) @ ys"
    using foldl_add_new_prefix [of mo "add_new mo ?res (ms ! k)" "drop (Suc k) ms"] step
    by (metis append_take_drop_id foldl_append)
  have unfold: "getN_loop mo c (int n) start ?i ?res =
      (let res' = add_new mo ?res (ms ! k)
       in if int (length res') = int n then Some (Inr res') else getN_loop mo c (int n) start (?j + 1) res')"
    using \<open>?i \<noteq> start\<close> jl mk j
    by (subst getN_loop.simps) (simp add: ring_at_member len_def [symmetric] Let_def)
  show ?case
  proof (cases "length (add_new mo ?res (ms ! k)) = n")
    case True
    with unfold all show ?thesis by simp
  next
    case False
    then have less: "length (foldl (add_new mo) [] (take (Suc k) ms)) < n"
      using length_add_new [of mo ?res "ms ! k"] Suc.prems(3) step by simp
    have "getN_loop mo c (int n) start ((start + Suc k - 1) mod len + 1) (foldl (add_new mo) [] (take (Suc k) ms)) =
        Some (Inr (take n (foldl (add_new mo) [] ms)))"
      using Suc.hyps(2) k less by (intro Suc.hyps(1)) auto
    with False unfold step j show ?thesis by simp
  qed
qed

lemma ring_GetN_nearest:
  assumes ok: "ring_ok mo c" and n: "1 \<le> n" "int n \<le> ring_count c" "n \<le> card (ring_names mo c)"
  shows "ring_GetN mo c name (int n) = Some (Inr (Inr (take n (nearest mo c name))))"
proof -
  let ?i = "ring_search c (hashKey c name)"
  let ?ms = "clockwise mo c ?i"
  have ne: "circle c \<noteq> []" using n by (auto simp: ring_names_def)
  note i = ring_search_succ(1) [OF ok ne, of "hashKey c name"]
  have "take 1 ?ms = [ring_member mo c ?i]"
    using i by (cases "sortedHashes c") (simp_all add: clockwise_def upt_rec)
  then have one: "foldl (add_new mo) [] (take 1 ?ms) = [ring_member mo c ?i]"
    by (simp add: add_new_def)
  have len: "n \<le> length (foldl (add_new mo) [] ?ms)"
    using n(3) nearest_names(3) [OF ok, of name] by (simp add: nearest_def)
  obtain ys where ys: "foldl (add_new mo) [] ?ms = ring_member mo c ?i # ys"
    using foldl_add_new_prefix [of mo "[ring_member mo c ?i]" "drop 1 ?ms"] one
    by (metis append_Cons append_Nil append_take_drop_id foldl_append)
  show ?thesis
  proof (cases "n = 1")
    case True
    with ne i n(2) ys show ?thesis by (simp add: ring_GetN_def ring_at_member nearest_def)
  next
    case False
    then have "getN_loop mo c (int n) ?i ((?i + 1 - 1) mod length (sortedHashes c) + 1) (foldl (add_new mo) [] (take 1 ?ms)) =
        Some (Inr (take n (foldl (add_new mo) [] ?ms)))"
      using n(1) i one by (intro getN_loop_nearest [OF i len]) auto
    with ne i n False one show ?thesis
      by (simp add: ring_GetN_def ring_at_member nearest_def Let_def)
  qed
qed

lemma ring_Get_InrD:
  assumes "ring_ok mo c" and "ring_Get mo c name = Inr (Inr m)"
  obtains h where "is_succ (dom (map_of (circle c))) (hashKey c name) h" and "map_of (circle c) h = Some m"
proof -
  have "circle c \<noteq> []" using assms(2) by (auto simp: ring_Get_def)
  from iffD1 [OF ring_Get_iff [OF assms(1) this] assms(2)] show ?thesis using that by blast
qed

lemma ring_Add_keeps:
  assumes "ring_ok mo c" and "ring_Get mo c name = Inr (Inr m)" and add: "ring_add mo elt c = Inr c'"
  shows "ring_Get mo c' name = Inr (Inr m) \<or> ring_Get mo c' name = Inr (Inr elt)"
proof -
  obtain h where h: "is_succ (dom (map_of (circle c))) (hashKey c name) h" "map_of (circle c) h = Some m"
    by (rule ring_Get_InrD [OF assms(1,2)])
  note r = ring_add_Inr [OF add]
  have ok: "ring_ok mo c'" by (rule ring_ok_add [OF assms(1) add])
  have m': "map_of (circle c') x = (if x \<in> set (positions c (mo_String mo elt)) then Some elt else map_of (circle c) x)" for x
    using r(1) by (simp add: fold_AList_update)
  have sub: "dom (map_of (circle c)) \<subseteq> dom (map_of (circle c'))" using m' by (auto split: if_splits)
  then have ne': "circle c' \<noteq> []" using h(2) by auto
  obtain h' where h': "is_succ (dom (map_of (circle c'))) (hashKey c name) h'"
    using ring_search_succ(2) [OF ok ne'] by blast
  show ?thesis
  proof (cases "h' \<in> set (positions c (mo_String mo elt))")
    case True
    then show ?thesis using h' m' [of h'] ring_Get_iff [OF ok ne', of name elt] r(5) by auto
  next
    case False
    then have "h' \<in> dom (map_of (circle c))" using h' m' [of h'] by (simp add: is_succ_def dom_def)
    then have "h' = h" using sub is_succ_subset [OF h'] is_succ_unique [OF _ h(1)] by blast
    then show ?thesis using False h' m' [of h'] h(2) ring_Get_iff [OF ok ne', of name m] r(5) by auto
  qed
qed

lemma ring_Remove_keeps:
  assumes "ring_ok mo c" and "ring_Get mo c name = Inr (Inr m)" and rem: "ring_remove elt c = Inr c'"
    and dis: "set (positions c (mo_String mo m)) \<inter> set (positions c elt) = {}"
  shows "ring_Get mo c' name = Inr (Inr m)"
proof -
  obtain h where h: "is_succ (dom (map_of (circle c))) (hashKey c name) h" "map_of (circle c) h = Some m"
    by (rule ring_Get_InrD [OF assms(1,2)])
  note r = ring_remove_Inr [OF rem]
  have ok: "ring_ok mo c'" by (rule ring_ok_remove [OF assms(1) rem])
  have m': "map_of (circle c') x = (if x \<in> set (positions c elt) then None else map_of (circle c) x)" for x
    using r(1) by (simp add: fold_AList_delete)
  have hm: "map_of (circle c') h = Some m"
    using m' [of h] h(2) ring_okD(2) [OF assms(1) h(2)] dis by auto
  then have ne': "circle c' \<noteq> []" by auto
  have "dom (map_of (circle c')) \<subseteq> dom (map_of (circle c))" using m' by (auto split: if_splits)
  then have "is_succ (dom (map_of (circle c'))) (hashKey c name) h"
    using is_succ_subset [OF h(1)] hm by blast
  then show ?thesis using ring_Get_iff [OF ok ne', of name m] hm r(5) by auto
qed

lemma getN_loop_diverges:
  assumes "getN_loop mo c n start i res = Some y" and "ring_ok mo c" and "circle c \<noteq> []" and "start = 0" and "1 \<le> i"
    and "distinct (map (mo_String mo) res)" and "mo_String mo ` set res \<subseteq> ring_names mo c" and "res \<noteq> []"
    and "n = 0 \<or> int (card (ring_names mo c)) < n"
  shows False
  using assms
proof (induction mo c n start i res y rule: getN_loop.raw_induct [rotated, consumes 1, case_names 1])
  case (1 loop mo c n start i res y)
  let ?j = "if i \<ge> length (sortedHashes c) then 0 else i"
  let ?m = "ring_member mo c ?j"
  let ?res = "add_new mo res ?m"
  have len: "length (sortedHashes c) = length (circle c)" using 1(3) by (simp add: ring_ok_def)
  then have j: "?j < length (sortedHashes c)" using 1(4) by auto
  then have "?m \<in> set (clockwise mo c 0)" by (auto simp: clockwise_def)
  then have "?m \<in> snd ` set (circle c)" by (simp only: set_clockwise [OF 1(3)])
  then have sub: "mo_String mo ` set ?res \<subseteq> ring_names mo c" using 1(8) by (auto simp: ring_names_def)
  have dis: "distinct (map (mo_String mo) ?res)" using 1(7) by simp
  have "length ?res \<le> card (ring_names mo c)"
    using distinct_card [OF dis] card_mono [OF _ sub] by (simp add: ring_names_def)
  moreover have ne: "?res \<noteq> []" using 1(9) by (simp add: add_new_def)
  ultimately have "int (length ?res) \<noteq> n" using 1(10) by auto
  then have "loop mo c n start (?j + 1) ?res = Some y"
    using 1(2,5,6) j by (simp add: ring_at_member Let_def split: if_splits)
  from 1(1) [OF this 1(3,4,5) _ dis sub ne 1(10)] show False by simp
qed

lemma GetN_is_nearest':
  assumes "ring_ok mo c" and "1 \<le> n" and "int n \<le> ring_count c" and "n \<le> card (ring_names mo c)"
  shows "ring_GetN mo c name (int n) = Some (Inr (Inr (take n (nearest mo c name)))) \<and>
         length (take n (nearest mo c name)) = n \<and> distinct (map (mo_String mo) (take n (nearest mo c name))) \<and>
         set (take n (nearest mo c name)) \<subseteq> snd ` set (circle c)"
proof -
  have "set (take n (nearest mo c name)) \<subseteq> snd ` set (circle c)"
    using nearest_names(4) [OF assms(1), of name] set_take_subset [of n "nearest mo c name"] by blast
  moreover have "distinct (map (mo_String mo) (take n (nearest mo c name)))"
    using nearest_names(2) [OF assms(1), of name] by (metis distinct_take take_map)
  ultimately show ?thesis
    using ring_GetN_nearest [OF assms] nearest_names(3) [OF assms(1), of name] assms(4) by simp
qed

text \<open>Whatever \<^verbatim>\<open>GetN\<close> returns has different names, comes from the circle and is no longer than asked for.\<close>

lemma getN_loop_result:
  assumes "getN_loop mo c n start i res = Some (Inr out)" and "ring_ok mo c"
    and "distinct (map (mo_String mo) res)" and "set res \<subseteq> snd ` set (circle c)"
  shows "distinct (map (mo_String mo) out) \<and> set out \<subseteq> snd ` set (circle c) \<and>
         (int (length res) < n \<longrightarrow> int (length out) \<le> n)"
  using assms
proof (induction mo c n start i res "Inr out :: 'a list or_panic" rule: getN_loop.raw_induct [rotated, consumes 1, case_names 1])
  case (1 loop mo c n start i res)
  show ?case
  proof (cases "i = start")
    case True
    with 1 show ?thesis by auto
  next
    case False
    let ?j = "if i \<ge> length (sortedHashes c) then 0 else i"
    have j: "?j < length (sortedHashes c)" using 1(2) False by (auto simp: ring_at_def Let_def split: if_splits)
    let ?m = "ring_member mo c ?j"
    let ?res = "add_new mo res ?m"
    have "?m \<in> set (clockwise mo c 0)" using j by (auto simp: clockwise_def)
    then have m: "?m \<in> snd ` set (circle c)" by (simp only: set_clockwise [OF 1(3)])
    have res: "distinct (map (mo_String mo) ?res)" "set ?res \<subseteq> snd ` set (circle c)"
      using 1(4,5) m by (auto simp: add_new_def)
    have step: "(if int (length ?res) = n then Some (Inr ?res) else loop mo c n start (?j + 1) ?res) = Some (Inr out)"
      using 1(2) False j by (simp add: ring_at_member Let_def)
    show ?thesis
    proof (cases "int (length ?res) = n")
      case True
      with step res show ?thesis by auto
    next
      case False
      with step have "loop mo c n start (?j + 1) ?res = Some (Inr out)" by simp
      from 1(1) [OF this 1(3) res] False length_add_new [of mo res ?m] show ?thesis by auto
    qed
  qed
qed

lemma map_sum_id_Inr [simp]: "map_sum id f z = Inr y \<longleftrightarrow> (\<exists>x. z = Inr x \<and> y = f x)"
  by (cases z) auto

lemma ring_GetN_nonempty: "circle c \<noteq> [] \<Longrightarrow> ring_GetN mo c name n \<noteq> Some (Inr (Inl e))"
  by (auto simp: ring_GetN_def Let_def split: sum.splits)

lemma ring_GetN_result:
  assumes "ring_ok mo c" and "ring_GetN mo c name n = Some (Inr (Inr out))"
  shows "distinct (map (mo_String mo) out) \<and> set out \<subseteq> snd ` set (circle c) \<and> (1 \<le> n \<and> 1 \<le> ring_count c \<longrightarrow> int (length out) \<le> n)"
proof -
  let ?i = "ring_search c (hashKey c name)"
  let ?n = "if ring_count c < n then ring_count c else n"
  have ne: "circle c \<noteq> []" using assms(2) by (auto simp: ring_GetN_def)
  note i = ring_search_succ(1) [OF assms(1) ne, of "hashKey c name"]
  have "ring_member mo c ?i \<in> set (clockwise mo c 0)" using i by (auto simp: clockwise_def)
  then have m: "ring_member mo c ?i \<in> snd ` set (circle c)" by (simp only: set_clockwise [OF assms(1)])
  show ?thesis
  proof (cases "?n = 1")
    case True
    with assms(2) ne i have "out = [ring_member mo c ?i]"
      by (auto simp: ring_GetN_def ring_at_member Let_def split: if_splits)
    with m show ?thesis by simp
  next
    case False
    with assms(2) ne i have "getN_loop mo c ?n ?i (?i + 1) [ring_member mo c ?i] = Some (Inr out)"
      by (auto simp: ring_GetN_def ring_at_member Let_def split: if_splits)
    from getN_loop_result [OF this assms(1)] m
    have "distinct (map (mo_String mo) out) \<and> set out \<subseteq> snd ` set (circle c) \<and> (1 < ?n \<longrightarrow> int (length out) \<le> ?n)"
      by simp
    with False show ?thesis by (cases "ring_count c < n") auto
  qed
qed

lemma ring_add_circle_nonempty:
  assumes "ring_add mo elt c = Inr c'" and "1 \<le> NumberOfReplicas c"
  shows "circle c' \<noteq> []"
proof -
  have "\<exists>h. h \<in> set (positions c (mo_String mo elt))"
    using assms(2) by (intro exI [of _ "hashKey c (eltKey (mo_String mo elt) 0)"]) (simp add: positions_def)
  then obtain h where "h \<in> set (positions c (mo_String mo elt))" ..
  then have "map_of (circle c') h = Some elt"
    using ring_add_Inr(1) [OF assms(1)] by (simp add: fold_AList_update)
  then show ?thesis by auto
qed

lemma ring_add_total: "1 \<le> NumberOfReplicas c \<Longrightarrow> NumberOfReplicas c < 2 ^ 60 \<Longrightarrow> \<exists>c'. ring_add mo m c = Inr c'"
  by (simp add: ring_add_def updateSortedHashes_def Let_def in_int64_def)

lemma ring_fill_nonempty:
  assumes "ring_fill mo vs c = Inr c'" and "vs \<noteq> []" and "members c = []" and "ring_ok mo c" and "ring_tight c"
    and "1 \<le> NumberOfReplicas c" and "NumberOfReplicas c < 2 ^ 60" and "length vs < 2 ^ 62"
  shows "circle c' \<noteq> []"
proof -
  obtain v ws where vs: "vs = v # ws" using assms(2) by (cases vs) auto
  obtain c1 where c1: "ring_add mo v c = Inr c1" using ring_add_total [OF assms(6,7)] by blast
  note r1 = ring_add_Inr [OF c1]
  have ok1: "ring_ok mo c1" by (rule ring_ok_add [OF assms(4) c1])
  have t1: "ring_tight c1" using ring_tight_add [OF assms(5) _ _ c1] assms(3) by simp
  have "length (members c1) + length ws < 2 ^ 62" "int64 (NumberOfReplicas c1 * 4) \<noteq> 0"
    using r1(2,7) assms(3,6-8) vs by (simp_all add: in_int64_def)
  from ring_fill_ok [OF ok1 t1 this] assms(1,3) vs c1 have "dom (map_of (circle c1)) \<subseteq> dom (map_of (circle c'))"
    by auto
  moreover have "circle c1 \<noteq> []" by (rule ring_add_circle_nonempty [OF c1 assms(6)])
  ultimately show ?thesis by auto
qed

lemma Subset_result:
  assumes "Subset mo selectKey inss num = Some (Inr res)" and "distinct inss" and "length inss < 2 ^ 62" and "1 \<le> num"
  shows "distinct res \<and> set res \<subseteq> set inss \<and> int (length res) \<le> num"
proof (cases "int (length inss) \<le> num")
  case True
  with assms show ?thesis by (simp add: Subset_def)
next
  case False
  let ?new = "subset_ring :: 'a ring"
  have new: "ring_ok mo ?new" "ring_tight ?new" "int64 (NumberOfReplicas ?new * 4) \<noteq> 0" "members ?new = []" "circle ?new = []"
    by (simp_all add: subset_ring_def ring_New_def ring_ok_def ring_tight_def in_int64_def)
  obtain c where c: "ring_fill mo inss ?new = Inr c" "ring_ok mo c" "ring_tight c"
      "set (members c) = mo_String mo ` set inss" "snd ` set (circle c) \<subseteq> set inss"
    using ring_fill_ok [OF new(1,2) _ new(3), of inss] assms(3) new(4,5) by auto
  have "inss \<noteq> []" using False assms(4) by auto
  then have "members c \<noteq> []" using c(4) by auto
  then have count: "1 \<le> ring_count c" using c(3) by (cases "members c") (auto simp: ring_tight_def)
  have "ring_Set mo [] inss ?new = Inr c" using c(1) by (simp add: ring_Set_def)
  moreover have "circle c \<noteq> []"
    using ring_fill_nonempty [OF c(1) \<open>inss \<noteq> []\<close> new(4,1,2)] assms(3) by (simp add: subset_ring_def)
  moreover from this obtain r where "ring_GetN mo c selectKey num = Some (Inr r)"
      "res = (case r of Inl _ \<Rightarrow> inss | Inr backends \<Rightarrow> backends)"
    using assms(1) False \<open>ring_Set mo [] inss ?new = Inr c\<close> by (auto simp: Subset_def subset_of_def)
  ultimately have "ring_GetN mo c selectKey num = Some (Inr (Inr res))"
    using ring_GetN_nonempty [of c mo selectKey num] by (cases r) auto
  from ring_GetN_result [OF c(2) this] count assms(4) c(5) show ?thesis by (auto simp: distinct_map)
qed

section \<open>Properties\<close>

text \<open>
  C11: adding a member to the circle changes the answer to a key only to the new member, and removing a
  member changes no answer but those of the member (and of members that share a position with it):
  the keys of the others stay where they are.
\<close>

theorem ring_remaps_little:
  assumes "ring_ok mo c" and "ring_Get mo c name = Inr (Inr m)"
  shows "(ring_Add mo elt c = Inr c' \<longrightarrow>
            ring_Get mo c' name = Inr (Inr m) \<or> ring_Get mo c' name = Inr (Inr elt)) \<and>
         (ring_Remove mo elt c = Inr c' \<and>
          set (positions c (mo_String mo m)) \<inter> set (positions c (mo_String mo elt)) = {} \<longrightarrow>
            ring_Get mo c' name = Inr (Inr m))"
  using ring_Add_keeps [OF assms] ring_Remove_keeps [OF assms] by (auto simp: ring_Add_def ring_Remove_def)

theorem ring_remaps_little_witness:
  "\<exists>c c'. ring_Add \<lparr>mo_String = id, mo_zero = []\<rparr> ''a'' (ring_New\<lparr>NumberOfReplicas := 1, UseFnv := True\<rparr>) = Inr c \<and>
     ring_Add \<lparr>mo_String = id, mo_zero = []\<rparr> ''b'' c = Inr c' \<and>
     (ring_Get \<lparr>mo_String = id, mo_zero = []\<rparr> c' ''x'' = Inr (Inr ''a'') \<or>
      ring_Get \<lparr>mo_String = id, mo_zero = []\<rparr> c' ''x'' = Inr (Inr ''b''))"
proof -
  let ?mo = "\<lparr>mo_String = id, mo_zero = []\<rparr> :: string member_ops"
  let ?new = "ring_New\<lparr>NumberOfReplicas := 1, UseFnv := True\<rparr> :: string ring"
  obtain c where c: "ring_add ?mo ''a'' ?new = Inr c"
    by (simp add: ring_add_def updateSortedHashes_def ring_New_def Let_def in_int64_def)
  have ok: "ring_ok ?mo c" by (rule ring_ok_add [OF ring_ok_New c])
  have len: "length (sortedHashes c) = 1" and one: "map_of (circle c) (sortedHashes c ! 0) = Some ''a''"
    using ring_add_Inr(1,3) [OF c] by (simp_all add: positions_def ring_New_def)
  then have "circle c \<noteq> []" by auto
  from ring_search_succ(1) [OF ok this] len have "ring_search c k = 0" for k by simp
  with one len \<open>circle c \<noteq> []\<close> have get: "ring_Get ?mo c ''x'' = Inr (Inr ''a'')"
    by (simp add: ring_Get_def ring_at_def)
  have "NumberOfReplicas c = 1" using ring_add_Inr(7) [OF c] by (simp add: ring_New_def)
  then obtain c' where c': "ring_add ?mo ''b'' c = Inr c'"
    by (simp add: ring_add_def updateSortedHashes_def Let_def in_int64_def)
  show ?thesis using ring_remaps_little [OF ok get, of "''b''" c'] c c' by (auto simp: ring_Add_def)
qed

text \<open>
  \<^verbatim>\<open>Set\<close> leaves the circle with exactly the given members, each counted once, whatever the order in
  which the runtime ranges over the old ones; the sorted positions are those of the circle and each
  belongs to a given member.
\<close>

theorem ring_Set_members:
  assumes "ring_ok mo c" and "ring_tight c" and "distinct order" and "set order = set (members c)"
    and "int64 (NumberOfReplicas c * 4) \<noteq> 0" and "length (members c) + length elts < 2 ^ 62"
  shows "\<exists>c'. ring_Set mo order elts c = Inr c' \<and> ring_ok mo c' \<and> ring_tight c' \<and>
           set (members c') = mo_String mo ` set elts \<and> ring_count c' = int (card (mo_String mo ` set elts)) \<and>
           ring_names mo c' \<subseteq> mo_String mo ` set elts"
proof -
  obtain c1 where c1: "ring_prune mo elts order c = Inr c1" "ring_ok mo c1" "ring_tight c1"
      "NumberOfReplicas c1 = NumberOfReplicas c"
      "set (members c1) = set (members c) - {k \<in> set order. k \<notin> mo_String mo ` set elts}"
    using ring_prune_ok [OF assms(1-3) _ assms(5), of elts] assms(4) by auto
  have "length (members c1) \<le> length (members c)"
    using c1(2,5) assms(1) card_mono [of "set (members c)" "set (members c1)"] 
      distinct_card [of "members c"] distinct_card [of "members c1"]
    by (simp add: ring_ok_def)
  then have small: "length (members c1) + length elts < 2 ^ 62" using assms(6) by simp
  have "int64 (NumberOfReplicas c1 * 4) \<noteq> 0" using assms(5) c1(4) by simp
  from ring_fill_ok [OF c1(2,3) small this] obtain c2 where c2: "ring_fill mo elts c1 = Inr c2" "ring_ok mo c2" "ring_tight c2"
      "set (members c2) = set (members c1) \<union> mo_String mo ` set elts"
    by blast
  have ms: "set (members c2) = mo_String mo ` set elts" using c1(5) c2(4) assms(4) by auto
  have "ring_count c2 = int (card (mo_String mo ` set elts))"
    using c2(2,3) ms by (auto simp: ring_tight_def ring_ok_def distinct_card [symmetric])
  moreover have "ring_names mo c2 \<subseteq> mo_String mo ` set elts"
    using c2(2) ms by (auto simp: ring_names_def ring_ok_def)
  ultimately show ?thesis using c1(1) c2 ms by (auto simp: ring_Set_def)
qed

theorem ring_Set_members_witness:
  "\<exists>c'. ring_Set \<lparr>mo_String = id, mo_zero = []\<rparr> [] [''a'', ''b'', ''a''] ring_New = Inr c' \<and>
     set (members c') = {''a'', ''b''} \<and> ring_count c' = 2"
  using ring_Set_members [of "\<lparr>mo_String = id, mo_zero = []\<rparr>" ring_New "[]" "[''a'', ''b'', ''a'']"]
  by (auto simp: ring_New_def ring_ok_def ring_tight_def in_int64_def card_insert_if)


text \<open>A circle with one member, which every key finds.\<close>

lemma one_member_ring:
  assumes "ring_add mo m (ring_New\<lparr>NumberOfReplicas := 1, UseFnv := u\<rparr>) = Inr c"
  shows "ring_ok mo c" and "circle c \<noteq> []" and "NumberOfReplicas c = 1" and "ring_names mo c = {mo_String mo m}"
    and "ring_search c k = 0" and "ring_count c = 1"
proof -
  show ok: "ring_ok mo c" by (rule ring_ok_add [OF ring_ok_New assms])
  have c: "circle c = [(hashKey (ring_New\<lparr>NumberOfReplicas := 1, UseFnv := u\<rparr> :: 'a ring) (eltKey (mo_String mo m) 0), m)]"
    using ring_add_Inr(1) [OF assms] by (simp add: positions_def ring_New_def)
  then show ne: "circle c \<noteq> []" and "ring_names mo c = {mo_String mo m}" by (simp_all add: ring_names_def)
  have "length (sortedHashes c) = 1" using ring_add_Inr(3) [OF assms] c by simp
  then show "ring_search c k = 0" using ring_search_succ(1) [OF ok ne, of k] by simp
  show "NumberOfReplicas c = 1" "ring_count c = 1"
    using ring_add_Inr(6,7) [OF assms] by (simp_all add: ring_New_def in_int64_def)
qed




text \<open>
  \<^verbatim>\<open>GetN\<close> never returns when the key falls before the first position and fewer names are on the circle
  than asked for (or none is asked for): the loop, which compares its index with the start before the
  index wraps, passes by the start. The bound by the count does not help, as a member added twice is
  counted twice.
\<close>

theorem GetN_never_returns:
  assumes "ring_ok mo c" and "circle c \<noteq> []" and "ring_search c (hashKey c name) = 0"
    and "n = 0 \<or> 1 < n \<and> int (card (ring_names mo c)) < n" and "n \<le> ring_count c"
  shows "ring_GetN mo c name n = None"
proof -
  note i = ring_search_succ(1) [OF assms(1,2), of "hashKey c name"]
  have "ring_member mo c 0 \<in> set (clockwise mo c 0)"
    using i assms(3) by (force simp: clockwise_def)
  then have "mo_String mo (ring_member mo c 0) \<in> ring_names mo c"
    by (simp add: set_clockwise [OF assms(1)] ring_names_def)
  then have "getN_loop mo c n 0 1 [ring_member mo c 0] = None"
    using getN_loop_diverges [of mo c n 0 1 "[ring_member mo c 0]"] assms(1,2,4)
    by (cases "getN_loop mo c n 0 1 [ring_member mo c 0]") auto
  then show ?thesis using assms i by (auto simp: ring_GetN_def ring_at_member Let_def)
qed

theorem GetN_never_returns_witness:
  "\<exists>c c'. ring_Add \<lparr>mo_String = id, mo_zero = []\<rparr> ''a'' (ring_New\<lparr>NumberOfReplicas := 1, UseFnv := True\<rparr>) = Inr c \<and>
     ring_Add \<lparr>mo_String = id, mo_zero = []\<rparr> ''a'' c = Inr c' \<and>
     ring_GetN \<lparr>mo_String = id, mo_zero = []\<rparr> c' ''x'' 2 = None"
proof -
  let ?mo = "\<lparr>mo_String = id, mo_zero = []\<rparr> :: string member_ops"
  obtain c where c: "ring_add ?mo ''a'' (ring_New\<lparr>NumberOfReplicas := 1, UseFnv := True\<rparr>) = Inr c"
    using ring_add_total [of "ring_New\<lparr>NumberOfReplicas := 1, UseFnv := True\<rparr>" ?mo "''a''"]
    by (auto simp: ring_New_def)
  note one = one_member_ring [OF c]
  obtain c' where c': "ring_add ?mo ''a'' c = Inr c'" using ring_add_total [of c] one(3) by auto
  note r = ring_add_Inr [OF c]
  note r' = ring_add_Inr [OF c']
  have ok: "ring_ok ?mo c'" by (rule ring_ok_add [OF one(1) c'])
  have circle: "circle c' = circle c" using r(1) r'(1) r(4) by (simp add: positions_def ring_New_def hashKey_def)
  then have "ring_search c' k = ring_search c k" for k using r(3) r'(3) by (simp add: ring_search_def)
  moreover have "ring_names ?mo c' = {''a''}" "ring_count c' = 2"
    using circle one(4,6) r'(6) by (simp_all add: ring_names_def in_int64_def)
  ultimately have "ring_GetN ?mo c' ''x'' 2 = None"
    using circle one(2,5) by (intro GetN_never_returns [OF ok]) simp_all
  then show ?thesis using c c' by (auto simp: ring_Add_def)
qed

end
