(* ===== verification/Discovery_Core.thy ===== *)
theory Discovery_Core
  imports Hash_Ring
begin

text \<open>
  \<^verbatim>\<open>src/infra/discovery\<close> (\<^verbatim>\<open>abstraction.go\<close>, \<^verbatim>\<open>factory.go\<close>, \<^verbatim>\<open>identity.go\<close>), \<^verbatim>\<open>src/infra/transport/endpoint\<close> and
  the gRPC resolver \<^verbatim>\<open>src/infra/transport/gRPC/resolver/discovery\<close>: instances of services, the registry
  of providers, and the addresses a client balances over.

  \<^verbatim>\<open>net/url\<close> is used only to take an endpoint apart, so its parser is a parameter of the functions that
  call it; all statements hold for every parser.
\<close>

section \<open>Instances and identities\<close>

text \<open>Metadata may be the nil map, which is \<^term>\<open>None\<close>.\<close>

record service_instance =
  si_Id :: string
  si_Name :: string
  si_Version :: string
  si_Metadata :: "(string \<times> string) list option"
  si_Endpoints :: "string list"

definition instance_String :: "service_instance \<Rightarrow> string" where
  "instance_String s = si_Name s @ ''-'' @ si_Id s"

definition nil_instance :: service_instance where
  "nil_instance = \<lparr>si_Id = [], si_Name = [], si_Version = [], si_Metadata = None, si_Endpoints = []\<rparr>"

definition instance_ops :: "service_instance member_ops" where
  "instance_ops = \<lparr>mo_String = instance_String, mo_zero = nil_instance\<rparr>"

text \<open>\<open>hostname\<close> is what the operating system answers, or \<^term>\<open>None\<close> when it fails.\<close>

definition GenerateInstanceID :: "string option \<Rightarrow> nat \<Rightarrow> string \<Rightarrow> string" where
  "GenerateInstanceID hostname pid serviceName =
     serviceName @ ''@'' @ (case hostname of Some h \<Rightarrow> h | None \<Rightarrow> ''pid-'' @ fmt_nat pid)"

section \<open>Providers (factory.go)\<close>

type_synonym ('o, 't) provider_factory = "string \<Rightarrow> 'o list \<Rightarrow> string + 't"

type_synonym ('o, 't) factory = "string \<rightharpoonup> ('o, 't) provider_factory"

definition NewFactory :: "('o, 't) factory" where
  "NewFactory = Map.empty"

definition factory_Register :: "string \<Rightarrow> ('o, 't) provider_factory \<Rightarrow> ('o, 't) factory \<Rightarrow> ('o, 't) factory" where
  "factory_Register providerType fn f = f(providerType \<mapsto> fn)"

definition CreateProvider :: "('o, 't) factory \<Rightarrow> string \<Rightarrow> string \<Rightarrow> 'o list \<Rightarrow> string + 't" where
  "CreateProvider f providerType address options =
     (case f providerType of
        None \<Rightarrow> Inl (''unsupported discovery provider: '' @ providerType)
      | Some factory \<Rightarrow> factory address options)"

interpretation providers: keyed_table "\<lambda>k. k" "\<lambda>_. True" "\<lambda>f k. f k" factory_Register
  by unfold_locales (simp add: factory_Register_def)

lemma CreateProvider_registered:
  "CreateProvider (fold (\<lambda>(k, fn). factory_Register k fn) regs f) k addr opts =
     (case map_of (rev regs) k of
        Some fn \<Rightarrow> fn addr opts
      | None \<Rightarrow> CreateProvider f k addr opts)"
  using providers.get_put_all [of regs f k]
  by (auto simp: CreateProvider_def case_prod_beta list_all_iff split: option.splits)

section \<open>Endpoints (endpoint.go)\<close>

record url =
  u_Scheme :: string
  u_Host :: string

type_synonym url_parser = "string \<Rightarrow> string + url"

definition NewEndpoint :: "string \<Rightarrow> string \<Rightarrow> url" where
  "NewEndpoint scheme host = \<lparr>u_Scheme = scheme, u_Host = host\<rparr>"

fun ParseEndpoint :: "url_parser \<Rightarrow> string list \<Rightarrow> string \<Rightarrow> string + string" where
  "ParseEndpoint parse [] scheme = Inr []"
| "ParseEndpoint parse (e # es) scheme =
     (case parse e of
        Inl err \<Rightarrow> Inl err
      | Inr u \<Rightarrow> if u_Scheme u = scheme then Inr (u_Host u) else ParseEndpoint parse es scheme)"

definition endpoint_Scheme :: "string \<Rightarrow> bool \<Rightarrow> string" where
  "endpoint_Scheme scheme isSecure = (if isSecure then scheme @ ''s'' else scheme)"

section \<open>The resolver (resolver.go, builder.go)\<close>

record resolver_builder =
  rb_timeout :: duration
  rb_insecure :: bool
  rb_subsetSize :: int
  rb_debugLog :: bool

datatype builder_option = OptTimeout duration | OptInsecure bool | OptSubset int | OptDebugLog bool

fun builder_apply :: "builder_option \<Rightarrow> resolver_builder \<Rightarrow> resolver_builder" where
  "builder_apply (OptTimeout t) b = b\<lparr>rb_timeout := t\<rparr>"
| "builder_apply (OptInsecure i) b = b\<lparr>rb_insecure := i\<rparr>"
| "builder_apply (OptSubset n) b = b\<lparr>rb_subsetSize := n\<rparr>"
| "builder_apply (OptDebugLog p) b = b\<lparr>rb_debugLog := p\<rparr>"

definition NewBuilder :: "builder_option list \<Rightarrow> resolver_builder" where
  "NewBuilder options =
     fold builder_apply options
       \<lparr>rb_timeout = 10 * 1000000000, rb_insecure = False, rb_subsetSize = 25, rb_debugLog = True\<rparr>"

record discovery_resolver =
  dr_insecure :: bool
  dr_debugLog :: bool
  dr_selectorKey :: string
  dr_subsetSize :: int

text \<open>
  \<^verbatim>\<open>Build\<close>: \<open>answer\<close> is when the watcher (or its error) arrives, in nanoseconds after the start, and what
  it is; \<open>uuid\<close> the fresh key.
\<close>

definition ErrWatcherCreateTimeout :: string where
  "ErrWatcherCreateTimeout = ''discovery create watcher overtime''"

definition builder_Build ::
    "resolver_builder \<Rightarrow> string \<Rightarrow> duration \<times> (string + 'w) \<Rightarrow> string + 'w \<times> discovery_resolver" where
  "builder_Build b uuid answer =
     (let res = (if rb_timeout b > 0 \<and> fst answer \<ge> rb_timeout b then Inl ErrWatcherCreateTimeout else snd answer)
      in case res of
           Inl err \<Rightarrow> Inl err
         | Inr w \<Rightarrow>
             Inr (w, \<lparr>dr_insecure = rb_insecure b, dr_debugLog = rb_debugLog b, dr_selectorKey = uuid,
                      dr_subsetSize = rb_subsetSize b\<rparr>))"

definition instance_endpoint :: "url_parser \<Rightarrow> discovery_resolver \<Rightarrow> service_instance \<Rightarrow> string + string" where
  "instance_endpoint parse r s = ParseEndpoint parse (si_Endpoints s) (endpoint_Scheme ''grpc'' (\<not> dr_insecure r))"

fun filterEndpoints ::
    "url_parser \<Rightarrow> discovery_resolver \<Rightarrow> service_instance list \<Rightarrow> string list \<Rightarrow> service_instance list \<Rightarrow>
     string list \<times> service_instance list" where
  "filterEndpoints parse r [] endpoints filtered = (endpoints, filtered)"
| "filterEndpoints parse r (s # ss) endpoints filtered =
     (case instance_endpoint parse r s of
        Inl _ \<Rightarrow> filterEndpoints parse r ss endpoints filtered
      | Inr ept \<Rightarrow>
          if ept = [] \<or> ept \<in> set endpoints then filterEndpoints parse r ss endpoints filtered
          else filterEndpoints parse r ss (endpoints @ [ept]) (filtered @ [s]))"

record address =
  ad_ServerName :: string
  ad_Addr :: string
  ad_Attributes :: "(string \<times> string) list"
  ad_Raw :: service_instance

definition mapToAddresses :: "url_parser \<Rightarrow> discovery_resolver \<Rightarrow> service_instance list \<Rightarrow> address list" where
  "mapToAddresses parse r ss =
     map (\<lambda>s. \<lparr>ad_ServerName = si_Name s,
               ad_Addr = (case instance_endpoint parse r s of Inr ept \<Rightarrow> ept | Inl _ \<Rightarrow> []),
               ad_Attributes = (case si_Metadata s of Some md \<Rightarrow> md | None \<Rightarrow> []), ad_Raw = s\<rparr>) ss"

text \<open>The addresses an update reports to gRPC (also when there are none).\<close>

definition resolver_update ::
    "url_parser \<Rightarrow> discovery_resolver \<Rightarrow> service_instance list \<Rightarrow> address list or_panic option" where
  "resolver_update parse r ins =
     (let filtered = snd (filterEndpoints parse r ins [] [])
      in map_option (map_sum id (mapToAddresses parse r))
           (if dr_subsetSize r \<noteq> 0 then Subset instance_ops (dr_selectorKey r) filtered (dr_subsetSize r)
            else Some (Inr filtered)))"

text \<open>
  \<^verbatim>\<open>watch\<close> over the answers of the watcher's \<^verbatim>\<open>Next\<close>, in order: it stops when the context is done or the
  answer is its cancellation, retries after any other error, and reports the rest.
\<close>

datatype next_answer = NextCanceled | NextError string | NextInstances "service_instance list"

fun resolver_watch :: "url_parser \<Rightarrow> discovery_resolver \<Rightarrow> (bool \<times> next_answer) list \<Rightarrow> address list or_panic option list" where
  "resolver_watch parse r [] = []"
| "resolver_watch parse r ((ctxDone, ans) # rest) =
     (if ctxDone then []
      else (case ans of
              NextCanceled \<Rightarrow> []
            | NextError _ \<Rightarrow> resolver_watch parse r rest
            | NextInstances ins \<Rightarrow> resolver_update parse r ins # resolver_watch parse r rest))"

section \<open>Lemmas\<close>

text \<open>The endpoints met so far are those of the instances kept, one each.\<close>

lemma filterEndpoints_spec:
  assumes "filterEndpoints parse r ss eps fl = (eps', fl')"
    and "map (instance_endpoint parse r) fl = map Inr eps" and "distinct eps" and "[] \<notin> set eps"
  shows "map (instance_endpoint parse r) fl' = map Inr eps' \<and> distinct eps' \<and> [] \<notin> set eps' \<and>
         set fl' \<subseteq> set fl \<union> set ss \<and>
         set eps' = set eps \<union> {ept. ept \<noteq> [] \<and> (\<exists>s \<in> set ss. instance_endpoint parse r s = Inr ept)}"
  using assms
proof (induction ss arbitrary: eps fl)
  case (Cons s ss)
  show ?case
  proof (cases "\<exists>ept. instance_endpoint parse r s = Inr ept \<and> ept \<noteq> [] \<and> ept \<notin> set eps")
    case True
    then obtain ept where e: "instance_endpoint parse r s = Inr ept" "ept \<noteq> []" "ept \<notin> set eps" by blast
    with Cons.IH [of "eps @ [ept]" "fl @ [s]"] Cons.prems show ?thesis by auto
  next
    case False
    then have "filterEndpoints parse r ss eps fl = (eps', fl')"
      using Cons.prems(1) by (auto split: sum.splits if_splits)
    from Cons.IH [OF this Cons.prems(2-4)] False show ?thesis by auto
  qed
qed auto

lemma length_filterEndpoints:
  "length (snd (filterEndpoints parse r ss eps fl)) \<le> length fl + length ss"
proof (induction ss arbitrary: eps fl)
  case (Cons s ss)
  show ?case
    using Cons.IH [of eps fl] Cons.IH [of _ "fl @ [s]"]
    by (auto split: sum.splits simp: le_Suc_eq)
qed simp

lemma mapToAddresses_addr:
  assumes "\<And>s. s \<in> set ss \<Longrightarrow> instance_endpoint parse r s = Inr (f s)"
  shows "map ad_Addr (mapToAddresses parse r ss) = map f ss"
  using assms by (auto simp: mapToAddresses_def)

section \<open>Properties\<close>

text \<open>
  The addresses a resolver reports are pairwise different and not empty, each is the endpoint of an
  instance of the service under the scheme the resolver was built for, there are at most as many as
  the subset size when one is set, and without one every such endpoint is reported exactly once.
\<close>

theorem resolver_addresses:
  assumes "resolver_update parse r ins = Some (Inr addrs)" and "length ins < 2 ^ 62" and "0 \<le> dr_subsetSize r"
  shows "distinct (map ad_Addr addrs) \<and>
         (\<forall>a \<in> set addrs. ad_Addr a \<noteq> [] \<and> ad_Raw a \<in> set ins \<and> instance_endpoint parse r (ad_Raw a) = Inr (ad_Addr a)) \<and>
         (0 < dr_subsetSize r \<longrightarrow> int (length addrs) \<le> dr_subsetSize r) \<and>
         (dr_subsetSize r = 0 \<longrightarrow>
            set (map ad_Addr addrs) = {ept. ept \<noteq> [] \<and> (\<exists>s \<in> set ins. instance_endpoint parse r s = Inr ept)})"
proof -
  obtain eps fl where f: "filterEndpoints parse r ins [] [] = (eps, fl)" by fastforce
  note spec = filterEndpoints_spec [OF f]
  have fl: "map (instance_endpoint parse r) fl = map Inr eps" "distinct eps" "[] \<notin> set eps" "set fl \<subseteq> set ins"
    "set eps = {ept. ept \<noteq> [] \<and> (\<exists>s \<in> set ins. instance_endpoint parse r s = Inr ept)}"
    using spec by auto
  define ept where "ept s = (case instance_endpoint parse r s of Inr e \<Rightarrow> e | Inl _ \<Rightarrow> [])" for s
  have eps: "eps = map ept fl"
  proof -
    have "map ept fl = map (\<lambda>x. case x of Inr e \<Rightarrow> e | Inl _ \<Rightarrow> []) (map (instance_endpoint parse r) fl)"
      by (simp add: ept_def)
    then show ?thesis by (simp add: fl(1) o_def)
  qed
  have inst: "instance_endpoint parse r s = Inr (ept s) \<and> ept s \<noteq> []" if "s \<in> set fl" for s
  proof -
    have "instance_endpoint parse r s \<in> Inr ` set eps"
      using that arg_cong [OF fl(1), of set] by (auto simp: image_iff)
    then show ?thesis using fl(3) by (auto simp: ept_def)
  qed
  have dfl: "distinct fl" "inj_on ept (set fl)" using fl(2) unfolding eps by (simp_all add: distinct_map)
  have "length fl < 2 ^ 62" using length_filterEndpoints [of parse r ins "[]" "[]"] f assms(2) by simp
  then obtain sub where sub: "addrs = mapToAddresses parse r sub" "set sub \<subseteq> set fl" "distinct sub"
      "0 < dr_subsetSize r \<longrightarrow> int (length sub) \<le> dr_subsetSize r" "dr_subsetSize r = 0 \<longrightarrow> sub = fl"
    using assms(1,3) f dfl(1) Subset_result [of instance_ops "dr_selectorKey r" fl "dr_subsetSize r"]
    by (auto simp: resolver_update_def split: if_splits)
  have addr: "map ad_Addr addrs = map ept sub"
    unfolding sub(1) using inst sub(2) by (intro mapToAddresses_addr) auto
  have "distinct (map ad_Addr addrs)"
    unfolding addr using sub(2,3) dfl(2) by (auto simp: distinct_map intro: inj_on_subset)
  moreover have "ad_Addr a \<noteq> [] \<and> ad_Raw a \<in> set ins \<and> instance_endpoint parse r (ad_Raw a) = Inr (ad_Addr a)"
    if a: "a \<in> set addrs" for a
  proof -
    obtain s where "s \<in> set sub" "ad_Raw a = s" "ad_Addr a = ept s"
      using a by (auto simp: sub(1) mapToAddresses_def ept_def)
    then show ?thesis using inst [of s] sub(2) fl(4) by auto
  qed
  moreover have "set (map ad_Addr addrs) = set eps" if "dr_subsetSize r = 0"
    unfolding addr eps using sub(5) that by simp
  moreover have "length addrs = length sub" by (simp add: sub(1) mapToAddresses_def)
  ultimately show ?thesis using sub(4) fl(5) by auto
qed

text \<open>Endpoints given as a scheme and a host with a space between them.\<close>

definition split_url :: url_parser where
  "split_url s =
     (let scheme = takeWhile (\<lambda>c. c \<noteq> CHR '' '') s
      in if scheme = s then Inl ''no scheme'' else Inr \<lparr>u_Scheme = scheme, u_Host = drop (length scheme + 1) s\<rparr>)"

theorem resolver_addresses_witness:
  "\<exists>addrs. resolver_update split_url \<lparr>dr_insecure = True, dr_debugLog = False, dr_selectorKey = ''k'', dr_subsetSize = 0\<rparr>
     [nil_instance\<lparr>si_Endpoints := [''http h:1'', ''grpc h:2'']\<rparr>, nil_instance\<lparr>si_Id := ''b'', si_Endpoints := [''grpc h:2'']\<rparr>]
     = Some (Inr addrs) \<and> distinct (map ad_Addr addrs) \<and> set (map ad_Addr addrs) = {''h:2''}"
proof -
  let ?r = "\<lparr>dr_insecure = True, dr_debugLog = False, dr_selectorKey = ''k'', dr_subsetSize = 0\<rparr>"
  let ?ins = "[nil_instance\<lparr>si_Endpoints := [''http h:1'', ''grpc h:2'']\<rparr>, nil_instance\<lparr>si_Id := ''b'', si_Endpoints := [''grpc h:2'']\<rparr>]"
  obtain addrs where u: "resolver_update split_url ?r ?ins = Some (Inr addrs)"
    by (simp add: resolver_update_def)
  have "{ept. ept \<noteq> [] \<and> (\<exists>s \<in> set ?ins. instance_endpoint split_url ?r s = Inr ept)} = {''h:2''}"
    by (auto simp: instance_endpoint_def endpoint_Scheme_def split_url_def)
  with resolver_addresses [OF u] u show ?thesis by auto
qed

end
