(* ===== verification/Go_Net.thy ===== *)
theory Go_Net
  imports Kit_Prelude
begin

text \<open>
  The parts of Go's \<^verbatim>\<open>net\<close> and \<^verbatim>\<open>strings\<close> that take addresses apart: host and port, and the search for a text
  inside another.
\<close>

section \<open>Host and port (net)\<close>

definition JoinHostPort :: "string \<Rightarrow> string \<Rightarrow> string" where
  "JoinHostPort host port =
     (if CHR '':'' \<in> set host then ''['' @ host @ '']:'' @ port else host @ '':'' @ port)"

text \<open>\<^verbatim>\<open>net.SplitHostPort\<close>; \<^term>\<open>None\<close> is an error.\<close>

definition last_index :: "char \<Rightarrow> string \<Rightarrow> nat option" where
  "last_index c s =
     (let suffix = takeWhile (\<lambda>x. x \<noteq> c) (rev s)
      in if length suffix = length s then None else Some (length s - length suffix - 1))"

definition SplitHostPort :: "string \<Rightarrow> (string \<times> string) option" where
  "SplitHostPort hostport =
     (case last_index CHR '':'' hostport of
        None \<Rightarrow> None
      | Some i \<Rightarrow>
          (let port = drop (i + 1) hostport
           in case hostport of
                [] \<Rightarrow> None
              | c # rest \<Rightarrow>
                  if c = CHR ''['' then
                    (let len = length (takeWhile (\<lambda>x. x \<noteq> CHR '']'') hostport)
                     in if len = length hostport \<or> len + 1 \<noteq> i then None
                        else
                          (let host = take (len - 1) rest
                           in if CHR ''['' \<in> set rest \<or> CHR '']'' \<in> set (drop (len + 1) hostport) then None
                              else Some (host, port)))
                  else
                    (let host = take i hostport
                     in if CHR '':'' \<in> set host \<or> CHR ''['' \<in> set hostport \<or> CHR '']'' \<in> set hostport then None
                        else Some (host, port))))"

section \<open>Searching (strings)\<close>

fun starts_with :: "string \<Rightarrow> string \<Rightarrow> bool" where
  "starts_with [] s = True"
| "starts_with (c # cs) [] = False"
| "starts_with (c # cs) (x # xs) = (c = x \<and> starts_with cs xs)"

text \<open>\<^verbatim>\<open>strings.Index\<close>; \<^term>\<open>None\<close> is -1.\<close>

fun sub_index :: "string \<Rightarrow> string \<Rightarrow> nat option" where
  "sub_index sub [] = (if sub = [] then Some 0 else None)"
| "sub_index sub (c # cs) = (if starts_with sub (c # cs) then Some 0 else map_option Suc (sub_index sub cs))"

lemma starts_with_append [simp]: "starts_with sub (sub @ s)"
  by (induction sub) auto

lemma last_index_split:
  assumes "c \<notin> set t"
  shows "last_index c (s @ c # t) = Some (length s)"
proof -
  have "takeWhile (\<lambda>x. x \<noteq> c) (rev (s @ c # t)) = rev t"
    using assms by (auto simp: takeWhile_append2 takeWhile_tail)
  then show ?thesis by (simp add: last_index_def)
qed

lemma last_index_none: "c \<notin> set s \<Longrightarrow> last_index c s = None"
  by (subst last_index_def, subst takeWhile_eq_all_conv [THEN iffD2]) auto

end
