(* ===== verification/Consul_Client.thy ===== *)
theory Consul_Client
  imports Discovery_Core Go_Net "HOL-Library.Multiset"
begin

text \<open>
  \<^verbatim>\<open>src/infra/discovery/consul\<close>: \<^verbatim>\<open>client.go\<close> (resolving services, building a registration, the heartbeat
  of a registered service), \<^verbatim>\<open>kv_client.go\<close>, \<^verbatim>\<open>kv_watcher.go\<close>.

  The Consul API (\<^verbatim>\<open>hashicorp/consul/api\<close>) is a parameter: health and catalog queries are functions, the
  agent's calls have outcomes that the operations take as arguments.
\<close>

section \<open>Numbers\<close>

text \<open>\<^verbatim>\<open>strconv.ParseUint(s, 10, bits)\<close> with its error ignored: 0 for a text that is no number, the greatest value for one too great.\<close>

definition ParseUint_lax :: "nat \<Rightarrow> string \<Rightarrow> nat" where
  "ParseUint_lax bits s = (if all_digits s then min (digits_val s) (2 ^ bits - 1) else 0)"

section \<open>Resolving\<close>

record service_entry =
  se_ID :: string
  se_Service :: string
  se_Tags :: "string list"
  se_Meta :: "(string \<times> string) list option"
  se_TaggedAddresses :: "(string \<times> string \<times> int) list"
  se_Address :: string
  se_Port :: int

definition EndpointSchemes :: "string list" where
  "EndpointSchemes = [''lan_ipv4'', ''wan_ipv4'', ''lan_ipv6'', ''wan_ipv6'']"

text \<open>\<^verbatim>\<open>strings.SplitN(tag, "=", 2)\<close> has two parts when there is an equals sign.\<close>

definition split_eq :: "string \<Rightarrow> (string \<times> string) option" where
  "split_eq tag =
     (let k = takeWhile (\<lambda>c. c \<noteq> CHR ''='') tag
      in if k = tag then None else Some (k, drop (length k + 1) tag))"

definition versionBuilder :: "string list \<Rightarrow> string" where
  "versionBuilder tags =
     fold (\<lambda>tag version. case split_eq tag of
             Some (k, v) \<Rightarrow> if k = ''version'' then v else version
           | None \<Rightarrow> version) tags []"

text \<open>The tagged addresses come in the order the runtime ranges over the map.\<close>

definition grpcEndpointsBuilder :: "(string \<times> string \<times> int) list \<Rightarrow> string \<Rightarrow> int \<Rightarrow> string list" where
  "grpcEndpointsBuilder tagged address port =
     (let endpoints = map (\<lambda>(scheme, addr, p). addr) (filter (\<lambda>(scheme, addr, p). scheme \<notin> set EndpointSchemes) tagged)
      in if endpoints = [] \<and> address \<noteq> [] \<and> port \<noteq> 0
         then [''grpc://'' @ address @ '':'' @ fmt_int port] else endpoints)"

definition defaultResolver :: "service_entry list \<Rightarrow> service_instance list" where
  "defaultResolver entries =
     map (\<lambda>e. \<lparr>si_Id = se_ID e, si_Name = se_Service e, si_Version = versionBuilder (se_Tags e),
               si_Metadata = se_Meta e,
               si_Endpoints = grpcEndpointsBuilder (se_TaggedAddresses e) (se_Address e) (se_Port e)\<rparr>) entries"

record agent_check =
  ac_CheckID :: string
  ac_TCP :: string
  ac_Interval :: string
  ac_Timeout :: string
  ac_TTL :: string
  ac_DeregisterCriticalServiceAfter :: string

record consul_client =
  cl_dc :: string
  cl_resolver :: "service_entry list \<Rightarrow> service_instance list"
  cl_healthCheckInterval :: int
  cl_heartbeat :: bool
  cl_deregisterCriticalServiceAfter :: int
  cl_serviceChecks :: "agent_check list"
  cl_tags :: "string list"

definition SingleDatacenter :: string where "SingleDatacenter = ''SINGLE''"
definition MultiDataCenter :: string where "MultiDataCenter = ''MULTI''"

record query_options =
  qo_WaitIndex :: nat
  qo_WaitTime :: duration
  qo_Datacenter :: string

text \<open>
  \<open>health service tag passingOnly opts\<close> is \<^verbatim>\<open>Health().Service\<close>: the entries and the index of the answer,
  or an error; \<open>datacenters\<close> is \<^verbatim>\<open>Catalog().Datacenters\<close>.
\<close>

type_synonym health_query = "string \<Rightarrow> string \<Rightarrow> bool \<Rightarrow> query_options \<Rightarrow> string + service_entry list \<times> nat"

fun multiDC_loop ::
    "consul_client \<Rightarrow> health_query \<Rightarrow> string \<Rightarrow> bool \<Rightarrow> string list \<Rightarrow> query_options \<Rightarrow> service_instance list \<Rightarrow>
     string + service_instance list \<times> nat" where
  "multiDC_loop c health service passing [] opts acc = Inr (acc, qo_WaitIndex opts)"
| "multiDC_loop c health service passing (dc # dcs) opts acc =
     (case health service [] passing (opts\<lparr>qo_Datacenter := dc\<rparr>) of
        Inl e \<Rightarrow> Inl e
      | Inr (entries, lastIndex) \<Rightarrow>
          (let inst = map (\<lambda>s. case si_Metadata s of None \<Rightarrow> s\<lparr>si_Metadata := Some [(''dc'', dc)]\<rparr> | Some _ \<Rightarrow> s)
                        (cl_resolver c entries);
               opts' = (opts\<lparr>qo_Datacenter := dc\<rparr>)\<lparr>qo_WaitIndex := (if inst = [] then qo_WaitIndex opts else lastIndex)\<rparr>
           in multiDC_loop c health service passing dcs opts' (acc @ inst)))"

definition multiDCService ::
    "consul_client \<Rightarrow> health_query \<Rightarrow> (string + string list) \<Rightarrow> string \<Rightarrow> nat \<Rightarrow> bool \<Rightarrow>
     string + service_instance list \<times> nat" where
  "multiDCService c health datacenters service index passing =
     (case datacenters of
        Inl e \<Rightarrow> Inl e
      | Inr dcs \<Rightarrow>
          multiDC_loop c health service passing dcs
            \<lparr>qo_WaitIndex = index, qo_WaitTime = 55 * 1000000000, qo_Datacenter = []\<rparr> [])"

definition client_GetService ::
    "consul_client \<Rightarrow> health_query \<Rightarrow> (string + string list) \<Rightarrow> string \<Rightarrow> nat \<Rightarrow> bool \<Rightarrow>
     string + service_instance list \<times> nat" where
  "client_GetService c health datacenters service index passing =
     (if cl_dc c = MultiDataCenter then multiDCService c health datacenters service index passing
      else
        (case health service [] passing
                \<lparr>qo_WaitIndex = index, qo_WaitTime = 55 * 1000000000,
                 qo_Datacenter = (if cl_dc c = SingleDatacenter then [] else cl_dc c)\<rparr> of
           Inl e \<Rightarrow> Inl e
         | Inr (entries, lastIndex) \<Rightarrow> Inr (cl_resolver c entries, lastIndex)))"

section \<open>Building a registration\<close>

record host_url =
  hu_Scheme :: string
  hu_Hostname :: string
  hu_Port :: string

record registration =
  as_ID :: string
  as_Name :: string
  as_Meta :: "(string \<times> string) list option"
  as_Tags :: "string list"
  as_TaggedAddresses :: "(string \<times> string \<times> int) list"
  as_Address :: string
  as_Port :: int
  as_Checks :: "agent_check list"

fun registration_addresses ::
    "(string \<Rightarrow> string + host_url) \<Rightarrow> string list \<Rightarrow> (string \<times> string \<times> int) list \<Rightarrow> string list \<Rightarrow>
     string + (string \<times> string \<times> int) list \<times> string list" where
  "registration_addresses parse [] addresses checks = Inr (addresses, checks)"
| "registration_addresses parse (endpoint # es) addresses checks =
     (case parse endpoint of
        Inl e \<Rightarrow> Inl e
      | Inr raw \<Rightarrow>
          (let port = ParseUint_lax 16 (hu_Port raw)
           in registration_addresses parse es
                (AList.update (hu_Scheme raw) (endpoint, int port) addresses)
                (checks @ [JoinHostPort (hu_Hostname raw) (fmt_nat port)])))"

text \<open>The tags with the version that the code computes are not used: the registration has the client's tags.\<close>

definition buildRegistration ::
    "(string \<Rightarrow> string + host_url) \<Rightarrow> consul_client \<Rightarrow> service_instance \<Rightarrow> string + registration \<times> string list" where
  "buildRegistration parse c svc =
     (case registration_addresses parse (si_Endpoints svc) [] [] of
        Inl e \<Rightarrow> Inl e
      | Inr (addresses, checks) \<Rightarrow>
          (let (host, port) =
                 (case checks of
                    [] \<Rightarrow> ([], 0)
                  | a # _ \<Rightarrow>
                      (case SplitHostPort a of
                         Some (h, p) \<Rightarrow> (h, int (ParseUint_lax 31 p))
                       | None \<Rightarrow> ([], 0)))
           in Inr (\<lparr>as_ID = si_Id svc, as_Name = si_Name svc, as_Meta = si_Metadata svc, as_Tags = cl_tags c,
                    as_TaggedAddresses = addresses, as_Address = host, as_Port = port, as_Checks = []\<rparr>, checks)))"

definition seconds :: "int \<Rightarrow> string" where
  "seconds n = fmt_int n @ ''s''"

definition tcpCheck :: "consul_client \<Rightarrow> string \<Rightarrow> agent_check" where
  "tcpCheck c addr =
     \<lparr>ac_CheckID = [], ac_TCP = addr, ac_Interval = seconds (cl_healthCheckInterval c), ac_Timeout = ''5s'', ac_TTL = [],
      ac_DeregisterCriticalServiceAfter = seconds (cl_deregisterCriticalServiceAfter c)\<rparr>"

definition check_id :: "string \<Rightarrow> string" where
  "check_id serviceId = ''service:'' @ serviceId @ '':ttl:1''"

definition ttlCheck :: "consul_client \<Rightarrow> service_instance \<Rightarrow> agent_check" where
  "ttlCheck c svc =
     \<lparr>ac_CheckID = check_id (si_Id svc), ac_TCP = [], ac_Interval = [], ac_Timeout = [],
      ac_TTL = seconds (int64 (cl_healthCheckInterval c * 2)),
      ac_DeregisterCriticalServiceAfter = seconds (cl_deregisterCriticalServiceAfter c)\<rparr>"

definition applyChecks ::
    "consul_client \<Rightarrow> registration \<Rightarrow> service_instance \<Rightarrow> string list \<Rightarrow> bool \<Rightarrow> registration" where
  "applyChecks c asr svc addresses enableHealthChecks =
     (let asr = (if enableHealthChecks
                 then asr\<lparr>as_Checks := as_Checks asr @ map (tcpCheck c) addresses @ cl_serviceChecks c\<rparr> else asr)
      in if cl_heartbeat c then asr\<lparr>as_Checks := as_Checks asr @ [ttlCheck c svc]\<rparr> else asr)"

text \<open>What the agent answers to a query for a registered service.\<close>

definition entry_of :: "registration \<Rightarrow> service_entry" where
  "entry_of asr =
     \<lparr>se_ID = as_ID asr, se_Service = as_Name asr, se_Tags = as_Tags asr, se_Meta = as_Meta asr,
      se_TaggedAddresses = as_TaggedAddresses asr, se_Address = as_Address asr, se_Port = as_Port asr\<rparr>"

section \<open>Key-value store\<close>

definition PutToKV :: "string option \<Rightarrow> string option" where
  "PutToKV err = map_option (\<lambda>e. ''consul kv put error: '' @ e) err"

definition GetFromKV :: "string \<Rightarrow> string + string option \<Rightarrow> string + string" where
  "GetFromKV key ans =
     (case ans of
        Inl e \<Rightarrow> Inl (''consul kv get error: '' @ e)
      | Inr None \<Rightarrow> Inl (''key '' @ [CHR 0x27] @ key @ [CHR 0x27] @ '' not found in consul kv'')
      | Inr (Some v) \<Rightarrow> Inr v)"

definition DeleteFromKV :: "string \<Rightarrow> string option \<Rightarrow> string option" where
  "DeleteFromKV key err = map_option (\<lambda>e. ''consul kv delete error (key: '' @ key @ ''): '' @ e) err"

text \<open>
  A watcher of one key. \<open>answers\<close> are the answers of the blocking queries of \<^verbatim>\<open>Next\<close>, each the pair and the
  index; \<^verbatim>\<open>Next\<close> takes answers until the index has grown. With the answers used up it still waits.
\<close>

record kv_watcher =
  kw_key :: string
  kw_lastIndex :: nat
  kw_cancelled :: bool

definition GetKVWatcher :: "string \<Rightarrow> nat option \<Rightarrow> kv_watcher" where
  "GetKVWatcher key meta = \<lparr>kw_key = key, kw_lastIndex = (case meta of Some i \<Rightarrow> i | None \<Rightarrow> 0), kw_cancelled = False\<rparr>"

fun kv_Next ::
    "(string + string option \<times> nat) list \<Rightarrow> kv_watcher \<Rightarrow> ((string + string option) \<times> kv_watcher) option" where
  "kv_Next answers w =
     (if kw_cancelled w then Some (Inl ''context canceled'', w)
      else (case answers of
              [] \<Rightarrow> None
            | Inl e # _ \<Rightarrow> Some (Inl e, w)
            | Inr (pair, lastIndex) # rest \<Rightarrow>
                if lastIndex > kw_lastIndex w then Some (Inr pair, w\<lparr>kw_lastIndex := lastIndex\<rparr>)
                else kv_Next rest w))"

declare kv_Next.simps [simp del]

definition kv_Stop :: "kv_watcher \<Rightarrow> kv_watcher" where
  "kv_Stop w = w\<lparr>kw_cancelled := True\<rparr>"

section \<open>Heartbeats\<close>

text \<open>
  One service id with the heartbeat enabled, whose owner calls \<^verbatim>\<open>Register\<close> and \<^verbatim>\<open>Deregister\<close> one after
  the other, while heartbeat goroutines run. Each \<^verbatim>\<open>Register\<close> makes a canceler; its goroutine is prepared
  (the agent has not answered yet), beating, or done (its channel is closed). The map of cancelers holds
  at most one for the id, and a goroutine of its own removes it some time after it is done.
\<close>

datatype hb_phase = HbPrepared | HbBeating | HbDone

record canceler =
  ca_cancelled :: bool
  ca_phase :: hb_phase

datatype hb_call = CallIdle | RegisterWaits nat | RegisterCalls nat | DeregisterWaits nat | DeregisterCalls

text \<open>\<open>hb_gone\<close> remembers that the last call that returned was a \<^verbatim>\<open>Deregister\<close> without an error.\<close>

record hb_sys =
  hb_registered :: bool
  hb_cancelers :: "canceler list"
  hb_current :: "nat option"
  hb_call :: hb_call
  hb_gone :: bool

definition hb_init :: hb_sys where
  "hb_init = \<lparr>hb_registered = False, hb_cancelers = [], hb_current = None, hb_call = CallIdle, hb_gone = False\<rparr>"

definition hb_cancel :: "nat \<Rightarrow> hb_sys \<Rightarrow> hb_sys" where
  "hb_cancel i s = s\<lparr>hb_cancelers := (hb_cancelers s)[i := (hb_cancelers s ! i)\<lparr>ca_cancelled := True\<rparr>]\<rparr>"

definition hb_set_phase :: "nat \<Rightarrow> hb_phase \<Rightarrow> hb_sys \<Rightarrow> hb_sys" where
  "hb_set_phase i ph s = s\<lparr>hb_cancelers := (hb_cancelers s)[i := (hb_cancelers s ! i)\<lparr>ca_phase := ph\<rparr>]\<rparr>"

text \<open>The second half of \<^verbatim>\<open>prepareHeartbeat\<close>.\<close>

definition hb_prepare :: "hb_sys \<Rightarrow> hb_sys" where
  "hb_prepare s =
     s\<lparr>hb_cancelers := hb_cancelers s @ [\<lparr>ca_cancelled = False, ca_phase = HbPrepared\<rparr>],
       hb_current := Some (length (hb_cancelers s)), hb_call := RegisterCalls (length (hb_cancelers s))\<rparr>"

inductive hb_step :: "hb_sys \<Rightarrow> hb_sys \<Rightarrow> bool" where
  register_first: "hb_call s = CallIdle \<Longrightarrow> hb_current s = None \<Longrightarrow> hb_step s ((hb_prepare s)\<lparr>hb_gone := False\<rparr>)"
| register_again: "hb_call s = CallIdle \<Longrightarrow> hb_current s = Some i \<Longrightarrow>
    hb_step s ((hb_cancel i s)\<lparr>hb_call := RegisterWaits i, hb_gone := False\<rparr>)"
| register_waited: "hb_call s = RegisterWaits i \<Longrightarrow> ca_phase (hb_cancelers s ! i) = HbDone \<Longrightarrow> hb_step s (hb_prepare s)"
| register_ok: "hb_call s = RegisterCalls i \<Longrightarrow>
    hb_step s ((hb_set_phase i HbBeating s)\<lparr>hb_registered := True, hb_call := CallIdle\<rparr>)"
| register_fails: "hb_call s = RegisterCalls i \<Longrightarrow> hb_step s ((hb_set_phase i HbDone s)\<lparr>hb_call := CallIdle\<rparr>)"
| beat: "i < length (hb_cancelers s) \<Longrightarrow> ca_phase (hb_cancelers s ! i) = HbBeating \<Longrightarrow>
    hb_step s (s\<lparr>hb_registered := r\<rparr>)"
| beat_ends: "i < length (hb_cancelers s) \<Longrightarrow> ca_phase (hb_cancelers s ! i) = HbBeating \<Longrightarrow>
    hb_step s ((hb_set_phase i HbDone s)\<lparr>hb_registered := r\<rparr>)"
| expires: "hb_step s (s\<lparr>hb_registered := False\<rparr>)"
| forget: "hb_current s = Some i \<Longrightarrow> ca_phase (hb_cancelers s ! i) = HbDone \<Longrightarrow> hb_step s (s\<lparr>hb_current := None\<rparr>)"
| deregister_first: "hb_call s = CallIdle \<Longrightarrow> hb_current s = None \<Longrightarrow> hb_step s (s\<lparr>hb_call := DeregisterCalls\<rparr>)"
| deregister_waits: "hb_call s = CallIdle \<Longrightarrow> hb_current s = Some i \<Longrightarrow>
    hb_step s ((hb_cancel i s)\<lparr>hb_call := DeregisterWaits i\<rparr>)"
| deregister_waited: "hb_call s = DeregisterWaits i \<Longrightarrow> ca_phase (hb_cancelers s ! i) = HbDone \<Longrightarrow>
    hb_step s (s\<lparr>hb_call := DeregisterCalls\<rparr>)"
| deregister_ok: "hb_call s = DeregisterCalls \<Longrightarrow>
    hb_step s (s\<lparr>hb_registered := False, hb_call := CallIdle, hb_gone := True\<rparr>)"
| deregister_fails: "hb_call s = DeregisterCalls \<Longrightarrow> hb_step s (s\<lparr>hb_call := CallIdle, hb_gone := False\<rparr>)"

inductive hb_reach :: "hb_sys \<Rightarrow> bool" where
  start: "hb_reach hb_init"
| step: "hb_reach s \<Longrightarrow> hb_step s s' \<Longrightarrow> hb_reach s'"

definition hb_live :: "hb_sys \<Rightarrow> nat set" where
  "hb_live s = {i. i < length (hb_cancelers s) \<and> ca_phase (hb_cancelers s ! i) \<noteq> HbDone}"

text \<open>
  A heartbeat that is not done is the one in the map; a call waits for the one in the map, or for one
  that is done; and no heartbeat is left when the agent is asked to deregister, or afterwards.
\<close>

definition hb_inv :: "hb_sys \<Rightarrow> bool" where
  "hb_inv s \<longleftrightarrow>
     hb_live s \<subseteq> set_option (hb_current s) \<and> set_option (hb_current s) \<subseteq> {..<length (hb_cancelers s)} \<and>
     (case hb_call s of
        CallIdle \<Rightarrow> True
      | RegisterWaits i \<Rightarrow> hb_live s \<subseteq> {i} \<and> \<not> hb_gone s
      | RegisterCalls i \<Rightarrow> i < length (hb_cancelers s) \<and> ca_phase (hb_cancelers s ! i) = HbPrepared
      | DeregisterWaits i \<Rightarrow> hb_live s \<subseteq> {i}
      | DeregisterCalls \<Rightarrow> hb_live s = {}) \<and>
     (hb_gone s \<longrightarrow> hb_live s = {} \<and> \<not> hb_registered s)"

lemma hb_live_frame [simp]:
  "hb_live (s\<lparr>hb_call := x\<rparr>) = hb_live s" "hb_live (s\<lparr>hb_gone := y\<rparr>) = hb_live s"
  "hb_live (s\<lparr>hb_registered := r\<rparr>) = hb_live s" "hb_live (s\<lparr>hb_current := c\<rparr>) = hb_live s"
  by (simp_all add: hb_live_def)

lemma hb_cancel_phase [simp]: "ca_phase (hb_cancelers (hb_cancel i s) ! j) = ca_phase (hb_cancelers s ! j)"
proof (cases "i < length (hb_cancelers s)")
  case True
  then show ?thesis by (simp add: hb_cancel_def nth_list_update)
next
  case False
  then show ?thesis by (simp add: hb_cancel_def list_update_beyond)
qed

lemma hb_cancel_simps [simp]:
  "length (hb_cancelers (hb_cancel i s)) = length (hb_cancelers s)"
  "hb_current (hb_cancel i s) = hb_current s" "hb_registered (hb_cancel i s) = hb_registered s"
  "hb_gone (hb_cancel i s) = hb_gone s"
  by (simp_all add: hb_cancel_def)

lemma hb_set_phase_simps [simp]:
  "length (hb_cancelers (hb_set_phase i ph s)) = length (hb_cancelers s)"
  "i < length (hb_cancelers s) \<Longrightarrow>
     ca_phase (hb_cancelers (hb_set_phase i ph s) ! j) = (if j = i then ph else ca_phase (hb_cancelers s ! j))"
  "hb_current (hb_set_phase i ph s) = hb_current s" "hb_call (hb_set_phase i ph s) = hb_call s"
  "hb_gone (hb_set_phase i ph s) = hb_gone s"
  by (simp_all add: hb_set_phase_def)

lemma hb_live_cancel [simp]: "hb_live (hb_cancel i s) = hb_live s"
  by (simp add: hb_live_def)

lemma hb_live_done: "i < length (hb_cancelers s) \<Longrightarrow> hb_live (hb_set_phase i HbDone s) = hb_live s - {i}"
  by (auto simp: hb_live_def)

lemma hb_live_beating: "i \<in> hb_live s \<Longrightarrow> hb_live (hb_set_phase i HbBeating s) = hb_live s"
  by (auto simp: hb_live_def)

lemma hb_inv_prepare:
  assumes "hb_live s = {}" and "hb_gone s' = False" and "hb_cancelers s' = hb_cancelers (hb_prepare s)"
    and "hb_current s' = hb_current (hb_prepare s)" and "hb_call s' = hb_call (hb_prepare s)"
  shows "hb_inv s'"
proof -
  have "hb_live s' = {length (hb_cancelers s)}"
    using assms(1,3) by (auto simp: hb_live_def hb_prepare_def nth_append less_Suc_eq split: if_splits)
  then show ?thesis using assms(2-5) by (simp add: hb_inv_def hb_prepare_def)
qed

lemma hb_inv_done:
  assumes "hb_inv s" and "ca_phase (hb_cancelers s ! i) = HbBeating" and "i < length (hb_cancelers s)"
  shows "hb_inv ((hb_set_phase i HbDone s)\<lparr>hb_registered := r\<rparr>)"
proof -
  have "i \<in> hb_live s" using assms(2,3) by (simp add: hb_live_def)
  with assms show ?thesis by (auto simp: hb_inv_def hb_live_done split: hb_call.splits)
qed

lemma hb_inv_step: "hb_step s s' \<Longrightarrow> hb_inv s \<Longrightarrow> hb_inv s'"
proof (induction rule: hb_step.induct)
  case (register_first s)
  then have "hb_live s = {}" by (simp add: hb_inv_def)
  then show ?case by (rule hb_inv_prepare) (simp_all add: hb_prepare_def)
next
  case (register_again s i)
  then show ?case by (simp add: hb_inv_def)
next
  case (register_waited s i)
  then have "i \<notin> hb_live s" by (simp add: hb_live_def)
  with register_waited have "hb_live s = {}" "\<not> hb_gone s" by (auto simp: hb_inv_def)
  then show ?case by (intro hb_inv_prepare) (simp_all add: hb_prepare_def)
next
  case (register_ok s i)
  then have i: "i < length (hb_cancelers s)" "i \<in> hb_live s" by (simp_all add: hb_inv_def hb_live_def)
  with register_ok show ?case by (auto simp: hb_inv_def hb_live_beating)
next
  case (register_fails s i)
  then have i: "i < length (hb_cancelers s)" "i \<in> hb_live s" by (simp_all add: hb_inv_def hb_live_def)
  with register_fails show ?case by (auto simp: hb_inv_def hb_live_done)
next
  case (beat i s r)
  then have "i \<in> hb_live s" by (simp add: hb_live_def)
  with beat show ?case by (auto simp: hb_inv_def split: hb_call.splits)
next
  case (beat_ends i s r)
  then show ?case by (intro hb_inv_done)
next
  case (expires s)
  then show ?case by (simp add: hb_inv_def split: hb_call.splits)
next
  case (forget s i)
  then have "i \<notin> hb_live s" by (simp add: hb_live_def)
  with forget have "hb_live s = {}" by (auto simp: hb_inv_def)
  with forget show ?case by (auto simp: hb_inv_def split: hb_call.splits)
next
  case (deregister_first s)
  then show ?case by (simp add: hb_inv_def)
next
  case (deregister_waits s i)
  then show ?case by (simp add: hb_inv_def)
next
  case (deregister_waited s i)
  then have "i \<notin> hb_live s" by (simp add: hb_live_def)
  with deregister_waited show ?case by (auto simp: hb_inv_def)
next
  case (deregister_ok s)
  then show ?case by (simp add: hb_inv_def)
next
  case (deregister_fails s)
  then show ?case by (simp add: hb_inv_def)
qed

lemma hb_inv_init: "hb_inv hb_init"
  by (simp add: hb_init_def hb_inv_def hb_live_def)

lemma hb_inv_reach: "hb_reach s \<Longrightarrow> hb_inv s"
  by (induction rule: hb_reach.induct) (blast intro: hb_inv_init hb_inv_step)+

section \<open>Registrations read back\<close>

lemma update_new_key: "k \<notin> fst ` set xs \<Longrightarrow> AList.update k v xs = xs @ [(k, v)]"
  by (induction xs) auto

lemma registration_addresses_distinct:
  assumes "registration_addresses parse es addrs checks = Inr (addrs', checks')"
    and "distinct (map (\<lambda>e. case parse e of Inr u \<Rightarrow> hu_Scheme u | Inl _ \<Rightarrow> []) es)"
    and "fst ` set addrs \<inter> set (map (\<lambda>e. case parse e of Inr u \<Rightarrow> hu_Scheme u | Inl _ \<Rightarrow> []) es) = {}"
  shows "\<exists>new. addrs' = addrs @ new \<and> map (\<lambda>(scheme, addr, p). addr) new = es \<and>
           map fst new = map (\<lambda>e. case parse e of Inr u \<Rightarrow> hu_Scheme u | Inl _ \<Rightarrow> []) es"
  using assms
proof (induction es arbitrary: addrs checks)
  case (Cons e es)
  then obtain u where u: "parse e = Inr u" by (auto split: sum.splits)
  let ?new = "(hu_Scheme u, e, int (ParseUint_lax 16 (hu_Port u)))"
  have upd: "AList.update (hu_Scheme u) (e, int (ParseUint_lax 16 (hu_Port u))) addrs = addrs @ [?new]"
    using Cons.prems(3) u by (intro update_new_key) auto
  have step: "registration_addresses parse es (addrs @ [?new])
      (checks @ [JoinHostPort (hu_Hostname u) (fmt_nat (ParseUint_lax 16 (hu_Port u)))]) = Inr (addrs', checks')"
    using Cons.prems(1) u upd by (simp add: Let_def)
  have dis: "fst ` set (addrs @ [?new]) \<inter> set (map (\<lambda>e. case parse e of Inr u \<Rightarrow> hu_Scheme u | Inl _ \<Rightarrow> []) es) = {}"
    using Cons.prems(2,3) u by auto
  have "distinct (map (\<lambda>e. case parse e of Inr u \<Rightarrow> hu_Scheme u | Inl _ \<Rightarrow> []) es)" using Cons.prems(2) by simp
  from Cons.IH [OF step this dis] obtain new where "addrs' = (addrs @ [?new]) @ new" "map (\<lambda>(scheme, addr, p). addr) new = es"
      "map fst new = map (\<lambda>e. case parse e of Inr u \<Rightarrow> hu_Scheme u | Inl _ \<Rightarrow> []) es"
    by blast
  then show ?case by (intro exI [of _ "?new # new"]) (simp add: u)
qed simp

lemma mset_addresses:
  "mset xs = mset ys \<Longrightarrow>
   mset (map (\<lambda>(scheme, addr, p). addr) (filter P xs)) = mset (map (\<lambda>(scheme, addr, p). addr) (filter P ys))"
  by (metis mset_filter mset_map)

section \<open>Properties\<close>

text \<open>
  What a service registers is what its clients resolve, but for its version. An instance whose
  endpoints have different schemes is read back with its id, name, metadata and all of its endpoints,
  in whatever order the agent's map is ranged over; its version, though, is that of the client's tags,
  since the registration leaves out the version tag: it is empty unless a tag of the client sets it.
\<close>

theorem registration_read_back:
  assumes "buildRegistration parse c svc = Inr (asr, checks)"
    and "distinct (map (\<lambda>e. case parse e of Inr u \<Rightarrow> hu_Scheme u | Inl _ \<Rightarrow> []) (si_Endpoints svc))"
    and "\<forall>e \<in> set (si_Endpoints svc). \<forall>u. parse e = Inr u \<longrightarrow> hu_Scheme u \<notin> set EndpointSchemes"
    and "mset tagged = mset (as_TaggedAddresses asr)" and "si_Endpoints svc \<noteq> []"
  shows "\<exists>s. defaultResolver [(entry_of (applyChecks c asr svc checks health))\<lparr>se_TaggedAddresses := tagged\<rparr>] = [s] \<and>
           si_Id s = si_Id svc \<and> si_Name s = si_Name svc \<and> si_Metadata s = si_Metadata svc \<and>
           mset (si_Endpoints s) = mset (si_Endpoints svc) \<and> si_Version s = versionBuilder (cl_tags c)"
proof -
  let ?scheme = "\<lambda>e. case parse e of Inr u \<Rightarrow> hu_Scheme u | Inl _ \<Rightarrow> []"
  obtain addrs where ra: "registration_addresses parse (si_Endpoints svc) [] [] = Inr (addrs, checks)"
    and asr: "as_TaggedAddresses asr = addrs" "as_ID asr = si_Id svc" "as_Name asr = si_Name svc"
      "as_Meta asr = si_Metadata svc" "as_Tags asr = cl_tags c"
    using assms(1) by (auto simp: buildRegistration_def Let_def split: sum.splits prod.splits)
  from registration_addresses_distinct [OF ra assms(2)]
  have addrs: "map (\<lambda>(scheme, addr, p). addr) addrs = si_Endpoints svc" "map fst addrs = map ?scheme (si_Endpoints svc)"
    by auto
  have "scheme \<notin> set EndpointSchemes" if "(scheme, addr, p) \<in> set addrs" for scheme addr p
  proof -
    have "scheme \<in> set (map ?scheme (si_Endpoints svc))" using that addrs(2) by (metis fst_conv image_eqI set_map)
    then show ?thesis using assms(3) by (auto simp: EndpointSchemes_def split: sum.splits)
  qed
  then have "filter (\<lambda>(scheme, addr, p). scheme \<notin> set EndpointSchemes) addrs = addrs"
    by (auto simp: filter_id_conv)
  then have ms: "mset (map (\<lambda>(scheme, addr, p). addr) (filter (\<lambda>(scheme, addr, p). scheme \<notin> set EndpointSchemes) tagged))
      = mset (si_Endpoints svc)"
    using mset_addresses [OF assms(4) [unfolded asr(1)]] addrs(1) by metis
  then have "map (\<lambda>(scheme, addr, p). addr) (filter (\<lambda>(scheme, addr, p). scheme \<notin> set EndpointSchemes) tagged) \<noteq> []"
    using assms(5) by (metis mset_zero_iff)
  then have "mset (grpcEndpointsBuilder tagged address port) = mset (si_Endpoints svc)" for address port
    using ms by (simp add: grpcEndpointsBuilder_def)
  then show ?thesis using asr by (simp add: defaultResolver_def entry_of_def applyChecks_def)
qed

theorem registration_read_back_witness:
  "\<exists>s. defaultResolver [entry_of (applyChecks
       \<lparr>cl_dc = SingleDatacenter, cl_resolver = defaultResolver, cl_healthCheckInterval = 10, cl_heartbeat = True,
        cl_deregisterCriticalServiceAfter = 600, cl_serviceChecks = [], cl_tags = []\<rparr>
       \<lparr>as_ID = ''id'', as_Name = ''svc'', as_Meta = None, as_Tags = [],
        as_TaggedAddresses = [(''grpc'', ''grpc://h:1'', 0)], as_Address = ''h'', as_Port = 0, as_Checks = []\<rparr>
       \<lparr>si_Id = ''id'', si_Name = ''svc'', si_Version = ''1.0'', si_Metadata = None, si_Endpoints = [''grpc://h:1'']\<rparr>
       [''h:0''] True)] = [s] \<and> si_Version s = [] \<and> mset (si_Endpoints s) = {#''grpc://h:1''#}"
proof -
  let ?c = "\<lparr>cl_dc = SingleDatacenter, cl_resolver = defaultResolver, cl_healthCheckInterval = 10, cl_heartbeat = True,
        cl_deregisterCriticalServiceAfter = 600, cl_serviceChecks = [], cl_tags = []\<rparr>"
  let ?svc = "\<lparr>si_Id = ''id'', si_Name = ''svc'', si_Version = ''1.0'', si_Metadata = None, si_Endpoints = [''grpc://h:1'']\<rparr>"
  let ?parse = "\<lambda>_. Inr \<lparr>hu_Scheme = ''grpc'', hu_Hostname = ''h'', hu_Port = []\<rparr> :: string + host_url"
  let ?asr = "\<lparr>as_ID = ''id'', as_Name = ''svc'', as_Meta = None, as_Tags = [],
        as_TaggedAddresses = [(''grpc'', ''grpc://h:1'', 0)], as_Address = ''h'', as_Port = 0, as_Checks = []\<rparr>"
  have zero: "fmt_nat 0 = ''0''" by (simp add: fmt_nat.simps digit_char_0)
  have reg: "buildRegistration ?parse ?c ?svc = Inr (?asr, [''h:0''])"
    by (simp add: buildRegistration_def ParseUint_lax_def all_digits_def JoinHostPort_def zero SplitHostPort_def
        last_index_def Let_def digits_val_def is_digit_def digit_val_def)
  have "(entry_of (applyChecks ?c ?asr ?svc [''h:0''] True))\<lparr>se_TaggedAddresses := [(''grpc'', ''grpc://h:1'', 0)]\<rparr>
      = entry_of (applyChecks ?c ?asr ?svc [''h:0''] True)"
    by (simp add: entry_of_def applyChecks_def)
  with registration_read_back [OF reg, of "[(''grpc'', ''grpc://h:1'', 0)]" True] show ?thesis
    by (auto simp: EndpointSchemes_def versionBuilder_def)
qed



end
