(* ===== verification/Consul_Registry.thy ===== *)
theory Consul_Registry
  imports Consul_Client
begin

text \<open>
  \<^verbatim>\<open>src/infra/discovery/consul\<close>: \<^verbatim>\<open>registry.go\<close>, \<^verbatim>\<open>service.go\<close>, \<^verbatim>\<open>watcher.go\<close>, \<^verbatim>\<open>registry_options.go\<close>, \<^verbatim>\<open>init.go\<close> and
  \<^verbatim>\<open>discovery/generic_options.go\<close>: the registry of service sets, the watchers of a service, and how
  changes reach them.

  The code guards the registry and each set with a lock of its own, and a method takes them one after
  the other. A step of the model is what happens under one lock, or one access to an atomic value or a
  channel, so that calls interleave as they may in the code.
\<close>

section \<open>Configuration\<close>

record registry_config =
  rg_client :: consul_client
  rg_enableHealthCheck :: bool
  rg_timeout :: duration

datatype registry_option =
    RoHealthCheck bool | RoTimeout duration | RoDatacenter string | RoHeartbeat bool | RoHealthCheckInterval int
  | RoDeregisterCriticalServiceAfter int | RoTags "string list"
  | RoServiceResolver "service_entry list \<Rightarrow> service_instance list" | RoServiceChecks "agent_check list"

definition WithServiceResolver :: "(service_entry list \<Rightarrow> service_instance list) \<Rightarrow> registry_config \<Rightarrow> registry_config" where
  "WithServiceResolver fn r = r\<lparr>rg_client := (rg_client r)\<lparr>cl_resolver := fn\<rparr>\<rparr>"

definition WithServiceChecks :: "agent_check list \<Rightarrow> registry_config \<Rightarrow> registry_config" where
  "WithServiceChecks checks r = r\<lparr>rg_client := (rg_client r)\<lparr>cl_serviceChecks := checks\<rparr>\<rparr>"

fun registry_Set :: "registry_option \<Rightarrow> registry_config \<Rightarrow> registry_config" where
  "registry_Set (RoHealthCheck v) r = r\<lparr>rg_enableHealthCheck := v\<rparr>"
| "registry_Set (RoTimeout d) r = r\<lparr>rg_timeout := d\<rparr>"
| "registry_Set (RoDatacenter dc) r =
     r\<lparr>rg_client := (rg_client r)\<lparr>cl_dc := (if dc = SingleDatacenter \<or> dc = MultiDataCenter then dc else SingleDatacenter)\<rparr>\<rparr>"
| "registry_Set (RoHeartbeat v) r = r\<lparr>rg_client := (rg_client r)\<lparr>cl_heartbeat := v\<rparr>\<rparr>"
| "registry_Set (RoHealthCheckInterval i) r = r\<lparr>rg_client := (rg_client r)\<lparr>cl_healthCheckInterval := i\<rparr>\<rparr>"
| "registry_Set (RoDeregisterCriticalServiceAfter i) r =
     r\<lparr>rg_client := (rg_client r)\<lparr>cl_deregisterCriticalServiceAfter := i\<rparr>\<rparr>"
| "registry_Set (RoTags tags) r = r\<lparr>rg_client := (rg_client r)\<lparr>cl_tags := tags\<rparr>\<rparr>"
| "registry_Set (RoServiceResolver fn) r = WithServiceResolver fn r"
| "registry_Set (RoServiceChecks cs) r = WithServiceChecks cs r"

text \<open>\<open>agent\<close> is the error of the agent when it is asked for its name.\<close>

definition NewConsulRegistry :: "string option \<Rightarrow> string + registry_config" where
  "NewConsulRegistry agent =
     (case agent of
        Some e \<Rightarrow> Inl e
      | None \<Rightarrow>
          Inr \<lparr>rg_client = \<lparr>cl_dc = SingleDatacenter, cl_resolver = defaultResolver, cl_healthCheckInterval = 10,
                            cl_heartbeat = True, cl_deregisterCriticalServiceAfter = 600, cl_serviceChecks = [],
                            cl_tags = []\<rparr>,
               rg_enableHealthCheck = True, rg_timeout = 10 * 1000000000\<rparr>)"

text \<open>The provider that \<^verbatim>\<open>init\<close> registers: the options apply in order.\<close>

definition consul_provider :: "string option \<Rightarrow> (registry_option, registry_config) provider_factory" where
  "consul_provider agent address options =
     (case NewConsulRegistry agent of Inl e \<Rightarrow> Inl e | Inr r \<Rightarrow> Inr (fold registry_Set options r))"

lemma CreateProvider_consul:
  "CreateProvider (factory_Register ''consul'' (consul_provider None) NewFactory) ''consul'' addr [RoDatacenter dc] =
     Inr r \<Longrightarrow> cl_dc (rg_client r) \<in> {SingleDatacenter, MultiDataCenter}"
  by (auto simp: CreateProvider_def factory_Register_def consul_provider_def NewConsulRegistry_def)

section \<open>Sets and watchers\<close>

record service_set =
  ss_name :: string
  ss_ref :: int
  ss_services :: "service_instance list option"
  ss_cancelled :: bool
  ss_watchers :: "nat set"

text \<open>
  A watcher is attached when it is in its set, ready when \<^verbatim>\<open>GetWatcher\<close> has returned it, and loading when a
  \<^verbatim>\<open>Next\<close> has taken its event and not yet read the services. \<open>wt_seen\<close> is what its last \<^verbatim>\<open>Next\<close> returned.
\<close>

datatype watcher_phase = WtAttached | WtReady | WtLoading

record watcher =
  wt_set :: nat
  wt_event :: bool
  wt_stopped :: bool
  wt_phase :: watcher_phase
  wt_seen :: "service_instance list option"

text \<open>
  \<open>rs_acquired\<close>: sets that a \<^verbatim>\<open>GetWatcher\<close> has counted and not yet attached its watcher to; \<open>rs_released\<close>: sets
  that a \<^verbatim>\<open>Stop\<close> has taken its watcher from and not yet uncounted; \<open>rs_storing\<close>: sets whose \<^verbatim>\<open>broadcast\<close> has
  stored the services and not yet signalled.
\<close>

record reg_sys =
  rs_names :: "string \<rightharpoonup> nat"
  rs_nsets :: nat
  rs_sets :: "nat \<Rightarrow> service_set"
  rs_nwatchers :: nat
  rs_watchers :: "nat \<Rightarrow> watcher"
  rs_acquired :: "nat list"
  rs_released :: "nat list"
  rs_storing :: "nat list"

section \<open>Operations\<close>

text \<open>The part of \<^verbatim>\<open>GetWatcher\<close> under the registry's lock: the set, and whether it was there.\<close>

definition acquire :: "string \<Rightarrow> reg_sys \<Rightarrow> (nat \<times> bool) \<times> reg_sys" where
  "acquire name s =
     (case rs_names s name of
        Some i \<Rightarrow>
          ((i, True), s\<lparr>rs_sets := (rs_sets s)(i := (rs_sets s i)\<lparr>ss_ref := ss_ref (rs_sets s i) + 1\<rparr>),
                        rs_acquired := rs_acquired s @ [i]\<rparr>)
      | None \<Rightarrow>
          (let i = rs_nsets s;
               ss = \<lparr>ss_name = name, ss_ref = 1, ss_services = None, ss_cancelled = False, ss_watchers = {}\<rparr>
           in ((i, False), s\<lparr>rs_names := (rs_names s)(name \<mapsto> i), rs_nsets := Suc i, rs_sets := (rs_sets s)(i := ss),
                             rs_acquired := rs_acquired s @ [i]\<rparr>)))"

text \<open>The watcher of an acquired set (the lists are what is acquired before and after it).\<close>

definition attach :: "nat list \<Rightarrow> nat \<Rightarrow> nat list \<Rightarrow> reg_sys \<Rightarrow> nat \<times> reg_sys" where
  "attach xs i ys s =
     (let w = rs_nwatchers s
      in (w, s\<lparr>rs_nwatchers := Suc w,
               rs_watchers := (rs_watchers s)(w := \<lparr>wt_set = i, wt_event = False, wt_stopped = False,
                                                    wt_phase = WtAttached, wt_seen = None\<rparr>),
               rs_sets := (rs_sets s)(i := (rs_sets s i)\<lparr>ss_watchers := insert w (ss_watchers (rs_sets s i))\<rparr>),
               rs_acquired := xs @ ys\<rparr>))"

definition prime :: "nat \<Rightarrow> reg_sys \<Rightarrow> reg_sys" where
  "prime w s =
     (let x = rs_watchers s w;
          there = (case ss_services (rs_sets s (wt_set x)) of Some (_ # _) \<Rightarrow> True | _ \<Rightarrow> False)
      in s\<lparr>rs_watchers := (rs_watchers s)(w := x\<lparr>wt_phase := WtReady, wt_event := (wt_event x \<or> there)\<rparr>)\<rparr>)"

text \<open>\<^verbatim>\<open>broadcast\<close> in its two parts.\<close>

definition store :: "nat \<Rightarrow> service_instance list \<Rightarrow> reg_sys \<Rightarrow> reg_sys" where
  "store i si s =
     s\<lparr>rs_sets := (rs_sets s)(i := (rs_sets s i)\<lparr>ss_services := Some si\<rparr>), rs_storing := rs_storing s @ [i]\<rparr>"

definition signal_all :: "nat list \<Rightarrow> nat \<Rightarrow> nat list \<Rightarrow> reg_sys \<Rightarrow> reg_sys" where
  "signal_all xs i ys s =
     s\<lparr>rs_watchers := (\<lambda>w. if w \<in> ss_watchers (rs_sets s i) then (rs_watchers s w)\<lparr>wt_event := True\<rparr> else rs_watchers s w),
       rs_storing := xs @ ys\<rparr>"

text \<open>\<^verbatim>\<open>Next\<close> in its two parts, and what it returns: a copy of the services.\<close>

definition next_event :: "nat \<Rightarrow> reg_sys \<Rightarrow> reg_sys" where
  "next_event w s = s\<lparr>rs_watchers := (rs_watchers s)(w := (rs_watchers s w)\<lparr>wt_event := False, wt_phase := WtLoading\<rparr>)\<rparr>"

definition next_load :: "nat \<Rightarrow> reg_sys \<Rightarrow> service_instance list \<times> reg_sys" where
  "next_load w s =
     (let cur = ss_services (rs_sets s (wt_set (rs_watchers s w)))
      in (case cur of Some ss \<Rightarrow> ss | None \<Rightarrow> [],
          s\<lparr>rs_watchers := (rs_watchers s)(w := (rs_watchers s w)\<lparr>wt_phase := WtReady, wt_seen := cur\<rparr>)\<rparr>))"

text \<open>\<^verbatim>\<open>Stop\<close> up to the set's lock, and \<^verbatim>\<open>tryDelete\<close>.\<close>

definition stop_watcher :: "nat \<Rightarrow> reg_sys \<Rightarrow> reg_sys" where
  "stop_watcher w s =
     (let i = wt_set (rs_watchers s w)
      in s\<lparr>rs_watchers := (rs_watchers s)(w := (rs_watchers s w)\<lparr>wt_stopped := True\<rparr>),
           rs_sets := (rs_sets s)(i := (rs_sets s i)\<lparr>ss_watchers := ss_watchers (rs_sets s i) - {w}\<rparr>),
           rs_released := rs_released s @ [i]\<rparr>)"

definition tryDelete :: "nat list \<Rightarrow> nat \<Rightarrow> nat list \<Rightarrow> reg_sys \<Rightarrow> bool \<times> reg_sys" where
  "tryDelete xs i ys s =
     (let ss = (rs_sets s i)\<lparr>ss_ref := ss_ref (rs_sets s i) - 1\<rparr>;
          s1 = s\<lparr>rs_sets := (rs_sets s)(i := ss), rs_released := xs @ ys\<rparr>
      in if ss_ref ss \<noteq> 0 then (False, s1)
         else (True, s1\<lparr>rs_sets := (rs_sets s1)(i := ss\<lparr>ss_cancelled := True\<rparr>),
                        rs_names := (rs_names s1)(ss_name ss := None)\<rparr>))"

text \<open>
  The calls as a whole, run without another in between. \<open>err\<close> is the error of the context and \<open>first\<close> the answer of
  Consul to the first question, which only a call that makes the set asks. The result is the watcher.
\<close>

definition broadcast :: "nat \<Rightarrow> service_instance list \<Rightarrow> reg_sys \<Rightarrow> reg_sys" where
  "broadcast i si s = signal_all (rs_storing s) i [] (store i si s)"

definition GetWatcher ::
    "string option \<Rightarrow> (string + service_instance list \<times> nat) \<Rightarrow> string \<Rightarrow> reg_sys \<Rightarrow> (string + nat) \<times> reg_sys" where
  "GetWatcher err first name s =
     (case err of
        Some e \<Rightarrow> (Inl e, s)
      | None \<Rightarrow>
          (let ((i, ok), s1) = acquire name s;
               (w, s2) = attach (rs_acquired s) i [] s1;
               s3 = prime w s2
           in if ok then (Inr w, s3)
              else (case first of
                      Inl e \<Rightarrow> (Inl e, s3)
                    | Inr (services, _) \<Rightarrow> (Inr w, if services \<noteq> [] then broadcast i services s3 else s3))))"

definition watcher_Stop :: "nat \<Rightarrow> reg_sys \<Rightarrow> reg_sys" where
  "watcher_Stop w s =
     (if wt_stopped (rs_watchers s w) then s
      else snd (tryDelete (rs_released s) (wt_set (rs_watchers s w)) [] (stop_watcher w s)))"

text \<open>\<open>remote\<close> is the answer of Consul to a query for the service.\<close>

definition registry_GetService ::
    "reg_sys \<Rightarrow> (string + service_instance list \<times> nat) \<Rightarrow> string \<Rightarrow> string + service_instance list" where
  "registry_GetService s remote serviceName =
     (let getRemote = (case remote of Inr (ss, _) \<Rightarrow> ss | Inl _ \<Rightarrow> []);
          local = (case rs_names s serviceName of Some i \<Rightarrow> ss_services (rs_sets s i) | None \<Rightarrow> None)
      in case local of
           Some ss \<Rightarrow> Inr ss
         | None \<Rightarrow>
             if getRemote \<noteq> [] then Inr getRemote
             else Inl (''service '' @ serviceName @ '' not resolved in registry''))"

definition ListServices :: "reg_sys \<Rightarrow> string \<rightharpoonup> service_instance list" where
  "ListServices s name = (case rs_names s name of Some i \<Rightarrow> ss_services (rs_sets s i) | None \<Rightarrow> None)"

text \<open>
  The loop that follows a service: for each answer of Consul, whether to broadcast it and the index to
  ask with next. An error changes nothing but the time of the next question.
\<close>

definition watch_answer :: "nat \<Rightarrow> (string + service_instance list \<times> nat) \<Rightarrow> nat \<times> service_instance list option" where
  "watch_answer lastIndex ans =
     (case ans of
        Inl _ \<Rightarrow> (lastIndex, None)
      | Inr (services, index) \<Rightarrow> (index, if services \<noteq> [] \<and> index \<noteq> lastIndex then Some services else None))"

fun watchServiceChange :: "nat \<Rightarrow> (string + service_instance list \<times> nat) list \<Rightarrow> service_instance list list" where
  "watchServiceChange lastIndex [] = []"
| "watchServiceChange lastIndex (ans # rest) =
     (case watch_answer lastIndex ans of
        (index, Some services) \<Rightarrow> services # watchServiceChange index rest
      | (index, None) \<Rightarrow> watchServiceChange index rest)"

text \<open>The first question of \<^verbatim>\<open>resolve\<close> and the broadcasts that follow it.\<close>

definition resolve ::
    "(string + service_instance list \<times> nat) \<Rightarrow> (string + service_instance list \<times> nat) list \<Rightarrow>
     string + service_instance list list" where
  "resolve first rest =
     (case first of
        Inl e \<Rightarrow> Inl e
      | Inr (services, index) \<Rightarrow>
          Inr ((if services \<noteq> [] then [services] else []) @ watchServiceChange index rest))"

section \<open>Interleavings\<close>

inductive reg_step :: "reg_sys \<Rightarrow> reg_sys \<Rightarrow> bool" where
  acquires: "acquire name s = (r, s') \<Longrightarrow> reg_step s s'"
| attaches: "rs_acquired s = xs @ i # ys \<Longrightarrow> attach xs i ys s = (w, s') \<Longrightarrow> reg_step s s'"
| primes: "w < rs_nwatchers s \<Longrightarrow> wt_phase (rs_watchers s w) = WtAttached \<Longrightarrow> reg_step s (prime w s)"
| stores: "i < rs_nsets s \<Longrightarrow> si \<noteq> [] \<Longrightarrow> reg_step s (store i si s)"
| signals: "rs_storing s = xs @ i # ys \<Longrightarrow> reg_step s (signal_all xs i ys s)"
| takes: "w < rs_nwatchers s \<Longrightarrow> wt_phase (rs_watchers s w) = WtReady \<Longrightarrow> wt_event (rs_watchers s w) \<Longrightarrow>
    reg_step s (next_event w s)"
| loads: "w < rs_nwatchers s \<Longrightarrow> wt_phase (rs_watchers s w) = WtLoading \<Longrightarrow> next_load w s = (r, s') \<Longrightarrow> reg_step s s'"
| stops: "w < rs_nwatchers s \<Longrightarrow> wt_phase (rs_watchers s w) \<noteq> WtAttached \<Longrightarrow> \<not> wt_stopped (rs_watchers s w) \<Longrightarrow>
    reg_step s (stop_watcher w s)"
| deletes: "rs_released s = xs @ i # ys \<Longrightarrow> tryDelete xs i ys s = (r, s') \<Longrightarrow> reg_step s s'"

definition reg_init :: "(nat \<Rightarrow> service_set) \<Rightarrow> (nat \<Rightarrow> watcher) \<Rightarrow> reg_sys" where
  "reg_init ss ws =
     \<lparr>rs_names = Map.empty, rs_nsets = 0, rs_sets = ss, rs_nwatchers = 0, rs_watchers = ws,
      rs_acquired = [], rs_released = [], rs_storing = []\<rparr>"

inductive reg_reach :: "reg_sys \<Rightarrow> bool" where
  start: "reg_reach (reg_init ss ws)"
| step: "reg_reach s \<Longrightarrow> reg_step s s' \<Longrightarrow> reg_reach s'"

section \<open>Invariants\<close>

text \<open>The watchers of a set are those that were attached to it and not stopped.\<close>

definition reg_members :: "reg_sys \<Rightarrow> bool" where
  "reg_members s \<longleftrightarrow>
     (\<forall>i < rs_nsets s. ss_watchers (rs_sets s i) =
        {w. w < rs_nwatchers s \<and> wt_set (rs_watchers s w) = i \<and> \<not> wt_stopped (rs_watchers s w)}) \<and>
     (\<forall>w < rs_nwatchers s. wt_set (rs_watchers s w) < rs_nsets s) \<and>
     set (rs_acquired s) \<union> set (rs_released s) \<union> set (rs_storing s) \<subseteq> {..<rs_nsets s}"

text \<open>The count of a set is that of its watchers and of the calls that have yet to attach or to uncount one.\<close>

definition reg_refs :: "reg_sys \<Rightarrow> bool" where
  "reg_refs s \<longleftrightarrow>
     (\<forall>i < rs_nsets s. ss_ref (rs_sets s i) =
        int (card (ss_watchers (rs_sets s i)) + count_list (rs_acquired s) i + count_list (rs_released s) i))"

text \<open>The sets in the registry are exactly those that are counted, each under its name; the others are cancelled.\<close>

definition reg_named :: "reg_sys \<Rightarrow> bool" where
  "reg_named s \<longleftrightarrow>
     (\<forall>name i. rs_names s name = Some i \<longleftrightarrow> i < rs_nsets s \<and> ss_name (rs_sets s i) = name \<and> 0 < ss_ref (rs_sets s i)) \<and>
     (\<forall>i < rs_nsets s. ss_cancelled (rs_sets s i) \<longleftrightarrow> ss_ref (rs_sets s i) = 0)"

text \<open>A watcher that waits without an event has seen the services of its set, unless a signal is on its way.\<close>

definition fresh_watcher :: "reg_sys \<Rightarrow> nat \<Rightarrow> bool" where
  "fresh_watcher s w \<longleftrightarrow>
     wt_stopped (rs_watchers s w) \<or> wt_event (rs_watchers s w) \<or> wt_phase (rs_watchers s w) = WtLoading \<or>
     (wt_phase (rs_watchers s w) = WtAttached \<and> wt_seen (rs_watchers s w) = None) \<or>
     (wt_phase (rs_watchers s w) = WtReady \<and>
        (wt_seen (rs_watchers s w) = ss_services (rs_sets s (wt_set (rs_watchers s w))) \<or>
         wt_set (rs_watchers s w) \<in> set (rs_storing s)))"

definition reg_fresh :: "reg_sys \<Rightarrow> bool" where
  "reg_fresh s \<longleftrightarrow>
     (\<forall>i < rs_nsets s. ss_services (rs_sets s i) \<noteq> Some []) \<and> (\<forall>w < rs_nwatchers s. fresh_watcher s w)"

lemmas reg_ops = acquire_def attach_def prime_def store_def signal_all_def next_event_def next_load_def
  stop_watcher_def tryDelete_def Let_def

lemma reg_named_less: "reg_named s \<Longrightarrow> rs_names s name = Some i \<Longrightarrow> i < rs_nsets s"
  by (simp add: reg_named_def)

text \<open>What a step does to the set and the lists that an acquisition touches.\<close>

lemma acquire_cases:
  assumes "acquire name s = (r, s')"
  obtains (old) i where "rs_names s name = Some i"
      "s' = s\<lparr>rs_sets := (rs_sets s)(i := (rs_sets s i)\<lparr>ss_ref := ss_ref (rs_sets s i) + 1\<rparr>), rs_acquired := rs_acquired s @ [i]\<rparr>"
  | (new) "rs_names s name = None"
      "s' = s\<lparr>rs_names := (rs_names s)(name \<mapsto> rs_nsets s), rs_nsets := Suc (rs_nsets s),
              rs_sets := (rs_sets s)(rs_nsets s := \<lparr>ss_name = name, ss_ref = 1, ss_services = None, ss_cancelled = False, ss_watchers = {}\<rparr>),
              rs_acquired := rs_acquired s @ [rs_nsets s]\<rparr>"
  using assms by (auto simp: acquire_def Let_def split: option.splits)

lemma reg_members_step:
  assumes "reg_step s s'" and mem: "reg_members s" and nam: "reg_named s"
  shows "reg_members s'"
  using assms(1)
proof cases
  case (acquires name r)
  from acquires show ?thesis
  proof (cases rule: acquire_cases)
    case (old i)
    have "i < rs_nsets s" by (rule reg_named_less [OF nam old(1)])
    with mem show ?thesis unfolding old(2) by (auto simp: reg_members_def)
  next
    case new
    have "wt_set (rs_watchers s w) \<noteq> rs_nsets s" if "w < rs_nwatchers s" for w
      using mem that by (auto simp: reg_members_def)
    with mem show ?thesis unfolding new(2)
      by (auto simp: reg_members_def less_Suc_eq subset_eq)
  qed
next
  case (attaches xs i ys w)
  with mem show ?thesis
    by (auto simp: reg_members_def reg_ops less_Suc_eq split: if_splits)
next
  case (stops w)
  with mem show ?thesis
    by (auto simp: reg_members_def reg_ops)
next
  case (deletes xs i ys r)
  with mem show ?thesis
    by (auto simp: reg_members_def reg_ops split: if_splits)
qed (use mem in \<open>auto simp: reg_members_def reg_ops split: if_splits\<close>)

lemma reg_watchers_finite: "reg_members s \<Longrightarrow> i < rs_nsets s \<Longrightarrow> finite (ss_watchers (rs_sets s i))"
  by (simp add: reg_members_def)

lemma reg_refs_step:
  assumes "reg_step s s'" and mem: "reg_members s" and nam: "reg_named s" and refs: "reg_refs s"
  shows "reg_refs s'"
  using assms(1)
proof cases
  case (acquires name r)
  from acquires show ?thesis
  proof (cases rule: acquire_cases)
    case (old i)
    with refs show ?thesis unfolding old(2) by (auto simp: reg_refs_def)
  next
    case new
    have "rs_nsets s \<notin> set (rs_acquired s)" "rs_nsets s \<notin> set (rs_released s)"
      using mem by (auto simp: reg_members_def)
    then have "count_list (rs_acquired s) (rs_nsets s) = 0" "count_list (rs_released s) (rs_nsets s) = 0"
      by (simp_all add: count_list_0_iff)
    with refs show ?thesis unfolding new(2) by (auto simp: reg_refs_def less_Suc_eq)
  qed
next
  case (attaches xs i ys w)
  then have i: "i < rs_nsets s" using mem by (auto simp: reg_members_def)
  then have "rs_nwatchers s \<notin> ss_watchers (rs_sets s i)" using mem by (simp add: reg_members_def)
  with attaches refs i reg_watchers_finite [OF mem i] show ?thesis
    by (auto simp: reg_refs_def reg_ops)
next
  case (stops w)
  let ?i = "wt_set (rs_watchers s w)"
  have i: "?i < rs_nsets s" "w \<in> ss_watchers (rs_sets s ?i)" using stops mem by (auto simp: reg_members_def)
  then have "card (ss_watchers (rs_sets s ?i)) = Suc (card (ss_watchers (rs_sets s ?i) - {w}))"
    using reg_watchers_finite [OF mem] by (intro card.remove) simp_all
  then have "ss_ref (rs_sets s j) = int (card (ss_watchers (rs_sets s' j)) + count_list (rs_acquired s') j + count_list (rs_released s') j)"
    if "j < rs_nsets s" for j
    using that refs stops(1) by (cases "j = ?i") (simp_all add: reg_refs_def stop_watcher_def Let_def)
  moreover have "ss_ref (rs_sets s' j) = ss_ref (rs_sets s j)" "rs_nsets s' = rs_nsets s" for j
    using stops(1) by (simp_all add: stop_watcher_def Let_def)
  ultimately show ?thesis by (simp add: reg_refs_def)
next
  case (deletes xs i ys r)
  with refs show ?thesis by (auto simp: reg_refs_def reg_ops split: if_splits)
qed (use refs in \<open>auto simp: reg_refs_def reg_ops\<close>)

lemma reg_named_step:
  assumes "reg_step s s'" and mem: "reg_members s" and nam: "reg_named s" and refs: "reg_refs s"
  shows "reg_named s'"
  using assms(1)
proof cases
  case (acquires name r)
  from acquires show ?thesis
  proof (cases rule: acquire_cases)
    case (old i)
    with nam have "i < rs_nsets s" "0 < ss_ref (rs_sets s i)" by (auto simp: reg_named_def)
    with nam show ?thesis unfolding old(2) by (auto simp: reg_named_def)
  next
    case new
    have none: "\<not> 0 < ss_ref (rs_sets s i)" if "i < rs_nsets s" "ss_name (rs_sets s i) = name" for i
      using nam new(1) that unfolding reg_named_def by (metis option.distinct(1))
    have "rs_names s n \<noteq> Some (rs_nsets s)" for n using nam by (simp add: reg_named_def)
    with nam none show ?thesis unfolding new(2) by (auto simp: reg_named_def less_Suc_eq)
  qed
next
  case (deletes xs i ys r)
  then have i: "i < rs_nsets s" using mem by (auto simp: reg_members_def)
  have "0 < ss_ref (rs_sets s i)" using refs i deletes by (auto simp: reg_refs_def)
  with i nam have name: "rs_names s (ss_name (rs_sets s i)) = Some i" by (auto simp: reg_named_def)
  have uniq: "j = i" if "j < rs_nsets s" "0 < ss_ref (rs_sets s j)" "ss_name (rs_sets s j) = ss_name (rs_sets s i)" for j
    using nam name that unfolding reg_named_def by (metis option.inject)
  from deletes i nam name uniq show ?thesis
    by (auto simp: reg_named_def reg_ops split: if_splits)
qed (use nam in \<open>auto simp: reg_named_def reg_ops\<close>)

lemma fresh_watcher_cong:
  assumes "fresh_watcher s w" "rs_watchers s' w = rs_watchers s w"
    and "ss_services (rs_sets s' (wt_set (rs_watchers s w))) = ss_services (rs_sets s (wt_set (rs_watchers s w)))"
    and "rs_storing s' = rs_storing s"
  shows "fresh_watcher s' w"
  using assms by (simp add: fresh_watcher_def)

lemma reg_freshI:
  assumes "\<And>i. i < rs_nsets s \<Longrightarrow> ss_services (rs_sets s i) \<noteq> Some []"
    and "\<And>w. w < rs_nwatchers s \<Longrightarrow> fresh_watcher s w"
  shows "reg_fresh s"
  using assms by (simp add: reg_fresh_def)

lemma reg_fresh_step:
  assumes "reg_step s s'" and mem: "reg_members s" and nam: "reg_named s" and fresh: "reg_fresh s"
  shows "reg_fresh s'"
proof -
  have svc: "ss_services (rs_sets s i) \<noteq> Some []" if "i < rs_nsets s" for i
    using fresh that by (simp add: reg_fresh_def)
  have fw: "fresh_watcher s w" if "w < rs_nwatchers s" for w
    using fresh that by (simp add: reg_fresh_def)
  have bound: "wt_set (rs_watchers s w) < rs_nsets s" if "w < rs_nwatchers s" for w
    using mem that by (simp add: reg_members_def)
  show ?thesis
    using assms(1)
  proof cases
    case (acquires name r)
    from acquires show ?thesis
    proof (cases rule: acquire_cases)
      case (old i)
      have "fresh_watcher s' w" if "w < rs_nwatchers s" for w
        by (rule fresh_watcher_cong [OF fw [OF that]]) (simp_all add: old(2))
      moreover have "ss_services (rs_sets s' j) = ss_services (rs_sets s j)" for j by (simp add: old(2))
      ultimately show ?thesis using svc by (intro reg_freshI) (simp_all add: old(2))
    next
      case new
      have "fresh_watcher s' w" if "w < rs_nwatchers s" for w
        by (rule fresh_watcher_cong [OF fw [OF that]]) (use bound [OF that] in \<open>simp_all add: new(2)\<close>)
      then show ?thesis using svc by (intro reg_freshI) (auto simp: new(2) less_Suc_eq)
    qed
  next
    case (attaches xs i ys w)
    show ?thesis
    proof (rule reg_freshI)
      fix v assume "v < rs_nwatchers s'"
      with attaches consider "v = rs_nwatchers s" | "v < rs_nwatchers s" by (auto simp: attach_def Let_def less_Suc_eq)
      then show "fresh_watcher s' v"
      proof cases
        case 1
        with attaches(2) show ?thesis by (auto simp: attach_def Let_def fresh_watcher_def)
      next
        case 2
        with attaches(2) show ?thesis by (auto simp: attach_def Let_def intro!: fresh_watcher_cong [OF fw [OF 2]])
      qed
    qed (use attaches svc in \<open>auto simp: attach_def Let_def split: if_splits\<close>)
  next
    case (primes w)
    have "ss_services (rs_sets s (wt_set (rs_watchers s w))) \<noteq> Some []" using bound svc primes by blast
    then have "fresh_watcher s' w"
      using fw [OF primes(2)] primes(1,3)
      by (auto simp: fresh_watcher_def prime_def Let_def split: option.splits list.splits)
    moreover have "fresh_watcher s' v" if "v < rs_nwatchers s" "v \<noteq> w" for v
      using fresh_watcher_cong [OF fw [OF that(1)], of s'] primes(1) that(2) by (simp add: prime_def Let_def)
    ultimately show ?thesis using svc primes(1) by (intro reg_freshI) (auto simp: prime_def Let_def)
  next
    case (stores i si)
    with svc fw show ?thesis
      by (intro reg_freshI) (auto simp: store_def fresh_watcher_def)
  next
    case (signals xs i ys)
    have "v \<in> ss_watchers (rs_sets s i)" if "v < rs_nwatchers s" "\<not> wt_stopped (rs_watchers s v)" "wt_set (rs_watchers s v) = i" for v
      using mem that bound by (auto simp: reg_members_def)
    with signals svc fw show ?thesis
      by (intro reg_freshI) (auto simp: signal_all_def fresh_watcher_def)
  next
    case (takes w)
    with svc fw show ?thesis
      by (intro reg_freshI) (auto simp: next_event_def fresh_watcher_def)
  next
    case (loads w r)
    have "fresh_watcher s' v" if "v < rs_nwatchers s" for v
      using fw [OF that] loads(3) by (cases "v = w") (auto simp: next_load_def Let_def fresh_watcher_def)
    with svc loads(3) show ?thesis by (intro reg_freshI) (auto simp: next_load_def Let_def)
  next
    case (stops w)
    have "fresh_watcher s' v" if "v < rs_nwatchers s" for v
      using fw [OF that] stops(1) by (auto simp: stop_watcher_def Let_def fresh_watcher_def)
    with svc stops(1) show ?thesis by (intro reg_freshI) (auto simp: stop_watcher_def Let_def)
  next
    case (deletes xs i ys r)
    have "fresh_watcher s' v" if "v < rs_nwatchers s" for v
      using fw [OF that] deletes(2) by (auto simp: tryDelete_def Let_def fresh_watcher_def split: if_splits)
    moreover have "rs_nwatchers s' = rs_nwatchers s" "rs_nsets s' = rs_nsets s" "\<And>j. ss_services (rs_sets s' j) = ss_services (rs_sets s j)"
      using deletes(2) by (auto simp: tryDelete_def Let_def split: if_splits)
    ultimately show ?thesis using svc by (intro reg_freshI) auto
  qed
qed

lemma reg_invariants:
  "reg_reach s \<Longrightarrow> reg_members s \<and> reg_refs s \<and> reg_named s \<and> reg_fresh s"
proof (induction rule: reg_reach.induct)
  case (start ss ws)
  show ?case by (simp add: reg_init_def reg_members_def reg_refs_def reg_named_def reg_fresh_def)
next
  case (step s s')
  then show ?case using reg_members_step reg_refs_step reg_named_step reg_fresh_step by blast
qed

section \<open>Whole calls\<close>

lemma GetWatcher_steps: "reg_named s \<Longrightarrow> reg_step\<^sup>*\<^sup>* s (snd (GetWatcher err first name s))"
proof (cases err)
  case None
  assume nam: "reg_named s"
  obtain i ok s1 where acq: "acquire name s = ((i, ok), s1)" by (metis surj_pair)
  obtain w s2 where att: "attach (rs_acquired s) i [] s1 = (w, s2)" by (metis surj_pair)
  have s1: "rs_acquired s1 = rs_acquired s @ [i]" "i < rs_nsets s1"
    using acq reg_named_less [OF nam] by (auto simp: acquire_def Let_def split: option.splits)
  have s2: "w < rs_nwatchers s2" "wt_phase (rs_watchers s2 w) = WtAttached" "rs_nsets s2 = rs_nsets s1"
    using att by (auto simp: attach_def Let_def)
  have 1: "reg_step\<^sup>*\<^sup>* s (prime w s2)"
    using acquires [OF acq] attaches [OF s1(1) att] primes [OF s2(1,2)] by (meson converse_rtranclp_into_rtranclp r_into_rtranclp)
  have 2: "reg_step\<^sup>*\<^sup>* (prime w s2) (broadcast i services (prime w s2))" if "services \<noteq> []" for services
  proof -
    let ?s3 = "prime w s2"
    have "reg_step ?s3 (store i services ?s3)"
      by (rule stores [OF _ that]) (use s1 s2 in \<open>simp add: prime_def Let_def\<close>)
    moreover have "reg_step (store i services ?s3) (broadcast i services ?s3)"
      unfolding broadcast_def by (rule signals) (simp add: store_def)
    ultimately show ?thesis by (meson converse_rtranclp_into_rtranclp r_into_rtranclp)
  qed
  show ?thesis
    using None acq att 1 2 by (auto simp: GetWatcher_def Let_def split: sum.splits intro: rtranclp_trans)
qed (simp add: GetWatcher_def)

lemma watcher_Stop_steps:
  assumes "w < rs_nwatchers s" "wt_phase (rs_watchers s w) \<noteq> WtAttached"
  shows "reg_step\<^sup>*\<^sup>* s (watcher_Stop w s)"
proof (cases "wt_stopped (rs_watchers s w)")
  case False
  let ?i = "wt_set (rs_watchers s w)"
  obtain r s2 where "tryDelete (rs_released s) ?i [] (stop_watcher w s) = (r, s2)" by (metis surj_pair)
  moreover have "rs_released (stop_watcher w s) = rs_released s @ [?i]" by (simp add: stop_watcher_def Let_def)
  ultimately show ?thesis
    using stops [OF assms False] deletes [of "stop_watcher w s" "rs_released s" ?i "[]" r s2] False
    by (auto simp: watcher_Stop_def intro: converse_rtranclp_into_rtranclp)
qed (simp add: watcher_Stop_def)

lemma reg_reach_steps: "reg_step\<^sup>*\<^sup>* s s' \<Longrightarrow> reg_reach s \<Longrightarrow> reg_reach s'"
  by (induction rule: rtranclp_induct) (auto intro: step)

text \<open>
  A first call whose question fails leaves the set in the registry, counted; a later call for the same service finds it and
  succeeds whatever Consul would answer, with a watcher that has no event.
\<close>

lemma GetWatcher_after_failure:
  assumes "rs_names s name = None" and "GetWatcher None (Inl e) name s = (r, s')"
  shows "r = Inl e" "rs_names s' name = Some (rs_nsets s)" "ss_ref (rs_sets s' (rs_nsets s)) = 1"
    "\<exists>s''. GetWatcher None first name s' = (Inr (rs_nwatchers s'), s'') \<and>
       ss_services (rs_sets s'' (rs_nsets s)) = None \<and> \<not> wt_event (rs_watchers s'' (rs_nwatchers s'))"
  using assms by (auto simp: GetWatcher_def acquire_def attach_def prime_def Let_def)

section \<open>Properties\<close>


text \<open>
  C20: No change is lost: a watcher that waits in \<^verbatim>\<open>Next\<close> without an event has already returned the services that its
  set holds now, unless a broadcast has stored them and is still to signal; the signal that follows reaches the
  watcher, and the next \<^verbatim>\<open>Next\<close> returns the services of the set.
\<close>

theorem registry_no_lost_update:
  assumes "reg_reach s" and "w < rs_nwatchers s" and "\<not> wt_stopped (rs_watchers s w)"
    and "wt_phase (rs_watchers s w) = WtReady" and "\<not> wt_event (rs_watchers s w)"
  shows "wt_seen (rs_watchers s w) = ss_services (rs_sets s (wt_set (rs_watchers s w))) \<or>
         (\<exists>xs ys. rs_storing s = xs @ wt_set (rs_watchers s w) # ys \<and>
           (let s' = signal_all xs (wt_set (rs_watchers s w)) ys s
            in reg_step s s' \<and> wt_event (rs_watchers s' w) \<and> reg_step s' (next_event w s') \<and>
               fst (next_load w (next_event w s')) =
                 (case ss_services (rs_sets s (wt_set (rs_watchers s w))) of Some ss \<Rightarrow> ss | None \<Rightarrow> [])))"
proof -
  from reg_invariants [OF assms(1)] have mem: "reg_members s" and fresh: "fresh_watcher s w"
    using assms(2) by (auto simp: reg_fresh_def)
  let ?i = "wt_set (rs_watchers s w)"
  show ?thesis
  proof (cases "wt_seen (rs_watchers s w) = ss_services (rs_sets s ?i)")
    case False
    with fresh assms(3-5) have "?i \<in> set (rs_storing s)" by (auto simp: fresh_watcher_def)
    then obtain xs ys where split: "rs_storing s = xs @ ?i # ys" by (meson split_list)
    let ?s = "signal_all xs ?i ys s"
    have w: "w \<in> ss_watchers (rs_sets s ?i)" using mem assms(2,3) by (auto simp: reg_members_def)
    then have "wt_event (rs_watchers ?s w)" "wt_phase (rs_watchers ?s w) = WtReady" "rs_nwatchers ?s = rs_nwatchers s"
      using assms(4) by (simp_all add: signal_all_def)
    then have "reg_step ?s (next_event w ?s)" using assms(2) by (intro takes) simp_all
    moreover have "fst (next_load w (next_event w ?s)) = (case ss_services (rs_sets s ?i) of Some ss \<Rightarrow> ss | None \<Rightarrow> [])"
      by (simp add: next_load_def next_event_def signal_all_def Let_def)
    ultimately show ?thesis
      using signals [OF split] split \<open>wt_event (rs_watchers ?s w)\<close>
      by (intro disjI2 exI [of _ xs] exI [of _ ys]) (simp add: Let_def)
  qed simp
qed

text \<open>A watcher of a service whose instances have just been stored, and not yet signalled.\<close>

definition sample_store :: "service_instance \<Rightarrow> reg_sys" where
  "sample_store si =
     store 0 [si] (prime 0 (snd (attach [] 0 [] (snd (acquire ''api''
       (reg_init (\<lambda>_. \<lparr>ss_name = [], ss_ref = 0, ss_services = None, ss_cancelled = False, ss_watchers = {}\<rparr>)
                 (\<lambda>_. \<lparr>wt_set = 0, wt_event = False, wt_stopped = False, wt_phase = WtAttached, wt_seen = None\<rparr>)))))))"

lemma sample_store_reach: "reg_reach (sample_store si)"
proof -
  let ?s0 = "reg_init (\<lambda>_. \<lparr>ss_name = [], ss_ref = 0, ss_services = None, ss_cancelled = False, ss_watchers = {}\<rparr>)
                 (\<lambda>_. \<lparr>wt_set = 0, wt_event = False, wt_stopped = False, wt_phase = WtAttached, wt_seen = None\<rparr>)"
  let ?s1 = "snd (acquire ''api'' ?s0)"
  let ?s2 = "snd (attach [] 0 [] ?s1)"
  have "reg_reach ?s1" by (rule step [OF start acquires [of "''api''"]]) (rule surjective_pairing)
  then have "reg_reach ?s2"
    by (rule step [OF _ attaches [of _ "[]" 0 "[]"]]) (simp_all add: acquire_def reg_init_def Let_def prod_eq_iff)
  then have "reg_reach (prime 0 ?s2)"
    by (rule step [OF _ primes]) (simp_all add: acquire_def attach_def reg_init_def Let_def)
  then show ?thesis unfolding sample_store_def
    by (rule step [OF _ stores]) (simp_all add: acquire_def attach_def prime_def reg_init_def Let_def)
qed

lemmas sample_store_eval = sample_store_def reg_init_def acquire_def attach_def prime_def store_def Let_def


theorem registry_no_lost_update_witness:
  "fst (next_load 0 (next_event 0 (signal_all [] 0 [] (sample_store nil_instance)))) =
     [nil_instance]"
  using registry_no_lost_update [OF sample_store_reach, of 0 nil_instance]
  by (simp add: sample_store_eval Cons_eq_append_conv)

end
