(* ===== verification/Kit_Maps.thy ===== *)
theory Kit_Maps
  imports Kit_Prelude "HOL-Library.AList"
begin

text \<open>
  \<^verbatim>\<open>src/pkg/safemap\<close>: the map behind a lock that several components keep their state in, and
  \<^verbatim>\<open>src/pkg/watcher\<close>: observers of events and the watchers of clusters.
\<close>

section \<open>Safe maps\<close>

text \<open>
  A map is the list of its entries in the order in which a loop meets them, which Go leaves open: what
  is proved for every list holds for every order. \<open>None\<close> is the nil pointer; a nil map inside
  behaves as the empty one.
\<close>

type_synonym ('k, 'v) safemap = "('k \<times> 'v) list option"

definition safemap_New :: "('k \<times> 'v) list option \<Rightarrow> ('k, 'v) safemap" where
  "safemap_New init = Some (case init of None \<Rightarrow> [] | Some m \<Rightarrow> m)"

definition safemap_Get :: "('k, 'v) safemap \<Rightarrow> 'k \<Rightarrow> 'v option" where
  "safemap_Get s key = (case s of None \<Rightarrow> None | Some store \<Rightarrow> map_of store key)"

definition safemap_Set :: "'k \<Rightarrow> 'v \<Rightarrow> ('k, 'v) safemap \<Rightarrow> ('k, 'v) safemap" where
  "safemap_Set key v s = (case s of None \<Rightarrow> None | Some store \<Rightarrow> Some (AList.update key v store))"

definition safemap_Remove :: "'k \<Rightarrow> ('k, 'v) safemap \<Rightarrow> ('k, 'v) safemap" where
  "safemap_Remove key s = (case s of None \<Rightarrow> None | Some store \<Rightarrow> Some (AList.delete key store))"

definition safemap_Copy :: "('k, 'v) safemap \<Rightarrow> string + ('k \<times> 'v) list" where
  "safemap_Copy s = (case s of None \<Rightarrow> Inl ''safeMap is nil'' | Some store \<Rightarrow> Inr store)"

definition safemap_Len :: "('k, 'v) safemap \<Rightarrow> nat" where
  "safemap_Len s = (case s of None \<Rightarrow> 0 | Some store \<Rightarrow> length store)"

fun range_loop :: "('k \<Rightarrow> 'v \<Rightarrow> 's \<Rightarrow> string option \<times> 's) \<Rightarrow> ('k \<times> 'v) list \<Rightarrow> 's \<Rightarrow> string option \<times> 's" where
  "range_loop callback [] st = (None, st)"
| "range_loop callback ((k, v) # rest) st =
     (case callback k v st of
        (Some e, st') \<Rightarrow> (Some e, st')
      | (None, st') \<Rightarrow> range_loop callback rest st')"

definition safemap_Range :: "('k, 'v) safemap \<Rightarrow> ('k \<Rightarrow> 'v \<Rightarrow> 's \<Rightarrow> string option \<times> 's) \<Rightarrow> 's \<Rightarrow> string option \<times> 's" where
  "safemap_Range s callback st =
     (case s of None \<Rightarrow> (Some ''safeMap is nil'', st) | Some store \<Rightarrow> range_loop callback store st)"

text \<open>The entries of a map have different keys.\<close>

definition safemap_ok :: "('k, 'v) safemap \<Rightarrow> bool" where
  "safemap_ok s \<longleftrightarrow> (case s of None \<Rightarrow> True | Some store \<Rightarrow> distinct (map fst store))"

lemma safemap_ok_ops [simp, intro]:
  "safemap_ok (safemap_New None)"
  "safemap_ok s \<Longrightarrow> safemap_ok (safemap_Set key v s)"
  "safemap_ok s \<Longrightarrow> safemap_ok (safemap_Remove key s)"
  by (auto simp: safemap_ok_def safemap_New_def safemap_Set_def safemap_Remove_def distinct_update distinct_delete
      split: option.splits)

interpretation smap: keyed_store "\<lambda>k. k" "\<lambda>_. True" "\<lambda>m. safemap_Get (Some m)" "\<lambda>k v m. the (safemap_Set k v (Some m))"
  "\<lambda>k m. the (safemap_Remove k (Some m))"
  by unfold_locales (auto simp: safemap_Get_def safemap_Set_def safemap_Remove_def update_conv' delete_conv')

lemma safemap_Get_Set:
  "s \<noteq> None \<Longrightarrow> safemap_Get (safemap_Set k v s) k' = (if k' = k then Some v else safemap_Get s k')"
  using smap.get_put [of k v "the s" k'] by (auto simp: safemap_Set_def)

lemma safemap_Get_Remove: "safemap_Get (safemap_Remove k s) k' = (if k' = k then None else safemap_Get s k')"
  using smap.get_del [of k "the s" k'] by (cases s) (auto simp: safemap_Remove_def safemap_Get_def)

lemma safemap_Get_New [simp]: "safemap_Get (safemap_New None) k = None"
  by (simp add: safemap_Get_def safemap_New_def)

lemma safemap_not_nil [simp]:
  "safemap_New m \<noteq> None" "(\<exists>y. safemap_Set k v s = Some y) \<longleftrightarrow> s \<noteq> None" "(\<exists>y. safemap_Remove k s = Some y) \<longleftrightarrow> s \<noteq> None"
  by (auto simp: safemap_New_def safemap_Set_def safemap_Remove_def split: option.splits)

lemma range_loop_fold:
  assumes "\<And>k v st. fst (callback k v st) = None"
  shows "range_loop callback xs st = (None, fold (\<lambda>(k, v) st. snd (callback k v st)) xs st)"
proof (induction xs arbitrary: st)
  case (Cons x xs)
  obtain k v where "x = (k, v)" by fastforce
  moreover have "callback k v st = (None, snd (callback k v st))" using assms by (simp add: prod_eq_iff)
  ultimately show ?case using Cons by (cases "callback k v st") simp
qed simp

section \<open>Observers\<close>

datatype event_type = EtCreate | EtDelete | EtUpdate | EtResolutionTime | EtRecordCall | EtOther string

record observer =
  ob_id :: string
  ob_payload :: nat

text \<open>
  The observers of an event are a slice: the array behind it and its length. A loop over a slice
  reads the array as it is at each turn, with the length it had at the start.
\<close>

record observer_slice =
  os_arr :: "observer list"
  os_len :: nat

type_synonym default_watcher = "event_type \<Rightarrow> observer_slice"

definition os_view :: "observer_slice \<Rightarrow> observer list" where
  "os_view s = take (os_len s) (os_arr s)"

definition NewDefaultWatcher :: default_watcher where
  "NewDefaultWatcher = (\<lambda>_. \<lparr>os_arr = [], os_len = 0\<rparr>)"

text \<open>\<^verbatim>\<open>append\<close> writes behind the slice when the array has room, and copies the slice otherwise.\<close>

definition slice_append :: "observer \<Rightarrow> observer_slice \<Rightarrow> observer_slice" where
  "slice_append ob s =
     (if os_len s < length (os_arr s) then \<lparr>os_arr = (os_arr s)[os_len s := ob], os_len = Suc (os_len s)\<rparr>
      else \<lparr>os_arr = os_view s @ [ob], os_len = Suc (os_len s)\<rparr>)"

definition watcher_Attach :: "event_type \<Rightarrow> observer \<Rightarrow> default_watcher \<Rightarrow> default_watcher" where
  "watcher_Attach et ob w = w(et := slice_append ob (w et))"

fun position :: "string \<Rightarrow> observer list \<Rightarrow> nat option" where
  "position key [] = None"
| "position key (v # vs) = (if ob_id v = key then Some 0 else map_option Suc (position key vs))"

text \<open>\<^verbatim>\<open>append(s[:i], s[i+1:]...)\<close> moves the tail one cell to the left; the last cell keeps its value.\<close>

definition slice_delete :: "nat \<Rightarrow> observer_slice \<Rightarrow> observer_slice" where
  "slice_delete i s =
     \<lparr>os_arr = take i (os_arr s) @ take (os_len s - Suc i) (drop (Suc i) (os_arr s)) @ drop (os_len s - 1) (os_arr s),
      os_len = os_len s - 1\<rparr>"

definition slice_detach :: "string \<Rightarrow> observer_slice \<Rightarrow> observer_slice" where
  "slice_detach key s = (case position key (os_view s) of None \<Rightarrow> s | Some i \<Rightarrow> slice_delete i s)"

definition watcher_Detach :: "event_type \<Rightarrow> observer \<Rightarrow> default_watcher \<Rightarrow> default_watcher" where
  "watcher_Detach et ob w = w(et := slice_detach (ob_id ob) (w et))"

text \<open>
  \<open>upd\<close> is an observer's \<^verbatim>\<open>Update\<close>: its error, which is only logged, and the observers of the same event that it
  detaches meanwhile. The loop gives the observers it called and the slice that is left.
\<close>

type_synonym observer_update = "observer \<Rightarrow> string option \<times> observer list"

fun notify_loop :: "observer_update \<Rightarrow> nat \<Rightarrow> nat \<Rightarrow> observer_slice \<Rightarrow> observer list \<times> observer_slice" where
  "notify_loop upd 0 j s = ([], s)"
| "notify_loop upd (Suc n) j s =
     (let ob = os_arr s ! j;
          s' = fold (slice_detach \<circ> ob_id) (snd (upd ob)) s;
          (calls, s'') = notify_loop upd n (Suc j) s'
      in (ob # calls, s''))"

definition watcher_Notify :: "observer_update \<Rightarrow> event_type \<Rightarrow> default_watcher \<Rightarrow> string option \<times> observer list \<times> default_watcher" where
  "watcher_Notify upd et w =
     (let (calls, s) = notify_loop upd (os_len (w et)) 0 (w et) in (None, calls, w(et := s)))"

definition ErrUnknownType :: string where
  "ErrUnknownType = ''unknown event type''"

fun watcher_OnEvent :: "observer_update \<Rightarrow> event_type \<Rightarrow> default_watcher \<Rightarrow> string option \<times> observer list \<times> default_watcher" where
  "watcher_OnEvent upd (EtOther e) w = (Some ErrUnknownType, [], w)"
| "watcher_OnEvent upd et w = watcher_Notify upd et w"

section \<open>Clusters\<close>

text \<open>The manager of watchers, over any kind of watcher: \<open>on_event\<close> is the watchers' \<^verbatim>\<open>OnEvent\<close>.\<close>

record 'w watcher_manager =
  wm_clusters :: "string \<Rightarrow> 'w list"
  wm_state :: bool

definition NewDefaultWatcherManager :: "bool \<Rightarrow> 'w watcher_manager" where
  "NewDefaultWatcherManager state = \<lparr>wm_clusters = (\<lambda>_. []), wm_state = state\<rparr>"

definition AddWatcher :: "string \<Rightarrow> 'w \<Rightarrow> 'w watcher_manager \<Rightarrow> 'w watcher_manager" where
  "AddWatcher clusterId w d = d\<lparr>wm_clusters := (wm_clusters d)(clusterId := wm_clusters d clusterId @ [w])\<rparr>"

definition RemoveCluster :: "string \<Rightarrow> 'w watcher_manager \<Rightarrow> 'w watcher_manager" where
  "RemoveCluster clusterId d = d\<lparr>wm_clusters := (wm_clusters d)(clusterId := [])\<rparr>"

definition GetCluster :: "'w watcher_manager \<Rightarrow> string \<Rightarrow> 'w list" where
  "GetCluster d clusterId = wm_clusters d clusterId"

definition manager_Enable :: "'w watcher_manager \<Rightarrow> 'w watcher_manager" where
  "manager_Enable d = d\<lparr>wm_state := True\<rparr>"

definition manager_Disable :: "'w watcher_manager \<Rightarrow> 'w watcher_manager" where
  "manager_Disable d = d\<lparr>wm_state := False\<rparr>"

fun cluster_loop :: "('w \<Rightarrow> string option) \<Rightarrow> 'w list \<Rightarrow> string option \<times> 'w list" where
  "cluster_loop on_event [] = (None, [])"
| "cluster_loop on_event (w # ws) =
     (case on_event w of
        Some e \<Rightarrow> (Some e, [w])
      | None \<Rightarrow> (let (r, calls) = cluster_loop on_event ws in (r, w # calls)))"

definition manager_Notify :: "('w \<Rightarrow> string option) \<Rightarrow> string \<Rightarrow> 'w watcher_manager \<Rightarrow> string option \<times> 'w list" where
  "manager_Notify on_event clusterId d =
     (if \<not> wm_state d then (None, []) else cluster_loop on_event (GetCluster d clusterId))"

section \<open>Lemmas\<close>

definition os_ok :: "observer_slice \<Rightarrow> bool" where
  "os_ok s \<longleftrightarrow> os_len s \<le> length (os_arr s)"

lemma slice_append_view: "os_ok s \<Longrightarrow> os_ok (slice_append ob s) \<and> os_view (slice_append ob s) = os_view s @ [ob]"
  by (auto simp: os_ok_def os_view_def slice_append_def take_Suc_conv_app_nth not_less)

lemma position_append:
  "\<forall>v \<in> set xs. ob_id v \<noteq> key \<Longrightarrow> position key (xs @ ys) = map_option (\<lambda>i. length xs + i) (position key ys)"
  by (induction xs; cases "position key ys") auto

lemma slice_delete_split:
  assumes "os_arr s = xs @ ob # ys @ zs" and "os_len s = length xs + Suc (length ys)"
  shows "slice_delete (length xs) s = \<lparr>os_arr = xs @ ys @ last (ob # ys) # zs, os_len = length xs + length ys\<rparr>"
proof -
  have "drop (length ys) (ob # ys @ zs) = last (ob # ys) # zs"
    by (cases ys rule: rev_cases) simp_all
  with assms show ?thesis by (simp add: slice_delete_def drop_append)
qed

text \<open>Detaching removes the first observer with the same identifier, and nothing else.\<close>

lemma slice_detach_split:
  assumes "os_view s = xs @ ob # ys" and "\<forall>v \<in> set xs. ob_id v \<noteq> ob_id ob" and "os_ok s"
  shows "\<exists>zs. os_arr s = xs @ ob # ys @ zs \<and>
    slice_detach (ob_id ob) s = \<lparr>os_arr = xs @ ys @ last (ob # ys) # zs, os_len = length xs + length ys\<rparr>"
proof -
  let ?zs = "drop (os_len s) (os_arr s)"
  have arr: "os_arr s = xs @ ob # ys @ ?zs"
    using append_take_drop_id [of "os_len s" "os_arr s", symmetric] assms(1) by (simp only: os_view_def) simp
  have "length (os_view s) = length xs + Suc (length ys)" using assms(1) by simp
  then have len: "os_len s = length xs + Suc (length ys)" using assms(3) by (simp add: os_view_def os_ok_def)
  have "position (ob_id ob) (os_view s) = Some (length xs)" by (simp add: assms(1) position_append assms(2))
  with slice_delete_split [OF arr len] arr show ?thesis by (auto simp: slice_detach_def)
qed

lemma watcher_Detach_view:
  assumes "os_view (w et) = xs @ v # ys" and "ob_id v = ob_id ob" and "\<forall>u \<in> set xs. ob_id u \<noteq> ob_id ob" and "os_ok (w et)"
  shows "os_view (watcher_Detach et ob w et) = xs @ ys \<and> os_ok (watcher_Detach et ob w et)"
  using slice_detach_split [of "w et" xs v ys] assms by (auto simp: watcher_Detach_def os_view_def os_ok_def)

lemma notify_loop_plain:
  assumes "\<And>ob. ob \<in> set (take n (drop j (os_arr s))) \<Longrightarrow> snd (upd ob) = []" and "j + n \<le> length (os_arr s)"
  shows "notify_loop upd n j s = (take n (drop j (os_arr s)), s)"
  using assms
proof (induction n arbitrary: j)
  case (Suc n)
  have tl: "take (Suc n) (drop j (os_arr s)) = os_arr s ! j # take n (drop (Suc j) (os_arr s))"
    using Suc.prems(2) by (simp add: Cons_nth_drop_Suc [symmetric])
  with Suc.prems have "snd (upd (os_arr s ! j)) = []" by simp
  moreover have "notify_loop upd n (Suc j) s = (take n (drop (Suc j) (os_arr s)), s)"
    by (rule Suc.IH) (use Suc.prems tl in auto)
  ultimately show ?case using tl by simp
qed simp

lemma notify_loop_append:
  "notify_loop upd (m + n) j s =
     (let (c1, s1) = notify_loop upd m j s; (c2, s2) = notify_loop upd n (j + m) s1 in (c1 @ c2, s2))"
  by (induction m arbitrary: j s) (auto simp: Let_def split: prod.splits)

text \<open>Every observer of the event is called once, in the order of attachment, whatever errors they return.\<close>

lemma watcher_Notify_all:
  assumes "os_ok (w et)" and "\<And>ob. ob \<in> set (os_view (w et)) \<Longrightarrow> snd (upd ob) = []"
  shows "watcher_Notify upd et w = (None, os_view (w et), w)"
  using notify_loop_plain [of "os_len (w et)" 0 "w et" upd] assms
  by (simp add: watcher_Notify_def os_ok_def os_view_def)

section \<open>Properties\<close>

text \<open>
  An observer that detaches itself while it is notified makes the loop skip the next observer and call the
  last one again, since \<^verbatim>\<open>Detach\<close> moves the observers in the array that \<^verbatim>\<open>Notify\<close> ranges over. Afterwards the observer is
  detached and the others are attached in the same order.
\<close>

theorem Notify_self_detach:
  assumes "os_ok (w et)" and "os_view (w et) = xs @ ob # p # ys" and "distinct (map ob_id (xs @ ob # p # ys))"
    and "snd (upd ob) = [ob]" and "\<forall>v \<in> set (xs @ p # ys). snd (upd v) = []"
  shows "\<exists>w'. watcher_Notify upd et w = (None, xs @ ob # ys @ [last (p # ys)], w') \<and> os_view (w' et) = xs @ p # ys"
proof -
  let ?s = "w et" and ?n = "length xs" and ?m = "Suc (length ys)"
  obtain zs where arr: "os_arr ?s = xs @ ob # (p # ys) @ zs"
    and det: "slice_detach (ob_id ob) ?s = \<lparr>os_arr = xs @ (p # ys) @ last (ob # p # ys) # zs, os_len = ?n + ?m\<rparr>"
  proof -
    have "\<forall>v \<in> set xs. ob_id v \<noteq> ob_id ob" using assms(3) by (auto simp: image_iff)
    from slice_detach_split [OF assms(2) this assms(1)] that show thesis by auto
  qed
  let ?s' = "\<lparr>os_arr = xs @ (p # ys) @ last (p # ys) # zs, os_len = ?n + ?m\<rparr>"
  have len: "os_len ?s = ?n + Suc ?m"
    using arg_cong [OF assms(2), of length] assms(1) by (simp add: os_view_def os_ok_def)
  have 1: "notify_loop upd ?n 0 ?s = (xs, ?s)"
    by (subst notify_loop_plain) (use arr assms(5) in auto)
  have "drop (Suc ?n) (os_arr ?s') = (ys @ [last (p # ys)]) @ zs" by simp
  then have tk: "take ?m (drop (Suc ?n) (os_arr ?s')) = ys @ [last (p # ys)]"
    by (simp only: take_append) simp
  have "last (p # ys) \<in> set (p # ys)" by (rule last_in_set) simp
  then have 2: "notify_loop upd ?m (Suc ?n) ?s' = (ys @ [last (p # ys)], ?s')"
    using tk assms(5) by (subst notify_loop_plain) (auto split: if_splits)
  have "notify_loop upd (Suc ?m) ?n ?s = (ob # ys @ [last (p # ys)], ?s')"
    using arr det assms(4) 2 by simp
  with 1 have "notify_loop upd (?n + Suc ?m) 0 ?s = (xs @ ob # ys @ [last (p # ys)], ?s')"
    by (simp only: notify_loop_append) simp
  then show ?thesis using len by (simp add: watcher_Notify_def os_view_def)
qed

theorem Notify_self_detach_witness:
  "\<exists>w'. watcher_Notify (\<lambda>ob. (None, if ob_id ob = ''a'' then [ob] else [])) EtCreate
     (fold (watcher_Attach EtCreate) [\<lparr>ob_id = ''a'', ob_payload = 0\<rparr>, \<lparr>ob_id = ''b'', ob_payload = 0\<rparr>, \<lparr>ob_id = ''c'', ob_payload = 0\<rparr>]
        NewDefaultWatcher) =
     (None, [\<lparr>ob_id = ''a'', ob_payload = 0\<rparr>, \<lparr>ob_id = ''c'', ob_payload = 0\<rparr>, \<lparr>ob_id = ''c'', ob_payload = 0\<rparr>], w')"
  using Notify_self_detach [of "fold (watcher_Attach EtCreate)
      [\<lparr>ob_id = ''a'', ob_payload = 0\<rparr>, \<lparr>ob_id = ''b'', ob_payload = 0\<rparr>, \<lparr>ob_id = ''c'', ob_payload = 0\<rparr>] NewDefaultWatcher" EtCreate
      "[]" "\<lparr>ob_id = ''a'', ob_payload = 0\<rparr>" "\<lparr>ob_id = ''b'', ob_payload = 0\<rparr>" "[\<lparr>ob_id = ''c'', ob_payload = 0\<rparr>]"
      "\<lambda>ob. (None, if ob_id ob = ''a'' then [ob] else [])"]
  by (auto simp: watcher_Attach_def slice_append_def NewDefaultWatcher_def os_ok_def os_view_def)

end
