(* ===== verification/Pg_Config.thy ===== *)
theory Pg_Config
  imports Kit_Maps Go_Float
begin

text \<open>
  \<^verbatim>\<open>src/infra/pgw\<close>, first part: errors and their processors (\<^verbatim>\<open>errors.go\<close>, \<^verbatim>\<open>errors_manager.go\<close>), settings, retry and pick
  strategies and the merge with the defaults (\<^verbatim>\<open>config.go\<close>, \<^verbatim>\<open>pool_manager.go\<close>), the tracer's adapter (\<^verbatim>\<open>tracer.go\<close>) and the
  verifier of migrations (\<^verbatim>\<open>verifier/goose\<close>).
\<close>

section \<open>Errors\<close>

record pg_error =
  pg_Code :: string
  pg_Message :: string
  pg_SchemaName :: string
  pg_TableName :: string
  pg_ColumnName :: string
  pg_ConstraintName :: string

text \<open>The errors that reach the parser: a server's error, possibly wrapped, and any other.\<close>

datatype pgw_error =
    ServerError pg_error
  | WrappedError string pgw_error
  | OtherError string
  | ConnectionExceptionError string string
  | DataExceptionError (de_Schema: string) (de_Column: string) (de_Table: string) (de_Detail: string)

fun pgw_Error :: "pgw_error \<Rightarrow> string" where
  "pgw_Error (ConnectionExceptionError code detail) = ''code: '' @ code @ '', detail: '' @ detail"
| "pgw_Error (DataExceptionError sc co ta de) =
     ''schema: '' @ sc @ '', table: '' @ ta @ '', column: '' @ co @ '', detail: '' @ de"
| "pgw_Error (ServerError e) = pg_Message e"
| "pgw_Error (WrappedError msg e) = msg @ '': '' @ pgw_Error e"
| "pgw_Error (OtherError msg) = msg"

text \<open>\<^verbatim>\<open>errors.As\<close> for a server's error.\<close>

fun as_pg_error :: "pgw_error \<Rightarrow> pg_error option" where
  "as_pg_error (ServerError e) = Some e"
| "as_pg_error (WrappedError msg e) = as_pg_error e"
| "as_pg_error _ = None"

type_synonym error_processor = "pg_error \<Rightarrow> pgw_error option"

record errors_manager =
  em_notNullViolations :: "(string, (string, error_processor) safemap) safemap"
  em_uniqueViolations :: "(string, error_processor) safemap"
  em_foreignKeyViolations :: "(string, error_processor) safemap"
  em_checkViolations :: "(string, error_processor) safemap"

definition newErrorsManager :: errors_manager where
  "newErrorsManager =
     \<lparr>em_notNullViolations = safemap_New None, em_uniqueViolations = safemap_New None,
      em_foreignKeyViolations = safemap_New None, em_checkViolations = safemap_New None\<rparr>"

definition getNotNullViolation :: "errors_manager \<Rightarrow> string \<Rightarrow> string \<Rightarrow> error_processor option" where
  "getNotNullViolation e table col =
     (case safemap_Get (em_notNullViolations e) table of
        None \<Rightarrow> None
      | Some columnsMap \<Rightarrow> safemap_Get columnsMap col)"

definition RegisterNotNullViolationProcessor ::
    "string \<Rightarrow> string \<Rightarrow> error_processor \<Rightarrow> errors_manager \<Rightarrow> string option \<times> errors_manager" where
  "RegisterNotNullViolationProcessor table col processor e =
     (let (columnsMap, e1) =
            (case safemap_Get (em_notNullViolations e) table of
               Some m \<Rightarrow> (m, e)
             | None \<Rightarrow>
                 (safemap_New None, e\<lparr>em_notNullViolations := safemap_Set table (safemap_New None) (em_notNullViolations e)\<rparr>))
      in case safemap_Get columnsMap col of
           Some _ \<Rightarrow>
             (Some (''column '' @ col @ '' is already registered for not null violation on table '' @ table), e1)
         | None \<Rightarrow>
             (None, e1\<lparr>em_notNullViolations :=
                safemap_Set table (safemap_Set col processor columnsMap) (em_notNullViolations e1)\<rparr>))"

definition RegisterUniqueViolation :: "string \<Rightarrow> error_processor \<Rightarrow> errors_manager \<Rightarrow> string option \<times> errors_manager" where
  "RegisterUniqueViolation name processor e =
     (None, e\<lparr>em_uniqueViolations := safemap_Set name processor (em_uniqueViolations e)\<rparr>)"

definition RegisterForeignKeyViolation :: "string \<Rightarrow> error_processor \<Rightarrow> errors_manager \<Rightarrow> string option \<times> errors_manager" where
  "RegisterForeignKeyViolation name processor e =
     (None, e\<lparr>em_foreignKeyViolations := safemap_Set name processor (em_foreignKeyViolations e)\<rparr>)"

definition RegisterCheckViolation :: "string \<Rightarrow> error_processor \<Rightarrow> errors_manager \<Rightarrow> string option \<times> errors_manager" where
  "RegisterCheckViolation name processor e =
     (None, e\<lparr>em_checkViolations := safemap_Set name processor (em_checkViolations e)\<rparr>)"

definition data_exception :: "pg_error \<Rightarrow> pgw_error" where
  "data_exception e = DataExceptionError (pg_SchemaName e) (pg_ColumnName e) (pg_TableName e) (pg_Message e)"

definition process :: "error_processor option \<Rightarrow> pg_error \<Rightarrow> pgw_error option" where
  "process p e = (case p of Some processor \<Rightarrow> processor e | None \<Rightarrow> Some (data_exception e))"

definition parseConnectionException :: "pg_error \<Rightarrow> pgw_error option" where
  "parseConnectionException e = Some (ConnectionExceptionError (pg_Code e) (pg_Message e))"

definition parseNotNullViolation :: "errors_manager \<Rightarrow> pg_error \<Rightarrow> pgw_error option" where
  "parseNotNullViolation em e = process (getNotNullViolation em (pg_TableName e) (pg_ColumnName e)) e"

definition parseForeignKeyViolation :: "errors_manager \<Rightarrow> pg_error \<Rightarrow> pgw_error option" where
  "parseForeignKeyViolation em e = process (safemap_Get (em_foreignKeyViolations em) (pg_ConstraintName e)) e"

definition parseUniqueViolation :: "errors_manager \<Rightarrow> pg_error \<Rightarrow> pgw_error option" where
  "parseUniqueViolation em e = process (safemap_Get (em_uniqueViolations em) (pg_ConstraintName e)) e"

definition parseCheckViolation :: "errors_manager \<Rightarrow> pg_error \<Rightarrow> pgw_error option" where
  "parseCheckViolation em e = process (safemap_Get (em_checkViolations em) (pg_ConstraintName e)) e"

text \<open>\<open>None\<close> is the nil error.\<close>

definition ParsePgError :: "errors_manager \<Rightarrow> pgw_error option \<Rightarrow> pgw_error option" where
  "ParsePgError em err =
     (case err of
        None \<Rightarrow> None
      | Some x \<Rightarrow>
          (case as_pg_error x of
             None \<Rightarrow> Some x
           | Some e \<Rightarrow>
               (if pg_Code e = ''08000'' \<or> pg_Code e = ''08006'' then parseConnectionException e
                else if pg_Code e = ''23502'' then parseNotNullViolation em e
                else if pg_Code e = ''23503'' then parseForeignKeyViolation em e
                else if pg_Code e = ''23505'' then parseUniqueViolation em e
                else if pg_Code e = ''23514'' then parseCheckViolation em e
                else Some x)))"

section \<open>Strategies\<close>

type_synonym retry_strategy = "int \<Rightarrow> int \<Rightarrow> duration"

text \<open>
  \<^verbatim>\<open>math.Pow\<close> of two integers is taken to be the float64 nearest to the power, which it is for
  the powers below \<open>2\<^sup>5\<^sup>3\<close>; the conversion to a Duration truncates, and the product wraps.
\<close>

definition RetryStrategyExponential :: retry_strategy where
  "RetryStrategyExponential a x =
     (let a' = (if a \<le> 0 \<or> a = 1 then 2 else a)
      in int64 (f64_trunc (f64 (rat_of_int (a' ^ nat x))) * 1000000000))"

definition RetryStrategyLinear :: retry_strategy where
  "RetryStrategyLinear a x = (let a' = (if a = 0 then 1 else a) in int64 (int64 (a' * x) * 1000000000))"

text \<open>What the strategies see of a pool: its address, and the numbers of its connections.\<close>

record pg_pool =
  pp_key :: string
  pp_TotalConns :: int
  pp_IdleConns :: int

definition pool_load :: "pg_pool \<Rightarrow> int" where
  "pool_load h = pp_TotalConns h - pp_IdleConns h"

text \<open>\<open>draw n\<close> is \<^verbatim>\<open>rand.IntN(n)\<close>.\<close>

type_synonym pick_strategy = "(nat \<Rightarrow> nat) \<Rightarrow> (string, pg_pool) safemap \<Rightarrow> pg_pool option"

definition RandomPickStrategy :: pick_strategy where
  "RandomPickStrategy draw m =
     (let hosts = snd (safemap_Range m (\<lambda>_ h hs. (None, hs @ [h])) [])
      in if hosts = [] then None else Some (hosts ! draw (length hosts)))"

definition least_step :: "pg_pool \<Rightarrow> int \<times> pg_pool option \<Rightarrow> int \<times> pg_pool option" where
  "least_step h st =
     (let (minConnections, r) = st; load = pool_load h
      in if minConnections = 0 \<or> load < minConnections then (load, Some h) else (minConnections, r))"

definition LeastConnectionsPickStrategy :: pick_strategy where
  "LeastConnectionsPickStrategy draw m = snd (snd (safemap_Range m (\<lambda>_ h st. (None, least_step h st)) (0, None)))"

section \<open>Settings\<close>

record primary_config =
  pc_DSN :: string
  pc_MaxConns :: int
  pc_MinConns :: int
  pc_HealthCheckInterval :: duration
  pc_HealthCheckTimeout :: duration
  pc_RetryAttempts :: int
  pc_RetryInterval :: duration
  pc_RetryStrategy :: "retry_strategy option"
  pc_RetryStrategyBaseValue :: int

record standby_config =
  sc_DSN :: "string list"
  sc_MaxConns :: int
  sc_MinConns :: int
  sc_HealthCheckInterval :: duration
  sc_HealthCheckTimeout :: duration
  sc_RetriesBeforeUnhealthy :: int
  sc_RetryStrategy :: "retry_strategy option"
  sc_RetryStrategyBaseValue :: int
  sc_PickStrategy :: "pick_strategy option"
  sc_UnhealthyReplicaRetryInterval :: duration

definition DefaultPrimaryPoolConfig :: primary_config where
  "DefaultPrimaryPoolConfig =
     \<lparr>pc_DSN = [], pc_MaxConns = 0, pc_MinConns = 0, pc_HealthCheckInterval = 5 * 1000000000,
      pc_HealthCheckTimeout = 3 * 1000000000, pc_RetryAttempts = 5, pc_RetryInterval = 5 * 1000000000,
      pc_RetryStrategy = Some RetryStrategyLinear, pc_RetryStrategyBaseValue = 2\<rparr>"

definition DefaultStandbyPoolConfig :: standby_config where
  "DefaultStandbyPoolConfig =
     \<lparr>sc_DSN = [], sc_MaxConns = 0, sc_MinConns = 0, sc_HealthCheckInterval = 5 * 1000000000,
      sc_HealthCheckTimeout = 3 * 1000000000, sc_RetriesBeforeUnhealthy = 5,
      sc_RetryStrategy = Some RetryStrategyLinear, sc_RetryStrategyBaseValue = 2,
      sc_PickStrategy = Some RandomPickStrategy, sc_UnhealthyReplicaRetryInterval = 30 * 60 * 1000000000\<rparr>"

text \<open>Each statement of the merges and of \<^verbatim>\<open>normalizeConfig\<close> looks at one field and sets that field only.\<close>

definition mergePrimaryPoolConfigWithDefault :: "primary_config \<Rightarrow> primary_config" where
  "mergePrimaryPoolConfigWithDefault c =
     DefaultPrimaryPoolConfig\<lparr>
        pc_DSN := (if pc_DSN c \<noteq> [] then pc_DSN c else pc_DSN DefaultPrimaryPoolConfig),
        pc_HealthCheckInterval := (if pc_HealthCheckInterval c > 0 then pc_HealthCheckInterval c else pc_HealthCheckInterval DefaultPrimaryPoolConfig),
        pc_HealthCheckTimeout := (if pc_HealthCheckTimeout c > 0 then pc_HealthCheckTimeout c else pc_HealthCheckTimeout DefaultPrimaryPoolConfig),
        pc_RetryAttempts := (if pc_RetryAttempts c > 0 then pc_RetryAttempts c else pc_RetryAttempts DefaultPrimaryPoolConfig),
        pc_RetryInterval := (if pc_RetryInterval c > 0 then pc_RetryInterval c else pc_RetryInterval DefaultPrimaryPoolConfig),
        pc_RetryStrategy := (if pc_RetryStrategy c \<noteq> None then pc_RetryStrategy c else pc_RetryStrategy DefaultPrimaryPoolConfig),
        pc_RetryStrategyBaseValue := (if pc_RetryStrategyBaseValue c > 0 then pc_RetryStrategyBaseValue c else pc_RetryStrategyBaseValue DefaultPrimaryPoolConfig),
        pc_MaxConns := (if pc_MaxConns c > 0 then pc_MaxConns c else pc_MaxConns DefaultPrimaryPoolConfig),
        pc_MinConns := (if pc_MinConns c > 0 then pc_MinConns c else pc_MinConns DefaultPrimaryPoolConfig)\<rparr>"

definition mergeStandbyPoolConfigWithDefault :: "standby_config \<Rightarrow> standby_config" where
  "mergeStandbyPoolConfigWithDefault c =
     DefaultStandbyPoolConfig\<lparr>
        sc_DSN := (if sc_DSN c \<noteq> [] then sc_DSN c else sc_DSN DefaultStandbyPoolConfig),
        sc_HealthCheckInterval := (if sc_HealthCheckInterval c > 0 then sc_HealthCheckInterval c else sc_HealthCheckInterval DefaultStandbyPoolConfig),
        sc_HealthCheckTimeout := (if sc_HealthCheckTimeout c > 0 then sc_HealthCheckTimeout c else sc_HealthCheckTimeout DefaultStandbyPoolConfig),
        sc_RetriesBeforeUnhealthy := (if sc_RetriesBeforeUnhealthy c > 0 then sc_RetriesBeforeUnhealthy c else sc_RetriesBeforeUnhealthy DefaultStandbyPoolConfig),
        sc_RetryStrategy := (if sc_RetryStrategy c \<noteq> None then sc_RetryStrategy c else sc_RetryStrategy DefaultStandbyPoolConfig),
        sc_RetryStrategyBaseValue := (if sc_RetryStrategyBaseValue c > 0 then sc_RetryStrategyBaseValue c else sc_RetryStrategyBaseValue DefaultStandbyPoolConfig),
        sc_MaxConns := (if sc_MaxConns c > 0 then sc_MaxConns c else sc_MaxConns DefaultStandbyPoolConfig),
        sc_MinConns := (if sc_MinConns c > 0 then sc_MinConns c else sc_MinConns DefaultStandbyPoolConfig)\<rparr>"

text \<open>The settings of the standby manager, as \<^verbatim>\<open>initStandby\<close> takes them from the settings of the standbys.\<close>

record standby_manager_config =
  sm_PickStrategy :: "pick_strategy option"
  sm_UnhealthyStandbyRetryInterval :: duration
  sm_RetriesBeforeUnhealthy :: int
  sm_RetryStrategy :: "retry_strategy option"
  sm_RetryStrategyBaseValue :: int
  sm_HostHealthCheckInterval :: duration
  sm_HostHealthCheckTimeout :: duration

definition standby_settings :: "standby_config \<Rightarrow> standby_manager_config" where
  "standby_settings c =
     \<lparr>sm_PickStrategy = sc_PickStrategy c, sm_UnhealthyStandbyRetryInterval = sc_UnhealthyReplicaRetryInterval c,
      sm_RetriesBeforeUnhealthy = sc_RetriesBeforeUnhealthy c, sm_RetryStrategy = sc_RetryStrategy c,
      sm_RetryStrategyBaseValue = sc_RetryStrategyBaseValue c, sm_HostHealthCheckInterval = sc_HealthCheckInterval c,
      sm_HostHealthCheckTimeout = sc_HealthCheckTimeout c\<rparr>"

definition normalizeConfig :: "standby_manager_config \<Rightarrow> standby_manager_config" where
  "normalizeConfig c =
     c\<lparr>
        sm_PickStrategy := (if sm_PickStrategy c = None then sc_PickStrategy DefaultStandbyPoolConfig else sm_PickStrategy c),
        sm_UnhealthyStandbyRetryInterval := (if sm_UnhealthyStandbyRetryInterval c = 0 then sc_UnhealthyReplicaRetryInterval DefaultStandbyPoolConfig else sm_UnhealthyStandbyRetryInterval c),
        sm_RetriesBeforeUnhealthy := (if sm_RetriesBeforeUnhealthy c = 0 then sc_RetriesBeforeUnhealthy DefaultStandbyPoolConfig else sm_RetriesBeforeUnhealthy c),
        sm_RetryStrategy := (if sm_RetryStrategy c = None then sc_RetryStrategy DefaultStandbyPoolConfig else sm_RetryStrategy c),
        sm_RetryStrategyBaseValue := (if sm_RetryStrategyBaseValue c = 0 then sc_RetryStrategyBaseValue DefaultStandbyPoolConfig else sm_RetryStrategyBaseValue c),
        sm_HostHealthCheckInterval := (if sm_HostHealthCheckInterval c = 0 then sc_HealthCheckInterval DefaultStandbyPoolConfig else sm_HostHealthCheckInterval c),
        sm_HostHealthCheckTimeout := (if sm_HostHealthCheckTimeout c = 0 then sc_HealthCheckTimeout DefaultStandbyPoolConfig else sm_HostHealthCheckTimeout c)\<rparr>"

record 'v pgw_config =
  cf_ApplicationName :: string
  cf_Tracer :: bool
  cf_PrimaryConfig :: primary_config
  cf_StandbyConfig :: standby_config
  cf_MigrationVerifier :: "'v option"

datatype 'v config_option =
    WithApplicationName string
  | WithTracer bool
  | WithPrimaryConfig primary_config
  | WithStandbyConfig standby_config
  | WithMigrationVerifier "'v option"

fun config_apply :: "'v config_option \<Rightarrow> 'v pgw_config \<Rightarrow> 'v pgw_config" where
  "config_apply (WithApplicationName name) c = c\<lparr>cf_ApplicationName := name\<rparr>"
| "config_apply (WithTracer t) c = c\<lparr>cf_Tracer := t\<rparr>"
| "config_apply (WithPrimaryConfig cfg) c = c\<lparr>cf_PrimaryConfig := cfg\<rparr>"
| "config_apply (WithStandbyConfig cfg) c = c\<lparr>cf_StandbyConfig := cfg\<rparr>"
| "config_apply (WithMigrationVerifier v) c = c\<lparr>cf_MigrationVerifier := v\<rparr>"

text \<open>The settings that \<^verbatim>\<open>NewPoolManager\<close> works with.\<close>

definition pgw_settings :: "'v config_option list \<Rightarrow> 'v pgw_config" where
  "pgw_settings options =
     (let cfg = fold config_apply options
            \<lparr>cf_ApplicationName = [], cf_Tracer = False, cf_PrimaryConfig = DefaultPrimaryPoolConfig,
             cf_StandbyConfig = DefaultStandbyPoolConfig, cf_MigrationVerifier = None\<rparr>
      in cfg\<lparr>cf_PrimaryConfig := mergePrimaryPoolConfigWithDefault (cf_PrimaryConfig cfg),
             cf_StandbyConfig := mergeStandbyPoolConfigWithDefault (cf_StandbyConfig cfg)\<rparr>)"

section \<open>Tracing\<close>

text \<open>
  A context is the list of the values put in it, the last first. The value of a kind of operation is
  the function that ends its span; spans are numbered.
\<close>

datatype trace_kind = TkQuery | TkBatch | TkCopyFrom | TkPrepare

type_synonym trace_ctx = "(trace_kind \<times> nat) list"

fun trace_method :: "trace_kind \<Rightarrow> string" where
  "trace_method TkQuery = ''db.Query''"
| "trace_method TkBatch = ''db.Batch''"
| "trace_method TkCopyFrom = ''db.CopyFrom''"
| "trace_method TkPrepare = ''db.Prepare''"

record tracer_state =
  tr_started :: "string list"
  tr_ended :: "(nat \<times> string option) list"

definition TraceStart :: "trace_kind \<Rightarrow> bool \<Rightarrow> trace_ctx \<Rightarrow> tracer_state \<Rightarrow> trace_ctx \<times> tracer_state" where
  "TraceStart kind should ctx t =
     (if \<not> should then (ctx, t)
      else ((kind, length (tr_started t)) # ctx, t\<lparr>tr_started := tr_started t @ [trace_method kind]\<rparr>))"

definition TraceEnd :: "trace_kind \<Rightarrow> trace_ctx \<Rightarrow> string option \<Rightarrow> tracer_state \<Rightarrow> tracer_state" where
  "TraceEnd kind ctx err t =
     (case map_of ctx kind of
        Some i \<Rightarrow> t\<lparr>tr_ended := tr_ended t @ [(i, err)]\<rparr>
      | None \<Rightarrow> t)"

text \<open>An operation that is traced ends the span it started, and one that is not ends none.\<close>

lemma Trace_matches:
  assumes "TraceStart kind should ctx t = (ctx', t')" and "map_of ctx kind = None"
  shows "TraceEnd kind ctx' err t' =
    (if should then t\<lparr>tr_started := tr_started t @ [trace_method kind], tr_ended := tr_ended t @ [(length (tr_started t), err)]\<rparr> else t)"
  using assms by (auto simp: TraceStart_def TraceEnd_def)

section \<open>Verification of migrations\<close>

text \<open>\<open>run\<close> is the server's answer to a query: an error, or the number of rows.\<close>

definition NewGooseMigrationVerifier ::
    "string \<Rightarrow> string \<Rightarrow> string + ((string \<Rightarrow> string \<Rightarrow> string + nat) \<Rightarrow> string option)" where
  "NewGooseMigrationVerifier fromTable minVersionRequired =
     (if fromTable = [] then Inl ''versioning table required during verification of goose migration''
      else if minVersionRequired = [] then Inl ''min version parameter required during verification of goose migration''
      else Inr (\<lambda>run.
        case run (''SELECT true FROM '' @ fromTable @ '' WHERE version_id = $1 AND is_applied = true'') minVersionRequired of
          Inl e \<Rightarrow> Some e
        | Inr rows \<Rightarrow> if rows = 0 then Some ''goose migration verification failed: no matching version found'' else None))"

section \<open>Lemmas\<close>

lemma least_fold_min:
  assumes "\<forall>h \<in> set hs. 0 < pool_load h" "0 < pool_load h0"
  shows "\<exists>h \<in> set (h0 # hs). fold least_step hs (pool_load h0, Some h0) = (pool_load h, Some h) \<and>
           (\<forall>h' \<in> set (h0 # hs). pool_load h \<le> pool_load h')"
  using assms
proof (induction hs arbitrary: h0)
  case (Cons x xs)
  show ?case
  proof (cases "pool_load x < pool_load h0")
    case True
    then have "least_step x (pool_load h0, Some h0) = (pool_load x, Some x)" by (simp add: least_step_def Let_def)
    with Cons.IH [of x] Cons.prems True show ?thesis by force
  next
    case False
    with Cons.prems have "least_step x (pool_load h0, Some h0) = (pool_load h0, Some h0)"
      by (simp add: least_step_def Let_def)
    with Cons.IH [of h0] Cons.prems False show ?thesis by force
  qed
qed simp

lemma Least_fold: "LeastConnectionsPickStrategy draw (Some m) = snd (fold least_step (map snd m) (0, None))"
  by (simp add: LeastConnectionsPickStrategy_def safemap_Range_def range_loop_fold fold_map comp_def split_def)

lemma Random_hosts: "RandomPickStrategy draw (Some m) = (if m = [] then None else Some (map snd m ! draw (length m)))"
proof -
  have "fold (\<lambda>(k, v) st. snd (None :: string option, st @ [v])) m hs = hs @ map snd m" for hs :: "pg_pool list"
    by (induction m arbitrary: hs) auto
  then show ?thesis by (simp add: RandomPickStrategy_def safemap_Range_def range_loop_fold)
qed

lemma least_step_some: "snd st \<noteq> None \<or> fst st = 0 \<Longrightarrow> snd (least_step h st) \<noteq> None"
  by (auto simp: least_step_def Let_def split: prod.splits)

lemma least_fold_some: "snd st \<noteq> None \<Longrightarrow> snd (fold least_step hs st) \<noteq> None"
proof (induction hs arbitrary: st)
  case (Cons h hs)
  show ?case unfolding fold_simps comp_def by (rule Cons.IH, rule least_step_some) (use Cons.prems in simp)
qed simp

text \<open>
  Registrations in a sequence, and the processor that an error is to find: the last of its constraint, or the first of its
  table and column.
\<close>

datatype violation_reg =
    RegUnique string error_processor
  | RegForeignKey string error_processor
  | RegCheck string error_processor
  | RegNotNull string string error_processor

fun register_one :: "violation_reg \<Rightarrow> errors_manager \<Rightarrow> string option \<times> errors_manager" where
  "register_one (RegUnique c p) em = RegisterUniqueViolation c p em"
| "register_one (RegForeignKey c p) em = RegisterForeignKeyViolation c p em"
| "register_one (RegCheck c p) em = RegisterCheckViolation c p em"
| "register_one (RegNotNull t c p) em = RegisterNotNullViolationProcessor t c p em"

definition register_all :: "violation_reg list \<Rightarrow> errors_manager" where
  "register_all regs = fold (\<lambda>r em. snd (register_one r em)) regs newErrorsManager"

fun violated :: "pg_error \<Rightarrow> violation_reg \<Rightarrow> error_processor option" where
  "violated e (RegUnique c p) = (if pg_Code e = ''23505'' \<and> c = pg_ConstraintName e then Some p else None)"
| "violated e (RegForeignKey c p) = (if pg_Code e = ''23503'' \<and> c = pg_ConstraintName e then Some p else None)"
| "violated e (RegCheck c p) = (if pg_Code e = ''23514'' \<and> c = pg_ConstraintName e then Some p else None)"
| "violated e (RegNotNull t c p) =
     (if pg_Code e = ''23502'' \<and> t = pg_TableName e \<and> c = pg_ColumnName e then Some p else None)"

definition expected_processor :: "violation_reg list \<Rightarrow> pg_error \<Rightarrow> error_processor option" where
  "expected_processor regs e =
     (let ps = List.map_filter (violated e) regs
      in if ps = [] then None else if pg_Code e = ''23502'' then Some (hd ps) else Some (last ps))"

definition registered_processor :: "errors_manager \<Rightarrow> pg_error \<Rightarrow> error_processor option" where
  "registered_processor em e =
     (if pg_Code e = ''23502'' then getNotNullViolation em (pg_TableName e) (pg_ColumnName e)
      else if pg_Code e = ''23503'' then safemap_Get (em_foreignKeyViolations em) (pg_ConstraintName e)
      else if pg_Code e = ''23505'' then safemap_Get (em_uniqueViolations em) (pg_ConstraintName e)
      else if pg_Code e = ''23514'' then safemap_Get (em_checkViolations em) (pg_ConstraintName e)
      else None)"

text \<open>No map of a manager is nil.\<close>

definition em_ok :: "errors_manager \<Rightarrow> bool" where
  "em_ok em \<longleftrightarrow> em_notNullViolations em \<noteq> None \<and> em_uniqueViolations em \<noteq> None \<and> em_foreignKeyViolations em \<noteq> None \<and>
     em_checkViolations em \<noteq> None \<and> (\<forall>t. safemap_Get (em_notNullViolations em) t \<noteq> Some None)"

lemma register_NotNull:
  assumes "em_ok em"
  shows "em_ok (snd (RegisterNotNullViolationProcessor t c p em)) \<and>
    getNotNullViolation (snd (RegisterNotNullViolationProcessor t c p em)) t' c' =
      (if t' = t \<and> c' = c \<and> getNotNullViolation em t c = None then Some p else getNotNullViolation em t' c')"
proof (cases "safemap_Get (em_notNullViolations em) t")
  case None
  with assms show ?thesis
    by (auto simp: em_ok_def RegisterNotNullViolationProcessor_def getNotNullViolation_def safemap_Get_Set
        split: option.splits)
next
  case (Some a)
  moreover from this assms obtain m where "a = Some m" unfolding em_ok_def by (cases a) auto
  ultimately show ?thesis using assms
    by (auto simp: em_ok_def RegisterNotNullViolationProcessor_def getNotNullViolation_def safemap_Get_Set
        split: option.splits)
qed

lemma RegisterNotNull_frame [simp]:
  "em_uniqueViolations (snd (RegisterNotNullViolationProcessor t c p em)) = em_uniqueViolations em"
  "em_foreignKeyViolations (snd (RegisterNotNullViolationProcessor t c p em)) = em_foreignKeyViolations em"
  "em_checkViolations (snd (RegisterNotNullViolationProcessor t c p em)) = em_checkViolations em"
  by (auto simp: RegisterNotNullViolationProcessor_def Let_def split: option.splits)

lemmas register_defs = RegisterUniqueViolation_def RegisterForeignKeyViolation_def RegisterCheckViolation_def

lemma register_step:
  assumes "em_ok em"
  shows "em_ok (snd (register_one r em)) \<and>
    registered_processor (snd (register_one r em)) e =
      (case violated e r of
         None \<Rightarrow> registered_processor em e
       | Some p \<Rightarrow>
           if pg_Code e = ''23502'' \<and> registered_processor em e \<noteq> None then registered_processor em e else Some p)"
proof (cases r)
  case (RegNotNull t c p)
  then show ?thesis using register_NotNull [OF assms] by (auto simp: registered_processor_def)
qed (use assms in \<open>auto simp: em_ok_def registered_processor_def register_defs safemap_Get_Set getNotNullViolation_def\<close>)

lemma registered_after:
  assumes "em_ok em"
  shows "registered_processor (fold (\<lambda>r em. snd (register_one r em)) regs em) e =
    (let ps = List.map_filter (violated e) regs
     in if ps = [] then registered_processor em e
        else if pg_Code e = ''23502'' then (case registered_processor em e of Some p \<Rightarrow> Some p | None \<Rightarrow> Some (hd ps))
        else Some (last ps))"
  using assms
proof (induction regs arbitrary: em)
  case (Cons r regs)
  show ?case
    using Cons.IH [of "snd (register_one r em)"] register_step [OF Cons.prems, of r]
    by (auto simp: map_filter_simps Let_def split: option.splits)
qed (simp add: map_filter_simps)

lemma em_ok_new: "em_ok newErrorsManager"
  by (simp add: em_ok_def newErrorsManager_def)

section \<open>Properties\<close>


text \<open>
  The pick strategies: a random pick is one of the healthy standbys for every draw below their number, and nothing only if there is
  none; the least connections strategy picks a standby whenever there is one, and one with the least load when none is idle.
\<close>

theorem pick_strategies:
  assumes "\<And>n. 0 < n \<Longrightarrow> draw n < n"
  shows "(case RandomPickStrategy draw (Some m) of None \<Rightarrow> m = [] | Some h \<Rightarrow> h \<in> snd ` set m) \<and>
    (LeastConnectionsPickStrategy draw (Some m) = None \<longleftrightarrow> m = []) \<and>
    (m \<noteq> [] \<and> (\<forall>h \<in> snd ` set m. 0 < pool_load h) \<longrightarrow>
       (\<exists>h \<in> snd ` set m. LeastConnectionsPickStrategy draw (Some m) = Some h \<and>
          (\<forall>h' \<in> snd ` set m. pool_load h \<le> pool_load h')))"
proof (cases m)
  case (Cons x xs)
  let ?r = "fold least_step (map snd xs) (pool_load (snd x), Some (snd x))"
  have hosts: "snd ` set m = set (snd x # map snd xs)" by (simp add: Cons)
  have "draw (length m) < length m" using assms Cons by simp
  then have "map snd m ! draw (length m) \<in> snd ` set m" by (metis length_map nth_mem set_map)
  then have 1: "case RandomPickStrategy draw (Some m) of None \<Rightarrow> m = [] | Some h \<Rightarrow> h \<in> snd ` set m"
    by (simp add: Random_hosts Cons)
  have least: "LeastConnectionsPickStrategy draw (Some m) = snd ?r"
    by (simp add: Least_fold Cons) (simp add: least_step_def Let_def)
  have 2: "snd ?r \<noteq> None" by (rule least_fold_some) simp
  have 3: "\<exists>h \<in> snd ` set m. snd ?r = Some h \<and> (\<forall>h' \<in> snd ` set m. pool_load h \<le> pool_load h')"
    if "\<forall>h \<in> snd ` set m. 0 < pool_load h"
  proof -
    from that have "\<forall>h \<in> set (map snd xs). 0 < pool_load h" "0 < pool_load (snd x)" by (auto simp: Cons)
    from least_fold_min [OF this] show ?thesis unfolding hosts by force
  qed
  show ?thesis unfolding least using 1 2 3 Cons by simp
qed (simp add: Random_hosts Least_fold)

theorem pick_strategies_witness:
  "LeastConnectionsPickStrategy (\<lambda>_. 0)
     (Some [(''a'', \<lparr>pp_key = ''a'', pp_TotalConns = 4, pp_IdleConns = 1\<rparr>), (''b'', \<lparr>pp_key = ''b'', pp_TotalConns = 4, pp_IdleConns = 3\<rparr>)]) =
   Some \<lparr>pp_key = ''b'', pp_TotalConns = 4, pp_IdleConns = 3\<rparr>"
  using pick_strategies [of "\<lambda>_. 0" "[(''a'', \<lparr>pp_key = ''a'', pp_TotalConns = 4, pp_IdleConns = 1\<rparr>),
    (''b'', \<lparr>pp_key = ''b'', pp_TotalConns = 4, pp_IdleConns = 3\<rparr>)]"]
  by (auto simp: pool_load_def)

text \<open>
  The least connections strategy takes a minimum of 0 for no minimum yet: of the last two standbys it meets it picks the last,
  whatever its load, when the one before is idle.
\<close>

theorem least_connections_leaves_idle:
  assumes "pool_load h = 0" and "\<forall>x \<in> snd ` set m. 0 \<le> pool_load x"
  shows "LeastConnectionsPickStrategy draw (Some (m @ [(k, h), (k', h')])) = Some h'"
proof -
  obtain mn r where st: "fold least_step (map snd m) (0, None) = (mn, r)" by fastforce
  have "0 \<le> mn"
  proof -
    have "0 \<le> fst st \<Longrightarrow> \<forall>x \<in> snd ` set m. 0 \<le> pool_load x \<Longrightarrow> 0 \<le> fst (fold least_step (map snd m) st)" for st
    proof (induction m arbitrary: st)
      case (Cons x xs)
      have "0 \<le> fst (least_step (snd x) st)" using Cons.prems by (auto simp: least_step_def Let_def split: prod.splits)
      with Cons.IH Cons.prems show ?case by simp
    qed simp
    from this [of "(0, None)"] st assms(2) show ?thesis by simp
  qed
  then have "least_step h (mn, r) = (0, Some h)" using assms(1) by (auto simp: least_step_def Let_def)
  then show ?thesis by (simp add: Least_fold st) (simp add: least_step_def Let_def)
qed

theorem least_connections_leaves_idle_witness:
  "LeastConnectionsPickStrategy (\<lambda>_. 0)
     (Some [(''a'', \<lparr>pp_key = ''a'', pp_TotalConns = 2, pp_IdleConns = 2\<rparr>), (''b'', \<lparr>pp_key = ''b'', pp_TotalConns = 9, pp_IdleConns = 0\<rparr>)]) =
   Some \<lparr>pp_key = ''b'', pp_TotalConns = 9, pp_IdleConns = 0\<rparr>"
  using least_connections_leaves_idle [of "\<lparr>pp_key = ''a'', pp_TotalConns = 2, pp_IdleConns = 2\<rparr>" "[]"]
  by (simp add: pool_load_def)

text \<open>
  The settings of the standbys keep every value that is set, except the pick strategy and the retry interval of unhealthy
  replicas: the manager picks at random and retries after 30 minutes whatever the options say.
\<close>

theorem pick_strategy_ignored:
  "sm_PickStrategy (normalizeConfig (standby_settings (cf_StandbyConfig (pgw_settings options)))) = Some RandomPickStrategy \<and>
   sm_UnhealthyStandbyRetryInterval (normalizeConfig (standby_settings (cf_StandbyConfig (pgw_settings options)))) =
     1800000000000 \<and>
   sm_RetriesBeforeUnhealthy (normalizeConfig (standby_settings (cf_StandbyConfig (pgw_settings (options @ [WithStandbyConfig c]))))) =
     (if sc_RetriesBeforeUnhealthy c > 0 then sc_RetriesBeforeUnhealthy c else 5) \<and>
   sm_HostHealthCheckInterval (normalizeConfig (standby_settings (cf_StandbyConfig (pgw_settings (options @ [WithStandbyConfig c]))))) =
     (if sc_HealthCheckInterval c > 0 then sc_HealthCheckInterval c else 5000000000)"
proof -
  have "sc_PickStrategy (mergeStandbyPoolConfigWithDefault c) = Some RandomPickStrategy"
    "sc_UnhealthyReplicaRetryInterval (mergeStandbyPoolConfigWithDefault c) = 1800000000000"
    "sc_RetriesBeforeUnhealthy (mergeStandbyPoolConfigWithDefault c) =
       (if sc_RetriesBeforeUnhealthy c > 0 then sc_RetriesBeforeUnhealthy c else 5)"
    "sc_HealthCheckInterval (mergeStandbyPoolConfigWithDefault c) =
       (if sc_HealthCheckInterval c > 0 then sc_HealthCheckInterval c else 5000000000)" for c
    by (simp_all add: mergeStandbyPoolConfigWithDefault_def DefaultStandbyPoolConfig_def Let_def)
  note merged = this
  have "sm_PickStrategy (normalizeConfig s) = (if sm_PickStrategy s = None then Some RandomPickStrategy else sm_PickStrategy s)"
    "sm_UnhealthyStandbyRetryInterval (normalizeConfig s) =
       (if sm_UnhealthyStandbyRetryInterval s = 0 then 1800000000000 else sm_UnhealthyStandbyRetryInterval s)"
    "sm_RetriesBeforeUnhealthy (normalizeConfig s) = (if sm_RetriesBeforeUnhealthy s = 0 then 5 else sm_RetriesBeforeUnhealthy s)"
    "sm_HostHealthCheckInterval (normalizeConfig s) =
       (if sm_HostHealthCheckInterval s = 0 then 5000000000 else sm_HostHealthCheckInterval s)" for s
    by (simp_all add: normalizeConfig_def DefaultStandbyPoolConfig_def Let_def)
  note normalized = this
  have "cf_StandbyConfig (pgw_settings options) =
      mergeStandbyPoolConfigWithDefault (cf_StandbyConfig (fold config_apply options
        \<lparr>cf_ApplicationName = [], cf_Tracer = False, cf_PrimaryConfig = DefaultPrimaryPoolConfig,
         cf_StandbyConfig = DefaultStandbyPoolConfig, cf_MigrationVerifier = None\<rparr>))" for options :: "'a config_option list"
    by (simp add: pgw_settings_def Let_def)
  then show ?thesis
    by (simp add: normalized merged standby_settings_def)
qed

end
