(* ===== verification/Pg_Pool.thy ===== *)
theory Pg_Pool
  imports Pg_Config
begin

text \<open>
  \<^verbatim>\<open>src/infra/pgw\<close>, second part: the state of a pool and its subscribers (\<^verbatim>\<open>pool_state.go\<close>), connecting with retries and health
  checks (\<^verbatim>\<open>pool.go\<close>), the manager of primary and standbys (\<^verbatim>\<open>pool_manager.go\<close>), and the life of a standby between the
  healthy and the unhealthy map (\<^verbatim>\<open>standby_manager.go\<close>).
\<close>

section \<open>States and subscribers\<close>

datatype pool_state = HostStateConnecting | HostStateConnected | HostStateRetrying | HostStateClosed | HostStateError

text \<open>A subscriber's channel holds up to four states; a state that finds it full is dropped.\<close>

definition offer :: "pool_state \<Rightarrow> pool_state list \<Rightarrow> pool_state list" where
  "offer st buf = (if length buf < 4 then buf @ [st] else buf)"

record host_state =
  hs_state :: pool_state
  hs_mode :: string
  hs_channels :: "(nat \<times> pool_state list) list"
  hs_closed :: bool

definition notifyChange :: "host_state \<Rightarrow> host_state" where
  "notifyChange s = s\<lparr>hs_channels := map (\<lambda>(ch, buf). (ch, offer (hs_state s) buf)) (hs_channels s)\<rparr>"

definition state_Set :: "pool_state \<Rightarrow> host_state \<Rightarrow> host_state" where
  "state_Set st s = (if st = hs_state s then s else notifyChange (s\<lparr>hs_state := st\<rparr>))"

text \<open>\<open>ch\<close> is the new channel. Its context ends with \<open>Unsubscribe\<close>.\<close>

definition SubscribeChange :: "nat \<Rightarrow> host_state \<Rightarrow> host_state" where
  "SubscribeChange ch s = s\<lparr>hs_channels := hs_channels s @ [(ch, [])]\<rparr>"

fun remove_channel :: "nat \<Rightarrow> (nat \<times> pool_state list) list \<Rightarrow> (nat \<times> pool_state list) list" where
  "remove_channel ch [] = []"
| "remove_channel ch (c # cs) = (if fst c = ch then cs else c # remove_channel ch cs)"

definition Unsubscribe :: "nat \<Rightarrow> host_state \<Rightarrow> host_state" where
  "Unsubscribe ch s = s\<lparr>hs_channels := remove_channel ch (hs_channels s)\<rparr>"

definition state_Close :: "host_state \<Rightarrow> host_state or_panic" where
  "state_Close s =
     (let s' = state_Set HostStateClosed s
      in if hs_closed s' then Inl (Panic ''close of closed channel'')
         else Inr (s'\<lparr>hs_closed := True, hs_channels := []\<rparr>))"

text \<open>The changes that a run of \<^verbatim>\<open>Set\<close> makes.\<close>

fun changes :: "pool_state \<Rightarrow> pool_state list \<Rightarrow> pool_state list" where
  "changes cur [] = []"
| "changes cur (st # rest) = (if st = cur then changes cur rest else st # changes st rest)"

section \<open>Connecting\<close>

text \<open>\<open>hp_checks\<close> counts the health checks that run.\<close>

record host_pool =
  hp_state :: host_state
  hp_checks :: nat
  hp_once :: bool

text \<open>A probe is what the server answers during one attempt: to the ping, to the acquisition of a connection, to the verifier.\<close>

record probe =
  pr_ping :: "string option"
  pr_acquire :: "string option"
  pr_verify :: "string option"

definition ErrMigrationVerify :: string where
  "ErrMigrationVerify = ''pgw: migration unverified''"

definition validateHealth :: "string option \<Rightarrow> host_pool \<Rightarrow> string option \<times> host_pool" where
  "validateHealth ping h =
     (case ping of
        Some e \<Rightarrow>
          (Some e, if hs_state (hp_state h) \<noteq> HostStateError then h\<lparr>hp_state := state_Set HostStateError (hp_state h)\<rparr> else h)
      | None \<Rightarrow>
          (None, if hs_state (hp_state h) \<noteq> HostStateConnected then h\<lparr>hp_state := state_Set HostStateConnected (hp_state h)\<rparr> else h))"

definition verifyMigration :: "bool \<Rightarrow> probe \<Rightarrow> host_pool \<Rightarrow> string option \<times> host_pool" where
  "verifyMigration verifier p h =
     (if \<not> verifier then (None, h)
      else case pr_acquire p of
        Some e \<Rightarrow> (Some e, h\<lparr>hp_state := state_Set HostStateError (hp_state h)\<rparr>)
      | None \<Rightarrow>
          (case pr_verify p of
             Some e \<Rightarrow> (Some (ErrMigrationVerify @ [CHR 0x0A] @ e), h\<lparr>hp_state := state_Set HostStateError (hp_state h)\<rparr>)
           | None \<Rightarrow> (None, h)))"

definition host_Connect :: "bool \<Rightarrow> probe \<Rightarrow> host_pool \<Rightarrow> string option \<times> host_pool" where
  "host_Connect verifier p h =
     (case validateHealth (pr_ping p) h of
        (Some e, h1) \<Rightarrow> (Some e, h1)
      | (None, h1) \<Rightarrow>
          (case verifyMigration verifier p h1 of
             (Some e, h2) \<Rightarrow> (Some e, h2)
           | (None, h2) \<Rightarrow> (None, h2\<lparr>hp_checks := Suc (hp_checks h2)\<rparr>)))"

text \<open>
  The attempts from the \<open>i\<close>-th on, \<open>n\<close> of them. \<open>probes i\<close> is what attempt \<open>i\<close> meets and \<open>closing i\<close> whether the pool is closed while
  it waits after attempt \<open>i\<close>. The result is the error, the times waited, and the pool.
\<close>

fun connect_attempts ::
    "retry_strategy \<Rightarrow> int \<Rightarrow> bool \<Rightarrow> (nat \<Rightarrow> probe) \<Rightarrow> (nat \<Rightarrow> bool) \<Rightarrow> nat \<Rightarrow> nat \<Rightarrow> string option \<Rightarrow> host_pool \<Rightarrow>
     string option \<times> duration list \<times> host_pool" where
  "connect_attempts strategy baseValue verifier probes closing 0 i lastErr h = (lastErr, [], h)"
| "connect_attempts strategy baseValue verifier probes closing (Suc n) i lastErr h =
     (case host_Connect verifier (probes i) h of
        (None, h') \<Rightarrow> (None, [], h')
      | (Some e, h') \<Rightarrow>
          if n = 0 then (Some e, [], h')
          else if closing i then (Some ''pool closed while waiting for reconnect'', [strategy baseValue (int i)], h')
          else (let (r, waits, h'') = connect_attempts strategy baseValue verifier probes closing n (Suc i) (Some e) h'
                in (r, strategy baseValue (int i) # waits, h'')))"

definition ConnectWithRetry ::
    "int \<Rightarrow> retry_strategy \<Rightarrow> int \<Rightarrow> bool \<Rightarrow> (nat \<Rightarrow> probe) \<Rightarrow> (nat \<Rightarrow> bool) \<Rightarrow> host_pool \<Rightarrow> string option \<times> duration list \<times> host_pool" where
  "ConnectWithRetry maxAttempts strategy baseValue verifier probes closing h =
     connect_attempts strategy baseValue verifier probes closing (nat maxAttempts) 1 None h"

text \<open>The health check: it ends with the first ping that fails, or when the pool is closed.\<close>

fun healthCheck :: "string option list \<Rightarrow> host_pool \<Rightarrow> host_pool" where
  "healthCheck [] h = h\<lparr>hp_checks := hp_checks h - 1\<rparr>"
| "healthCheck (ping # pings) h =
     (case validateHealth ping h of
        (Some _, h') \<Rightarrow> h'\<lparr>hp_checks := hp_checks h' - 1\<rparr>
      | (None, h') \<Rightarrow> healthCheck pings h')"

definition host_Close :: "host_pool \<Rightarrow> host_pool or_panic" where
  "host_Close h =
     (if hp_once h then Inr h
      else case state_Close (hp_state h) of
        Inl p \<Rightarrow> Inl p
      | Inr s \<Rightarrow> Inr (h\<lparr>hp_state := s, hp_once := True\<rparr>))"

definition newPool :: "bool \<Rightarrow> bool \<Rightarrow> string \<Rightarrow> string + host_pool" where
  "newPool pool errorParser mode =
     (if \<not> pool then Inl ''pgw: pool must not be nil''
      else if \<not> errorParser then Inl ''pgw: ErrorParser must not be nil''
      else Inr \<lparr>hp_state = \<lparr>hs_state = HostStateConnecting, hs_mode = mode, hs_channels = [], hs_closed = False\<rparr>,
                hp_checks = 0, hp_once = False\<rparr>)"

section \<open>Routing\<close>

definition ErrUnreachable :: string where
  "ErrUnreachable = ''the resource is unreachable now''"

record pool_manager =
  pm_master :: "(pg_pool \<times> host_pool) option"
  pm_store :: "(string, pg_pool) safemap"
  pm_unhealthyStore :: "(string, pg_pool) safemap"
  pm_pick :: pick_strategy

definition manager_Primary :: "pool_manager \<Rightarrow> string + pg_pool" where
  "manager_Primary c =
     (case pm_master c of
        None \<Rightarrow> Inl ErrUnreachable
      | Some (p, h) \<Rightarrow> if hs_state (hp_state h) \<noteq> HostStateConnected then Inl ErrUnreachable else Inr p)"

definition manager_Standby :: "(nat \<Rightarrow> nat) \<Rightarrow> pool_manager \<Rightarrow> string + pg_pool" where
  "manager_Standby draw c = (case pm_pick c draw (pm_store c) of None \<Rightarrow> Inl ErrUnreachable | Some h \<Rightarrow> Inr h)"

definition StandbyPreferred :: "(nat \<Rightarrow> nat) \<Rightarrow> pool_manager \<Rightarrow> string + pg_pool" where
  "StandbyPreferred draw c = (case pm_pick c draw (pm_store c) of None \<Rightarrow> manager_Primary c | Some h \<Rightarrow> Inr h)"

definition standby_Stats :: "pool_manager \<Rightarrow> nat \<times> nat" where
  "standby_Stats c = (safemap_Len (pm_store c), safemap_Len (pm_unhealthyStore c))"

definition moveToUnhealthy :: "string \<Rightarrow> pool_manager \<Rightarrow> pool_manager" where
  "moveToUnhealthy key c =
     (if key = [] then c
      else case safemap_Get (pm_store c) key of
        None \<Rightarrow> c
      | Some h \<Rightarrow>
          c\<lparr>pm_store := safemap_Remove key (pm_store c), pm_unhealthyStore := safemap_Set key h (pm_unhealthyStore c)\<rparr>)"

section \<open>Starting the manager\<close>

text \<open>
  \<open>parse\<close> and \<open>create\<close> are the errors of \<^verbatim>\<open>pgxpool.ParseConfig\<close> and \<^verbatim>\<open>NewWithConfig\<close> for an address, \<open>connect\<close> the result of the retries on the
  primary. The result is the error, whether the primary is left open, and the standbys whose goroutines were started.
\<close>

type_synonym startup = "string option \<times> bool \<times> string list"

fun add_standbys :: "(string \<Rightarrow> string option) \<Rightarrow> (string \<Rightarrow> string option) \<Rightarrow> string list \<Rightarrow> string option \<times> string list" where
  "add_standbys parse create [] = (None, [])"
| "add_standbys parse create (dsn # dsns) =
     (case parse dsn of
        Some e \<Rightarrow> (Some e, [])
      | None \<Rightarrow>
          (case create dsn of
             Some e \<Rightarrow> (Some e, [])
           | None \<Rightarrow> (let (r, started) = add_standbys parse create dsns in (r, dsn # started))))"

definition buildPrimaryPgxPool :: "(string \<Rightarrow> string option) \<Rightarrow> (string \<Rightarrow> string option) \<Rightarrow> primary_config \<Rightarrow> string option" where
  "buildPrimaryPgxPool parse create c =
     (if pc_DSN c = [] then Some ''primary config DSN is required''
      else case parse (pc_DSN c) of Some e \<Rightarrow> Some e | None \<Rightarrow> create (pc_DSN c))"

definition initPrimary ::
    "(string \<Rightarrow> string option) \<Rightarrow> (string \<Rightarrow> string option) \<Rightarrow> string option \<Rightarrow> primary_config \<Rightarrow> string option \<times> bool" where
  "initPrimary parse create connect c =
     (case buildPrimaryPgxPool parse create c of
        Some e \<Rightarrow> (Some e, False)
      | None \<Rightarrow> (case connect of Some e \<Rightarrow> (Some e, False) | None \<Rightarrow> (None, True)))"

definition NewPoolManager ::
    "(string \<Rightarrow> string option) \<Rightarrow> (string \<Rightarrow> string option) \<Rightarrow> string option \<Rightarrow> 'v config_option list \<Rightarrow> startup" where
  "NewPoolManager parse create connect options =
     (let cfg = pgw_settings options
      in case initPrimary parse create connect (cf_PrimaryConfig cfg) of
           (Some e, up) \<Rightarrow> (Some e, up, [])
         | (None, up) \<Rightarrow>
             (case add_standbys parse create (sc_DSN (cf_StandbyConfig cfg)) of
                (Some e, started) \<Rightarrow> (Some e, False, started)
              | (None, started) \<Rightarrow> (None, up, started)))"

section \<open>The life of a standby\<close>

text \<open>
  The goroutines that act on one standby, whose key no other standby has: the worker is the goroutine of \<^verbatim>\<open>AddStandby\<close>, then the one
  of \<^verbatim>\<open>monitorUnhealthy\<close> (connecting again, and moving back, which is done before the next tick); the monitor is \<^verbatim>\<open>monitorStateChange\<close>.
  A step is one operation on a map, on the state of the pool or on the subscriber's channel.
\<close>

datatype worker_pc =
    WConnect | WFailed | WStore | WSpawn | WIdle | WRetry | WMove | WRemoveUnhealthy | WStoreBack

datatype monitor_pc =
    MNone | MNew | MWait "pool_state list" | MGet | MRemove | MSetUnhealthy

record standby =
  sb_state :: pool_state
  sb_checks :: nat
  sb_store :: bool
  sb_unhealthy :: bool
  sb_worker :: worker_pc
  sb_monitor :: monitor_pc
  sb_since :: pool_state

text \<open>\<open>sb_since\<close> is the state of the pool when the monitor subscribed.\<close>

definition sb_set :: "pool_state \<Rightarrow> standby \<Rightarrow> standby" where
  "sb_set st s =
     (if st = sb_state s then s
      else s\<lparr>sb_state := st,
             sb_monitor := (case sb_monitor s of MWait buf \<Rightarrow> MWait (offer st buf) | m \<Rightarrow> m)\<rparr>)"

definition sb_init :: standby where
  "sb_init = \<lparr>sb_state = HostStateConnecting, sb_checks = 0, sb_store = False, sb_unhealthy = False, sb_worker = WConnect,
     sb_monitor = MNone, sb_since = HostStateConnecting\<rparr>"

fun after_connect :: "worker_pc \<Rightarrow> worker_pc" where
  "after_connect WConnect = WStore"
| "after_connect WRetry = WMove"
| "after_connect w = w"

fun after_failure :: "worker_pc \<Rightarrow> worker_pc" where
  "after_failure WConnect = WFailed"
| "after_failure WRetry = WIdle"
| "after_failure w = w"

inductive sb_step :: "standby \<Rightarrow> standby \<Rightarrow> bool" where
  connects: "sb_worker s \<in> {WConnect, WRetry} \<Longrightarrow>
    sb_step s ((sb_set HostStateConnected s)\<lparr>sb_checks := Suc (sb_checks s), sb_worker := after_connect (sb_worker s)\<rparr>)"
| no_ping: "sb_worker s \<in> {WConnect, WRetry} \<Longrightarrow> sb_step s (sb_set HostStateError s)"
| unverified: "sb_worker s \<in> {WConnect, WRetry} \<Longrightarrow> sb_step s (sb_set HostStateError (sb_set HostStateConnected s))"
| gives_up: "sb_worker s \<in> {WConnect, WRetry} \<Longrightarrow> sb_state s = HostStateError \<Longrightarrow> sb_step s (s\<lparr>sb_worker := after_failure (sb_worker s)\<rparr>)"
| fails: "sb_worker s = WFailed \<Longrightarrow> sb_step s (s\<lparr>sb_unhealthy := True, sb_worker := WIdle\<rparr>)"
| stores: "sb_worker s = WStore \<Longrightarrow> sb_step s (s\<lparr>sb_store := True, sb_worker := WSpawn\<rparr>)"
| spawns: "sb_worker s = WSpawn \<Longrightarrow> sb_step s (s\<lparr>sb_monitor := MNew, sb_worker := WIdle\<rparr>)"
| tick: "sb_worker s = WIdle \<Longrightarrow> sb_unhealthy s \<Longrightarrow> sb_step s (s\<lparr>sb_worker := WRetry\<rparr>)"
| moves: "sb_worker s = WMove \<Longrightarrow> sb_step s (s\<lparr>sb_monitor := MNew, sb_worker := WRemoveUnhealthy\<rparr>)"
| removes_unhealthy: "sb_worker s = WRemoveUnhealthy \<Longrightarrow> sb_step s (s\<lparr>sb_unhealthy := False, sb_worker := WStoreBack\<rparr>)"
| stores_back: "sb_worker s = WStoreBack \<Longrightarrow> sb_step s (s\<lparr>sb_store := True, sb_worker := WIdle\<rparr>)"
| subscribes: "sb_monitor s = MNew \<Longrightarrow> sb_step s (s\<lparr>sb_monitor := MWait [], sb_since := sb_state s\<rparr>)"
| sees_error: "sb_monitor s = MWait (HostStateError # buf) \<Longrightarrow> sb_step s (s\<lparr>sb_monitor := MGet\<rparr>)"
| sees_other: "sb_monitor s = MWait (st # buf) \<Longrightarrow> st \<notin> {HostStateError, HostStateClosed} \<Longrightarrow> sb_step s (s\<lparr>sb_monitor := MWait buf\<rparr>)"
| finds: "sb_monitor s = MGet \<Longrightarrow> sb_store s \<Longrightarrow> sb_step s (s\<lparr>sb_monitor := MRemove\<rparr>)"
| finds_nothing: "sb_monitor s = MGet \<Longrightarrow> \<not> sb_store s \<Longrightarrow> sb_step s (s\<lparr>sb_monitor := MNone\<rparr>)"
| removes: "sb_monitor s = MRemove \<Longrightarrow> sb_step s (s\<lparr>sb_store := False, sb_monitor := MSetUnhealthy\<rparr>)"
| sets_unhealthy: "sb_monitor s = MSetUnhealthy \<Longrightarrow> sb_step s (s\<lparr>sb_unhealthy := True, sb_monitor := MNone\<rparr>)"
| check_ok: "0 < sb_checks s \<Longrightarrow> sb_step s (sb_set HostStateConnected s)"
| check_fails: "0 < sb_checks s \<Longrightarrow> sb_step s ((sb_set HostStateError s)\<lparr>sb_checks := sb_checks s - 1\<rparr>)"

inductive sb_reach :: "standby \<Rightarrow> bool" where
  start: "sb_reach sb_init"
| step: "sb_reach s \<Longrightarrow> sb_step s s' \<Longrightarrow> sb_reach s'"

text \<open>Where the standby is, by what its goroutines do.\<close>

fun sb_place :: "worker_pc \<Rightarrow> monitor_pc \<Rightarrow> bool \<Rightarrow> bool \<Rightarrow> bool" where
  "sb_place WIdle MNone st un \<longleftrightarrow> st \<noteq> un"
| "sb_place WIdle MSetUnhealthy st un \<longleftrightarrow> \<not> st \<and> \<not> un"
| "sb_place WIdle m st un \<longleftrightarrow> st \<and> \<not> un"
| "sb_place WSpawn m st un \<longleftrightarrow> m = MNone \<and> st \<and> \<not> un"
| "sb_place WRetry m st un \<longleftrightarrow> m = MNone \<and> \<not> st \<and> un"
| "sb_place WMove m st un \<longleftrightarrow> m = MNone \<and> \<not> st \<and> un"
| "sb_place WRemoveUnhealthy m st un \<longleftrightarrow> m \<noteq> MRemove \<and> m \<noteq> MSetUnhealthy \<and> \<not> st \<and> un"
| "sb_place WStoreBack m st un \<longleftrightarrow> m \<noteq> MRemove \<and> m \<noteq> MSetUnhealthy \<and> \<not> st \<and> \<not> un"
| "sb_place w m st un \<longleftrightarrow> m = MNone \<and> \<not> st \<and> \<not> un"

text \<open>What a monitor that subscribed to a connected pool has in its channel.\<close>

fun heard :: "monitor_pc \<Rightarrow> pool_state \<Rightarrow> pool_state \<Rightarrow> bool" where
  "heard (MWait []) since cur \<longleftrightarrow> (since = HostStateConnected \<longrightarrow> cur = HostStateConnected)"
| "heard (MWait (st # buf)) since cur \<longleftrightarrow> (since = HostStateConnected \<longrightarrow> st = HostStateError)"
| "heard m since cur \<longleftrightarrow> True"

definition sb_inv :: "standby \<Rightarrow> bool" where
  "sb_inv s \<longleftrightarrow> sb_place (sb_worker s) (sb_monitor s) (sb_store s) (sb_unhealthy s) \<and> heard (sb_monitor s) (sb_since s) (sb_state s)"

section \<open>Lemmas\<close>

lemma state_Set_channel:
  "(ch, buf) \<in> set (hs_channels s) \<Longrightarrow>
   (ch, if st = hs_state s then buf else offer st buf) \<in> set (hs_channels (state_Set st s))"
  by (force simp: state_Set_def notifyChange_def)

lemma state_Set_state [simp]: "hs_state (state_Set st s) = st"
  by (simp add: state_Set_def notifyChange_def)

lemma offer_take: "length buf \<le> 4 \<Longrightarrow> offer st buf = take 4 (buf @ [st])"
  by (auto simp: offer_def take_Cons')

lemma sets_channel:
  assumes "(ch, buf) \<in> set (hs_channels s)" and "length buf \<le> 4"
  shows "(ch, take 4 (buf @ changes (hs_state s) sts)) \<in> set (hs_channels (fold state_Set sts s))"
  using assms
proof (induction sts arbitrary: s buf)
  case (Cons st sts)
  show ?case
  proof (cases "st = hs_state s")
    case True
    with Cons show ?thesis by (simp add: state_Set_def)
  next
    case False
    let ?buf = "take 4 (buf @ [st])"
    have "(ch, ?buf) \<in> set (hs_channels (state_Set st s))"
      using state_Set_channel [OF Cons.prems(1), of st] False offer_take [OF Cons.prems(2)] by simp
    from Cons.IH [OF this] have "(ch, take 4 (?buf @ changes st sts)) \<in> set (hs_channels (fold state_Set (st # sts) s))"
      by simp
    moreover have "take 4 (?buf @ changes st sts) = take 4 (buf @ st # changes st sts)"
      using Cons.prems(2) by (cases "length buf = 4") (auto simp: take_Cons')
    ultimately show ?thesis using False by simp
  qed
qed simp

lemma sb_set_simps [simp]:
  "sb_state (sb_set st s) = st" "sb_worker (sb_set st s) = sb_worker s" "sb_store (sb_set st s) = sb_store s"
  "sb_unhealthy (sb_set st s) = sb_unhealthy s" "sb_checks (sb_set st s) = sb_checks s" "sb_since (sb_set st s) = sb_since s"
  by (auto simp: sb_set_def)

lemma sb_set_monitor:
  "sb_monitor (sb_set st s) =
     (case sb_monitor s of MWait buf \<Rightarrow> MWait (if st = sb_state s then buf else offer st buf) | m \<Rightarrow> m)"
  by (auto simp: sb_set_def split: monitor_pc.splits)

lemma sb_place_set: "sb_place w (sb_monitor (sb_set x s)) st un = sb_place w (sb_monitor s) st un"
  by (cases w; cases "sb_monitor s") (simp_all add: sb_set_monitor)

lemma heard_set:
  assumes "x \<in> {HostStateConnected, HostStateError}" and "heard (sb_monitor s) (sb_since s) (sb_state s)"
  shows "heard (sb_monitor (sb_set x s)) (sb_since s) x"
proof (cases "sb_monitor s")
  case (MWait buf)
  with assms show ?thesis by (cases buf) (auto simp: sb_set_monitor offer_def)
qed (simp_all add: sb_set_monitor)

lemma sb_inv_set: "x \<in> {HostStateConnected, HostStateError} \<Longrightarrow> sb_inv s \<Longrightarrow> sb_inv (sb_set x s)"
  by (simp add: sb_inv_def sb_place_set heard_set)

lemma sb_inv_step: "sb_step s s' \<Longrightarrow> sb_inv s \<Longrightarrow> sb_inv s'"
proof (induction rule: sb_step.induct)
  case (connects s)
  then have "sb_inv (sb_set HostStateConnected s)" by (simp add: sb_inv_set)
  with connects show ?case by (auto simp: sb_inv_def)
next
  case (check_fails s)
  then have "sb_inv (sb_set HostStateError s)" by (simp add: sb_inv_set)
  then show ?case by (simp add: sb_inv_def)
next
  case (gives_up s)
  then show ?case by (auto simp: sb_inv_def)
next
  case (removes_unhealthy s)
  then show ?case by (cases "sb_monitor s") (auto simp: sb_inv_def)
next
  case (stores_back s)
  then show ?case by (cases "sb_monitor s") (auto simp: sb_inv_def)
next
  case (subscribes s)
  then show ?case by (cases "sb_worker s") (auto simp: sb_inv_def)
next
  case (sees_error s buf)
  then show ?case by (cases "sb_worker s") (auto simp: sb_inv_def)
next
  case (sees_other s st buf)
  then show ?case by (cases "sb_worker s"; cases buf) (auto simp: sb_inv_def)
next
  case (finds s)
  then show ?case by (cases "sb_worker s") (auto simp: sb_inv_def)
next
  case (finds_nothing s)
  then show ?case by (cases "sb_worker s") (auto simp: sb_inv_def)
next
  case (removes s)
  then show ?case by (cases "sb_worker s") (auto simp: sb_inv_def)
next
  case (sets_unhealthy s)
  then show ?case by (cases "sb_worker s") (auto simp: sb_inv_def)
next
  case (tick s)
  then show ?case by (cases "sb_monitor s") (auto simp: sb_inv_def)
qed (auto simp: sb_inv_set, auto simp: sb_inv_def)

lemma sb_inv_reach: "sb_reach s \<Longrightarrow> sb_inv s"
  by (induction rule: sb_reach.induct) (auto simp: sb_inv_step, simp add: sb_inv_def sb_init_def)

lemma validateHealth_state:
  "validateHealth ping h = (r, h') \<Longrightarrow>
     r = ping \<and> hs_state (hp_state h') = (if ping = None then HostStateConnected else HostStateError) \<and> hp_checks h' = hp_checks h"
  by (auto simp: validateHealth_def split: option.splits if_splits)

definition attempt_ok :: "bool \<Rightarrow> probe \<Rightarrow> bool" where
  "attempt_ok verifier p \<longleftrightarrow> pr_ping p = None \<and> (verifier \<longrightarrow> pr_acquire p = None \<and> pr_verify p = None)"

lemma host_Connect_state:
  assumes "host_Connect verifier p h = (r, h')"
  shows "(r = None \<longleftrightarrow> attempt_ok verifier p) \<and>
    hs_state (hp_state h') = (if attempt_ok verifier p then HostStateConnected else HostStateError) \<and>
    hp_checks h' = (if attempt_ok verifier p then Suc (hp_checks h) else hp_checks h)"
proof (cases "pr_ping p")
  case None
  obtain h1 where "validateHealth None h = (None, h1)" by (simp add: validateHealth_def)
  with assms None validateHealth_state [of None h None h1] show ?thesis
    by (cases "pr_acquire p"; cases "pr_verify p")
      (auto simp: host_Connect_def verifyMigration_def attempt_ok_def dest: sym [of "Some _"] split: if_splits)
next
  case (Some e)
  with assms show ?thesis by (auto simp: host_Connect_def validateHealth_def attempt_ok_def split: if_splits)
qed

lemma connect_attempts_spec:
  assumes "connect_attempts strategy b verifier probes (\<lambda>_. False) (Suc n) i lastErr h = (r, waits, h')"
  shows "\<exists>k \<le> n. waits = map (\<lambda>j. strategy b (int j)) [i..<i + k] \<and> (\<forall>j. i \<le> j \<and> j < i + k \<longrightarrow> \<not> attempt_ok verifier (probes j)) \<and>
    (if r = None then attempt_ok verifier (probes (i + k)) else k = n \<and> \<not> attempt_ok verifier (probes (i + n))) \<and>
    hs_state (hp_state h') = (if r = None then HostStateConnected else HostStateError) \<and>
    hp_checks h' = (if r = None then Suc (hp_checks h) else hp_checks h)"
  using assms
proof (induction n arbitrary: i lastErr h waits)
  case 0
  obtain r1 h1 where c: "host_Connect verifier (probes i) h = (r1, h1)" by fastforce
  with 0 host_Connect_state [OF c] show ?case by (auto split: option.splits)
next
  case (Suc n)
  obtain r1 h1 where c: "host_Connect verifier (probes i) h = (r1, h1)" by fastforce
  show ?case
  proof (cases r1)
    case None
    with Suc.prems c host_Connect_state [OF c] show ?thesis by (auto intro!: exI [of _ 0])
  next
    case (Some e)
    obtain r2 w2 h2 where rest: "connect_attempts strategy b verifier probes (\<lambda>_. False) (Suc n) (Suc i) (Some e) h1 = (r2, w2, h2)"
      by (metis surj_pair)
    from Suc.prems c Some rest have eqs: "r = r2" "h' = h2" "waits = strategy b (int i) # w2"
      by (simp_all del: connect_attempts.simps add: connect_attempts.simps(2) [of _ _ _ _ _ "Suc n"])
    from Suc.IH [OF rest [folded eqs]] obtain k where k: "k \<le> n"
      "w2 = map (\<lambda>j. strategy b (int j)) [Suc i..<Suc i + k]"
      "\<forall>j. Suc i \<le> j \<and> j < Suc i + k \<longrightarrow> \<not> attempt_ok verifier (probes j)"
      "if r = None then attempt_ok verifier (probes (Suc i + k)) else k = n \<and> \<not> attempt_ok verifier (probes (Suc i + n))"
      "hs_state (hp_state h') = (if r = None then HostStateConnected else HostStateError)"
      "hp_checks h' = (if r = None then Suc (hp_checks h1) else hp_checks h1)" by blast
    have no: "\<not> attempt_ok verifier (probes i)" "hp_checks h1 = hp_checks h" using host_Connect_state [OF c] Some by auto
    have "[i..<i + Suc k] = i # [Suc i..<Suc i + k]" by (subst upt_conv_Cons) auto
    moreover have "\<not> attempt_ok verifier (probes j)" if "i \<le> j" "j < i + Suc k" for j
      using k(3) no(1) that by (cases "j = i") auto
    ultimately show ?thesis using k eqs(3) no(2) by (intro exI [of _ "Suc k"]) auto
  qed
qed

text \<open>A caller gets the primary only while it is connected, and a standby only from the healthy ones.\<close>

lemma StandbyPreferred_outcome:
  assumes "\<And>n. 0 < n \<Longrightarrow> draw n < n" and "pm_pick c = RandomPickStrategy" and "pm_store c = Some m"
    and "StandbyPreferred draw c = Inr p"
  shows "p \<in> snd ` set m \<or> (m = [] \<and> (\<exists>h. pm_master c = Some (p, h) \<and> hs_state (hp_state h) = HostStateConnected))"
proof (cases m)
  case Nil
  with assms show ?thesis
    by (auto simp: StandbyPreferred_def Random_hosts manager_Primary_def split: option.splits if_splits)
next
  case (Cons x xs)
  have "draw (length m) < length m" using assms(1) Cons by simp
  then have "map snd m ! draw (length m) \<in> snd ` set m" by (metis length_map nth_mem set_map)
  with assms Cons show ?thesis by (simp add: StandbyPreferred_def Random_hosts)
qed

lemma moveToUnhealthy_keeps:
  assumes "pm_unhealthyStore c \<noteq> None" and "key \<noteq> []" and "safemap_Get (pm_store c) key = Some h"
  shows "safemap_Get (pm_store (moveToUnhealthy key c)) k = (if k = key then None else safemap_Get (pm_store c) k)"
    "safemap_Get (pm_unhealthyStore (moveToUnhealthy key c)) k = (if k = key then Some h else safemap_Get (pm_unhealthyStore c) k)"
  using assms by (simp_all add: moveToUnhealthy_def safemap_Get_Remove safemap_Get_Set)

text \<open>A start that fails closes the primary; the standbys that were started before the failure go on.\<close>

lemma NewPoolManager_failure:
  assumes "NewPoolManager parse create connect options = (Some e, up, started)"
  shows "\<not> up"
  using assms by (auto simp: NewPoolManager_def initPrimary_def Let_def split: option.splits prod.splits)

lemma add_standbys_failure:
  assumes "\<forall>d \<in> set ds. parse d = None \<and> create d = None" and "parse bad = Some e"
  shows "add_standbys parse create (ds @ bad # rest) = (Some e, ds)"
  using assms by (induction ds) auto

text \<open>A pool whose migrations are not verified is connected between the ping and the verifier's answer.\<close>

lemma unverified_shows_connected:
  assumes "pr_ping p = None" and "(ch, []) \<in> set (hs_channels (hp_state h))" and "hs_state (hp_state h) = HostStateError"
    and "pr_acquire p = None" and "pr_verify p = Some e"
  shows "(ch, [HostStateConnected, HostStateError]) \<in> set (hs_channels (hp_state (snd (host_Connect True p h))))"
  using sets_channel [OF assms(2), of "[HostStateConnected, HostStateError]"] assms
  by (simp add: host_Connect_def validateHealth_def verifyMigration_def)

section \<open>Properties\<close>

text \<open>
  A subscriber to the state of a pool receives the changes that follow its subscription in order, and no repetition, as long as no more
  than four of them are unread; later ones are dropped.
\<close>

theorem subscriber_hears_changes:
  "(ch, take 4 (changes (hs_state s) sts)) \<in> set (hs_channels (fold state_Set sts (SubscribeChange ch s))) \<and>
   hs_state (fold state_Set sts (SubscribeChange ch s)) = last (hs_state s # changes (hs_state s) sts)"
proof -
  let ?s = "SubscribeChange ch s"
  have "(ch, take 4 ([] @ changes (hs_state ?s) sts)) \<in> set (hs_channels (fold state_Set sts ?s))"
    by (rule sets_channel) (simp_all add: SubscribeChange_def)
  moreover have "hs_state (fold state_Set sts s0) = last (hs_state s0 # changes (hs_state s0) sts)" for s0
    by (induction sts arbitrary: s0) simp_all
  ultimately show ?thesis by (simp add: SubscribeChange_def)
qed

text \<open>
  \<^verbatim>\<open>ConnectWithRetry\<close> on a pool that is not closed meanwhile returns nil exactly when one of the attempts succeeds, at the first
  that does; before each further attempt it waits for what the strategy says of the attempt before, with the linear strategy for \<open>b\<close>, \<open>2 b\<close>,
  and so on, seconds; the pool is then connected with one more health check, and otherwise in error with none added.
\<close>

theorem ConnectWithRetry_first_success:
  assumes "0 < maxAttempts" and "0 < b" and "b * maxAttempts < 1000000000"
    and "ConnectWithRetry maxAttempts RetryStrategyLinear b verifier probes (\<lambda>_. False) h = (r, waits, h')"
  shows "(r = None \<longleftrightarrow> (\<exists>k. 1 \<le> k \<and> int k \<le> maxAttempts \<and> attempt_ok verifier (probes k))) \<and>
    (r = None \<longrightarrow> (let k = LEAST k. 1 \<le> k \<and> attempt_ok verifier (probes k) in waits = map (\<lambda>j. b * int j * 1000000000) [1..<k])) \<and>
    (r \<noteq> None \<longrightarrow> waits = map (\<lambda>j. b * int j * 1000000000) [1..<nat maxAttempts]) \<and>
    hs_state (hp_state h') = (if r = None then HostStateConnected else HostStateError) \<and>
    hp_checks h' = (if r = None then Suc (hp_checks h) else hp_checks h)"
proof -
  obtain n where n: "nat maxAttempts = Suc n" using assms(1) by (metis Suc_pred zero_less_nat_eq)
  from connect_attempts_spec [OF assms(4) [unfolded ConnectWithRetry_def n]] obtain k where k: "k \<le> n"
    "waits = map (\<lambda>j. RetryStrategyLinear b (int j)) [1..<1 + k]"
    "\<forall>j. 1 \<le> j \<and> j < 1 + k \<longrightarrow> \<not> attempt_ok verifier (probes j)"
    "if r = None then attempt_ok verifier (probes (1 + k)) else k = n \<and> \<not> attempt_ok verifier (probes (1 + n))"
    and h': "hs_state (hp_state h') = (if r = None then HostStateConnected else HostStateError)"
    "hp_checks h' = (if r = None then Suc (hp_checks h) else hp_checks h)" by blast
  have "RetryStrategyLinear b (int j) = b * int j * 1000000000" if "j \<le> n" for j
  proof -
    have "b * int j \<le> b * maxAttempts" using that n assms(1,2) by (intro mult_left_mono) linarith+
    with assms(2,3) have "0 \<le> b * int j" "b * int j < 1000000000" by (simp, linarith)
    then have "in_int64 (b * int j)" "in_int64 (b * int j * 1000000000)" by (simp_all add: in_int64_def)
    with assms(2) show ?thesis by (simp add: RetryStrategyLinear_def Let_def)
  qed
  then have waits: "waits = map (\<lambda>j. b * int j * 1000000000) [1..<Suc k]" using k(1,2) by (auto intro!: map_cong)
  have max: "int j \<le> maxAttempts \<longleftrightarrow> j \<le> Suc n" for j using n by linarith
  show ?thesis
  proof (cases "r = None")
    case True
    then have ok: "attempt_ok verifier (probes (Suc k))" using k(4) by simp
    have "(LEAST k. 1 \<le> k \<and> attempt_ok verifier (probes k)) = Suc k"
      by (rule Least_equality) (use ok k(3) in \<open>auto simp: not_less_eq_eq [symmetric] less_Suc_eq_le\<close>)
    with True waits h' k(1) ok show ?thesis unfolding max by (auto simp: Let_def intro!: exI [of _ "Suc k"])
  next
    case False
    then have "k = n" "\<not> attempt_ok verifier (probes (Suc n))" using k(4) by auto
    with False waits h' k(3) n show ?thesis unfolding max by (auto simp: le_Suc_eq less_Suc_eq_le)
  qed
qed

theorem ConnectWithRetry_first_success_witness:
  "fst (snd (ConnectWithRetry 5 RetryStrategyLinear 2 False
     (\<lambda>i. \<lparr>pr_ping = (if i < 3 then Some ''refused'' else None), pr_acquire = None, pr_verify = None\<rparr>) (\<lambda>_. False)
     \<lparr>hp_state = \<lparr>hs_state = HostStateConnecting, hs_mode = [], hs_channels = [], hs_closed = False\<rparr>, hp_checks = 0, hp_once = False\<rparr>)) =
   [2000000000, 4000000000]"
proof -
  let ?p = "\<lambda>i::nat. \<lparr>pr_ping = (if i < 3 then Some ''refused'' else None), pr_acquire = None, pr_verify = None\<rparr>"
  let ?h = "\<lparr>hp_state = \<lparr>hs_state = HostStateConnecting, hs_mode = [], hs_channels = [], hs_closed = False\<rparr>, hp_checks = 0, hp_once = False\<rparr>"
  obtain r waits h' where run: "ConnectWithRetry 5 RetryStrategyLinear 2 False ?p (\<lambda>_. False) ?h = (r, waits, h')"
    by (metis surj_pair)
  have ok: "attempt_ok False (?p k) \<longleftrightarrow> 3 \<le> k" for k by (auto simp: attempt_ok_def)
  have "(LEAST k::nat. 1 \<le> k \<and> 3 \<le> k) = 3" by (rule Least_equality) auto
  then have "waits = map (\<lambda>j. 2 * int j * 1000000000) [1..<3]"
    using ConnectWithRetry_first_success [OF _ _ _ run] unfolding ok by (auto simp: Let_def intro: exI [of _ 3])
  with run show ?thesis by (simp add: upt_conv_Cons numeral_eq_Suc)
qed



text \<open>
  A monitor that subscribed while its standby was connected reacts to the first change: when the pool is in error the monitor's
  next message is the error, and its own steps take the standby from the healthy to the unhealthy map.
\<close>

theorem standby_error_noticed:
  assumes "sb_reach s" and "sb_worker s = WIdle" and "sb_monitor s = MWait buf" and "sb_since s = HostStateConnected"
    and "sb_state s = HostStateError"
  shows "hd buf = HostStateError \<and>
    sb_step\<^sup>*\<^sup>* s (s\<lparr>sb_store := False, sb_unhealthy := True, sb_monitor := MNone\<rparr>)"
proof -
  from sb_inv_reach [OF assms(1)] have inv: "sb_place WIdle (MWait buf) (sb_store s) (sb_unhealthy s)"
    "heard (MWait buf) HostStateConnected HostStateError"
    using assms(2-5) by (simp_all add: sb_inv_def)
  then obtain rest where buf: "buf = HostStateError # rest" by (cases buf) auto
  from inv(1) have "sb_store s" by simp
  let ?s1 = "s\<lparr>sb_monitor := MGet\<rparr>" and ?s2 = "s\<lparr>sb_monitor := MRemove\<rparr>"
  let ?s3 = "s\<lparr>sb_store := False, sb_monitor := MSetUnhealthy\<rparr>"
  have "sb_step s ?s1" by (rule sees_error) (use assms(3) buf in simp)
  moreover have "sb_step ?s1 ?s2" using finds [of ?s1] \<open>sb_store s\<close> by simp
  moreover have "sb_step ?s2 ?s3" using removes [of ?s2] by simp
  moreover have "sb_step ?s3 (s\<lparr>sb_store := False, sb_unhealthy := True, sb_monitor := MNone\<rparr>)"
    using sets_unhealthy [of ?s3] by simp
  ultimately show ?thesis using buf by (auto intro: converse_rtranclp_into_rtranclp)
qed

theorem standby_error_noticed_witness:
  "sb_step\<^sup>*\<^sup>*
     (sb_init\<lparr>sb_state := HostStateError, sb_store := True, sb_worker := WIdle, sb_monitor := MWait [HostStateError], sb_since := HostStateConnected\<rparr>)
     (sb_init\<lparr>sb_state := HostStateError, sb_store := False, sb_unhealthy := True, sb_worker := WIdle, sb_monitor := MNone, sb_since := HostStateConnected\<rparr>)"
proof -
  let ?s1 = "sb_init\<lparr>sb_state := HostStateConnected, sb_checks := 1, sb_worker := WStore\<rparr>"
  let ?s2 = "?s1\<lparr>sb_worker := WSpawn, sb_store := True\<rparr>"
  let ?s3 = "?s2\<lparr>sb_worker := WIdle, sb_monitor := MNew\<rparr>"
  let ?s4 = "?s3\<lparr>sb_monitor := MWait [], sb_since := HostStateConnected\<rparr>"
  let ?s5 = "?s4\<lparr>sb_state := HostStateError, sb_checks := 0, sb_monitor := MWait [HostStateError]\<rparr>"
  have "sb_reach ?s1" using sb_reach.step [OF sb_reach.start connects] by (simp add: sb_init_def sb_set_def)
  then have "sb_reach ?s2" using sb_reach.step [OF _ stores, of ?s1] by (simp add: sb_init_def)
  then have "sb_reach ?s3" using sb_reach.step [OF _ spawns, of ?s2] by (simp add: sb_init_def)
  then have "sb_reach ?s4" using sb_reach.step [OF _ subscribes, of ?s3] by (simp add: sb_init_def)
  then have "sb_reach ?s5" using sb_reach.step [OF _ check_fails, of ?s4] by (simp add: sb_init_def sb_set_def offer_def)
  from standby_error_noticed [OF this, of "[HostStateError]"] show ?thesis by (simp add: sb_init_def)
qed

text \<open>A standby that is offered to callers and that nothing will look at again.\<close>

definition sb_stuck :: "standby \<Rightarrow> bool" where
  "sb_stuck s \<longleftrightarrow> sb_store s \<and> \<not> sb_unhealthy s \<and> sb_state s = HostStateError \<and> sb_checks s = 0 \<and> sb_worker s = WIdle \<and>
     sb_monitor s \<in> {MNone, MNew, MWait []}"

text \<open>
  A failure that is seen before the monitor subscribes is lost: the standby stays among the healthy ones, in error,
  with no health check, no monitor that will hear of it and no retry, and no step of its goroutines changes that.
\<close>

theorem standby_error_missed:
  "(\<exists>s. sb_reach s \<and> sb_stuck s) \<and> {s'. \<exists>s. sb_stuck s \<and> sb_step\<^sup>*\<^sup>* s s'} \<subseteq> {s'. sb_stuck s'}"
proof
  let ?s1 = "sb_init\<lparr>sb_state := HostStateConnected, sb_checks := 1, sb_worker := WStore\<rparr>"
  let ?s2 = "?s1\<lparr>sb_worker := WSpawn, sb_store := True\<rparr>"
  let ?s3 = "?s2\<lparr>sb_worker := WIdle, sb_monitor := MNew\<rparr>"
  let ?s4 = "?s3\<lparr>sb_state := HostStateError, sb_checks := 0\<rparr>"
  have "sb_reach ?s1" using sb_reach.step [OF sb_reach.start connects] by (simp add: sb_init_def sb_set_def)
  then have "sb_reach ?s2" using sb_reach.step [OF _ stores, of ?s1] by (simp add: sb_init_def)
  then have "sb_reach ?s3" using sb_reach.step [OF _ spawns, of ?s2] by (simp add: sb_init_def)
  then have "sb_reach ?s4" using sb_reach.step [OF _ check_fails, of ?s3] by (simp add: sb_init_def sb_set_def)
  moreover have "sb_stuck ?s4" by (simp add: sb_stuck_def sb_init_def)
  ultimately show "\<exists>s. sb_reach s \<and> sb_stuck s" by blast
  have one: "sb_stuck s'" if "sb_step s s'" "sb_stuck s" for s s'
    using that by (induction rule: sb_step.induct) (auto simp: sb_stuck_def)
  have "sb_stuck s'" if "sb_step\<^sup>*\<^sup>* s s'" "sb_stuck s" for s s'
    using that by (induction rule: rtranclp_induct) (auto intro: one)
  then show "{s'. \<exists>s. sb_stuck s \<and> sb_step\<^sup>*\<^sup>* s s'} \<subseteq> {s'. sb_stuck s'}" by blast
qed

end
