(* ===== verification/Pg_Primary.thy ===== *)
theory Pg_Primary
  imports Pg_Pool
begin

text \<open>
  \<^verbatim>\<open>src/infra/pgw\<close>, third part: the goroutines that keep the primary connected (\<^verbatim>\<open>startMasterMonitor\<close> and \<^verbatim>\<open>reconnectMasterLoop\<close> of
  \<^verbatim>\<open>pool_manager.go\<close>, with the health check of \<^verbatim>\<open>pool.go\<close>) as a step relation, closing the manager with all its pools, and the calls of a
  pool, whose errors go through the error processors (\<^verbatim>\<open>pool.go\<close>).
\<close>

section \<open>The life of the primary\<close>

text \<open>
  What the monitor of the primary does: it is about to subscribe; it waits on its channel; it has heard of an error and waits for the
  retry interval; it is in an attempt to connect (about to ping, with the answer of a ping that succeeded or of a step that failed not
  yet recorded, about to verify the migration, between two attempts); it has ended. A health check waits for its tick or has the
  answer of a ping.
\<close>

datatype primary_pc = PNew | PWait "pool_state list" | PLoop | PPing | PAlive | PDead | PVerify | PFailed | PGone

datatype check_pc = CTick | CAlive | CDead

text \<open>How far \<^verbatim>\<open>PoolManager.Close\<close> is with the primary: its own channel, the channel and connections of the pool, the state of the pool.\<close>

datatype close_pc = COpen | CManager | CPool | CState

record primary =
  pr_state :: pool_state
  pr_checks :: "check_pc list"
  pr_monitor :: primary_pc
  pr_open :: bool
  pr_since :: pool_state
  pr_close :: close_pc

text \<open>\<open>pr_open\<close> is whether the channel of the monitor is open, \<open>pr_since\<close> the state of the pool when it subscribed.\<close>

definition pr_set :: "pool_state \<Rightarrow> primary \<Rightarrow> primary" where
  "pr_set st s =
     (if st = pr_state s then s
      else s\<lparr>pr_state := st,
             pr_monitor := (case pr_monitor s of PWait buf \<Rightarrow> PWait (if pr_open s then offer st buf else buf) | m \<Rightarrow> m)\<rparr>)"

text \<open>\<^verbatim>\<open>initPrimary\<close> leaves a connected pool with its health check, and a monitor that was just started.\<close>

definition pr_init :: primary where
  "pr_init = \<lparr>pr_state = HostStateConnected, pr_checks = [CTick], pr_monitor = PNew, pr_open = False, pr_since = HostStateConnecting,
     pr_close = COpen\<rparr>"

definition pool_open :: "primary \<Rightarrow> bool" where
  "pool_open s \<longleftrightarrow> pr_close s \<in> {COpen, CManager}"

text \<open>The steps of the goroutines. Pgx answers no ping on a pool that was closed.\<close>

inductive pr_step :: "primary \<Rightarrow> primary \<Rightarrow> bool" where
  pr_subscribes: "pr_monitor s = PNew \<Longrightarrow> pr_step s (s\<lparr>pr_monitor := PWait [], pr_open := True, pr_since := pr_state s\<rparr>)"
| pr_hears_error: "pr_monitor s = PWait (HostStateError # buf) \<Longrightarrow> pr_step s (s\<lparr>pr_monitor := PLoop\<rparr>)"
| pr_hears_other: "pr_monitor s = PWait (st # buf) \<Longrightarrow> st \<noteq> HostStateError \<Longrightarrow> pr_step s (s\<lparr>pr_monitor := PWait buf\<rparr>)"
| pr_channel_ends: "pr_monitor s = PWait [] \<Longrightarrow> \<not> pr_open s \<Longrightarrow> pr_step s (s\<lparr>pr_monitor := PGone\<rparr>)"
| pr_monitor_stops: "pr_monitor s = PWait buf \<Longrightarrow> pr_close s \<noteq> COpen \<Longrightarrow> pr_step s (s\<lparr>pr_monitor := PGone\<rparr>)"
| pr_loop_stops: "pr_monitor s = PLoop \<Longrightarrow> pr_close s \<noteq> COpen \<Longrightarrow> pr_step s (s\<lparr>pr_monitor := PGone\<rparr>)"
| pr_retries: "pr_monitor s = PLoop \<Longrightarrow> pr_step s (s\<lparr>pr_monitor := PPing\<rparr>)"
| pr_ping_ok: "pr_monitor s = PPing \<Longrightarrow> pool_open s \<Longrightarrow> pr_step s (s\<lparr>pr_monitor := PAlive\<rparr>)"
| pr_ping_fails: "pr_monitor s = PPing \<Longrightarrow> pr_step s (s\<lparr>pr_monitor := PDead\<rparr>)"
| pr_alive: "pr_monitor s = PAlive \<Longrightarrow> pr_step s ((pr_set HostStateConnected s)\<lparr>pr_monitor := PVerify\<rparr>)"
| pr_dead: "pr_monitor s = PDead \<Longrightarrow> pr_step s ((pr_set HostStateError s)\<lparr>pr_monitor := PFailed\<rparr>)"
| pr_unverified: "pr_monitor s = PVerify \<Longrightarrow> pr_step s (s\<lparr>pr_monitor := PDead\<rparr>)"
| pr_verified: "pr_monitor s = PVerify \<Longrightarrow> pr_step s (s\<lparr>pr_checks := pr_checks s @ [CTick], pr_monitor := PNew\<rparr>)"
| pr_next_attempt: "pr_monitor s = PFailed \<Longrightarrow> pr_step s (s\<lparr>pr_monitor := PPing\<rparr>)"
| pr_gives_up: "pr_monitor s = PFailed \<Longrightarrow> pr_step s (s\<lparr>pr_monitor := PLoop\<rparr>)"
| pr_check_ok: "pr_checks s = xs @ CTick # ys \<Longrightarrow> pool_open s \<Longrightarrow> pr_step s (s\<lparr>pr_checks := xs @ CAlive # ys\<rparr>)"
| pr_check_fails: "pr_checks s = xs @ CTick # ys \<Longrightarrow> pr_step s (s\<lparr>pr_checks := xs @ CDead # ys\<rparr>)"
| pr_check_alive: "pr_checks s = xs @ CAlive # ys \<Longrightarrow> pr_step s ((pr_set HostStateConnected s)\<lparr>pr_checks := xs @ CTick # ys\<rparr>)"
| pr_check_dead: "pr_checks s = xs @ CDead # ys \<Longrightarrow> pr_step s ((pr_set HostStateError s)\<lparr>pr_checks := xs @ ys\<rparr>)"
| pr_check_stops: "pr_checks s = xs @ CTick # ys \<Longrightarrow> \<not> pool_open s \<Longrightarrow> pr_step s (s\<lparr>pr_checks := xs @ ys\<rparr>)"
| pr_close_manager: "pr_close s = COpen \<Longrightarrow> pr_step s (s\<lparr>pr_close := CManager\<rparr>)"
| pr_close_pool: "pr_close s = CManager \<Longrightarrow> pr_step s (s\<lparr>pr_close := CPool\<rparr>)"
| pr_close_state: "pr_close s = CPool \<Longrightarrow> pr_step s ((pr_set HostStateClosed s)\<lparr>pr_close := CState, pr_open := False\<rparr>)"

inductive pr_reach :: "primary \<Rightarrow> bool" where
  pr_start: "pr_reach pr_init"
| pr_more: "pr_reach s \<Longrightarrow> pr_step s s' \<Longrightarrow> pr_reach s'"

text \<open>The monitor is bringing the primary back, or will with what is in its channel.\<close>

fun pc_reconnecting :: "primary_pc \<Rightarrow> bool" where
  "pc_reconnecting (PWait buf) \<longleftrightarrow> HostStateError \<in> set buf"
| "pc_reconnecting m \<longleftrightarrow> m \<notin> {PNew, PGone}"

text \<open>An error that no monitor will hear of.\<close>

definition pr_missed :: "primary \<Rightarrow> bool" where
  "pr_missed s \<longleftrightarrow> pr_state s = HostStateError \<and> pr_checks s = [] \<and> pr_monitor s \<in> {PNew, PWait []}"

text \<open>The state of an open primary, by what its monitor does.\<close>

fun pr_place :: "primary_pc \<Rightarrow> pool_state \<Rightarrow> pool_state \<Rightarrow> check_pc list \<Rightarrow> bool" where
  "pr_place PNew since st cs \<longleftrightarrow> (st = HostStateConnected \<and> cs \<noteq> [] \<or> st = HostStateError \<and> cs = [])"
| "pr_place (PWait buf) since st cs \<longleftrightarrow>
     (st = HostStateConnected \<and> cs \<noteq> [] \<and> since = HostStateConnected \<and> buf = [] \<or>
      st = HostStateError \<and> cs = [] \<and> buf = (if since = HostStateConnected then [HostStateError] else []))"
| "pr_place PLoop since st cs \<longleftrightarrow> st = HostStateError"
| "pr_place PPing since st cs \<longleftrightarrow> st = HostStateError"
| "pr_place PFailed since st cs \<longleftrightarrow> st = HostStateError"
| "pr_place PVerify since st cs \<longleftrightarrow> st = HostStateConnected"
| "pr_place PAlive since st cs \<longleftrightarrow> st = HostStateError"
| "pr_place PDead since st cs \<longleftrightarrow> st \<in> {HostStateConnected, HostStateError}"
| "pr_place PGone since st cs \<longleftrightarrow> False"

definition pr_inv :: "primary \<Rightarrow> bool" where
  "pr_inv s \<longleftrightarrow> length (pr_checks s) \<le> 1 \<and> (pc_reconnecting (pr_monitor s) \<longrightarrow> pr_checks s = []) \<and>
     (pr_close s = COpen \<longrightarrow> pr_place (pr_monitor s) (pr_since s) (pr_state s) (pr_checks s))"

lemma pr_set_simps [simp]:
  "pr_state (pr_set st s) = st" "pr_checks (pr_set st s) = pr_checks s" "pr_open (pr_set st s) = pr_open s"
  "pr_since (pr_set st s) = pr_since s" "pr_close (pr_set st s) = pr_close s"
  by (auto simp: pr_set_def)

lemma pr_set_monitor:
  "pr_monitor (pr_set st s) =
     (case pr_monitor s of PWait buf \<Rightarrow> PWait (if st \<noteq> pr_state s \<and> pr_open s then offer st buf else buf) | m \<Rightarrow> m)"
  by (auto simp: pr_set_def split: primary_pc.splits)

lemma pr_set_reconnecting:
  "pc_reconnecting (pr_monitor (pr_set st s)) \<Longrightarrow> pc_reconnecting (pr_monitor s) \<or> st = HostStateError"
  by (auto simp: pr_set_monitor offer_def split: primary_pc.splits if_splits)

text \<open>A monitor that waits while the manager is open has an open channel.\<close>

definition pr_listens :: "primary \<Rightarrow> bool" where
  "pr_listens s \<longleftrightarrow> (pr_close s \<noteq> CState \<longrightarrow> (\<forall>buf. pr_monitor s = PWait buf \<longrightarrow> pr_open s))"

lemma pr_listens_step: "pr_step s s' \<Longrightarrow> pr_listens s \<Longrightarrow> pr_listens s'"
  by (induction rule: pr_step.induct) (auto simp: pr_listens_def pr_set_monitor split: primary_pc.splits)

lemma one_check: "length (xs @ c # ys) \<le> 1 \<longleftrightarrow> xs = [] \<and> ys = []"
  by (cases xs) auto

lemma pr_place_watched:
  "pr_place m since st [c] \<Longrightarrow> \<not> pc_reconnecting m \<Longrightarrow> st = HostStateConnected"
  by (cases m) auto

lemma pr_place_error:
  assumes "pr_place m since st [c]" and "\<not> pc_reconnecting m"
  shows "pr_place (case m of PWait buf \<Rightarrow> PWait (offer HostStateError buf) | m \<Rightarrow> m) since HostStateError []"
  using assms by (cases m) (auto simp: offer_def)

lemma pr_inv_check_alive:
  assumes "pr_checks s = xs @ CAlive # ys" and "pr_inv s"
  shows "pr_inv ((pr_set HostStateConnected s)\<lparr>pr_checks := xs @ CTick # ys\<rparr>)"
proof -
  from assms have c: "xs = []" "ys = []" "pr_checks s = [CAlive]" and m: "\<not> pc_reconnecting (pr_monitor s)"
    by (auto simp: pr_inv_def one_check)
  have "pr_place (pr_monitor (pr_set HostStateConnected s)) (pr_since s) HostStateConnected [CTick]" if "pr_close s = COpen"
  proof -
    from that assms(2) c have place: "pr_place (pr_monitor s) (pr_since s) (pr_state s) [CAlive]" by (simp add: pr_inv_def)
    from pr_place_watched [OF place m] have "pr_state s = HostStateConnected" .
    with place m show ?thesis by (cases "pr_monitor s") (auto simp: pr_set_def)
  qed
  with c m pr_set_reconnecting [of HostStateConnected s] show ?thesis by (auto simp: pr_inv_def)
qed

lemma pr_inv_check_dead:
  assumes "pr_checks s = xs @ CDead # ys" and "pr_inv s" and "pr_listens s"
  shows "pr_inv ((pr_set HostStateError s)\<lparr>pr_checks := xs @ ys\<rparr>)"
proof -
  from assms have c: "xs = []" "ys = []" "pr_checks s = [CDead]" and m: "\<not> pc_reconnecting (pr_monitor s)"
    by (auto simp: pr_inv_def one_check)
  have "pr_place (pr_monitor (pr_set HostStateError s)) (pr_since s) HostStateError []" if "pr_close s = COpen"
  proof -
    from that assms(2) c have place: "pr_place (pr_monitor s) (pr_since s) (pr_state s) [CDead]" by (simp add: pr_inv_def)
    from pr_place_watched [OF place m] that assms(3)
    have "pr_monitor (pr_set HostStateError s) = (case pr_monitor s of PWait buf \<Rightarrow> PWait (offer HostStateError buf) | m \<Rightarrow> m)"
      by (simp add: pr_set_monitor pr_listens_def split: primary_pc.splits)
    then show ?thesis using pr_place_error [OF place m] by simp
  qed
  with c show ?thesis by (simp add: pr_inv_def)
qed

lemma pr_inv_close:
  "pr_inv s \<Longrightarrow> pr_close s = CPool \<Longrightarrow> pr_inv ((pr_set HostStateClosed s)\<lparr>pr_close := CState, pr_open := False\<rparr>)"
  using pr_set_reconnecting [of HostStateClosed s] by (auto simp: pr_inv_def)

lemma pr_inv_step:
  assumes "pr_step s s'" and "pr_listens s" and "pr_inv s"
  shows "pr_inv s'"
  using assms
proof (induction rule: pr_step.induct)
  case (pr_hears_error s buf)
  then show ?case by (simp add: pr_inv_def)
next
  case (pr_hears_other s st buf)
  then show ?case by (auto simp: pr_inv_def split: if_splits)
next
  case (pr_subscribes s)
  then show ?case by (auto simp: pr_inv_def)
next
  case (pr_channel_ends s)
  then show ?case by (simp add: pr_inv_def pr_listens_def)
next
  case (pr_check_ok s xs ys)
  then show ?case by (cases "pr_monitor s") (simp_all add: pr_inv_def one_check)
next
  case (pr_check_fails s xs ys)
  then show ?case by (cases "pr_monitor s") (simp_all add: pr_inv_def one_check)
next
  case (pr_check_stops s xs ys)
  then show ?case by (auto simp: pr_inv_def pool_open_def one_check)
next
  case (pr_check_alive s xs ys)
  then show ?case by (intro pr_inv_check_alive)
next
  case (pr_check_dead s xs ys)
  then show ?case by (intro pr_inv_check_dead)
next
  case (pr_close_state s)
  then show ?case by (intro pr_inv_close)
qed (simp_all add: pr_inv_def)

lemma pr_reach_inv: "pr_reach s \<Longrightarrow> pr_listens s \<and> pr_inv s"
proof (induction rule: pr_reach.induct)
  case pr_start
  show ?case by (simp add: pr_inv_def pr_init_def pr_listens_def)
next
  case (pr_more s s')
  then show ?case using pr_inv_step pr_listens_step by blast
qed

lemma pr_reach_place:
  "pr_reach s \<Longrightarrow> pr_close s = COpen \<Longrightarrow> pr_place (pr_monitor s) (pr_since s) (pr_state s) (pr_checks s)"
  using pr_reach_inv by (auto simp: pr_inv_def)

lemma pr_open_before: "pr_step s s' \<Longrightarrow> pr_close s' = COpen \<Longrightarrow> pr_close s = COpen"
  by (induction rule: pr_step.induct) auto

lemma pr_missed_step: "pr_step s s' \<Longrightarrow> pr_listens s \<Longrightarrow> pr_close s' = COpen \<Longrightarrow> pr_missed s \<Longrightarrow> pr_missed s'"
  by (induction rule: pr_step.induct) (auto simp: pr_missed_def pr_listens_def)

lemma pr_missed_steps:
  "pr_step\<^sup>*\<^sup>* s s' \<Longrightarrow> pr_listens s \<Longrightarrow> pr_listens s' \<and> (pr_close s' = COpen \<longrightarrow> pr_missed s \<longrightarrow> pr_missed s')"
  by (induction rule: rtranclp_induct) (auto dest: pr_open_before pr_missed_step pr_listens_step)

text \<open>An attempt that meets no failure.\<close>

lemma pr_attempt_alive:
  assumes "pr_monitor s = PAlive"
  shows "\<exists>s'. pr_step\<^sup>*\<^sup>* s s' \<and> pr_state s' = HostStateConnected \<and> pr_checks s' = pr_checks s @ [CTick] \<and> pr_monitor s' = PNew"
proof -
  let ?s2 = "(pr_set HostStateConnected s)\<lparr>pr_monitor := PVerify\<rparr>"
  let ?s3 = "?s2\<lparr>pr_checks := pr_checks ?s2 @ [CTick], pr_monitor := PNew\<rparr>"
  have "pr_step s ?s2" using assms by (rule pr_alive)
  moreover have "pr_step ?s2 ?s3" by (rule pr_verified) simp
  ultimately have "pr_step\<^sup>*\<^sup>* s ?s3" by (auto intro: converse_rtranclp_into_rtranclp)
  then show ?thesis by (intro exI [of _ ?s3]) simp
qed

lemma pr_attempt:
  assumes "pr_monitor s = PPing" and "pool_open s"
  shows "\<exists>s'. pr_step\<^sup>*\<^sup>* s s' \<and> pr_state s' = HostStateConnected \<and> pr_checks s' = pr_checks s @ [CTick] \<and> pr_monitor s' = PNew"
proof -
  have "pr_step s (s\<lparr>pr_monitor := PAlive\<rparr>)" using assms by (rule pr_ping_ok)
  with pr_attempt_alive [of "s\<lparr>pr_monitor := PAlive\<rparr>"] show ?thesis by (auto intro: converse_rtranclp_into_rtranclp)
qed

lemma pr_to_ping:
  assumes "pr_reach s" and "pr_close s = COpen" and "pr_state s = HostStateError" and "\<not> pr_missed s" and "pr_monitor s \<noteq> PAlive"
  shows "\<exists>s'. pr_step\<^sup>*\<^sup>* s s' \<and> pr_monitor s' = PPing \<and> pool_open s' \<and> pr_checks s' = []"
proof -
  from pr_reach_place [OF assms(1,2)] assms(3) have place: "pr_place (pr_monitor s) (pr_since s) HostStateError (pr_checks s)"
    by simp
  have free: "pc_reconnecting (pr_monitor s) \<Longrightarrow> pr_checks s = []" using pr_reach_inv [OF assms(1)] by (simp add: pr_inv_def)
  have ready: "pool_open (s\<lparr>pr_monitor := PPing\<rparr>)" using assms(2) by (simp add: pool_open_def)
  have loop: "pr_step\<^sup>*\<^sup>* (s\<lparr>pr_monitor := PLoop\<rparr>) (s\<lparr>pr_monitor := PPing\<rparr>)"
    using pr_retries [of "s\<lparr>pr_monitor := PLoop\<rparr>"] by simp
  show ?thesis
  proof (cases "pr_monitor s")
    case (PWait buf)
    with place assms(3,4) have buf: "buf = [HostStateError]" by (auto simp: pr_missed_def split: if_splits)
    with PWait have "pr_step s (s\<lparr>pr_monitor := PLoop\<rparr>)" by (intro pr_hears_error) simp
    from this loop have "pr_step\<^sup>*\<^sup>* s (s\<lparr>pr_monitor := PPing\<rparr>)" by (rule converse_rtranclp_into_rtranclp)
    with ready free PWait buf show ?thesis by (intro exI [of _ "s\<lparr>pr_monitor := PPing\<rparr>"]) simp
  next
    case PLoop
    then have "s\<lparr>pr_monitor := PLoop\<rparr> = s" by simp
    with loop ready free PLoop show ?thesis by (intro exI [of _ "s\<lparr>pr_monitor := PPing\<rparr>"]) simp
  next
    case PPing
    with free assms(2) show ?thesis by (intro exI [of _ s]) (simp add: pool_open_def)
  next
    case PFailed
    then have "pr_step s (s\<lparr>pr_monitor := PPing\<rparr>)" by (rule pr_next_attempt)
    with ready free PFailed show ?thesis by (intro exI [of _ "s\<lparr>pr_monitor := PPing\<rparr>"]) auto
  next
    case PDead
    have one: "pr_step s (s\<lparr>pr_monitor := PFailed\<rparr>)" using pr_dead [OF PDead] assms(3) by (simp add: pr_set_def)
    have "pr_step (s\<lparr>pr_monitor := PFailed\<rparr>) (s\<lparr>pr_monitor := PPing\<rparr>)" using pr_next_attempt [of "s\<lparr>pr_monitor := PFailed\<rparr>"] by simp
    with one have "pr_step\<^sup>*\<^sup>* s (s\<lparr>pr_monitor := PPing\<rparr>)" by auto
    with ready free PDead show ?thesis by (intro exI [of _ "s\<lparr>pr_monitor := PPing\<rparr>"]) simp
  qed (use place assms in \<open>auto simp: pr_missed_def\<close>)
qed

text \<open>A primary whose health check failed after the monitor had subscribed.\<close>

definition pr_down :: primary where
  "pr_down = pr_init\<lparr>pr_state := HostStateError, pr_checks := [], pr_monitor := PWait [HostStateError], pr_open := True,
     pr_since := HostStateConnected\<rparr>"

lemma pr_reach_down: "pr_reach pr_down"
proof -
  let ?s1 = "pr_init\<lparr>pr_monitor := PWait [], pr_open := True, pr_since := HostStateConnected\<rparr>"
  have "pr_reach ?s1" using pr_more [OF pr_start pr_subscribes] by (simp add: pr_init_def)
  then have "pr_reach (?s1\<lparr>pr_checks := [CDead]\<rparr>)" using pr_more [OF _ pr_check_fails, of ?s1 "[]" "[]"] by (simp add: pr_init_def)
  then show ?thesis using pr_more [OF _ pr_check_dead, of "?s1\<lparr>pr_checks := [CDead]\<rparr>" "[]" "[]"]
    by (simp add: pr_down_def pr_init_def pr_set_def offer_def)
qed

text \<open>A primary whose health check failed before the monitor had subscribed.\<close>

lemma pr_reach_missed: "pr_reach (pr_init\<lparr>pr_state := HostStateError, pr_checks := []\<rparr>)"
proof -
  have "pr_reach (pr_init\<lparr>pr_checks := [CDead]\<rparr>)" using pr_more [OF pr_start pr_check_fails, of "[]" "[]"] by (simp add: pr_init_def)
  then show ?thesis using pr_more [OF _ pr_check_dead, of "pr_init\<lparr>pr_checks := [CDead]\<rparr>" "[]" "[]"]
    by (simp add: pr_init_def pr_set_def)
qed

text \<open>A primary that a health check marks as connected while the manager is being closed, after every goroutine has ended.\<close>

definition pr_revived :: primary where
  "pr_revived = \<lparr>pr_state = HostStateConnected, pr_checks = [], pr_monitor = PGone, pr_open = True, pr_since = HostStateConnected,
     pr_close = CState\<rparr>"

lemma pr_reach_revived: "pr_reach pr_revived"
proof -
  let ?s = "\<lambda>st cs cl. pr_init\<lparr>pr_state := st, pr_checks := cs, pr_close := cl\<rparr>"
  let ?c = HostStateConnected
  have "pr_reach (?s ?c [CAlive] COpen)" using pr_more [OF pr_start pr_check_ok, of "[]" "[]"] by (simp add: pr_init_def pool_open_def)
  then have "pr_reach (?s ?c [CAlive] CManager)" using pr_more [OF _ pr_close_manager, of "?s ?c [CAlive] COpen"] by (simp add: pr_init_def)
  then have "pr_reach (?s ?c [CAlive] CPool)" using pr_more [OF _ pr_close_pool, of "?s ?c [CAlive] CManager"] by (simp add: pr_init_def)
  then have "pr_reach (?s HostStateClosed [CAlive] CState)"
    using pr_more [OF _ pr_close_state, of "?s ?c [CAlive] CPool"] by (simp add: pr_init_def pr_set_def)
  then have "pr_reach (?s ?c [CTick] CState)"
    using pr_more [OF _ pr_check_alive, of "?s HostStateClosed [CAlive] CState" "[]" "[]"] by (simp add: pr_init_def pr_set_def)
  then have "pr_reach (?s ?c [] CState)"
    using pr_more [OF _ pr_check_stops, of "?s ?c [CTick] CState" "[]" "[]"] by (simp add: pr_init_def pool_open_def)
  then have "pr_reach (pr_revived\<lparr>pr_monitor := PWait []\<rparr>)"
    using pr_more [OF _ pr_subscribes, of "?s ?c [] CState"] by (simp add: pr_init_def pr_revived_def)
  then show ?thesis using pr_more [OF _ pr_monitor_stops, of "pr_revived\<lparr>pr_monitor := PWait []\<rparr>"] by (simp add: pr_revived_def)
qed

lemma pr_revived_ended: "\<not> pr_step pr_revived s'"
  by (auto simp: pr_revived_def elim!: pr_step.cases)

text \<open>The pool that \<^verbatim>\<open>Primary\<close> looks at.\<close>

definition pr_host :: "primary \<Rightarrow> host_pool" where
  "pr_host s =
     \<lparr>hp_state = \<lparr>hs_state = pr_state s, hs_mode = [], hs_channels = [], hs_closed = (pr_close s = CState)\<rparr>,
      hp_checks = length (pr_checks s), hp_once = (\<not> pool_open s)\<rparr>"



text \<open>
  C26: A primary in error comes back: unless its error was missed, the steps of its monitor lead, with a server that answers, to a connected
  primary with one health check and a new monitor.
\<close>

theorem primary_recovers:
  assumes "pr_reach s" and "pr_close s = COpen" and "pr_state s = HostStateError" and "\<not> pr_missed s"
  shows "\<exists>s'. pr_step\<^sup>*\<^sup>* s s' \<and> pr_monitor s' = PNew \<and> pr_checks s' = [CTick] \<and> manager_Primary (c\<lparr>pm_master := Some (p, pr_host s')\<rparr>) = Inr p"
proof -
  have "\<exists>s'. pr_step\<^sup>*\<^sup>* s s' \<and> pr_monitor s' = PPing \<and> pool_open s' \<and> pr_checks s' = [] \<or>
    pr_step\<^sup>*\<^sup>* s s' \<and> pr_monitor s' = PAlive \<and> pr_checks s' = []"
    using pr_to_ping [OF assms] pr_reach_inv [OF assms(1)] by (cases "pr_monitor s = PAlive") (auto simp: pr_inv_def)
  then obtain s' where "pr_step\<^sup>*\<^sup>* s s'" and s': "pr_monitor s' = PPing \<and> pool_open s' \<or> pr_monitor s' = PAlive" "pr_checks s' = []"
    by blast
  moreover have "\<exists>s''. pr_step\<^sup>*\<^sup>* s' s'' \<and> pr_state s'' = HostStateConnected \<and> pr_checks s'' = [CTick] \<and> pr_monitor s'' = PNew"
    using s' pr_attempt [of s'] pr_attempt_alive [of s'] by auto
  ultimately obtain s'' where "pr_step\<^sup>*\<^sup>* s s''" "pr_state s'' = HostStateConnected" "pr_checks s'' = [CTick]" "pr_monitor s'' = PNew"
    by (meson rtranclp_trans)
  then show ?thesis by (intro exI [of _ s'']) (simp add: manager_Primary_def pr_host_def)
qed

theorem primary_recovers_witness:
  "\<exists>s'. pr_step\<^sup>*\<^sup>* pr_down s' \<and> pr_monitor s' = PNew \<and> pr_checks s' = [CTick] \<and>
     manager_Primary
       (\<lparr>pm_master = None, pm_store = safemap_New None, pm_unhealthyStore = safemap_New None, pm_pick = RandomPickStrategy\<rparr>
          \<lparr>pm_master := Some (\<lparr>pp_key = ''p'', pp_TotalConns = 0, pp_IdleConns = 0\<rparr>, pr_host s')\<rparr>) =
     Inr \<lparr>pp_key = ''p'', pp_TotalConns = 0, pp_IdleConns = 0\<rparr>"
  by (rule primary_recovers [OF pr_reach_down]) (simp_all add: pr_down_def pr_init_def pr_missed_def)

text \<open>
  An error of the primary that comes before its monitor has subscribed is never repaired: as long as the manager is not closed, no
  step of its goroutines makes the primary reachable again.
\<close>

theorem primary_error_missed:
  "(\<exists>s. pr_reach s \<and> pr_close s = COpen \<and> pr_missed s) \<and>
   {s'. pr_close s' = COpen \<and> (\<exists>s. pr_reach s \<and> pr_missed s \<and> pr_step\<^sup>*\<^sup>* s s')} \<subseteq>
   {s'. manager_Primary (c\<lparr>pm_master := Some (p, pr_host s')\<rparr>) = Inl ErrUnreachable}"
proof
  let ?s = "pr_init\<lparr>pr_state := HostStateError, pr_checks := []\<rparr>"
  have "pr_close ?s = COpen \<and> pr_missed ?s" by (simp add: pr_missed_def pr_init_def)
  with pr_reach_missed show "\<exists>s. pr_reach s \<and> pr_close s = COpen \<and> pr_missed s" by blast
  show "{s'. pr_close s' = COpen \<and> (\<exists>s. pr_reach s \<and> pr_missed s \<and> pr_step\<^sup>*\<^sup>* s s')} \<subseteq>
    {s'. manager_Primary (c\<lparr>pm_master := Some (p, pr_host s')\<rparr>) = Inl ErrUnreachable}"
  proof (intro subsetI, elim CollectE conjE exE)
    fix s' s assume "pr_close s' = COpen" "pr_reach s" "pr_missed s" "pr_step\<^sup>*\<^sup>* s s'"
    with pr_missed_steps pr_reach_inv have "pr_missed s'" by blast
    then show "s' \<in> {s'. manager_Primary (c\<lparr>pm_master := Some (p, pr_host s')\<rparr>) = Inl ErrUnreachable}"
      by (simp add: pr_missed_def manager_Primary_def pr_host_def)
  qed
qed

text \<open>
  Closing does not keep the primary closed: a ping that was answered before the pool was closed marks it as connected afterwards, and
  when every goroutine has ended \<^verbatim>\<open>Primary\<close> hands out the closed pool.
\<close>

theorem primary_connected_after_close:
  "\<exists>s. pr_reach s \<and> pr_close s = CState \<and> (\<nexists>s'. pr_step s s') \<and> manager_Primary (c\<lparr>pm_master := Some (p, pr_host s)\<rparr>) = Inr p"
proof -
  have "pr_close pr_revived = CState" "manager_Primary (c\<lparr>pm_master := Some (p, pr_host pr_revived)\<rparr>) = Inr p"
    by (simp_all add: pr_revived_def manager_Primary_def pr_host_def)
  with pr_reach_revived pr_revived_ended show ?thesis by blast
qed

end
