(* ===== verification/Pg_Manager.thy ===== *)
theory Pg_Manager
  imports Pg_Primary
begin

text \<open>
  \<^verbatim>\<open>src/infra/pgw\<close>, last part: closing the manager with all its pools (\<^verbatim>\<open>pool_manager.go\<close>, \<^verbatim>\<open>standby_manager.go\<close>), the registrations on the
  manager, and the calls of a pool (\<^verbatim>\<open>pool.go\<close>), which forward to pgx and hand its errors to the error parser.
\<close>

section \<open>Closing\<close>

text \<open>
  The pools are objects: the manager and the two maps of standbys hold their addresses, and \<open>rn_hosts\<close> is the pool at an address. A
  channel that only signals is the flag that says whether it was closed.
\<close>

record running =
  rn_closeChan :: bool
  rn_master :: "nat option"
  rn_store :: "(string, nat) safemap"
  rn_unhealthyStore :: "(string, nat) safemap"
  rn_standbyChan :: bool
  rn_hosts :: "nat \<Rightarrow> host_pool"

definition close_at :: "nat \<Rightarrow> (nat \<Rightarrow> host_pool) or_panic \<Rightarrow> (nat \<Rightarrow> host_pool) or_panic" where
  "close_at a st =
     (case st of
        Inl p \<Rightarrow> Inl p
      | Inr hosts \<Rightarrow> (case host_Close (hosts a) of Inl p \<Rightarrow> Inl p | Inr h \<Rightarrow> Inr (hosts(a := h))))"

definition standby_Close :: "running \<Rightarrow> running or_panic" where
  "standby_Close r =
     (if rn_standbyChan r then Inl (Panic ''close of closed channel'')
      else let st = snd (safemap_Range (rn_store r) (\<lambda>_ a st. (None, close_at a st)) (Inr (rn_hosts r)))
           in case snd (safemap_Range (rn_unhealthyStore r) (\<lambda>_ a st. (None, close_at a st)) st) of
                Inl p \<Rightarrow> Inl p
              | Inr hosts \<Rightarrow> Inr (r\<lparr>rn_standbyChan := True, rn_hosts := hosts\<rparr>))"

definition manager_Close :: "running \<Rightarrow> running or_panic" where
  "manager_Close r =
     (if rn_closeChan r then Inl (Panic ''close of closed channel'')
      else case (case rn_master r of None \<Rightarrow> Inr (rn_hosts r) | Some a \<Rightarrow> close_at a (Inr (rn_hosts r))) of
             Inl p \<Rightarrow> Inl p
           | Inr hosts \<Rightarrow> standby_Close (r\<lparr>rn_closeChan := True, rn_hosts := hosts\<rparr>))"

text \<open>The pools the manager knows.\<close>

definition held :: "running \<Rightarrow> nat set" where
  "held r = {a. rn_master r = Some a \<or> (\<exists>k. safemap_Get (rn_store r) k = Some a) \<or> (\<exists>k. safemap_Get (rn_unhealthyStore r) k = Some a)}"

text \<open>The once of a pool and the channel of its state go together.\<close>

definition host_ok :: "host_pool \<Rightarrow> bool" where
  "host_ok h \<longleftrightarrow> hp_once h = hs_closed (hp_state h)"

section \<open>The calls of a pool\<close>

text \<open>
  What pgx does: every call takes the state \<open>'db\<close> of the server to a result, an error (\<open>None\<close> for nil) and the next state. \<open>'v\<close> is the type
  of everything that is passed on as it is: arguments, options, tags, rows, transactions, connections, batches.
\<close>

type_synonym ('v, 'db) pgx_call = "'db \<Rightarrow> 'v \<times> pgw_error option \<times> 'db"

record ('v, 'db) pgx_pool =
  px_Exec :: "string \<Rightarrow> 'v list \<Rightarrow> ('v, 'db) pgx_call"
  px_Query :: "string \<Rightarrow> 'v list \<Rightarrow> ('v, 'db) pgx_call"
  px_QueryRow :: "string \<Rightarrow> 'v list \<Rightarrow> ('v, 'db) pgx_call"
  px_BeginTx :: "'v \<Rightarrow> ('v, 'db) pgx_call"
  px_Begin :: "('v, 'db) pgx_call"
  px_Acquire :: "('v, 'db) pgx_call"
  px_AcquireFunc :: "('v \<Rightarrow> pgw_error option) \<Rightarrow> ('v, 'db) pgx_call"
  px_CopyFrom :: "string list \<Rightarrow> string list \<Rightarrow> 'v \<Rightarrow> ('v, 'db) pgx_call"
  px_SendBatch :: "'v \<Rightarrow> ('v, 'db) pgx_call"

text \<open>\<^verbatim>\<open>QueryRow\<close> and \<^verbatim>\<open>SendBatch\<close> give their error when the row or the result is read.\<close>

definition parseErr :: "(pgw_error option \<Rightarrow> pgw_error option) \<Rightarrow> pgw_error option \<Rightarrow> pgw_error option" where
  "parseErr parser err = (case err of None \<Rightarrow> None | Some x \<Rightarrow> parser (Some x))"

definition with_parsed :: "(pgw_error option \<Rightarrow> pgw_error option) \<Rightarrow> 'v \<times> pgw_error option \<times> 'db \<Rightarrow> 'v \<times> pgw_error option \<times> 'db" where
  "with_parsed parser r = (case r of (v, err, db) \<Rightarrow> (v, parseErr parser err, db))"

definition pool_Exec where
  "pool_Exec parser px query args db = with_parsed parser (px_Exec px query args db)"

definition pool_Query where
  "pool_Query parser px query args db = with_parsed parser (px_Query px query args db)"

definition pool_QueryRow where
  "pool_QueryRow px query args db = px_QueryRow px query args db"

definition pool_BeginTx where
  "pool_BeginTx parser px opts db = with_parsed parser (px_BeginTx px opts db)"

definition pool_Begin where
  "pool_Begin parser px db = with_parsed parser (px_Begin px db)"

definition pool_Acquire where
  "pool_Acquire parser px db = with_parsed parser (px_Acquire px db)"

definition pool_AcquireFunc where
  "pool_AcquireFunc px f db = px_AcquireFunc px f db"

definition pool_CopyFrom where
  "pool_CopyFrom parser px tableName columns rows db = with_parsed parser (px_CopyFrom px tableName columns rows db)"

definition pool_SendBatch where
  "pool_SendBatch px b db = px_SendBatch px b db"

text \<open>A call by name.\<close>

datatype 'v pool_call =
    CallExec string "'v list" | CallQuery string "'v list" | CallQueryRow string "'v list" | CallBeginTx 'v | CallBegin | CallAcquire
  | CallAcquireFunc "'v \<Rightarrow> pgw_error option" | CallCopyFrom "string list" "string list" 'v | CallSendBatch 'v

fun pool_do ::
    "(pgw_error option \<Rightarrow> pgw_error option) \<Rightarrow> ('v, 'db) pgx_pool \<Rightarrow> 'v pool_call \<Rightarrow> 'db \<Rightarrow> 'v \<times> pgw_error option \<times> 'db" where
  "pool_do parser px (CallExec query args) db = pool_Exec parser px query args db"
| "pool_do parser px (CallQuery query args) db = pool_Query parser px query args db"
| "pool_do parser px (CallQueryRow query args) db = pool_QueryRow px query args db"
| "pool_do parser px (CallBeginTx opts) db = pool_BeginTx parser px opts db"
| "pool_do parser px CallBegin db = pool_Begin parser px db"
| "pool_do parser px CallAcquire db = pool_Acquire parser px db"
| "pool_do parser px (CallAcquireFunc f) db = pool_AcquireFunc px f db"
| "pool_do parser px (CallCopyFrom tableName columns rows) db = pool_CopyFrom parser px tableName columns rows db"
| "pool_do parser px (CallSendBatch b) db = pool_SendBatch px b db"

text \<open>The same call on pgx itself.\<close>

fun pgx_do :: "('v, 'db) pgx_pool \<Rightarrow> 'v pool_call \<Rightarrow> 'db \<Rightarrow> 'v \<times> pgw_error option \<times> 'db" where
  "pgx_do px (CallExec query args) db = px_Exec px query args db"
| "pgx_do px (CallQuery query args) db = px_Query px query args db"
| "pgx_do px (CallQueryRow query args) db = px_QueryRow px query args db"
| "pgx_do px (CallBeginTx opts) db = px_BeginTx px opts db"
| "pgx_do px CallBegin db = px_Begin px db"
| "pgx_do px CallAcquire db = px_Acquire px db"
| "pgx_do px (CallAcquireFunc f) db = px_AcquireFunc px f db"
| "pgx_do px (CallCopyFrom tableName columns rows) db = px_CopyFrom px tableName columns rows db"
| "pgx_do px (CallSendBatch b) db = px_SendBatch px b db"

fun call_parsed :: "'v pool_call \<Rightarrow> bool" where
  "call_parsed (CallQueryRow _ _) \<longleftrightarrow> False"
| "call_parsed (CallAcquireFunc _) \<longleftrightarrow> False"
| "call_parsed (CallSendBatch _) \<longleftrightarrow> False"
| "call_parsed _ \<longleftrightarrow> True"

section \<open>The registrations on the manager\<close>

definition manager_RegisterUniqueViolation :: "string \<Rightarrow> error_processor \<Rightarrow> errors_manager \<Rightarrow> string option \<times> errors_manager" where
  "manager_RegisterUniqueViolation constraintName processor em = RegisterUniqueViolation constraintName processor em"

definition manager_RegisterForeignKeyViolation :: "string \<Rightarrow> error_processor \<Rightarrow> errors_manager \<Rightarrow> string option \<times> errors_manager" where
  "manager_RegisterForeignKeyViolation constraintName processor em = RegisterForeignKeyViolation constraintName processor em"

definition manager_RegisterCheckViolation :: "string \<Rightarrow> error_processor \<Rightarrow> errors_manager \<Rightarrow> string option \<times> errors_manager" where
  "manager_RegisterCheckViolation constraintName processor em = RegisterCheckViolation constraintName processor em"

definition manager_RegisterNotNullViolation :: "string \<Rightarrow> string \<Rightarrow> error_processor \<Rightarrow> errors_manager \<Rightarrow> string option \<times> errors_manager" where
  "manager_RegisterNotNullViolation table col processor em = RegisterNotNullViolationProcessor table col processor em"

text \<open>The runtime parameters of the connections of a pool.\<close>

definition setPoolApplicationName :: "string \<Rightarrow> (string \<rightharpoonup> string) \<Rightarrow> (string \<rightharpoonup> string)" where
  "setPoolApplicationName applicationName params =
     (if applicationName \<noteq> [] then params(''application_name'' \<mapsto> applicationName) else params)"

section \<open>Closing a standby while its goroutines run\<close>

text \<open>
  How far \<^verbatim>\<open>standbyManager.Close\<close> is: not called, its channel closed, the healthy standbys closed, the unhealthy ones too. A standby in the life
  of the manager is its state, that stage, and whether its pool was closed; on a closed pool no ping succeeds. The goroutine of
  \<^verbatim>\<open>monitorUnhealthy\<close> ends by taking no further step.
\<close>

datatype sweep = SwOpen | SwChan | SwStore | SwDone

type_synonym standby_life = "standby \<times> sweep \<times> bool"

inductive life_step :: "standby_life \<Rightarrow> standby_life \<Rightarrow> bool" where
  life_works: "sb_step s s' \<Longrightarrow> (shut \<longrightarrow> sb_checks s' \<le> sb_checks s \<and> (sb_state s' = HostStateConnected \<longrightarrow> s' = s \<or> sb_state s = HostStateConnected)) \<Longrightarrow>
    life_step (s, k, shut) (s', k, shut)"
| life_close: "life_step (s, SwOpen, shut) (s, SwChan, shut)"
| life_sweep_store: "life_step (s, SwChan, shut)
    (if sb_store s \<and> \<not> shut then (sb_set HostStateClosed s, SwStore, True) else (s, SwStore, shut))"
| life_sweep_unhealthy: "life_step (s, SwStore, shut)
    (if sb_unhealthy s \<and> \<not> shut then (sb_set HostStateClosed s, SwDone, True) else (s, SwDone, shut))"
| life_monitor_stops: "sb_monitor s = MWait buf \<Longrightarrow> k \<noteq> SwOpen \<Longrightarrow> life_step (s, k, shut) (s\<lparr>sb_monitor := MNone\<rparr>, k, shut)"
| life_sees_closed: "sb_monitor s = MWait (HostStateClosed # buf) \<Longrightarrow> life_step (s, k, shut) (s\<lparr>sb_store := False, sb_monitor := MNone\<rparr>, k, shut)"
| life_channel_ends: "sb_monitor s = MWait [] \<Longrightarrow> shut \<Longrightarrow> life_step (s, k, shut) (s\<lparr>sb_monitor := MNone\<rparr>, k, shut)"
| life_retry_closed: "sb_worker s = WRetry \<Longrightarrow> sb_state s = HostStateClosed \<Longrightarrow>
    life_step (s, k, shut) (s\<lparr>sb_unhealthy := False, sb_worker := WIdle\<rparr>, k, shut)"

definition life_init :: standby_life where
  "life_init = (sb_init, SwOpen, False)"

section \<open>The interface of the error parser\<close>

text \<open>\<^verbatim>\<open>pgErrorParser\<close>: what a pool asks of the parser it is given is that nil stays nil.\<close>

locale pg_error_parser =
  fixes parser :: "pgw_error option \<Rightarrow> pgw_error option"
  assumes parser_nil: "parser None = None"
begin

lemma parseErr_parser: "parseErr parser err = parser err"
  by (cases err) (simp_all add: parseErr_def parser_nil)

lemma pool_do_parsed:
  "pool_do parser px c db =
     (case pgx_do px c db of (v, err, db') \<Rightarrow> (v, if call_parsed c then parser err else err, db'))"
  by (cases c)
    (simp_all add: pool_Exec_def pool_Query_def pool_QueryRow_def pool_BeginTx_def pool_Begin_def pool_Acquire_def
      pool_AcquireFunc_def pool_CopyFrom_def pool_SendBatch_def with_parsed_def parseErr_parser split: prod.splits)

lemma success_kept: "pgx_do px c db = (v, None, db') \<Longrightarrow> pool_do parser px c db = (v, None, db')"
  by (simp add: pool_do_parsed parser_nil)

end

interpretation em: pg_error_parser "ParsePgError errors"
  by unfold_locales (simp add: ParsePgError_def)

section \<open>Lemmas\<close>

text \<open>What becomes of one pool, and of all pools, when those at the addresses \<open>as\<close> are closed.\<close>

definition closed_one :: "host_pool \<Rightarrow> bool \<Rightarrow> host_pool \<Rightarrow> bool" where
  "closed_one h hit h' \<longleftrightarrow>
     host_ok h' \<and>
     (if hit \<and> \<not> hp_once h then hp_once h' \<and> hs_state (hp_state h') = HostStateClosed \<and> hs_channels (hp_state h') = [] else h' = h)"

definition closed_from :: "(nat \<Rightarrow> host_pool) \<Rightarrow> nat set \<Rightarrow> (nat \<Rightarrow> host_pool) \<Rightarrow> bool" where
  "closed_from hosts as hosts' \<longleftrightarrow> (\<forall>a. closed_one (hosts a) (a \<in> as) (hosts' a))"

lemma closed_one_close:
  assumes "closed_one h hit h1"
  shows "\<exists>h'. host_Close h1 = Inr h' \<and> closed_one h True h'"
proof (cases "hp_once h1")
  case True
  with assms show ?thesis by (auto simp: closed_one_def host_Close_def split: if_splits)
next
  case False
  with assms have "\<not> hp_once h" "host_ok h1" by (auto simp: closed_one_def split: if_splits)
  with False show ?thesis
    by (auto simp: closed_one_def host_ok_def host_Close_def state_Close_def Let_def state_Set_def notifyChange_def)
qed

lemma closed_from_refl: "(\<And>a. host_ok (hosts a)) \<Longrightarrow> closed_from hosts {} hosts"
  by (simp add: closed_from_def closed_one_def)

lemma closed_from_step:
  assumes "closed_from hosts as hosts1"
  shows "\<exists>hosts'. close_at a (Inr hosts1) = Inr hosts' \<and> closed_from hosts (insert a as) hosts'"
proof -
  from assms have "closed_one (hosts a) (a \<in> as) (hosts1 a)" by (simp add: closed_from_def)
  from closed_one_close [OF this] obtain h' where "host_Close (hosts1 a) = Inr h'" "closed_one (hosts a) True h'" by blast
  with assms show ?thesis by (auto simp: close_at_def closed_from_def intro!: exI [of _ "hosts1(a := h')"])
qed

lemma closed_from_range:
  assumes "closed_from hosts as hosts1"
  shows "\<exists>hosts'. snd (range_loop (\<lambda>_ a st. (None, close_at a st)) kvs (Inr hosts1)) = Inr hosts' \<and> closed_from hosts (snd ` set kvs \<union> as) hosts'"
  using assms
proof (induction kvs arbitrary: as hosts1)
  case (Cons kv kvs)
  obtain k a where kv: "kv = (k, a)" by fastforce
  from closed_from_step [OF Cons.prems] obtain hosts2 where
    h2: "close_at a (Inr hosts1) = Inr hosts2" "closed_from hosts (insert a as) hosts2" by blast
  from Cons.IH [OF h2(2)] h2(1) show ?case by (simp add: kv)
qed auto

lemma closed_from_Range:
  assumes "closed_from hosts as hosts1" and "safemap_ok m"
  shows "\<exists>hosts'. snd (safemap_Range m (\<lambda>_ a st. (None, close_at a st)) (Inr hosts1)) = Inr hosts' \<and>
    closed_from hosts ({a. \<exists>k. safemap_Get m k = Some a} \<union> as) hosts'"
proof (cases m)
  case None
  with assms show ?thesis by (auto simp: safemap_Range_def safemap_Get_def)
next
  case (Some kvs)
  with assms(2) have "{a. \<exists>k. safemap_Get m k = Some a} = snd ` set kvs"
    by (force simp: safemap_Get_def safemap_ok_def)
  with closed_from_range [OF assms(1), of kvs] Some show ?thesis by (simp add: safemap_Range_def)
qed

lemma closed_from_held:
  assumes "\<And>a. host_ok (rn_hosts r a)" and "safemap_ok (rn_store r)" and "safemap_ok (rn_unhealthyStore r)"
    and "\<not> rn_closeChan r" and "\<not> rn_standbyChan r"
  shows "\<exists>hosts. manager_Close r = Inr (r\<lparr>rn_closeChan := True, rn_standbyChan := True, rn_hosts := hosts\<rparr>) \<and>
    closed_from (rn_hosts r) (held r) hosts"
proof -
  let ?m = "{a. rn_master r = Some a}" and ?s = "{a. \<exists>k. safemap_Get (rn_store r) k = Some a}"
  let ?u = "{a. \<exists>k. safemap_Get (rn_unhealthyStore r) k = Some a}"
  have master: "\<exists>h1. (case rn_master r of None \<Rightarrow> Inr (rn_hosts r) | Some a \<Rightarrow> close_at a (Inr (rn_hosts r))) = Inr h1 \<and>
    closed_from (rn_hosts r) ?m h1"
    using closed_from_refl [OF assms(1)] closed_from_step [OF closed_from_refl [OF assms(1)]] by (cases "rn_master r") auto
  then obtain h1 where h1: "(case rn_master r of None \<Rightarrow> Inr (rn_hosts r) | Some a \<Rightarrow> close_at a (Inr (rn_hosts r))) = Inr h1"
    "closed_from (rn_hosts r) ?m h1" by blast
  from closed_from_Range [OF h1(2) assms(2)] obtain h2 where
    h2: "snd (safemap_Range (rn_store r) (\<lambda>_ a st. (None, close_at a st)) (Inr h1)) = Inr h2"
    "closed_from (rn_hosts r) (?s \<union> ?m) h2" by blast
  from closed_from_Range [OF h2(2) assms(3)] obtain h3 where
    h3: "snd (safemap_Range (rn_unhealthyStore r) (\<lambda>_ a st. (None, close_at a st)) (Inr h2)) = Inr h3"
    "closed_from (rn_hosts r) (?u \<union> (?s \<union> ?m)) h3" by blast
  have "?u \<union> (?s \<union> ?m) = held r" by (auto simp: held_def)
  with h3(2) have "closed_from (rn_hosts r) (held r) h3" by simp
  then show ?thesis using assms(4,5) h1(1) h2(1) h3(1)
    by (intro exI [of _ h3]) (simp add: manager_Close_def standby_Close_def Let_def)
qed

section \<open>Properties\<close>

text \<open>
  C33: Closing an open manager closes every pool it holds, the primary and the standbys of both maps, each once even when it is in both:
  a pool that was open is closed with no subscriber left, a pool that was closed before and every other pool are left alone. The
  manager holds the same pools, and closing it again panics.
\<close>

theorem manager_Close_closes_all:
  assumes "\<And>a. host_ok (rn_hosts r a)" and "safemap_ok (rn_store r)" and "safemap_ok (rn_unhealthyStore r)"
    and "\<not> rn_closeChan r" and "\<not> rn_standbyChan r"
  shows "\<exists>r'. manager_Close r = Inr r' \<and> held r' = held r \<and> manager_Close r' = Inl (Panic ''close of closed channel'') \<and>
    (\<forall>a. host_ok (rn_hosts r' a)) \<and>
    (\<forall>a\<in>held r. \<not> hp_once (rn_hosts r a) \<longrightarrow>
       hp_once (rn_hosts r' a) \<and> hs_state (hp_state (rn_hosts r' a)) = HostStateClosed \<and> hs_channels (hp_state (rn_hosts r' a)) = []) \<and>
    (\<forall>a. a \<notin> held r \<or> hp_once (rn_hosts r a) \<longrightarrow> rn_hosts r' a = rn_hosts r a)"
proof -
  from closed_from_held [OF assms] obtain hosts where
    c: "manager_Close r = Inr (r\<lparr>rn_closeChan := True, rn_standbyChan := True, rn_hosts := hosts\<rparr>)" "closed_from (rn_hosts r) (held r) hosts"
    by blast
  let ?r = "r\<lparr>rn_closeChan := True, rn_standbyChan := True, rn_hosts := hosts\<rparr>"
  have "held ?r = held r" "manager_Close ?r = Inl (Panic ''close of closed channel'')" by (simp_all add: held_def manager_Close_def)
  with c show ?thesis by (intro exI [of _ ?r]) (simp add: closed_from_def closed_one_def split: if_splits)
qed

theorem manager_Close_closes_all_witness:
  "\<exists>r'. manager_Close
     \<lparr>rn_closeChan = False, rn_master = Some 0, rn_store = Some [(''a'', 1)], rn_unhealthyStore = Some [(''a'', 1)], rn_standbyChan = False,
      rn_hosts = (\<lambda>a. \<lparr>hp_state = \<lparr>hs_state = HostStateConnected, hs_mode = [], hs_channels = [(0, [])], hs_closed = False\<rparr>, hp_checks = 1, hp_once = False\<rparr>)\<rparr>
     = Inr r' \<and> hs_state (hp_state (rn_hosts r' 1)) = HostStateClosed \<and> hs_state (hp_state (rn_hosts r' 2)) = HostStateConnected"
    (is "\<exists>r'. manager_Close ?r = Inr r' \<and> _ r'")
proof -
  have "1 \<in> held ?r" "2 \<notin> held ?r" by (auto simp: held_def safemap_Get_def exI [of _ "''a''"])
  then show ?thesis using manager_Close_closes_all [of ?r] by (force simp: host_ok_def safemap_ok_def)
qed

text \<open>
  A processor registered on the manager for a unique constraint sees its violations through every pool: a call that pgx fails with the
  violation, however wrapped, returns what the processor makes of it, with the result and the effect of the call as pgx has them. The
  exceptions are \<^verbatim>\<open>QueryRow\<close>, \<^verbatim>\<open>AcquireFunc\<close> and \<^verbatim>\<open>SendBatch\<close>, which return the error of pgx.
\<close>

theorem unique_violations_processed:
  assumes "em_ok errors" and "manager_RegisterUniqueViolation name processor errors = (failed, errors')"
    and "pgx_do px c db = (v, Some err, db')" and "as_pg_error err = Some e" and "pg_Code e = ''23505''" and "pg_ConstraintName e = name"
  shows "failed = None \<and> pool_do (ParsePgError errors') px c db = (v, if call_parsed c then processor e else Some err, db')"
proof -
  from assms(1,2) have "failed = None" "safemap_Get (em_uniqueViolations errors') name = Some processor"
    by (auto simp: manager_RegisterUniqueViolation_def RegisterUniqueViolation_def safemap_Get_Set em_ok_def)
  then show ?thesis using assms(3-6)
    by (simp add: em.pool_do_parsed ParsePgError_def parseUniqueViolation_def process_def)
qed

text \<open>A server on which every call fails with the violation of the constraint \<^verbatim>\<open>users_email_key\<close>.\<close>

definition violating_pgx :: "(nat, nat) pgx_pool" where
  "violating_pgx =
     (let fail = (\<lambda>db. (0, Some (WrappedError ''insert'' (ServerError \<lparr>pg_Code = ''23505'', pg_Message = ''duplicate'',
            pg_SchemaName = ''public'', pg_TableName = ''users'', pg_ColumnName = [], pg_ConstraintName = ''users_email_key''\<rparr>)), Suc db))
      in \<lparr>px_Exec = \<lambda>_ _. fail, px_Query = \<lambda>_ _. fail, px_QueryRow = \<lambda>_ _. fail, px_BeginTx = \<lambda>_. fail, px_Begin = fail,
          px_Acquire = fail, px_AcquireFunc = \<lambda>_. fail, px_CopyFrom = \<lambda>_ _ _. fail, px_SendBatch = \<lambda>_. fail\<rparr>)"

theorem unique_violations_processed_witness:
  "pool_do (ParsePgError (snd (manager_RegisterUniqueViolation ''users_email_key'' (\<lambda>e. Some (OtherError (pg_TableName e))) newErrorsManager)))
     violating_pgx (CallExec ''insert'' []) 4 = (0, Some (OtherError ''users''), 5)"
  using unique_violations_processed
    [OF em_ok_new surjective_pairing, where px = violating_pgx and c = "CallExec ''insert'' []" and db = 4
      and name = "''users_email_key''" and processor = "\<lambda>e. Some (OtherError (pg_TableName e))"]
  by (simp add: violating_pgx_def Let_def)

text \<open>
  Until it is closed, what \<open>standby_life\<close> does is what the standby does by itself, so that the standby is in one place; and a pool that was
  closed is never connected again by a later ping.
\<close>

lemma life_open_reach:
  assumes "life_step\<^sup>*\<^sup>* life_init (s, k, shut)"
  shows "k = SwOpen \<longrightarrow> \<not> shut \<and> (\<forall>buf. sb_monitor s = MWait buf \<longrightarrow> HostStateClosed \<notin> set buf) \<and> sb_state s \<noteq> HostStateClosed \<and> sb_reach s"
  using assms
proof (induction "(s, k, shut)" arbitrary: s k shut rule: rtranclp_induct)
  case base
  then show ?case using sb_reach.start by (auto simp: life_init_def sb_init_def)
next
  case (step y)
  obtain s0 k0 c0 where y: "y = (s0, k0, c0)" by (cases y)
  note IH = step.hyps(3) [OF y]
  have clean: "sb_state t' \<noteq> HostStateClosed \<and> (\<forall>buf. sb_monitor t' = MWait buf \<longrightarrow> HostStateClosed \<notin> set buf)"
    if "sb_step t t'" "sb_state t \<noteq> HostStateClosed" "\<forall>buf. sb_monitor t = MWait buf \<longrightarrow> HostStateClosed \<notin> set buf" for t t'
    using that by (induction rule: sb_step.induct) (auto simp: sb_set_monitor offer_def split: monitor_pc.splits if_splits)
  show ?case using step.hyps(2) IH unfolding y
    by (cases rule: life_step.cases) (auto dest: clean intro: sb_reach.step split: if_splits)
qed

text \<open>
  Closing the manager misses a standby that is in neither map at the time: one that is still connecting when \<^verbatim>\<open>Close\<close> runs is stored
  afterwards, connected and with its health check, and nothing closes it.
\<close>

theorem close_misses_standby:
  "\<exists>s. life_step\<^sup>*\<^sup>* life_init (s, SwDone, False) \<and> sb_store s \<and> sb_state s = HostStateConnected \<and> sb_checks s = 1"
proof -
  let ?s1 = "sb_init\<lparr>sb_state := HostStateConnected, sb_checks := 1, sb_worker := WStore\<rparr>"
  let ?s2 = "?s1\<lparr>sb_worker := WSpawn, sb_store := True\<rparr>"
  have "life_step life_init (sb_init, SwChan, False)" unfolding life_init_def by (rule life_close)
  moreover have "life_step (sb_init, SwChan, False) (sb_init, SwStore, False)"
    using life_sweep_store [of sb_init False] by (simp add: sb_init_def)
  moreover have "life_step (sb_init, SwStore, False) (sb_init, SwDone, False)"
    using life_sweep_unhealthy [of sb_init False] by (simp add: sb_init_def)
  moreover have "sb_step sb_init ?s1" using connects [of sb_init] by (simp add: sb_init_def sb_set_def)
  then have "life_step (sb_init, SwDone, False) (?s1, SwDone, False)" by (rule life_works) simp
  moreover have "sb_step ?s1 ?s2" using stores [of ?s1] by (simp add: sb_init_def)
  then have "life_step (?s1, SwDone, False) (?s2, SwDone, False)" by (rule life_works) simp
  ultimately have "life_step\<^sup>*\<^sup>* life_init (?s2, SwDone, False)" by (meson converse_rtranclp_into_rtranclp rtranclp.rtrancl_refl)
  then show ?thesis by (intro exI [of _ ?s2]) simp
qed

end
