(* ===== verification/Cel_Filters.thy ===== *)
theory Cel_Filters
  imports Kit_Prelude
begin

text \<open>
  \<^verbatim>\<open>src/pkg/filters\<close>: the translation of a checked CEL expression to a tree of filters (\<^verbatim>\<open>model.go\<close>, \<^verbatim>\<open>connections.go\<close>,
  \<^verbatim>\<open>parse.go\<close>, \<^verbatim>\<open>comprehension.go\<close>, \<^verbatim>\<open>api.go\<close>). Compiling the query text is the work of the CEL library and a parameter.
\<close>

section \<open>Expressions and filters\<close>

text \<open>The expressions of the CEL library, as the translation takes them apart; a double is its IEEE bits.\<close>

datatype cel_const =
    StringValue string | Int64Value int | DoubleValue u64 | BoolValue bool | OtherValue

datatype cel_expr =
    IdentExpr string
  | ConstExpr cel_const
  | SelectExpr cel_expr string
  | CallExpr string "cel_expr list"
  | ComprehensionExpr string cel_expr "cel_expr option"
  | OtherExpr

datatype comparison =
    Equal | GreaterThan | GreaterThanOrEqual | LessThan | LessThanOrEqual | NotEqual | Like | ILike | IsNull | NotNull
  | Contains | NotContains

datatype multi_comparison =
    MIn | MNotIn | EqAny | EqAll | GtAny | GtAll | GeAny | GeAll | LtAny | LtAll | LeAny | LeAll | LikeAny | ILikeAny | NotLikeAny

datatype connection_type = CtAnd | CtOr

datatype filter_expr =
    Filter string "cel_const option" comparison
  | FilterNode "filter_expr list" connection_type
  | MultiFilter string "cel_const list" multi_comparison

fun GetFilter :: "filter_expr \<Rightarrow> (string \<times> cel_const option \<times> comparison) option" where
  "GetFilter (Filter c v t) = Some (c, v, t)"
| "GetFilter _ = None"

fun GetFilterNode :: "filter_expr \<Rightarrow> (filter_expr list \<times> connection_type) option" where
  "GetFilterNode (FilterNode ns c) = Some (ns, c)"
| "GetFilterNode _ = None"

fun GetMultiFilter :: "filter_expr \<Rightarrow> (string \<times> cel_const list \<times> multi_comparison) option" where
  "GetMultiFilter (MultiFilter c vs t) = Some (c, vs, t)"
| "GetMultiFilter _ = None"

section \<open>Translation\<close>

text \<open>A nil map of aliases behaves as the empty one.\<close>

fun extractIdentifier :: "cel_expr \<Rightarrow> (string \<rightharpoonup> string) \<Rightarrow> string + string" where
  "extractIdentifier (SelectExpr operand field) alias =
     (case extractIdentifier operand alias of
        Inl e \<Rightarrow> Inl e
      | Inr nested \<Rightarrow> if nested = [] then Inr field else Inr (nested @ ''.'' @ field))"
| "extractIdentifier (IdentExpr name) alias = Inr (case alias name of Some parent \<Rightarrow> parent | None \<Rightarrow> name)"
| "extractIdentifier _ alias = Inr []"

fun extractConstant :: "cel_expr \<Rightarrow> string + cel_const" where
  "extractConstant (ConstExpr OtherValue) = Inl ''unsupported constant type''"
| "extractConstant (ConstExpr v) = Inr v"
| "extractConstant _ = Inl ''expected constant''"

definition mapCELComparison :: "string \<Rightarrow> string + comparison" where
  "mapCELComparison f =
     (case map_of [(''_==_'', Equal), (''_!=_'', NotEqual), (''_>_'', GreaterThan), (''_>=_'', GreaterThanOrEqual),
        (''_<_'', LessThan), (''_<=_'', LessThanOrEqual), (''like'', Like), (''isnull'', IsNull), (''notnull'', NotNull),
        (''equals'', Equal)] f of
        Some c \<Rightarrow> Inr c
      | None \<Rightarrow> Inl (''unsupported comparison: '' @ f))"

definition mapCELArrayComparison :: "string \<Rightarrow> string + comparison" where
  "mapCELArrayComparison f =
     (if f = ''_==_'' then Inr Contains else if f = ''_!=_'' then Inr NotContains
      else Inl (''unsupported comparison: '' @ f))"

text \<open>The two parsers of comparisons differ in the table of comparisons only.\<close>

definition comparison_filter ::
    "(string \<Rightarrow> string + comparison) \<Rightarrow> (string \<rightharpoonup> string) \<Rightarrow> string \<Rightarrow> cel_expr list \<Rightarrow> string + filter_expr" where
  "comparison_filter table alias f args =
     (case args of
        [l, r] \<Rightarrow>
          (case extractIdentifier l alias of
             Inl e \<Rightarrow> Inl e
           | Inr col \<Rightarrow>
               (case extractConstant r of
                  Inl e \<Rightarrow> Inl e
                | Inr v \<Rightarrow> (case table f of Inl e \<Rightarrow> Inl e | Inr c \<Rightarrow> Inr (Filter col (Some v) c))))
      | _ \<Rightarrow> Inl ''comparison expression must have 2 arguments'')"

definition parseComparisonExpr :: "string \<Rightarrow> cel_expr list \<Rightarrow> string + filter_expr" where
  "parseComparisonExpr f args = comparison_filter mapCELComparison Map.empty f args"

definition parseComparisonExprWithAlias :: "(string \<rightharpoonup> string) \<Rightarrow> string \<Rightarrow> cel_expr list \<Rightarrow> string + filter_expr" where
  "parseComparisonExprWithAlias alias f args = comparison_filter mapCELArrayComparison alias f args"

definition parseNullExpr :: "string \<Rightarrow> cel_expr list \<Rightarrow> string + filter_expr" where
  "parseNullExpr f args =
     (case args of
        [] \<Rightarrow> Inl ''is null expression must have 1 argument''
      | a # _ \<Rightarrow>
          (case extractIdentifier a Map.empty of
             Inl e \<Rightarrow> Inl e
           | Inr col \<Rightarrow> (case mapCELComparison f of Inl e \<Rightarrow> Inl e | Inr c \<Rightarrow> Inr (Filter col None c))))"

definition is_logical :: "string \<Rightarrow> bool" where
  "is_logical f \<longleftrightarrow> f \<in> {''_&&_'', ''_||_''}"

definition is_comparison :: "string \<Rightarrow> bool" where
  "is_comparison f \<longleftrightarrow> f \<in> {''_==_'', ''_!=_'', ''_>_'', ''_>=_'', ''_<_'', ''_<=_'', ''like''}"

definition is_null_test :: "string \<Rightarrow> bool" where
  "is_null_test f \<longleftrightarrow> f \<in> {''isnull'', ''notnull''}"

definition connection_of :: "string \<Rightarrow> connection_type" where
  "connection_of f = (if f = ''_&&_'' then CtAnd else CtOr)"

definition join_node :: "string \<Rightarrow> string + filter_expr \<Rightarrow> string + filter_expr \<Rightarrow> string + filter_expr" where
  "join_node f l r =
     (case l of
        Inl e \<Rightarrow> Inl e
      | Inr left \<Rightarrow> (case r of Inl e \<Rightarrow> Inl e | Inr right \<Rightarrow> Inr (FilterNode [left, right] (connection_of f))))"

fun is_call :: "cel_expr \<Rightarrow> bool" where
  "is_call (CallExpr _ _) = True"
| "is_call _ = False"

lemma find_size: "find p xs = Some x \<Longrightarrow> size x < Suc (size_list size xs)"
  by (metis find_Some_iff le_imp_less_Suc nth_mem order_refl size_list_estimation')

text \<open>
  The column of the list that a comprehension ranges over, and the argument of its loop step that says what is asked of
  the elements: the first that is a call.
\<close>

definition comprehension_parts :: "cel_expr \<Rightarrow> cel_expr option \<Rightarrow> string + string \<times> cel_expr" where
  "comprehension_parts rng stp =
     (case extractIdentifier rng Map.empty of
        Inl e \<Rightarrow> Inl e
      | Inr parent \<Rightarrow>
          (case stp of
             None \<Rightarrow> Inl ''comprehension expression missing loop step''
           | Some (CallExpr f args) \<Rightarrow>
               (if length args < 2 then Inl ''comprehension loop step must have 2 arguments''
                else case find is_call args of
                  None \<Rightarrow> Inl ''could not parse comprehension expression''
                | Some a \<Rightarrow> Inr (parent, a))
           | Some _ \<Rightarrow> Inl ''comprehension loop step is not a call expression''))"

lemma comprehension_parts_size: "comprehension_parts rng stp = Inr (parent, a) \<Longrightarrow> size a < Suc (size_option size stp)"
  by (auto simp: comprehension_parts_def dest!: find_size split: sum.splits option.splits cel_expr.splits if_splits)

function parseExprWithAlias :: "cel_expr \<Rightarrow> (string \<rightharpoonup> string) \<Rightarrow> string + filter_expr" where
  "parseExprWithAlias (CallExpr f args) alias =
     (if is_logical f then
        (case args of
           [l, r] \<Rightarrow> join_node f (parseExprWithAlias l alias) (parseExprWithAlias r alias)
         | _ \<Rightarrow> Inl ''logical expression must have 2 arguments'')
      else if is_comparison f then parseComparisonExprWithAlias alias f args
      else if is_null_test f then parseNullExpr f args
      else Inl (''unsupported function: '' @ f))"
| "parseExprWithAlias (IdentExpr name) alias = Inl ''standalone identifier not supported''"
| "parseExprWithAlias (ConstExpr c) alias = Inl ''standalone constant not supported''"
| "parseExprWithAlias (ComprehensionExpr var rng stp) alias =
     (case comprehension_parts rng stp of
        Inl e \<Rightarrow> Inl e
      | Inr (parent, a) \<Rightarrow> parseExprWithAlias a [var \<mapsto> parent])"
| "parseExprWithAlias (SelectExpr operand field) alias = Inl ''unsupported expression type''"
| "parseExprWithAlias OtherExpr alias = Inl ''unsupported expression type''"
  by pat_completeness auto
termination
  by (relation "measure (\<lambda>(e, _). size e)") (auto dest: comprehension_parts_size)

definition parseComprehensionExpr :: "string \<Rightarrow> cel_expr \<Rightarrow> cel_expr option \<Rightarrow> string + filter_expr" where
  "parseComprehensionExpr var rng stp =
     (case comprehension_parts rng stp of
        Inl e \<Rightarrow> Inl e
      | Inr (parent, a) \<Rightarrow> parseExprWithAlias a [var \<mapsto> parent])"

fun parseExpr :: "cel_expr \<Rightarrow> string + filter_expr" where
  "parseExpr (CallExpr f args) =
     (if is_logical f then
        (case args of
           [l, r] \<Rightarrow> join_node f (parseExpr l) (parseExpr r)
         | _ \<Rightarrow> Inl ''logical expression must have 2 arguments'')
      else if is_comparison f then parseComparisonExpr f args
      else if is_null_test f then parseNullExpr f args
      else Inl (''unsupported function: '' @ f))"
| "parseExpr (IdentExpr name) = Inl ''standalone identifier not supported''"
| "parseExpr (ConstExpr c) = Inl ''standalone constant not supported''"
| "parseExpr (ComprehensionExpr var rng stp) = parseComprehensionExpr var rng stp"
| "parseExpr (SelectExpr operand field) = Inl ''unsupported expression type''"
| "parseExpr OtherExpr = Inl ''unsupported expression type''"

definition parseLikeExpr :: "cel_expr list \<Rightarrow> string + filter_expr" where
  "parseLikeExpr args =
     (case args of
        [l, r] \<Rightarrow>
          (case extractIdentifier l Map.empty of
             Inl e \<Rightarrow> Inl e
           | Inr col \<Rightarrow> (case extractConstant r of Inl e \<Rightarrow> Inl e | Inr v \<Rightarrow> Inr (Filter col (Some v) Like)))
      | _ \<Rightarrow> Inl ''like expression must have 2 arguments'')"

text \<open>
  \<open>extend\<close> and \<open>compile\<close> are the CEL environment: extending it with the functions of the package, and
  compiling and checking a query.
\<close>

definition ParseFilters ::
    "('env \<Rightarrow> string + 'env) \<Rightarrow> ('env \<Rightarrow> string \<Rightarrow> string + cel_expr) \<Rightarrow> 'env option \<Rightarrow> string \<Rightarrow> string + filter_expr" where
  "ParseFilters extend compile env query =
     (if query = [] then Inl ''empty query''
      else case env of
        None \<Rightarrow> Inl ''nil CEL environment provided''
      | Some en \<Rightarrow>
          (case extend en of
             Inl e \<Rightarrow> Inl e
           | Inr en' \<Rightarrow> (case compile en' query of Inl e \<Rightarrow> Inl e | Inr ast \<Rightarrow> parseExpr ast)))"

section \<open>Variables of a message\<close>

datatype proto_kind =
    StringKind | Int32Kind | Sint32Kind | Sfixed32Kind | Int64Kind | Sint64Kind | Sfixed64Kind | Uint32Kind | Fixed32Kind
  | Uint64Kind | Fixed64Kind | BoolKind | FloatKind | DoubleKind | MessageKind string | EnumKind | BytesKind | GroupKind

datatype cel_type = StringType | IntType | BoolType | DoubleType | TimestampType | ObjectType string | DynType | ListType cel_type

fun kind_type :: "proto_kind \<Rightarrow> cel_type" where
  "kind_type StringKind = StringType"
| "kind_type BoolKind = BoolType"
| "kind_type FloatKind = DoubleType"
| "kind_type DoubleKind = DoubleType"
| "kind_type (MessageKind name) = ObjectType name"
| "kind_type EnumKind = DynType"
| "kind_type BytesKind = DynType"
| "kind_type GroupKind = DynType"
| "kind_type _ = IntType"

record proto_field =
  pf_Name :: string
  pf_Kind :: proto_kind
  pf_Repeated :: bool

definition ProtoToCELVariables :: "proto_field list \<Rightarrow> (string \<times> cel_type) list" where
  "ProtoToCELVariables fds =
     map (\<lambda>f. (pf_Name f, let t = kind_type (pf_Kind f) in if pf_Repeated f then ListType t else t)) fds"

section \<open>Functions of the environment\<close>

text \<open>
  The functions the package adds to a CEL environment, with their overloads. A binding takes the values of the arguments; none of
  them looks at its values, since a query is only translated and never run.
\<close>

record 'v cel_overload =
  ov_Name :: string
  ov_Args :: "cel_type list"
  ov_Result :: cel_type
  ov_Binding :: "'v list \<Rightarrow> bool"

definition bool_overload :: "string \<Rightarrow> cel_type list \<Rightarrow> 'v cel_overload" where
  "bool_overload name args = \<lparr>ov_Name = name, ov_Args = args, ov_Result = BoolType, ov_Binding = (\<lambda>values. True)\<rparr>"

definition null_overloads :: "'v cel_overload list" where
  "null_overloads =
     [bool_overload ''timestamp_null'' [TimestampType], bool_overload ''bool_null'' [BoolType], bool_overload ''int_null'' [IntType],
      bool_overload ''string_null'' [StringType]]"

definition FunctionExtends :: "(string \<times> 'v cel_overload list) list" where
  "FunctionExtends =
     [(''isnull'', null_overloads),
      (''notnull'', null_overloads),
      (''equals'',
         [bool_overload ''timestamp_int'' [TimestampType, IntType], bool_overload ''timestamp_timestamp'' [TimestampType, TimestampType],
          bool_overload ''int_int'' [IntType, IntType]]),
      (''like'', [bool_overload ''string_string'' [StringType, StringType]])]"

section \<open>Paths and columns\<close>

text \<open>A column is a path of fields joined with dots; \<open>path_expr\<close> takes the path with the last field first.\<close>

fun split_dots :: "string \<Rightarrow> string list" where
  "split_dots [] = [[]]"
| "split_dots (c # cs) = (if c = CHR ''.'' then [] # split_dots cs else (c # hd (split_dots cs)) # tl (split_dots cs))"

fun join_dots :: "string list \<Rightarrow> string" where
  "join_dots [] = []"
| "join_dots [x] = x"
| "join_dots (x # xs) = x @ ''.'' @ join_dots xs"

fun path_expr :: "string list \<Rightarrow> cel_expr" where
  "path_expr [] = OtherExpr"
| "path_expr [x] = IdentExpr x"
| "path_expr (x # xs) = SelectExpr (path_expr xs) x"

fun expr_path :: "cel_expr \<Rightarrow> string list option" where
  "expr_path (IdentExpr x) = Some [x]"
| "expr_path (SelectExpr e f) = map_option (\<lambda>p. p @ [f]) (expr_path e)"
| "expr_path _ = None"

lemma split_dots_nonempty [simp]: "split_dots cs \<noteq> []"
  by (induction cs) auto

lemma join_split_dots [simp]: "join_dots (split_dots cs) = cs"
proof (induction cs)
  case (Cons c cs)
  obtain x xs where "split_dots cs = x # xs" by (cases "split_dots cs") auto
  with Cons show ?case by (cases xs) auto
qed simp

lemma join_dots_snoc: "xs \<noteq> [] \<Longrightarrow> join_dots (xs @ [x]) = join_dots xs @ ''.'' @ x"
  by (induction xs rule: join_dots.induct) auto

lemma join_dots_nonempty: "p \<noteq> [] \<Longrightarrow> hd p \<noteq> [] \<Longrightarrow> join_dots p \<noteq> []"
  by (cases p rule: join_dots.cases) auto

lemma expr_path_expr: "xs \<noteq> [] \<Longrightarrow> expr_path (path_expr xs) = Some (rev xs)"
  by (induction xs rule: path_expr.induct) auto

lemma expr_path_nonempty: "expr_path e = Some p \<Longrightarrow> p \<noteq> []"
  by (induction e arbitrary: p) auto

text \<open>The identifier of a path is its column.\<close>

lemma extractIdentifier_path:
  assumes "expr_path e = Some p" and "hd p \<noteq> []"
  shows "extractIdentifier e Map.empty = Inr (join_dots p)"
  using assms
proof (induction e arbitrary: p)
  case (SelectExpr e f)
  then obtain q where q: "expr_path e = Some q" "p = q @ [f]" by auto
  with SelectExpr.prems(2) expr_path_nonempty [OF q(1)] have "hd q \<noteq> []" by simp
  with SelectExpr.IH [OF q(1)] q join_dots_nonempty [OF expr_path_nonempty [OF q(1)]] show ?case
    by (simp add: join_dots_snoc expr_path_nonempty)
qed auto

section \<open>Printing and meaning of filters\<close>

fun op_name :: "comparison \<Rightarrow> string" where
  "op_name Equal = ''_==_''"
| "op_name NotEqual = ''_!=_''"
| "op_name GreaterThan = ''_>_''"
| "op_name GreaterThanOrEqual = ''_>=_''"
| "op_name LessThan = ''_<_''"
| "op_name LessThanOrEqual = ''_<=_''"
| "op_name Like = ''like''"
| "op_name IsNull = ''isnull''"
| "op_name NotNull = ''notnull''"
| "op_name ILike = ''ilike''"
| "op_name Contains = ''contains''"
| "op_name NotContains = ''notcontains''"

fun unparse :: "filter_expr \<Rightarrow> cel_expr" where
  "unparse (Filter col v c) =
     CallExpr (op_name c) (path_expr (rev (split_dots col)) # (case v of Some x \<Rightarrow> [ConstExpr x] | None \<Rightarrow> []))"
| "unparse (FilterNode ns c) = CallExpr (case c of CtAnd \<Rightarrow> ''_&&_'' | CtOr \<Rightarrow> ''_||_'') (map unparse ns)"
| "unparse (MultiFilter col vs c) = OtherExpr"

text \<open>The filters that queries without comprehensions give.\<close>

fun plain_filter :: "filter_expr \<Rightarrow> bool" where
  "plain_filter (Filter col v c) \<longleftrightarrow>
     hd (split_dots col) \<noteq> [] \<and>
     (case v of
        None \<Rightarrow> c = IsNull \<or> c = NotNull
      | Some x \<Rightarrow> x \<noteq> OtherValue \<and> c \<notin> {IsNull, NotNull, ILike, Contains, NotContains})"
| "plain_filter (FilterNode ns c) \<longleftrightarrow> length ns = 2 \<and> list_all plain_filter ns"
| "plain_filter (MultiFilter col vs c) \<longleftrightarrow> False"

text \<open>
  The meaning of a filter in a row, which gives the value of a column if it has one; \<open>cmp\<close> compares by the name of the operator.
\<close>

fun filter_holds :: "(string \<Rightarrow> 'v option) \<Rightarrow> (string \<Rightarrow> 'v option \<Rightarrow> cel_const \<Rightarrow> bool) \<Rightarrow> filter_expr \<Rightarrow> bool" where
  "filter_holds row cmp (Filter col v c) \<longleftrightarrow>
     (case v of Some x \<Rightarrow> cmp (op_name c) (row col) x | None \<Rightarrow> (c = IsNull) = (row col = None))"
| "filter_holds row cmp (FilterNode ns c) \<longleftrightarrow>
     (case c of CtAnd \<Rightarrow> list_all (filter_holds row cmp) ns | CtOr \<Rightarrow> list_ex (filter_holds row cmp) ns)"
| "filter_holds row cmp (MultiFilter col vs c) \<longleftrightarrow> False"

text \<open>The meaning of an expression, which takes the values by path.\<close>

fun expr_holds :: "(string list \<Rightarrow> 'v option) \<Rightarrow> (string \<Rightarrow> 'v option \<Rightarrow> cel_const \<Rightarrow> bool) \<Rightarrow> cel_expr \<Rightarrow> bool option" where
  "expr_holds row cmp (CallExpr f args) =
     (case args of
        [l, r] \<Rightarrow>
          (if f = ''_&&_'' then
             (case (expr_holds row cmp l, expr_holds row cmp r) of (Some x, Some y) \<Rightarrow> Some (x \<and> y) | _ \<Rightarrow> None)
           else if f = ''_||_'' then
             (case (expr_holds row cmp l, expr_holds row cmp r) of (Some x, Some y) \<Rightarrow> Some (x \<or> y) | _ \<Rightarrow> None)
           else case (expr_path l, r) of
             (Some p, ConstExpr v) \<Rightarrow> if hd p \<noteq> [] \<and> is_comparison f then Some (cmp f (row p) v) else None
           | _ \<Rightarrow> None)
      | [l] \<Rightarrow>
          (case expr_path l of
             Some p \<Rightarrow>
               if hd p = [] then None
               else if f = ''isnull'' then Some (row p = None)
               else if f = ''notnull'' then Some (row p \<noteq> None)
               else None
           | None \<Rightarrow> None)
      | _ \<Rightarrow> None)"
| "expr_holds row cmp _ = None"

lemma map_op_name:
  "mapCELComparison (op_name c) = Inr c \<longleftrightarrow> c \<notin> {ILike, Contains, NotContains}"
  by (cases c) (simp_all add: mapCELComparison_def)

lemma comparison_op_name:
  "is_comparison f \<Longrightarrow> \<exists>c. mapCELComparison f = Inr c \<and> op_name c = f"
  by (auto simp: is_comparison_def mapCELComparison_def)

lemma null_test_kinds:
  assumes "is_null_test g"
  shows "\<not> is_logical g \<and> \<not> is_comparison g \<and> mapCELComparison g = Inr (if g = ''isnull'' then IsNull else NotNull)"
proof -
  from assms consider "g = ''isnull''" | "g = ''notnull''" by (auto simp: is_null_test_def)
  then show ?thesis by cases (simp_all add: is_logical_def is_comparison_def mapCELComparison_def)
qed

lemma op_name_kinds:
  "c \<notin> {IsNull, NotNull, ILike, Contains, NotContains} \<Longrightarrow> is_comparison (op_name c) \<and> \<not> is_logical (op_name c)"
  "c \<in> {IsNull, NotNull} \<Longrightarrow> is_null_test (op_name c) \<and> \<not> is_comparison (op_name c) \<and> \<not> is_logical (op_name c)"
  by (cases c; simp add: is_comparison_def is_logical_def is_null_test_def)+

lemma extractConstant_plain: "v \<noteq> OtherValue \<Longrightarrow> extractConstant (ConstExpr v) = Inr v"
  by (cases v) auto

lemma column_expr:
  assumes "hd (split_dots col) \<noteq> []"
  shows "extractIdentifier (path_expr (rev (split_dots col))) Map.empty = Inr col"
  using extractIdentifier_path [OF expr_path_expr [of "rev (split_dots col)"]] assms by simp

section \<open>Properties\<close>



text \<open>
  C17: The translation keeps the meaning: for an expression made of comparisons of a path with a constant, null tests, and and or, the
  filter holds in a row exactly when the expression does, the columns being the paths joined with dots.
\<close>

theorem parseExpr_meaning:
  assumes "parseExpr e = Inr f" and "expr_holds (\<lambda>p. row (join_dots p)) cmp e = Some b"
  shows "filter_holds row cmp f = b"
  using assms
proof (induction e arbitrary: f b)
  case (CallExpr g args)
  consider l r where "args = [l, r]" "is_logical g" | l r where "args = [l, r]" "\<not> is_logical g" | l where "args = [l]"
    using CallExpr.prems(2) by (auto split: list.splits)
  then show ?case
  proof cases
    case 1
    then obtain fl fr where parts: "parseExpr l = Inr fl" "parseExpr r = Inr fr" "f = FilterNode [fl, fr] (connection_of g)"
      using CallExpr.prems(1) by (auto simp: join_node_def split: sum.splits)
    obtain bl br where "expr_holds (\<lambda>p. row (join_dots p)) cmp l = Some bl" "expr_holds (\<lambda>p. row (join_dots p)) cmp r = Some br"
      "b = (if g = ''_&&_'' then bl \<and> br else bl \<or> br)"
      using CallExpr.prems(2) 1 by (auto simp: is_logical_def split: option.splits)
    moreover have "filter_holds row cmp fl = bl" "filter_holds row cmp fr = br"
      using CallExpr.IH 1 parts calculation by auto
    ultimately show ?thesis using parts(3) by (auto simp: connection_of_def)
  next
    case 2
    then have "g \<noteq> ''_&&_''" "g \<noteq> ''_||_''" by (auto simp: is_logical_def)
    with CallExpr.prems(2) 2 obtain p v where "expr_path l = Some p" "r = ConstExpr v" "hd p \<noteq> []" "is_comparison g"
      "b = cmp g (row (join_dots p)) v"
      by (auto split: option.splits cel_expr.splits if_splits)
    moreover obtain c where "mapCELComparison g = Inr c" "op_name c = g"
      using comparison_op_name calculation(4) by blast
    ultimately show ?thesis
      using CallExpr.prems(1) 2 extractIdentifier_path [of l p]
      by (cases v) (auto simp: parseComparisonExpr_def comparison_filter_def)
  next
    case 3
    with CallExpr.prems(2) obtain p where p: "expr_path l = Some p" "hd p \<noteq> []" "g \<in> {''isnull'', ''notnull''}"
      "b = ((g = ''isnull'') = (row (join_dots p) = None))"
      by (auto split: option.splits if_splits)
    have "\<not> is_logical g" "\<not> is_comparison g" "is_null_test g"
      "mapCELComparison g = Inr (if g = ''isnull'' then IsNull else NotNull)"
      using null_test_kinds p(3) by (auto simp: is_null_test_def)
    then have "f = Filter (join_dots p) None (if g = ''isnull'' then IsNull else NotNull)"
      using CallExpr.prems(1) 3 extractIdentifier_path [OF p(1,2)] by (simp add: parseNullExpr_def)
    with p(4) show ?thesis by simp
  qed
qed simp_all

theorem parseExpr_meaning_witness:
  "filter_holds (\<lambda>c. if c = ''a.b'' then Some (5::int) else None) (\<lambda>f x v. x = Some 5)
     (FilterNode [Filter ''a.b'' (Some (Int64Value 5)) Equal, Filter ''c'' None IsNull] CtAnd)"
  using parseExpr_meaning [of "CallExpr ''_&&_'' [CallExpr ''_==_'' [SelectExpr (IdentExpr ''a'') ''b'', ConstExpr (Int64Value 5)],
      CallExpr ''isnull'' [IdentExpr ''c'']]" "FilterNode [Filter ''a.b'' (Some (Int64Value 5)) Equal, Filter ''c'' None IsNull] CtAnd"
      "\<lambda>c. if c = ''a.b'' then Some (5::int) else None" "\<lambda>f x v. x = Some 5" True]
  by (simp add: is_logical_def is_comparison_def is_null_test_def parseComparisonExpr_def comparison_filter_def
      parseNullExpr_def mapCELComparison_def join_node_def connection_of_def)

text \<open>The CEL macros \<^verbatim>\<open>all\<close> and \<^verbatim>\<open>exists\<close> differ in the operator of their loop step.\<close>

definition exists_macro :: "string \<Rightarrow> cel_expr \<Rightarrow> cel_expr \<Rightarrow> cel_expr" where
  "exists_macro var rng p = ComprehensionExpr var rng (Some (CallExpr ''_||_'' [IdentExpr ''@result'', p]))"

definition all_macro :: "string \<Rightarrow> cel_expr \<Rightarrow> cel_expr \<Rightarrow> cel_expr" where
  "all_macro var rng p = ComprehensionExpr var rng (Some (CallExpr ''_&&_'' [IdentExpr ''@result'', p]))"

text \<open>
  The operator of a comprehension is lost: \<^verbatim>\<open>all\<close> and \<^verbatim>\<open>exists\<close> over the same list are translated to the same filter, that the column
  contains the value.
\<close>

theorem all_is_exists:
  "parseExpr (all_macro var rng (CallExpr f args)) = parseExpr (exists_macro var rng (CallExpr f args)) \<and>
   parseExpr (all_macro var (IdentExpr col) (CallExpr ''_==_'' [IdentExpr var, ConstExpr (StringValue s)])) =
     Inr (Filter col (Some (StringValue s)) Contains)"
  by (simp add: all_macro_def exists_macro_def parseComprehensionExpr_def comprehension_parts_def is_logical_def is_comparison_def parseComparisonExprWithAlias_def
      comparison_filter_def mapCELArrayComparison_def split: sum.split)

text \<open>A null test inside a comprehension names the loop's variable and not the column.\<close>

lemma null_test_loses_column:
  "parseExpr (exists_macro var (IdentExpr col) (CallExpr ''isnull'' [IdentExpr var])) = Inr (Filter var None IsNull)"
  by (simp add: exists_macro_def parseComprehensionExpr_def comprehension_parts_def is_logical_def is_comparison_def is_null_test_def parseNullExpr_def mapCELComparison_def)

text \<open>A comparison whose left side is no path is accepted, with an empty column; \<^verbatim>\<open>equals\<close> is refused.\<close>

lemma constant_as_column:
  "parseExpr (CallExpr ''_==_'' [ConstExpr c, ConstExpr (BoolValue b)]) = Inr (Filter [] (Some (BoolValue b)) Equal)"
  by (simp add: is_logical_def is_comparison_def parseComparisonExpr_def comparison_filter_def mapCELComparison_def)

text \<open>
  Of the functions the environment declares, the translation knows every one but \<^verbatim>\<open>equals\<close>, with the number of arguments its
  overloads have.
\<close>

lemma extends_arities:
  "list_all (\<lambda>(f, ovs). list_all (\<lambda>ov. (f, length (ov_Args ov)) \<in> {(''isnull'', 1), (''notnull'', 1), (''equals'', 2), (''like'', 2)}) ovs)
     FunctionExtends"
  unfolding FunctionExtends_def null_overloads_def bool_overload_def by simp

lemma extends_arity:
  "(f, ovs) \<in> set FunctionExtends \<Longrightarrow> ov \<in> set ovs \<Longrightarrow>
   (f, length (ov_Args ov)) \<in> {(''isnull'', 1), (''notnull'', 1), (''equals'', 2), (''like'', 2)}"
  using extends_arities unfolding list_all_iff by blast

lemma extends_translated:
  assumes "(f, ovs) \<in> set FunctionExtends" and "ov \<in> set ovs"
  shows "(\<exists>flt. parseExpr (CallExpr f (take (length (ov_Args ov)) [IdentExpr col, ConstExpr (StringValue s)])) = Inr flt) \<longleftrightarrow> f \<noteq> ''equals''"
proof -
  note defs = is_logical_def is_comparison_def is_null_test_def parseComparisonExpr_def comparison_filter_def parseNullExpr_def
    mapCELComparison_def
  from extends_arity [OF assms] consider
      "f = ''isnull''" "length (ov_Args ov) = 1" | "f = ''notnull''" "length (ov_Args ov) = 1"
    | "f = ''equals''" "length (ov_Args ov) = 2" | "f = ''like''" "length (ov_Args ov) = 2" by blast
  then show ?thesis by cases (simp_all add: defs)
qed

lemma equals_unsupported: "parseExpr (CallExpr ''equals'' args) = Inl ''unsupported function: equals''"
  by (simp add: is_logical_def is_comparison_def is_null_test_def)

end
