(* ===== verification/Kit_Werror.thy ===== *)
theory Kit_Werror
  imports Kit_Prelude
begin

text \<open>
  \<^verbatim>\<open>src/pkg/errors\<close>: errors that carry values and causes (\<^verbatim>\<open>errors.go\<close>), their construction and inspection (\<^verbatim>\<open>werror.go\<close>,
  \<^verbatim>\<open>wrapper.go\<close>) and printing (\<^verbatim>\<open>print.go\<close>).
\<close>

section \<open>Errors\<close>

datatype err_key = ErrKeyNone | ErrKeyID | ErrKeyMessage | ErrKeyCode | StringKey string | OtherKey nat

datatype err_value = StringVal string | CodeVal nat | OtherVal nat

text \<open>
  \<open>BaseError\<close> is an error that wraps none, with the identity of its allocation; \<open>ForeignError\<close> is one of another package that wraps
  another, with its message. Errors are compared by \<^verbatim>\<open>==\<close> on pointers; two errors of the model are the same pointer if they are
  equal.
\<close>

datatype werr =
    BaseError nat string
  | ForeignError string werr
  | FormatError werr
  | ErrWithValue werr err_key err_value
  | ErrWithCause werr werr

fun ErrKey_String :: "nat \<Rightarrow> string or_panic" where
  "ErrKey_String e =
     (if e < 4 then Inr ([''none'', ''id'', ''message'', ''code''] ! e) else Inl (Panic ''index out of range''))"

fun werr_Error :: "werr \<Rightarrow> string" where
  "werr_Error (BaseError _ msg) = msg"
| "werr_Error (ForeignError msg _) = msg"
| "werr_Error (FormatError e) = werr_Error e"
| "werr_Error (ErrWithValue e k v) =
     (if k = ErrKeyMessage then (case v of StringVal s \<Rightarrow> s | _ \<Rightarrow> werr_Error e) else werr_Error e)"
| "werr_Error (ErrWithCause e c) = werr_Error e"

text \<open>The loop of \<^verbatim>\<open>errWithCause.Unwrap\<close> that skips causes, and the method itself.\<close>

fun skip_causes :: "werr \<Rightarrow> werr" where
  "skip_causes (ErrWithCause e c) = skip_causes e"
| "skip_causes e = e"

fun next_err :: "werr \<Rightarrow> werr option" where
  "next_err (ForeignError _ e) = Some e"
| "next_err (FormatError e) = Some e"
| "next_err (ErrWithValue e _ _) = Some e"
| "next_err _ = None"

fun werr_Unwrap :: "werr \<Rightarrow> werr option" where
  "werr_Unwrap (ErrWithCause e c) =
     (case next_err (skip_causes e) of None \<Rightarrow> Some c | Some n \<Rightarrow> Some (ErrWithCause n c))"
| "werr_Unwrap e = next_err e"

lemma size_skip_causes: "size (skip_causes e) \<le> size e"
  by (induction e rule: skip_causes.induct) auto

lemma size_next_err: "next_err e = Some n \<Longrightarrow> size n < size e"
  by (cases e) auto

lemma size_Unwrap: "werr_Unwrap e = Some n \<Longrightarrow> size n < size e"
proof (cases e)
  case (ErrWithCause x c)
  assume "werr_Unwrap e = Some n"
  with ErrWithCause size_next_err [of "skip_causes x"] size_skip_causes [of x] show ?thesis
    by (auto split: option.splits)
qed (auto dest: size_next_err)

text \<open>\<^verbatim>\<open>errors.Is\<close> and \<^verbatim>\<open>errors.As\<close> of the standard library with the methods of \<^verbatim>\<open>errWithCause\<close>; \<open>As\<close> takes the type as a predicate.\<close>

fun cause_Is :: "werr \<Rightarrow> werr \<Rightarrow> bool" where
  "cause_Is (ErrWithCause e c) target \<longleftrightarrow> e = target \<or> cause_Is e target"
| "cause_Is _ target \<longleftrightarrow> False"

fun cause_As :: "werr \<Rightarrow> (werr \<Rightarrow> bool) \<Rightarrow> werr option" where
  "cause_As (ErrWithCause e c) ty = (if ty e then Some e else cause_As e ty)"
| "cause_As _ ty = None"

function errors_Is :: "werr \<Rightarrow> werr \<Rightarrow> bool" where
  "errors_Is e target \<longleftrightarrow>
     e = target \<or> cause_Is e target \<or> (case werr_Unwrap e of None \<Rightarrow> False | Some n \<Rightarrow> errors_Is n target)"
  by auto
termination by (relation "measure (\<lambda>(e, _). size e)") (auto dest: size_Unwrap)

function errors_As :: "werr \<Rightarrow> (werr \<Rightarrow> bool) \<Rightarrow> werr option" where
  "errors_As e ty =
     (if ty e then Some e
      else case cause_As e ty of
        Some x \<Rightarrow> Some x
      | None \<Rightarrow> (case werr_Unwrap e of None \<Rightarrow> None | Some n \<Rightarrow> errors_As n ty))"
  by auto
termination by (relation "measure (\<lambda>(e, _). size e)") (auto dest: size_Unwrap)

declare errors_Is.simps [simp del] errors_As.simps [simp del]

section \<open>Inspection\<close>

fun is_werror :: "werr \<Rightarrow> bool" where
  "is_werror (ErrWithValue _ _ _) = True"
| "is_werror (ErrWithCause _ _) = True"
| "is_werror _ = False"

fun is_cause :: "werr \<Rightarrow> bool" where
  "is_cause (ErrWithCause _ _) = True"
| "is_cause _ = False"

lemma cause_As_size: "cause_As e ty = Some x \<Longrightarrow> size x < size e"
  by (induction e ty rule: cause_As.induct) (auto split: if_splits)

lemma errors_As_size: "errors_As e ty = Some x \<Longrightarrow> size x \<le> size e"
proof (induction e ty rule: errors_As.induct)
  case (1 e ty)
  then show ?case
    by (subst (asm) (2) errors_As.simps)
      (auto split: if_splits option.splits dest: cause_As_size size_Unwrap intro: less_imp_le order_trans)
qed

lemma errors_As_less: "errors_As e ty = Some x \<Longrightarrow> \<not> ty e \<Longrightarrow> size x < size e"
  by (subst (asm) errors_As.simps)
    (auto split: option.splits dest!: cause_As_size size_Unwrap errors_As_size)

function Lookup :: "werr \<Rightarrow> err_key \<Rightarrow> err_value option" where
  "Lookup e key =
     (case e of
        ErrWithValue x k v \<Rightarrow> if k = key then Some v else Lookup x key
      | ErrWithCause x c \<Rightarrow> Lookup x key
      | _ \<Rightarrow> (case errors_As e is_werror of Some w \<Rightarrow> Lookup w key | None \<Rightarrow> None))"
  by auto
termination
  by (relation "measure (\<lambda>(e, _). size e)") (auto dest: errors_As_less)

declare Lookup.simps [simp del]

definition werr_Value :: "werr option \<Rightarrow> err_key \<Rightarrow> err_value option" where
  "werr_Value err key = (case err of None \<Rightarrow> None | Some e \<Rightarrow> Lookup e key)"

definition werr_ID :: "werr option \<Rightarrow> string" where
  "werr_ID err =
     (case err of
        None \<Rightarrow> []
      | Some e \<Rightarrow> (case werr_Value err ErrKeyID of Some (StringVal s) \<Rightarrow> s | _ \<Rightarrow> []))"

definition grpc_OK :: nat where "grpc_OK = 0"
definition grpc_Internal :: nat where "grpc_Internal = 13"

definition werr_Code :: "werr option \<Rightarrow> nat" where
  "werr_Code err =
     (case err of
        None \<Rightarrow> grpc_OK
      | Some e \<Rightarrow>
          (let code = (case werr_Value err ErrKeyCode of Some (CodeVal c) \<Rightarrow> c | _ \<Rightarrow> 0)
           in if code = 0 then grpc_Internal else code))"

definition werr_Cause :: "werr \<Rightarrow> werr option" where
  "werr_Cause e = (case errors_As e is_cause of Some (ErrWithCause _ c) \<Rightarrow> Some c | _ \<Rightarrow> None)"

text \<open>\<^verbatim>\<open>Values\<close>, with the entries in the order in which they are met.\<close>

function Values :: "werr \<Rightarrow> (err_key \<times> err_value) list" where
  "Values e =
     (let rest = (case werr_Unwrap e of None \<Rightarrow> [] | Some n \<Rightarrow> Values n)
      in case e of
           ErrWithValue _ k v \<Rightarrow> (k, v) # filter (\<lambda>(k', _). k' \<noteq> k) rest
         | _ \<Rightarrow> rest)"
  by auto
termination by (relation "measure size") (auto dest: size_Unwrap)

declare Values.simps [simp del]

section \<open>Construction\<close>

datatype wrapper =
    WithValue err_key err_value
  | AppendMessage string
  | PrependMessage string
  | WithCause "werr option"

definition werr_Set :: "werr option \<Rightarrow> err_key \<Rightarrow> err_value \<Rightarrow> werr option" where
  "werr_Set err key v = (case err of None \<Rightarrow> None | Some e \<Rightarrow> Some (ErrWithValue e key v))"

fun wrapper_Wrap :: "wrapper \<Rightarrow> werr option \<Rightarrow> werr option" where
  "wrapper_Wrap (WithValue key v) err = werr_Set err key v"
| "wrapper_Wrap (AppendMessage msg) err =
     (case err of None \<Rightarrow> None | Some e \<Rightarrow> werr_Set err ErrKeyMessage (StringVal (werr_Error e @ '': '' @ msg)))"
| "wrapper_Wrap (PrependMessage msg) err =
     (case err of None \<Rightarrow> None | Some e \<Rightarrow> werr_Set err ErrKeyMessage (StringVal (msg @ '': '' @ werr_Error e)))"
| "wrapper_Wrap (WithCause cause) err =
     (case (err, cause) of (Some e, Some c) \<Rightarrow> Some (ErrWithCause e c) | _ \<Rightarrow> err)"

definition WithID :: "string \<Rightarrow> wrapper" where "WithID msg = WithValue ErrKeyID (StringVal msg)"
definition WithCode :: "nat \<Rightarrow> wrapper" where "WithCode code = WithValue ErrKeyCode (CodeVal code)"

text \<open>The errors of the package implement \<^verbatim>\<open>fmt.Formatter\<close>; others are taken not to.\<close>

fun is_formatter :: "werr \<Rightarrow> bool" where
  "is_formatter (BaseError _ _) = False"
| "is_formatter (ForeignError _ _) = False"
| "is_formatter _ = True"

definition werr_Wrap :: "werr option \<Rightarrow> wrapper list \<Rightarrow> werr option" where
  "werr_Wrap err wrappers =
     (case err of
        None \<Rightarrow> None
      | Some _ \<Rightarrow>
          (case fold wrapper_Wrap wrappers err of
             None \<Rightarrow> None
           | Some e \<Rightarrow> Some (if is_formatter e then e else FormatError e)))"

text \<open>\<open>i\<close> is the identity of the new error.\<close>

definition werr_New :: "nat \<Rightarrow> string \<Rightarrow> wrapper list \<Rightarrow> werr option" where
  "werr_New i msg wrappers = werr_Wrap (Some (BaseError i msg)) wrappers"

definition coded :: "nat \<Rightarrow> nat \<Rightarrow> string \<Rightarrow> wrapper list \<Rightarrow> werr option" where
  "coded code i msg wrappers = werr_New i msg (wrappers @ [WithCode code])"

definition werr_Forbidden :: "nat \<Rightarrow> string \<Rightarrow> wrapper list \<Rightarrow> werr option" where "werr_Forbidden = coded 7"
definition werr_Unauthenticated :: "nat \<Rightarrow> string \<Rightarrow> wrapper list \<Rightarrow> werr option" where "werr_Unauthenticated = coded 16"
definition werr_NotFound :: "nat \<Rightarrow> string \<Rightarrow> wrapper list \<Rightarrow> werr option" where "werr_NotFound = coded 5"
definition werr_InvalidArgument :: "nat \<Rightarrow> string \<Rightarrow> wrapper list \<Rightarrow> werr option" where "werr_InvalidArgument = coded 3"
definition werr_Aborted :: "nat \<Rightarrow> string \<Rightarrow> wrapper list \<Rightarrow> werr option" where "werr_Aborted = coded 10"
definition werr_Internal :: "nat \<Rightarrow> string \<Rightarrow> wrapper list \<Rightarrow> werr option" where "werr_Internal = coded 13"
definition werr_Unavailable :: "nat \<Rightarrow> string \<Rightarrow> wrapper list \<Rightarrow> werr option" where "werr_Unavailable = coded 14"

definition werr_Prepend :: "werr option \<Rightarrow> string \<Rightarrow> wrapper list \<Rightarrow> werr option" where
  "werr_Prepend err msg wrappers = werr_Wrap err (wrappers @ [PrependMessage msg])"

definition werr_Append :: "werr option \<Rightarrow> string \<Rightarrow> wrapper list \<Rightarrow> werr option" where
  "werr_Append err msg wrappers = werr_Wrap err (wrappers @ [AppendMessage msg])"

fun splitWrappers :: "('a + wrapper) list \<Rightarrow> 'a list \<times> wrapper list" where
  "splitWrappers [] = ([], [])"
| "splitWrappers (arg # args) =
     (let (fmtArgs, wrappers) = splitWrappers args
      in case arg of Inl a \<Rightarrow> (a # fmtArgs, wrappers) | Inr w \<Rightarrow> (fmtArgs, w # wrappers))"

text \<open>\<open>sprintf\<close> is \<^verbatim>\<open>fmt.Sprintf\<close>.\<close>

definition werr_Prependf :: "(string \<Rightarrow> 'a list \<Rightarrow> string) \<Rightarrow> werr option \<Rightarrow> string \<Rightarrow> ('a + wrapper) list \<Rightarrow> werr option" where
  "werr_Prependf sprintf err format args =
     (let (fmtArgs, wrappers) = splitWrappers args
      in werr_Wrap err (wrappers @ [PrependMessage (sprintf format fmtArgs)]))"

definition werr_Appendf :: "(string \<Rightarrow> 'a list \<Rightarrow> string) \<Rightarrow> werr option \<Rightarrow> string \<Rightarrow> ('a + wrapper) list \<Rightarrow> werr option" where
  "werr_Appendf sprintf err format args =
     (let (fmtArgs, wrappers) = splitWrappers args
      in werr_Wrap err (wrappers @ [AppendMessage (sprintf format fmtArgs)]))"

section \<open>Printing\<close>

lemma werr_Cause_size: "werr_Cause e = Some c \<Longrightarrow> size c < size e"
  using errors_As_size [of e is_cause] by (auto simp: werr_Cause_def split: option.splits werr.splits)

function cause_messages :: "werr \<Rightarrow> string list" where
  "cause_messages e =
     (let rest = (case werr_Cause e of None \<Rightarrow> [] | Some c \<Rightarrow> cause_messages c)
      in if werr_Error e = [] then rest else werr_Error e # rest)"
  by auto
termination by (relation "measure size") (auto dest: werr_Cause_size)

declare cause_messages.simps [simp del]

fun join_sep :: "string \<Rightarrow> string list \<Rightarrow> string" where
  "join_sep sep [] = []"
| "join_sep sep [x] = x"
| "join_sep sep (x # xs) = x @ sep @ join_sep sep xs"

definition msgWithCauses :: "werr \<Rightarrow> string" where
  "msgWithCauses e = join_sep '': '' (cause_messages e)"

text \<open>\<open>shown\<close> prints a value with the verb \<^verbatim>\<open>%s\<close>. The order of the values is that of a map, which Go leaves open.\<close>

definition detail_values :: "(err_value \<Rightarrow> string) \<Rightarrow> (err_key \<times> err_value) list \<Rightarrow> string" where
  "detail_values shown vs =
     concat (map (\<lambda>(k, v). case k of StringKey s \<Rightarrow> ''; '' @ s @ '' = '' @ shown v | _ \<Rightarrow> []) vs)"

function Details :: "(err_value \<Rightarrow> string) \<Rightarrow> werr \<Rightarrow> string" where
  "Details shown e =
     (let msg = werr_Error e @ detail_values shown (Values e);
          msg' = (if werr_ID (Some e) \<noteq> [] then werr_ID (Some e) @ '': '' @ msg else msg)
      in case werr_Cause e of None \<Rightarrow> msg' | Some c \<Rightarrow> msg' @ ''; caused by: '' @ Details shown c)"
  by auto
termination by (relation "measure (\<lambda>(_, e). size e)") (auto dest: werr_Cause_size)

declare Details.simps [simp del]

text \<open>\<open>quote\<close> is the verb \<^verbatim>\<open>%q\<close>.\<close>

definition werr_Format :: "(err_value \<Rightarrow> string) \<Rightarrow> (string \<Rightarrow> string) \<Rightarrow> bool \<Rightarrow> char \<Rightarrow> werr \<Rightarrow> string" where
  "werr_Format shown quote flag verb e =
     (if verb = CHR ''v'' then (if flag then Details shown e else msgWithCauses e)
      else if verb = CHR ''s'' then msgWithCauses e
      else if verb = CHR ''q'' then quote (werr_Error e)
      else [])"

section \<open>Lemmas\<close>

text \<open>The errors of the main chain, and the values on it, the outermost first.\<close>

fun main_chain :: "werr \<Rightarrow> werr list" where
  "main_chain (BaseError i msg) = [BaseError i msg]"
| "main_chain (ForeignError msg e) = ForeignError msg e # main_chain e"
| "main_chain (FormatError e) = FormatError e # main_chain e"
| "main_chain (ErrWithValue e k v) = ErrWithValue e k v # main_chain e"
| "main_chain (ErrWithCause e c) = ErrWithCause e c # main_chain e"

fun main_values :: "werr \<Rightarrow> (err_key \<times> err_value) list" where
  "main_values (BaseError i msg) = []"
| "main_values (ForeignError msg e) = main_values e"
| "main_values (FormatError e) = main_values e"
| "main_values (ErrWithValue e k v) = (k, v) # main_values e"
| "main_values (ErrWithCause e c) = main_values e"

text \<open>The last cause attached to an error.\<close>

fun last_cause :: "werr \<Rightarrow> werr option" where
  "last_cause (BaseError i msg) = None"
| "last_cause (ForeignError msg e) = last_cause e"
| "last_cause (FormatError e) = last_cause e"
| "last_cause (ErrWithValue e k v) = last_cause e"
| "last_cause (ErrWithCause e c) = Some c"

lemma last_cause_size: "last_cause e = Some c \<Longrightarrow> size c < size e"
  by (induction e) auto

function all_errors :: "werr \<Rightarrow> werr set" where
  "all_errors e = set (main_chain e) \<union> (case last_cause e of None \<Rightarrow> {} | Some c \<Rightarrow> all_errors c)"
  by auto
termination by (relation "measure size") (auto dest: last_cause_size)

declare all_errors.simps [simp del]

lemma skip_causes_not_cause [simp]: "\<not> is_cause (skip_causes e)"
  by (induction e rule: skip_causes.induct) auto

lemma cause_Is_iff: "\<not> is_cause t \<Longrightarrow> cause_Is (ErrWithCause e c) t \<longleftrightarrow> t = skip_causes e"
  by (induction e arbitrary: c rule: skip_causes.induct) auto

lemma main_chain_skip:
  "\<not> is_cause t \<Longrightarrow> t \<in> set (main_chain (skip_causes e)) \<longleftrightarrow> t \<in> set (main_chain e)"
  by (induction e) auto

lemma main_chain_next:
  "\<not> is_cause e \<Longrightarrow> set (main_chain e) = insert e (case next_err e of None \<Rightarrow> {} | Some n \<Rightarrow> set (main_chain n))"
  by (cases e) auto

lemma next_err_None: "\<not> is_cause e \<Longrightarrow> next_err e = None \<longleftrightarrow> (\<exists>i msg. e = BaseError i msg)"
  by (cases e) auto

lemma last_cause_next: "\<not> is_cause e \<Longrightarrow> next_err e = Some n \<Longrightarrow> last_cause n = last_cause e"
  by (cases e) auto

lemma all_errors_step: "\<not> is_cause e \<Longrightarrow> next_err e = Some n \<Longrightarrow> all_errors e = insert e (all_errors n)"
  using main_chain_next [of e] last_cause_next [of e n] all_errors.simps [of e] all_errors.simps [of n] by simp

lemma errors_Is_all: "\<not> is_cause t \<Longrightarrow> errors_Is e t \<longleftrightarrow> t \<in> all_errors e"
proof (induction e t rule: errors_Is.induct)
  case (1 e t)
  show ?case
  proof (cases e)
    case (ErrWithCause x c)
    let ?s = "skip_causes x"
    have main: "t \<in> set (main_chain e) \<longleftrightarrow> t = ?s \<or> (\<exists>n. next_err ?s = Some n \<and> t \<in> set (main_chain n))"
    proof -
      have "t \<in> set (main_chain e) \<longleftrightarrow> t \<in> set (main_chain ?s)"
        unfolding main_chain_skip [OF 1(2)] using 1(2) by (cases t) (simp_all add: ErrWithCause)
      also have "\<dots> \<longleftrightarrow> t = ?s \<or> (\<exists>n. next_err ?s = Some n \<and> t \<in> set (main_chain n))"
        by (subst main_chain_next) (simp_all split: option.splits)
      finally show ?thesis .
    qed
    have split: "t \<in> all_errors e \<longleftrightarrow> t \<in> set (main_chain e) \<or> t \<in> all_errors c"
      by (subst all_errors.simps) (simp add: ErrWithCause)
    have "e \<noteq> t" using 1(2) ErrWithCause by auto
    then have is_iff: "errors_Is e t \<longleftrightarrow> t = ?s \<or> (case werr_Unwrap e of None \<Rightarrow> False | Some n \<Rightarrow> errors_Is n t)"
      using cause_Is_iff [OF 1(2), of x c, folded ErrWithCause] by (subst errors_Is.simps) blast
    show ?thesis
    proof (cases "next_err ?s")
      case None
      then have "werr_Unwrap e = Some c" using ErrWithCause by simp
      with 1(1) [OF this 1(2)] None show ?thesis unfolding is_iff split main by simp
    next
      case (Some n)
      then have un: "werr_Unwrap e = Some (ErrWithCause n c)" using ErrWithCause by simp
      have "t \<in> all_errors (ErrWithCause n c) \<longleftrightarrow> t \<in> set (main_chain n) \<or> t \<in> all_errors c"
        using 1(2) by (auto simp: all_errors.simps [of "ErrWithCause n c"])
      with 1(1) [OF un 1(2)] un Some show ?thesis unfolding is_iff split main by auto
    qed
  next
    case (BaseError i msg)
    then show ?thesis using errors_Is.simps [of e t] all_errors.simps [of e] by auto
  qed (use 1 errors_Is.simps [of e t] all_errors_step [of e] in auto)
qed

lemma As_werror:
  "\<not> is_werror e \<Longrightarrow> errors_As e is_werror = (case next_err e of None \<Rightarrow> None | Some n \<Rightarrow> errors_As n is_werror)"
  by (subst errors_As.simps, cases e) simp_all

lemma As_werror_self: "is_werror e \<Longrightarrow> errors_As e is_werror = Some e"
  by (subst errors_As.simps) simp

lemma As_werror_values:
  "main_values e = (case errors_As e is_werror of Some w \<Rightarrow> main_values w | None \<Rightarrow> [])"
  by (induction e) (simp_all add: As_werror As_werror_self)

lemma Lookup_main: "Lookup e key = map_of (main_values e) key"
proof (induction e key rule: Lookup.induct)
  case (1 e key)
  show ?case
  proof (cases "is_werror e")
    case True
    then show ?thesis using 1 by (subst Lookup.simps, cases e) auto
  next
    case False
    then have "Lookup e key = (case errors_As e is_werror of Some w \<Rightarrow> Lookup w key | None \<Rightarrow> None)"
      by (subst Lookup.simps, cases e) auto
    also have "\<dots> = (case errors_As e is_werror of Some w \<Rightarrow> map_of (main_values w) key | None \<Rightarrow> None)"
      using 1 False by (cases e) (auto split: option.splits)
    also have "\<dots> = map_of (main_values e) key"
      using As_werror_values [of e] by (simp split: option.splits)
    finally show ?thesis .
  qed
qed

lemma Values_step:
  "\<not> is_werror e \<Longrightarrow> Values e = (case next_err e of None \<Rightarrow> [] | Some n \<Rightarrow> Values n)"
  by (subst Values.simps, cases e) auto

lemma Values_cause: "Values (ErrWithCause e c) = Values c"
proof (induction "size e" arbitrary: e rule: less_induct)
  case less
  have "Values (ErrWithCause e c) = (case werr_Unwrap (ErrWithCause e c) of None \<Rightarrow> [] | Some n \<Rightarrow> Values n)"
    by (subst Values.simps) simp
  moreover have "Values (ErrWithCause n c) = Values c" if "next_err (skip_causes e) = Some n" for n
    by (rule less) (use size_next_err [OF that] size_skip_causes [of e] in simp)
  ultimately show ?case by (simp split: option.splits)
qed

lemma map_of_filter_other: "key \<noteq> k \<Longrightarrow> map_of (filter (\<lambda>(k', _). k' \<noteq> k) vs) key = map_of vs key"
  by (induction vs) auto

lemma Values_main: "last_cause e = None \<Longrightarrow> map_of (Values e) key = map_of (main_values e) key"
proof (induction e)
  case (ErrWithValue e k v)
  have "Values (ErrWithValue e k v) = (k, v) # filter (\<lambda>(k', _). k' \<noteq> k) (Values e)"
    by (subst Values.simps) simp
  moreover have "map_of (filter (\<lambda>(k', _). k' \<noteq> k) (Values e)) key = map_of (Values e) key" if "key \<noteq> k"
    using that by (auto simp: map_of_filter_other)
  ultimately show ?case using ErrWithValue by auto
qed (simp_all add: Values_step)

lemma As_cause:
  "errors_As e is_cause = (if is_cause e then Some e else case next_err e of None \<Rightarrow> None | Some n \<Rightarrow> errors_As n is_cause)"
  by (subst errors_As.simps, cases e) simp_all

lemma werr_Cause_last: "werr_Cause e = last_cause e"
  unfolding werr_Cause_def by (induction e) (simp_all add: As_cause)

lemma wrappers_some: "\<exists>e'. fold wrapper_Wrap ws (Some e) = Some e'"
proof (induction ws arbitrary: e)
  case (Cons w ws)
  have "wrapper_Wrap w (Some e) \<noteq> None" by (cases w) (auto simp: werr_Set_def split: option.splits)
  with Cons show ?case by auto
qed simp

section \<open>Properties\<close>

text \<open>
  C23: \<^verbatim>\<open>errors.Is\<close> finds every error of the main chain of an error, through values, foreign wrappers and any number of attached
  causes, and everything in the cause attached last, and nothing else: the unwrapping of \<^verbatim>\<open>errWithCause\<close> loses nothing of the two.
\<close>

theorem Is_finds_chain_and_cause:
  assumes "\<not> is_cause target"
  shows "errors_Is e target \<longleftrightarrow>
    target \<in> set (main_chain e) \<or> (\<exists>c. werr_Cause e = Some c \<and> errors_Is c target)"
  unfolding errors_Is_all [OF assms] werr_Cause_last by (subst all_errors.simps) (simp split: option.splits)

theorem Is_finds_chain_and_cause_witness:
  "errors_Is (ErrWithCause (ErrWithValue (BaseError 1 ''outer'') ErrKeyCode (CodeVal 5)) (FormatError (BaseError 2 ''inner''))) (BaseError 1 ''outer'') \<and>
   errors_Is (ErrWithCause (ErrWithValue (BaseError 1 ''outer'') ErrKeyCode (CodeVal 5)) (FormatError (BaseError 2 ''inner''))) (BaseError 2 ''inner'')"
proof -
  let ?e = "ErrWithCause (ErrWithValue (BaseError 1 ''outer'') ErrKeyCode (CodeVal 5)) (FormatError (BaseError 2 ''inner''))"
  have "errors_Is (FormatError (BaseError 2 ''inner'')) (BaseError 2 ''inner'')"
    by (subst Is_finds_chain_and_cause) simp_all
  moreover have "werr_Cause ?e = Some (FormatError (BaseError 2 ''inner''))" by (simp add: werr_Cause_last)
  ultimately show ?thesis
    using Is_finds_chain_and_cause [of "BaseError 1 ''outer''" ?e] Is_finds_chain_and_cause [of "BaseError 2 ''inner''" ?e] by simp
qed

text \<open>
  \<^verbatim>\<open>Lookup\<close> returns, and returns the value that was attached last under the key to the error itself, whatever causes and foreign errors
  are in between and never a value of a cause; the constructors with a code give an error of that code whatever the wrappers set.
\<close>

theorem Lookup_latest:
  "Lookup e key = map_of (main_values e) key \<and> werr_Code (coded (Suc n) i msg wrappers) = Suc n"
proof
  show "Lookup e key = map_of (main_values e) key" by (rule Lookup_main)
  obtain e' where "fold wrapper_Wrap wrappers (Some (BaseError i msg)) = Some e'" using wrappers_some by blast
  then have "coded (Suc n) i msg wrappers = Some (ErrWithValue e' ErrKeyCode (CodeVal (Suc n)))"
    by (simp add: coded_def werr_New_def werr_Wrap_def WithCode_def werr_Set_def)
  then show "werr_Code (coded (Suc n) i msg wrappers) = Suc n"
    by (simp add: werr_Code_def werr_Value_def Lookup_main)
qed

text \<open>
  \<^verbatim>\<open>Values\<close> agrees with \<^verbatim>\<open>Lookup\<close> on errors without a cause, but of an error with a cause it returns the values of the cause only, and none of those
  that were attached to the error before it.
\<close>

theorem Values_forgets_below_cause:
  "Values (ErrWithCause e c) = Values c \<and>
   map_of (Values (ErrWithValue (ErrWithCause (ErrWithValue e k v) (BaseError i msg)) k' v')) = [k' \<mapsto> v'] \<and>
   (k \<noteq> k' \<longrightarrow> Lookup (ErrWithValue (ErrWithCause (ErrWithValue e k v) (BaseError i msg)) k' v') k = Some v)"
proof -
  have "Values (BaseError i msg) = []" by (simp add: Values_step)
  moreover have "Values (ErrWithValue (ErrWithCause (ErrWithValue e k v) (BaseError i msg)) k' v') =
      (k', v') # filter (\<lambda>(x, _). x \<noteq> k') (Values (ErrWithCause (ErrWithValue e k v) (BaseError i msg)))"
    by (subst Values.simps) simp
  ultimately show ?thesis by (simp add: Values_cause Lookup_main)
qed

theorem Values_forgets_below_cause_witness:
  "Values (ErrWithCause (ErrWithValue (BaseError 1 ''m'') (StringKey ''user'') (StringVal ''u'')) (BaseError 2 ''io'')) = [] \<and>
   Lookup (ErrWithValue (ErrWithCause (ErrWithValue (BaseError 1 ''m'') (StringKey ''user'') (StringVal ''u'')) (BaseError 2 ''io'')) ErrKeyID (StringVal ''x''))
     (StringKey ''user'') = Some (StringVal ''u'')"
  using Values_forgets_below_cause [of "ErrWithValue (BaseError 1 ''m'') (StringKey ''user'') (StringVal ''u'')" "BaseError 2 ''io''"]
    Values_forgets_below_cause [of "BaseError 1 ''m''" "BaseError 2 ''io''" "StringKey ''user''" "StringVal ''u''" 2 "''io''" ErrKeyID "StringVal ''x''"]
  by (simp add: Values_step)

end
