(* ===== verification/Http_Proxy.thy ===== *)
theory Http_Proxy
  imports Go_Net
begin

text \<open>
  \<^verbatim>\<open>src/infra/httpproxy\<close>: the settings of forward proxies and their validation (\<^verbatim>\<open>config.go\<close>), the manager that holds them
  (\<^verbatim>\<open>manager.go\<close>, \<^verbatim>\<open>transport.go\<close>) and the file they are read from (\<^verbatim>\<open>filewatch.go\<close>).

  Parameters of the model: \<open>parse\<close> is \<^verbatim>\<open>url.Parse\<close>, with the error inside its \<^verbatim>\<open>url.Error\<close>; \<open>quote\<close> is the verb \<^verbatim>\<open>%q\<close>; \<open>is_cidr\<close> and \<open>is_ip\<close>
  say what \<^verbatim>\<open>net.ParseCIDR\<close> and \<^verbatim>\<open>net.ParseIP\<close> accept.
\<close>

section \<open>Settings\<close>

record proxy_config =
  px_HTTPProxy :: string
  px_HTTPSProxy :: string
  px_NoProxy :: string

record proxy_url =
  pu_Scheme :: string
  pu_Host :: string
  pu_Hostname :: string
  pu_User :: bool

type_synonym proxy_parser = "string \<Rightarrow> string + proxy_url"

definition redactAddr :: "string \<Rightarrow> string" where
  "redactAddr addr =
     (case last_index CHR ''@'' addr of
        None \<Rightarrow> addr
      | Some at \<Rightarrow>
          (let start = (case sub_index ''://'' addr of Some i \<Rightarrow> i + 3 | None \<Rightarrow> 0)
           in if at < start then addr else take start addr @ ''***'' @ drop at addr))"

definition invalid_address :: "(string \<Rightarrow> string) \<Rightarrow> string \<Rightarrow> string \<Rightarrow> string" where
  "invalid_address quote addr reason = ''invalid proxy address '' @ quote (redactAddr addr) @ '': '' @ reason"

definition parseProxyURL :: "proxy_parser \<Rightarrow> (string \<Rightarrow> string) \<Rightarrow> string \<Rightarrow> string + proxy_url option" where
  "parseProxyURL parse quote addr =
     (if addr = [] then Inr None
      else if list_ex (\<lambda>c. c \<in> {CHR '' '', CHR 0x09, CHR 0x0D, CHR 0x0A}) addr then
        Inl (invalid_address quote addr ''contains whitespace'')
      else
        (let r = (case parse addr of
                    Inr u \<Rightarrow> if pu_Scheme u = [] \<or> pu_Host u = [] then parse (''http://'' @ addr) else Inr u
                  | Inl _ \<Rightarrow> parse (''http://'' @ addr))
         in case r of
              Inl e \<Rightarrow> Inl (invalid_address quote addr e)
            | Inr u \<Rightarrow>
                if pu_Hostname u = [] \<or> (pu_Host u \<noteq> [] \<and> last (pu_Host u) = CHR '':'')
                then Inl (invalid_address quote addr ''missing host'')
                else Inr (Some u)))"

text \<open>\<open>shown\<close> is \<^verbatim>\<open>URL.String\<close> of the URL without its user.\<close>

definition maskProxyURL :: "proxy_parser \<Rightarrow> (string \<Rightarrow> string) \<Rightarrow> (proxy_url \<Rightarrow> string) \<Rightarrow> string \<Rightarrow> string" where
  "maskProxyURL parse quote shown addr =
     (if addr = [] then []
      else case parseProxyURL parse quote addr of
        Inl _ \<Rightarrow> redactAddr addr
      | Inr None \<Rightarrow> redactAddr addr
      | Inr (Some u) \<Rightarrow>
          if pu_User u then
            (let masked = shown (u\<lparr>pu_User := False\<rparr>)
             in case sub_index ''://'' masked of
                  Some i \<Rightarrow> take (i + 3) masked @ ''***@'' @ drop (i + 3) masked
                | None \<Rightarrow> masked)
          else shown u)"

definition looksLikeIP :: "string \<Rightarrow> bool" where
  "looksLikeIP s \<longleftrightarrow> s \<noteq> [] \<and> list_all (\<lambda>r. is_digit r \<or> r = CHR ''.'' \<or> r = CHR '':'') s"

fun split_commas :: "string \<Rightarrow> string list" where
  "split_commas [] = [[]]"
| "split_commas (c # cs) = (if c = CHR '','' then [] # split_commas cs else (c # hd (split_commas cs)) # tl (split_commas cs))"

definition no_proxy_entry :: "(string \<Rightarrow> bool) \<Rightarrow> (string \<Rightarrow> bool) \<Rightarrow> (string \<Rightarrow> string) \<Rightarrow> string \<Rightarrow> string option" where
  "no_proxy_entry is_cidr is_ip quote raw =
     (let entry = trim_space raw
      in if entry = [] \<or> entry = ''*'' then None
         else if CHR ''/'' \<in> set entry then
           (if is_cidr entry then None else Some (''entry '' @ quote entry @ '': invalid CIDR''))
         else
           (let host = (case SplitHostPort entry of Some (h, _) \<Rightarrow> h | None \<Rightarrow> entry)
            in if looksLikeIP host \<and> \<not> is_ip host then Some (''entry '' @ quote entry @ '': invalid IP address'') else None))"

fun first_error :: "('a \<Rightarrow> string option) \<Rightarrow> 'a list \<Rightarrow> string option" where
  "first_error f [] = None"
| "first_error f (x # xs) = (case f x of Some e \<Rightarrow> Some e | None \<Rightarrow> first_error f xs)"

definition validateNoProxy :: "(string \<Rightarrow> bool) \<Rightarrow> (string \<Rightarrow> bool) \<Rightarrow> (string \<Rightarrow> string) \<Rightarrow> string \<Rightarrow> string option" where
  "validateNoProxy is_cidr is_ip quote lst = first_error (no_proxy_entry is_cidr is_ip quote) (split_commas lst)"

text \<open>The standard library that validation calls.\<close>

record net_lib =
  nl_parse :: proxy_parser
  nl_quote :: "string \<Rightarrow> string"
  nl_cidr :: "string \<Rightarrow> bool"
  nl_ip :: "string \<Rightarrow> bool"

definition config_Validate :: "net_lib \<Rightarrow> proxy_config \<Rightarrow> string option" where
  "config_Validate lib c =
     (case parseProxyURL (nl_parse lib) (nl_quote lib) (px_HTTPProxy c) of
        Inl e \<Rightarrow> Some (''httpproxy: http_proxy: '' @ e)
      | Inr _ \<Rightarrow>
          (case parseProxyURL (nl_parse lib) (nl_quote lib) (px_HTTPSProxy c) of
             Inl e \<Rightarrow> Some (''httpproxy: https_proxy: '' @ e)
           | Inr _ \<Rightarrow>
               (case validateNoProxy (nl_cidr lib) (nl_ip lib) (nl_quote lib) (px_NoProxy c) of
                  Some e \<Rightarrow> Some (''httpproxy: no_proxy: '' @ e)
                | None \<Rightarrow> None)))"

section \<open>The manager\<close>

text \<open>Transports are numbered; \<open>pm_closed\<close> lists the calls of \<^verbatim>\<open>CloseIdleConnections\<close>.\<close>

record proxy_manager =
  pm_debounce :: duration
  pm_snap :: proxy_config
  pm_transports :: "nat list"
  pm_bound :: "nat list"
  pm_shared :: "nat option"
  pm_closed :: "nat list"

text \<open>\<open>env\<close> is \<^verbatim>\<open>FromEnvironment\<close>; options with a duration of 0 or less have no effect.\<close>

definition NewManager :: "proxy_config \<Rightarrow> duration list \<Rightarrow> proxy_manager" where
  "NewManager env debounces =
     \<lparr>pm_debounce = fold (\<lambda>d cur. if d > 0 then d else cur) debounces 250000000, pm_snap = env, pm_transports = [],
      pm_bound = [], pm_shared = None, pm_closed = []\<rparr>"

definition closeIdleConnections :: "proxy_manager \<Rightarrow> proxy_manager" where
  "closeIdleConnections m = m\<lparr>pm_closed := pm_closed m @ pm_transports m\<rparr>"

definition manager_Update :: "net_lib \<Rightarrow> proxy_config \<Rightarrow> proxy_manager \<Rightarrow> string option \<times> proxy_manager" where
  "manager_Update lib c m =
     (case config_Validate lib c of
        Some e \<Rightarrow> (Some e, m)
      | None \<Rightarrow>
          if pm_snap m = c then (None, m)
          else (None, closeIdleConnections (m\<lparr>pm_snap := c\<rparr>)))"

definition manager_Register :: "nat option \<Rightarrow> proxy_manager \<Rightarrow> proxy_manager" where
  "manager_Register t m = (case t of None \<Rightarrow> m | Some i \<Rightarrow> m\<lparr>pm_transports := pm_transports m @ [i]\<rparr>)"

text \<open>\<open>i\<close> is a new transport, the clone of the default one; \<open>pm_bound\<close> are the transports whose \<^verbatim>\<open>Proxy\<close> is the manager's.\<close>

definition manager_Transport :: "nat \<Rightarrow> proxy_manager \<Rightarrow> nat \<times> proxy_manager" where
  "manager_Transport i m = (i, manager_Register (Some i) (m\<lparr>pm_bound := pm_bound m @ [i]\<rparr>))"

definition WrapTransport :: "nat \<Rightarrow> nat option \<Rightarrow> proxy_manager \<Rightarrow> nat \<times> proxy_manager" where
  "WrapTransport new t m =
     (case t of
        None \<Rightarrow> manager_Transport new m
      | Some i \<Rightarrow> (i, manager_Register (Some i) (m\<lparr>pm_bound := pm_bound m @ [i]\<rparr>)))"

definition sharedTransport :: "nat \<Rightarrow> proxy_manager \<Rightarrow> nat \<times> proxy_manager" where
  "sharedTransport new m =
     (case pm_shared m of
        Some i \<Rightarrow> (i, m)
      | None \<Rightarrow> (let (i, m') = manager_Transport new m in (i, m'\<lparr>pm_shared := Some i\<rparr>)))"

definition HookDefaultTransport :: "(string + nat) \<Rightarrow> proxy_manager \<Rightarrow> string option \<times> proxy_manager" where
  "HookDefaultTransport dflt m =
     (case dflt of
        Inl ty \<Rightarrow> (Some (''httpproxy: http.DefaultTransport is '' @ ty @ '', not *http.Transport''), m)
      | Inr i \<Rightarrow> (None, manager_Register (Some i) (m\<lparr>pm_bound := pm_bound m @ [i]\<rparr>)))"

section \<open>The settings file\<close>

record file_config =
  fc_HTTPProxy :: "string option"
  fc_HTTPSProxy :: "string option"
  fc_NoProxy :: "string option"

text \<open>What reading the file gives: the contents decode to an error, to nothing, or to the keys that are set.\<close>

datatype file_read = NotExist | ReadError string | DecodeError string | EmptyFile | Decoded file_config

definition pick_key :: "string option \<Rightarrow> string \<Rightarrow> string" where
  "pick_key v dflt = (case v of Some s \<Rightarrow> s | None \<Rightarrow> dflt)"

definition loadFile :: "proxy_config \<Rightarrow> string \<Rightarrow> file_read \<Rightarrow> string + proxy_config" where
  "loadFile env path r =
     (case r of
        NotExist \<Rightarrow> Inr env
      | ReadError e \<Rightarrow> Inl e
      | DecodeError e \<Rightarrow> Inl (''parse '' @ path @ '': '' @ e)
      | EmptyFile \<Rightarrow> Inr env
      | Decoded f \<Rightarrow>
          Inr \<lparr>px_HTTPProxy = pick_key (fc_HTTPProxy f) (px_HTTPProxy env),
               px_HTTPSProxy = pick_key (fc_HTTPSProxy f) (px_HTTPSProxy env),
               px_NoProxy = pick_key (fc_NoProxy f) (px_NoProxy env)\<rparr>)"

definition applyFile :: "net_lib \<Rightarrow> proxy_config \<Rightarrow> string \<Rightarrow> file_read \<Rightarrow> proxy_manager \<Rightarrow> string option \<times> proxy_manager" where
  "applyFile lib env path r m =
     (case loadFile env path r of Inl e \<Rightarrow> (Some e, m) | Inr cfg \<Rightarrow> manager_Update lib cfg m)"

text \<open>
  The loop of \<^verbatim>\<open>watchFile\<close> over what its select receives. \<open>FsEvent relevant gone\<close>: a write, creation, removal or renaming or
  something else, and whether the directory itself was removed or renamed; \<open>ReloadFires r lost add\<close>: the timer, with what the file then holds,
  whether the directory has left the watch list, and the error of watching it again.
\<close>

datatype watch_event = FsEvent bool bool | WatchError string | ReloadFires file_read bool "string option"

record watch_state =
  ws_manager :: proxy_manager
  ws_lastErr :: string
  ws_logs :: "string list"
  ws_dirStale :: bool
  ws_timer :: "duration option"

definition watch_apply :: "net_lib \<Rightarrow> proxy_config \<Rightarrow> string \<Rightarrow> file_read \<Rightarrow> watch_state \<Rightarrow> watch_state" where
  "watch_apply lib env path r s =
     (case applyFile lib env path r (ws_manager s) of
        (None, m) \<Rightarrow> s\<lparr>ws_manager := m, ws_lastErr := []\<rparr>
      | (Some e, m) \<Rightarrow>
          if e \<noteq> ws_lastErr s then s\<lparr>ws_manager := m, ws_lastErr := e, ws_logs := ws_logs s @ [e]\<rparr> else s\<lparr>ws_manager := m\<rparr>)"

fun watch_step :: "net_lib \<Rightarrow> proxy_config \<Rightarrow> string \<Rightarrow> watch_event \<Rightarrow> watch_state \<Rightarrow> watch_state" where
  "watch_step lib env path (FsEvent relevant gone) s =
     (if \<not> relevant then s
      else s\<lparr>ws_dirStale := (ws_dirStale s \<or> gone), ws_timer := Some (pm_debounce (ws_manager s))\<rparr>)"
| "watch_step lib env path (WatchError e) s = s\<lparr>ws_logs := ws_logs s @ [e]\<rparr>"
| "watch_step lib env path (ReloadFires r lost add) s =
     (let s' = (watch_apply lib env path r s)\<lparr>ws_timer := None\<rparr>
      in if ws_dirStale s \<or> lost then
           (case add of
              Some e \<Rightarrow> s'\<lparr>ws_logs := ws_logs s' @ [e], ws_timer := Some 1000000000\<rparr>
            | None \<Rightarrow> s'\<lparr>ws_dirStale := False, ws_timer := Some 1000000000\<rparr>)
         else s')"

definition watchFile :: "net_lib \<Rightarrow> proxy_config \<Rightarrow> string \<Rightarrow> file_read \<Rightarrow> watch_event list \<Rightarrow> proxy_manager \<Rightarrow> watch_state" where
  "watchFile lib env path first events m =
     fold (watch_step lib env path) events
       (watch_apply lib env path first
         \<lparr>ws_manager = m, ws_lastErr = [], ws_logs = [], ws_dirStale = False, ws_timer = None\<rparr>)"

section \<open>Lemmas\<close>

lemma sub_index_scheme:
  assumes "CHR ''/'' \<notin> set xs"
  shows "sub_index ''://'' (xs @ ''://'' @ ys) = Some (length xs)"
  using assms
proof (induction xs)
  case (Cons x xs)
  have "\<not> starts_with ''://'' (x # xs @ ''://'' @ ys)"
    using Cons.prems by (cases xs; cases "tl xs") auto
  with Cons show ?case by simp
qed simp

lemma redactAddr_before:
  assumes "CHR ''@'' \<notin> set host" and "CHR ''/'' \<notin> set scheme"
  shows "redactAddr (scheme @ ''://'' @ cred @ ''@'' @ host) = scheme @ ''://***@'' @ host"
proof -
  let ?pre = "scheme @ ''://'' @ cred"
  have at: "last_index CHR ''@'' (?pre @ CHR ''@'' # host) = Some (length ?pre)" by (rule last_index_split [OF assms(1)])
  have "sub_index ''://'' (?pre @ CHR ''@'' # host) = Some (length scheme)"
    using sub_index_scheme [OF assms(2), of "cred @ CHR ''@'' # host"] by simp
  with at show ?thesis by (simp add: redactAddr_def numeral_3_eq_3)
qed

text \<open>The settings a sequence of readings leads to: the last that are usable.\<close>

definition last_good :: "net_lib \<Rightarrow> proxy_config \<Rightarrow> string \<Rightarrow> file_read list \<Rightarrow> proxy_config \<Rightarrow> proxy_config" where
  "last_good lib env path reads cur =
     fold (\<lambda>r c. case loadFile env path r of Inl _ \<Rightarrow> c | Inr c' \<Rightarrow> if config_Validate lib c' = None then c' else c) reads cur"

definition event_reads :: "watch_event list \<Rightarrow> file_read list" where
  "event_reads es = List.map_filter (\<lambda>e. case e of ReloadFires r _ _ \<Rightarrow> Some r | _ \<Rightarrow> None) es"

lemma applyFile_snap:
  "pm_snap (snd (applyFile lib env path r m)) = last_good lib env path [r] (pm_snap m)"
  "pm_transports (snd (applyFile lib env path r m)) = pm_transports m"
  "pm_closed (snd (applyFile lib env path r m)) =
     pm_closed m @ (if last_good lib env path [r] (pm_snap m) = pm_snap m then [] else pm_transports m)"
  by (auto simp: applyFile_def manager_Update_def closeIdleConnections_def last_good_def split: sum.splits option.splits)

lemma watch_apply_manager: "ws_manager (watch_apply lib env path r s) = snd (applyFile lib env path r (ws_manager s))"
  by (auto simp: watch_apply_def split: prod.splits option.splits)

lemma watch_step_manager:
  "ws_manager (watch_step lib env path e s) =
     (case e of ReloadFires r _ _ \<Rightarrow> snd (applyFile lib env path r (ws_manager s)) | _ \<Rightarrow> ws_manager s)"
  by (cases e) (auto simp: watch_apply_manager Let_def split: option.splits)

lemma watch_events_manager:
  "ws_manager (fold (watch_step lib env path) es s) =
     fold (\<lambda>r m. snd (applyFile lib env path r m)) (event_reads es) (ws_manager s)"
proof (induction es arbitrary: s)
  case (Cons e es)
  have "event_reads (e # es) = (case e of ReloadFires r _ _ \<Rightarrow> [r] | _ \<Rightarrow> []) @ event_reads es"
    by (cases e) (simp_all add: event_reads_def map_filter_simps)
  with Cons [of "watch_step lib env path e s"] watch_step_manager [of lib env path e s] show ?case
    by (simp del: watch_step.simps split: watch_event.splits)
qed (simp add: event_reads_def map_filter_simps)

lemma readings_snap:
  "pm_snap (fold (\<lambda>r m. snd (applyFile lib env path r m)) rs m) = last_good lib env path rs (pm_snap m)"
  by (induction rs arbitrary: m) (simp_all add: applyFile_snap last_good_def)

lemma readings_closed:
  "pm_transports (fold (\<lambda>r m. snd (applyFile lib env path r m)) rs m) = pm_transports m \<and>
   (\<exists>n. pm_closed (fold (\<lambda>r m. snd (applyFile lib env path r m)) rs m) = pm_closed m @ concat (replicate n (pm_transports m)) \<and>
      n \<le> length rs \<and> (last_good lib env path rs (pm_snap m) \<noteq> pm_snap m \<longrightarrow> 0 < n))"
proof (induction rs arbitrary: m)
  case (Cons r rs)
  let ?m = "snd (applyFile lib env path r m)"
  have good: "last_good lib env path (r # rs) c = last_good lib env path rs (last_good lib env path [r] c)" for c
    by (simp add: last_good_def)
  from Cons.IH [of ?m] obtain n where n: "pm_closed (fold (\<lambda>r m. snd (applyFile lib env path r m)) rs ?m) =
      pm_closed ?m @ concat (replicate n (pm_transports m))" "n \<le> length rs"
    "last_good lib env path rs (pm_snap ?m) \<noteq> pm_snap ?m \<longrightarrow> 0 < n"
    by (auto simp: applyFile_snap)
  show ?case
  proof (cases "last_good lib env path [r] (pm_snap m) = pm_snap m")
    case True
    with n Cons.IH [of ?m] show ?thesis by (auto simp: applyFile_snap good intro!: exI [of _ n])
  next
    case False
    with n Cons.IH [of ?m] show ?thesis by (auto simp: applyFile_snap good intro!: exI [of _ "Suc n"])
  qed
qed (simp add: last_good_def)

section \<open>Properties\<close>


text \<open>
  A proxy address with credentials is shown without them: of two addresses that differ in the credentials only, the messages
  and logs of the package show the same text.
\<close>

theorem redactAddr_hides:
  assumes "CHR ''@'' \<notin> set host" and "CHR ''/'' \<notin> set scheme"
  shows "redactAddr (scheme @ ''://'' @ cred @ ''@'' @ host) = scheme @ ''://***@'' @ host \<and>
    redactAddr (scheme @ ''://'' @ cred @ ''@'' @ host) = redactAddr (scheme @ ''://'' @ cred' @ ''@'' @ host)"
  using redactAddr_before [OF assms] by simp

theorem redactAddr_hides_witness:
  "redactAddr ''http://user:pw@10.0.1.1:3128'' = ''http://***@10.0.1.1:3128''"
  using redactAddr_hides [of "''10.0.1.1:3128''" "''http''" "''user:pw''"] by simp

text \<open>
  The promise that errors never contain credentials does not hold for an address whose scheme follows the credentials, as in
  \<^verbatim>\<open>user:pw@http://proxy\<close>: the address is refused for its missing host, and the error shows it as it is.
\<close>

theorem Validate_shows_credentials:
  assumes "CHR ''/'' \<notin> set cred" and "CHR ''@'' \<notin> set host"
    and "list_all (\<lambda>c. c \<notin> {CHR '' '', CHR 0x09, CHR 0x0D, CHR 0x0A}) (cred @ ''@http://'' @ host)"
    and "nl_parse lib (cred @ ''@http://'' @ host) = Inr u0" and "pu_Host u0 = []"
    and "nl_parse lib (''http://'' @ cred @ ''@http://'' @ host) = Inr u" and "pu_Host u = ''http:''"
  shows "config_Validate lib \<lparr>px_HTTPProxy = cred @ ''@http://'' @ host, px_HTTPSProxy = s, px_NoProxy = n\<rparr> =
    Some (''httpproxy: http_proxy: invalid proxy address '' @ nl_quote lib (cred @ ''@http://'' @ host) @ '': missing host'')"
proof -
  let ?addr = "cred @ ''@http://'' @ host"
  have "sub_index ''://'' ((cred @ ''@http'') @ ''://'' @ host) = Some (length (cred @ ''@http''))"
    by (rule sub_index_scheme) (use assms(1) in simp)
  moreover have "last_index CHR ''@'' (cred @ CHR ''@'' # ''http://'' @ host) = Some (length cred)"
    by (rule last_index_split) (use assms(2) in simp)
  ultimately have red: "redactAddr ?addr = ?addr" by (simp add: redactAddr_def)
  have "\<not> list_ex (\<lambda>c. c \<in> {CHR '' '', CHR 0x09, CHR 0x0D, CHR 0x0A}) ?addr"
    using assms(3) by (auto simp: list_all_iff list_ex_iff)
  with assms(4-7) red show ?thesis
    by (simp add: config_Validate_def parseProxyURL_def invalid_address_def)
qed

theorem Validate_shows_credentials_witness:
  "config_Validate
     \<lparr>nl_parse = (\<lambda>s. if s = ''u:pw@http://p'' then Inr \<lparr>pu_Scheme = ''u'', pu_Host = [], pu_Hostname = [], pu_User = False\<rparr>
                      else Inr \<lparr>pu_Scheme = ''http'', pu_Host = ''http:'', pu_Hostname = ''http'', pu_User = True\<rparr>),
      nl_quote = (\<lambda>s. s), nl_cidr = (\<lambda>_. False), nl_ip = (\<lambda>_. False)\<rparr>
     \<lparr>px_HTTPProxy = ''u:pw@http://p'', px_HTTPSProxy = [], px_NoProxy = []\<rparr> =
   Some ''httpproxy: http_proxy: invalid proxy address u:pw@http://p: missing host''"
  using Validate_shows_credentials [of "''u:pw''" "''p''" "\<lparr>nl_parse = (\<lambda>s. if s = ''u:pw@http://p'' then Inr \<lparr>pu_Scheme = ''u'', pu_Host = [], pu_Hostname = [], pu_User = False\<rparr>
                      else Inr \<lparr>pu_Scheme = ''http'', pu_Host = ''http:'', pu_Hostname = ''http'', pu_User = True\<rparr>),
      nl_quote = (\<lambda>s. s), nl_cidr = (\<lambda>_. False), nl_ip = (\<lambda>_. False)\<rparr>"
      "\<lparr>pu_Scheme = ''u'', pu_Host = [], pu_Hostname = [], pu_User = False\<rparr>"
      "\<lparr>pu_Scheme = ''http'', pu_Host = ''http:'', pu_Hostname = ''http'', pu_User = True\<rparr>" "[]" "[]"]
  by simp

end
