(* ===== verification/Rabbit_Mq.thy ===== *)
theory Rabbit_Mq
  imports Kit_Prelude "HOL-Library.Multiset"
begin

text \<open>
  \<^verbatim>\<open>src/infra/pubsub/rabbitmq\<close>: settings (\<^verbatim>\<open>config.go\<close>), the connection that is made again when it is lost (\<^verbatim>\<open>broker.go\<close>), the publisher
  with its confirmations (\<^verbatim>\<open>publisher.go\<close>) and the consumer with its workers (\<^verbatim>\<open>consumer.go\<close>). The AMQP library is a parameter: its
  calls have outcomes that the operations take as arguments.
\<close>

section \<open>Settings\<close>

record mq_config =
  mq_URL :: string
  mq_ConnectTimeout :: duration

definition mq_NewConfig :: "string \<Rightarrow> duration list \<Rightarrow> string + mq_config" where
  "mq_NewConfig url timeouts =
     (if url = [] then Inl ''rabbitmq config URL is required''
      else Inr (fold (\<lambda>t c. c\<lparr>mq_ConnectTimeout := t\<rparr>) timeouts \<lparr>mq_URL = url, mq_ConnectTimeout = 10000000000\<rparr>))"

record exchange_config =
  ex_Name :: string
  ex_Type :: string
  ex_Durable :: bool
  ex_AutoDelete :: bool

datatype exchange_option = WithDurable bool | WithAutoDelete bool

fun exchange_apply :: "exchange_option \<Rightarrow> exchange_config \<Rightarrow> exchange_config" where
  "exchange_apply (WithDurable b) c = c\<lparr>ex_Durable := b\<rparr>"
| "exchange_apply (WithAutoDelete b) c = c\<lparr>ex_AutoDelete := b\<rparr>"

definition NewExchangeConfig :: "string \<Rightarrow> string \<Rightarrow> exchange_option list \<Rightarrow> string + exchange_config" where
  "NewExchangeConfig name exchangeType opts =
     (if name = [] then Inl ''rabbitmq config exchange name is required''
      else if exchangeType = [] then Inl ''rabbitmq config exchange type is required''
      else Inr (fold exchange_apply opts \<lparr>ex_Name = name, ex_Type = exchangeType, ex_Durable = True, ex_AutoDelete = False\<rparr>))"

record queue_config =
  qu_Name :: string
  qu_Durable :: bool
  qu_AutoDelete :: bool
  qu_Exclusive :: bool
  qu_Arguments :: "string \<rightharpoonup> string"

datatype queue_option =
    WithQueueDurable bool | WithQueueAutoDelete bool | WithQueueExclusive bool | WithQueueArgument string string

definition WithQueueTypeQuorum :: queue_option where
  "WithQueueTypeQuorum = WithQueueArgument ''x-queue-type'' ''quorum''"

fun queue_apply :: "queue_option \<Rightarrow> queue_config \<Rightarrow> queue_config" where
  "queue_apply (WithQueueDurable b) c = c\<lparr>qu_Durable := b\<rparr>"
| "queue_apply (WithQueueAutoDelete b) c = c\<lparr>qu_AutoDelete := b\<rparr>"
| "queue_apply (WithQueueExclusive b) c = c\<lparr>qu_Exclusive := b\<rparr>"
| "queue_apply (WithQueueArgument k v) c = c\<lparr>qu_Arguments := (qu_Arguments c)(k \<mapsto> v)\<rparr>"

definition NewQueueConfig :: "string \<Rightarrow> queue_option list \<Rightarrow> string + queue_config" where
  "NewQueueConfig name opts =
     (if name = [] then Inl ''rabbitmq config queue name is required''
      else Inr (fold queue_apply opts
        \<lparr>qu_Name = name, qu_Durable = True, qu_AutoDelete = False, qu_Exclusive = False, qu_Arguments = Map.empty\<rparr>))"

record consumer_config =
  cc_Tag :: string
  cc_MaxWorkers :: int
  cc_ReconnectDelay :: duration
  cc_ProcessingTimeout :: duration

datatype consumer_option =
    WithConsumerMaxWorkers int | WithConsumerReconnectDelay duration | WithConsumerProcessingTimeout duration

fun consumer_apply :: "consumer_option \<Rightarrow> consumer_config \<Rightarrow> consumer_config" where
  "consumer_apply (WithConsumerMaxWorkers n) c = c\<lparr>cc_MaxWorkers := n\<rparr>"
| "consumer_apply (WithConsumerReconnectDelay d) c = c\<lparr>cc_ReconnectDelay := d\<rparr>"
| "consumer_apply (WithConsumerProcessingTimeout d) c = c\<lparr>cc_ProcessingTimeout := d\<rparr>"

definition NewConsumerConfig :: "string \<Rightarrow> consumer_option list \<Rightarrow> string + consumer_config" where
  "NewConsumerConfig tag opts =
     (if tag = [] then Inl ''tag is required''
      else
        (let cfg = fold consumer_apply opts
               \<lparr>cc_Tag = tag, cc_MaxWorkers = 1, cc_ReconnectDelay = 5000000000, cc_ProcessingTimeout = 30000000000\<rparr>
         in if cc_MaxWorkers cfg \<le> 0 then Inl ''max workers must be > 0''
            else if cc_ReconnectDelay cfg \<le> 0 then Inl ''reconnect delay must be > 0''
            else if cc_ProcessingTimeout cfg \<le> 0 then Inl ''processing timeout must be > 0''
            else Inr cfg))"

record publisher_config =
  pb_MaxRetries :: int
  pb_ConfirmationTimeout :: duration
  pb_Confirmation :: bool

datatype publisher_option =
    WithPublisherMaxRetries int | WithPublisherConfirmationTimeout duration | WithConfirmation bool

fun publisher_apply :: "publisher_option \<Rightarrow> publisher_config \<Rightarrow> publisher_config" where
  "publisher_apply (WithPublisherMaxRetries n) c = c\<lparr>pb_MaxRetries := n\<rparr>"
| "publisher_apply (WithPublisherConfirmationTimeout d) c = c\<lparr>pb_ConfirmationTimeout := d\<rparr>"
| "publisher_apply (WithConfirmation b) c = c\<lparr>pb_Confirmation := b\<rparr>"

definition NewPublisherConfig :: "publisher_option list \<Rightarrow> string + publisher_config" where
  "NewPublisherConfig opts =
     (let cfg = fold publisher_apply opts \<lparr>pb_MaxRetries = 3, pb_ConfirmationTimeout = 5000000000, pb_Confirmation = True\<rparr>
      in if pb_MaxRetries cfg \<le> 0 then Inl ''publisher max retries must be > 0''
         else if pb_ConfirmationTimeout cfg \<le> 0 then Inl ''publisher confirmation timeout must be > 0''
         else Inr cfg)"

section \<open>The connection\<close>

text \<open>
  Connections are numbered in the order they are made. \<open>bk_open\<close>: those that are open; \<open>bk_watching\<close>: those with a \<^verbatim>\<open>watchConn\<close> that waits; \<open>bk_pc\<close>:
  where \<^verbatim>\<open>reconnect\<close> is, which runs at most once (\<^verbatim>\<open>reconnecting\<close>): at the test of \<^verbatim>\<open>done\<close>, before \<^verbatim>\<open>connect\<close>, or connected and about to return. A step is
  what happens under the lock, one test or one message.
\<close>

datatype reconnect_pc = RIdle | RTest | RConnect | RFinish

record mq_broker =
  bk_made :: nat
  bk_conn :: "nat option"
  bk_ch :: bool
  bk_open :: "nat set"
  bk_watching :: "nat set"
  bk_pc :: reconnect_pc
  bk_done :: bool

definition ErrConnectionNotAvailable :: string where
  "ErrConnectionNotAvailable = ''rabbitmq connection not available''"

text \<open>\<^verbatim>\<open>connect\<close>, with the outcome of dialling and of opening the channel. The old connection is closed when the new one is there.\<close>

datatype dial_outcome = DialFails string | ChannelFails string | Dialled

definition mq_install :: "mq_broker \<Rightarrow> mq_broker" where
  "mq_install b =
     b\<lparr>bk_made := Suc (bk_made b), bk_conn := Some (bk_made b), bk_ch := True,
       bk_open := insert (bk_made b) (bk_open b - set_option (bk_conn b)), bk_watching := insert (bk_made b) (bk_watching b)\<rparr>"

definition mq_connect :: "dial_outcome \<Rightarrow> mq_broker \<Rightarrow> string option \<times> mq_broker" where
  "mq_connect d b =
     (case d of
        DialFails e \<Rightarrow> (Some (''rabbitmq connection failed: '' @ e), b)
      | ChannelFails e \<Rightarrow> (Some (''open channel: '' @ e), b)
      | Dialled \<Rightarrow> (None, mq_install b))"

definition mq_new :: mq_broker where
  "mq_new = \<lparr>bk_made = 0, bk_conn = None, bk_ch = False, bk_open = {}, bk_watching = {}, bk_pc = RIdle, bk_done = False\<rparr>"

definition NewConnection :: "dial_outcome \<Rightarrow> string + mq_broker" where
  "NewConnection d =
     (case mq_connect d mq_new of (Some e, _) \<Rightarrow> Inl (''broker creation: '' @ e) | (None, b) \<Rightarrow> Inr b)"

text \<open>\<open>err\<close> is the error of the context.\<close>

definition broker_Channel :: "string option \<Rightarrow> mq_broker \<Rightarrow> string + nat" where
  "broker_Channel err b =
     (case err of
        Some e \<Rightarrow> Inl e
      | None \<Rightarrow>
          (case bk_conn b of
             Some i \<Rightarrow> if i \<notin> bk_open b \<or> \<not> bk_ch b then Inl ErrConnectionNotAvailable else Inr i
           | None \<Rightarrow> Inl ErrConnectionNotAvailable))"

text \<open>\<open>close_err\<close> is the error of closing the connection.\<close>

definition broker_Close :: "string option \<Rightarrow> mq_broker \<Rightarrow> string option \<times> mq_broker" where
  "broker_Close close_err b =
     (if bk_done b then (Some ''broker already closed'', b)
      else
        (if bk_open b \<inter> set_option (bk_conn b) = {} then None else close_err,
         b\<lparr>bk_done := True, bk_ch := False, bk_open := bk_open b - set_option (bk_conn b)\<rparr>))"

definition watch_fires :: "nat \<Rightarrow> mq_broker \<Rightarrow> mq_broker" where
  "watch_fires i b =
     (if bk_pc b = RIdle then b\<lparr>bk_watching := bk_watching b - {i}, bk_pc := RTest\<rparr>
      else b\<lparr>bk_watching := bk_watching b - {i}\<rparr>)"

inductive mq_step :: "mq_broker \<Rightarrow> mq_broker \<Rightarrow> bool" where
  drops: "i \<in> bk_open b \<Longrightarrow> mq_step b (b\<lparr>bk_open := bk_open b - {i}\<rparr>)"
| channel_closes: "mq_step b (b\<lparr>bk_ch := False\<rparr>)"
| fires: "i \<in> bk_watching b \<Longrightarrow> i \<notin> bk_open b \<Longrightarrow> mq_step b (watch_fires i b)"
| stops_watching: "i \<in> bk_watching b \<Longrightarrow> bk_done b \<Longrightarrow> mq_step b (b\<lparr>bk_watching := bk_watching b - {i}\<rparr>)"
| gives_up: "bk_pc b = RTest \<Longrightarrow> bk_done b \<Longrightarrow> mq_step b (b\<lparr>bk_pc := RIdle\<rparr>)"
| tries: "bk_pc b = RTest \<Longrightarrow> \<not> bk_done b \<Longrightarrow> mq_step b (b\<lparr>bk_pc := RConnect\<rparr>)"
| connects:
    "bk_pc b = RConnect \<Longrightarrow> mq_connect d b = (err, b') \<Longrightarrow> mq_step b (b'\<lparr>bk_pc := (if err = None then RFinish else RTest)\<rparr>)"
| finishes: "bk_pc b = RFinish \<Longrightarrow> mq_step b (b\<lparr>bk_pc := RIdle\<rparr>)"
| closes: "mq_step b (snd (broker_Close e b))"

inductive mq_reach :: "mq_broker \<Rightarrow> bool" where
  start: "NewConnection d = Inr b \<Longrightarrow> mq_reach b"
| step: "mq_reach b \<Longrightarrow> mq_step b b' \<Longrightarrow> mq_reach b'"

text \<open>The waits between attempts: one second, doubled up to 30 seconds.\<close>

definition next_retry :: "duration \<Rightarrow> duration" where
  "next_retry retry = (let r = int64 (retry * 2) in if r < 30000000000 then r else 30000000000)"

text \<open>Declarations, with the calls they make on the channel: the outcome of \<^verbatim>\<open>Channel\<close>, then the errors of the library. The last two arguments of every
  call to the library, not shown, are constants or passed on.\<close>

datatype amqp_call =
    ExchangeDeclare string string bool bool
  | ExchangeBind string string string bool
  | QueueDeclare string bool bool bool "string \<rightharpoonup> string"
  | QueueBind string string string bool

definition DeclareExchange :: "string + nat \<Rightarrow> string option \<Rightarrow> exchange_config \<Rightarrow> string option \<times> amqp_call list" where
  "DeclareExchange ch declare_err cfg =
     (case ch of
        Inl e \<Rightarrow> (Some e, [])
      | Inr _ \<Rightarrow>
          (map_option (\<lambda>e. ''rabbitmq AMQP entity declaration failed: '' @ e) declare_err,
           [ExchangeDeclare (ex_Name cfg) (ex_Type cfg) (ex_Durable cfg) (ex_AutoDelete cfg)]))"

definition BindExchange ::
    "string + nat \<Rightarrow> string option \<Rightarrow> string \<Rightarrow> string \<Rightarrow> string \<Rightarrow> bool \<Rightarrow> string option \<times> amqp_call list" where
  "BindExchange ch bind_err destination source routingKey noWait =
     (case ch of
        Inl e \<Rightarrow> (Some e, [])
      | Inr _ \<Rightarrow> (map_option (\<lambda>e. ''bind exchange: '' @ e) bind_err, [ExchangeBind destination routingKey source noWait]))"

definition DeclareQueue ::
    "string + nat \<Rightarrow> string option \<Rightarrow> string option \<Rightarrow> queue_config \<Rightarrow> exchange_config option \<Rightarrow> string \<Rightarrow>
       string option \<times> amqp_call list" where
  "DeclareQueue ch declare_err bind_err cfg exchange routingKey =
     (case ch of
        Inl e \<Rightarrow> (Some e, [])
      | Inr _ \<Rightarrow>
          (let q = QueueDeclare (qu_Name cfg) (qu_Durable cfg) (qu_AutoDelete cfg) (qu_Exclusive cfg) (qu_Arguments cfg)
           in case declare_err of
                Some e \<Rightarrow> (Some (''rabbitmq AMQP entity declaration failed: '' @ e), [q])
              | None \<Rightarrow>
                  (case exchange of
                     Some x \<Rightarrow>
                       if routingKey \<noteq> [] then
                         (map_option (\<lambda>e. ''bind queue: '' @ e) bind_err, [q, QueueBind (qu_Name cfg) routingKey (ex_Name x) False])
                       else (None, [q])
                   | None \<Rightarrow> (None, [q]))))"

definition BindQueue ::
    "string + nat \<Rightarrow> string option \<Rightarrow> string \<Rightarrow> string \<Rightarrow> string \<Rightarrow> bool \<Rightarrow> string option \<times> amqp_call list" where
  "BindQueue ch bind_err queueName rk exchange noWait =
     (case ch of
        Inl e \<Rightarrow> (Some (''get channel for exchange declaration: '' @ e), [])
      | Inr _ \<Rightarrow>
          (map_option (\<lambda>e. ''rabbitmq AMQP entity declaration failed: '' @ e) bind_err, [QueueBind queueName rk exchange noWait]))"

subsection \<open>What the connection keeps\<close>

text \<open>No connection but the held one is open, and connections are numbered below the counter.\<close>

definition mq_wf :: "mq_broker \<Rightarrow> bool" where
  "mq_wf b \<longleftrightarrow>
     bk_open b \<subseteq> set_option (bk_conn b) \<and> (\<forall>i \<in> set_option (bk_conn b). i < bk_made b) \<and> (\<forall>i \<in> bk_watching b. i < bk_made b)"

lemma mq_wf_install [intro]: "mq_wf b \<Longrightarrow> mq_wf (mq_install b)"
  by (auto simp: mq_wf_def mq_install_def)

lemma mq_wf_pc [simp]: "mq_wf (b\<lparr>bk_pc := p\<rparr>) \<longleftrightarrow> mq_wf b"
  by (simp add: mq_wf_def)

lemma mq_wf_connect: "mq_wf b \<Longrightarrow> mq_connect d b = (err, b') \<Longrightarrow> mq_wf b'"
  by (auto simp: mq_connect_def split: dial_outcome.splits)

lemma mq_wf_step: "mq_step b b' \<Longrightarrow> mq_wf b \<Longrightarrow> mq_wf b'"
proof (induction rule: mq_step.induct)
  case (connects b d err b')
  then show ?case by (simp add: mq_wf_connect)
qed (auto simp: mq_wf_def watch_fires_def broker_Close_def)

lemma mq_wf_reach: "mq_reach b \<Longrightarrow> mq_wf b"
proof (induction rule: mq_reach.induct)
  case (start d b)
  have "mq_wf mq_new" by (simp add: mq_wf_def mq_new_def)
  then show ?case
    using start mq_wf_connect [of mq_new d] by (auto simp: NewConnection_def split: prod.splits option.splits)
qed (rule mq_wf_step)

lemma NewConnection_Dialled [simp]: "NewConnection Dialled = Inr (mq_install mq_new)"
  by (simp add: NewConnection_def mq_connect_def)

lemma broker_Channel_Inr: "broker_Channel err b = Inr i \<longleftrightarrow> err = None \<and> bk_conn b = Some i \<and> i \<in> bk_open b \<and> bk_ch b"
  by (auto simp: broker_Channel_def split: option.splits)

lemma broker_Channel_None:
  "broker_Channel None b = Inl ErrConnectionNotAvailable \<longleftrightarrow> bk_open b \<inter> set_option (bk_conn b) = {} \<or> \<not> bk_ch b"
  by (auto simp: broker_Channel_def split: option.splits)

text \<open>
  At any moment at most one connection to the server is open, the one the broker holds: when a connection is made again the previous one is closed,
  whatever the order of lost connections, watchers, attempts and \<^verbatim>\<open>Close\<close>.
\<close>

theorem one_open_connection: "{b. mq_reach b} \<subseteq> {b. bk_open b \<subseteq> set_option (bk_conn b) \<and> card (bk_open b) \<le> 1}"
proof
  fix b
  assume "b \<in> {b. mq_reach b}"
  then have "bk_open b \<subseteq> set_option (bk_conn b)" using mq_wf_reach [of b] by (simp add: mq_wf_def)
  then show "b \<in> {b. bk_open b \<subseteq> set_option (bk_conn b) \<and> card (bk_open b) \<le> 1}"
    by (cases "bk_conn b") (auto dest: card_mono [rotated] simp: subset_singleton_iff)
qed

text \<open>A broker that waits for nothing: no connection, no watcher, no attempt.\<close>

definition mq_stuck :: "mq_broker \<Rightarrow> bool" where
  "mq_stuck b \<longleftrightarrow> bk_open b = {} \<and> bk_watching b = {} \<and> bk_pc b = RIdle"

inductive_cases mq_stepE: "mq_step b b'"

lemma mq_stuck_step: "mq_step b b' \<Longrightarrow> mq_stuck b \<Longrightarrow> mq_stuck b'"
  by (erule mq_stepE) (auto simp: mq_stuck_def broker_Close_def)

lemma mq_stuck_steps: "mq_step\<^sup>*\<^sup>* b b' \<Longrightarrow> mq_stuck b \<Longrightarrow> mq_stuck b'"
  by (induction rule: rtranclp_induct) (auto intro: mq_stuck_step)

lemma mq_stuck_Channel: "mq_stuck b \<Longrightarrow> broker_Channel None b = Inl ErrConnectionNotAvailable"
  by (simp add: mq_stuck_def broker_Channel_None)

text \<open>
  The schedule: the connection is lost, \<^verbatim>\<open>reconnect\<close> makes another, which is lost before \<^verbatim>\<open>reconnect\<close> resets its flag.
\<close>

definition mq_lost_wakeup :: mq_broker where
  "mq_lost_wakeup =
     \<lparr>bk_made = 2, bk_conn = Some 1, bk_ch = True, bk_open = {}, bk_watching = {}, bk_pc = RIdle, bk_done = False\<rparr>"

lemma mq_lost_wakeup_reach: "mq_reach mq_lost_wakeup"
proof -
  let ?b = "\<lambda>n c open watching pc. \<lparr>bk_made = n, bk_conn = Some c, bk_ch = True, bk_open = open, bk_watching = watching, bk_pc = pc, bk_done = False\<rparr>"
  have "mq_reach (?b 1 0 {0} {0} RIdle)"
    using mq_reach.start [of Dialled] by (simp add: mq_install_def mq_new_def)
  then have "mq_reach (?b 1 0 {} {0} RIdle)"
    by (rule mq_reach.step) (use mq_step.drops [of 0 "?b 1 0 {0} {0} RIdle"] in simp)
  then have "mq_reach (?b 1 0 {} {} RTest)"
    by (rule mq_reach.step) (use mq_step.fires [of 0 "?b 1 0 {} {0} RIdle"] in \<open>simp add: watch_fires_def\<close>)
  then have "mq_reach (?b 1 0 {} {} RConnect)"
    by (rule mq_reach.step) (use mq_step.tries [of "?b 1 0 {} {} RTest"] in simp)
  then have "mq_reach (?b 2 1 {1} {1} RFinish)"
    by (rule mq_reach.step)
      (use mq_step.connects [of "?b 1 0 {} {} RConnect" Dialled] in \<open>simp add: mq_connect_def mq_install_def numeral_2_eq_2\<close>)
  then have "mq_reach (?b 2 1 {} {1} RFinish)"
    by (rule mq_reach.step) (use mq_step.drops [of 1 "?b 2 1 {1} {1} RFinish"] in simp)
  then have "mq_reach (?b 2 1 {} {} RFinish)"
    by (rule mq_reach.step) (use mq_step.fires [of 1 "?b 2 1 {} {1} RFinish"] in \<open>simp add: watch_fires_def\<close>)
  then have "mq_reach (?b 2 1 {} {} RIdle)"
    by (rule mq_reach.step) (use mq_step.finishes [of "?b 2 1 {} {} RFinish"] in simp)
  then show ?thesis by (simp add: mq_lost_wakeup_def)
qed

text \<open>
  A connection that is lost while \<^verbatim>\<open>reconnect\<close> has made it but not yet returned is never made again: its watcher finds the flag still set and ends.
  From then on, whatever happens, \<^verbatim>\<open>Channel\<close> answers that there is no connection, though \<^verbatim>\<open>Close\<close> was not called.
\<close>

theorem reconnect_lost_wakeup:
  "mq_reach mq_lost_wakeup \<and> \<not> bk_done mq_lost_wakeup \<and>
   {b. mq_step\<^sup>*\<^sup>* mq_lost_wakeup b} \<subseteq> {b. broker_Channel None b = Inl ErrConnectionNotAvailable}"
proof -
  have "mq_stuck mq_lost_wakeup" by (simp add: mq_stuck_def mq_lost_wakeup_def)
  then have "{b. mq_step\<^sup>*\<^sup>* mq_lost_wakeup b} \<subseteq> {b. broker_Channel None b = Inl ErrConnectionNotAvailable}"
    by (auto intro: mq_stuck_Channel dest: mq_stuck_steps)
  moreover have "\<not> bk_done mq_lost_wakeup" by (simp add: mq_lost_wakeup_def)
  ultimately show ?thesis using mq_lost_wakeup_reach by blast
qed

text \<open>Steps that neither lose nor make a connection do not bring a closed channel back.\<close>

definition mq_calm :: "mq_broker \<Rightarrow> mq_broker \<Rightarrow> bool" where
  "mq_calm b b' \<longleftrightarrow> mq_step b b' \<and> bk_open b' = bk_open b"

lemma mq_step_closed: "mq_step b b' \<Longrightarrow> bk_open b' = bk_open b \<Longrightarrow> mq_wf b \<Longrightarrow> \<not> bk_ch b \<Longrightarrow> \<not> bk_ch b'"
proof (induction rule: mq_step.induct)
  case (connects b d err b')
  have "bk_made b \<notin> bk_open b" using connects.prems by (auto simp: mq_wf_def)
  with connects show ?case by (auto simp: mq_connect_def mq_install_def split: dial_outcome.splits)
qed (auto simp: watch_fires_def broker_Close_def)

lemma mq_calm_steps: "mq_calm\<^sup>*\<^sup>* b b' \<Longrightarrow> mq_wf b \<Longrightarrow> \<not> bk_ch b \<Longrightarrow> \<not> bk_ch b' \<and> mq_wf b'"
proof (induction rule: rtranclp_induct)
  case (step y z)
  then show ?case using mq_step_closed [of y z] mq_wf_step [of y z] by (simp add: mq_calm_def)
qed simp

section \<open>The publisher\<close>

text \<open>
  The channel of connection \<open>i\<close> has number \<open>i\<close>; everybody who asks the broker gets the same one. \<open>cs_sent i\<close>: the messages sent on it, in order (the server numbers
  them so); \<open>cs_told i\<close>: how many confirmations the library has handed to its listeners. The library hands them over in the order of the
  messages, to every listener, from the moment it listens: \<open>pu_next\<close> is the number of the message whose confirmation the publisher reads
  next.
\<close>

record 'm mq_channels =
  cs_open :: "nat set"
  cs_sent :: "nat \<Rightarrow> 'm list"
  cs_told :: "nat \<Rightarrow> nat"

record mq_publisher =
  pu_channel :: "nat option"
  pu_next :: nat

datatype pub_error = PubCanceled | PubDeadline | PubErr string

datatype confirm_wait = ConfirmRead | ConfirmClosed | ConfirmTimeout | ConfirmContext pub_error

text \<open>What the broker and the library answer to one attempt.\<close>

record pub_io =
  io_channel :: "string + nat"
  io_confirm :: "string option"
  io_publish :: "string option"
  io_wait :: confirm_wait

definition ensureChannel ::
    "publisher_config \<Rightarrow> pub_io \<Rightarrow> 'm mq_channels \<Rightarrow> mq_publisher \<Rightarrow> string option \<times> 'm mq_channels \<times> mq_publisher" where
  "ensureChannel cfg io w p =
     (if pu_channel p \<noteq> None \<and> the (pu_channel p) \<in> cs_open w then (None, w, p)
      else
        (case io_channel io of
           Inl e \<Rightarrow> (Some (''recreate channel: '' @ e), w, p)
         | Inr i \<Rightarrow>
             if pb_Confirmation cfg then
               (case io_confirm io of
                  Some e \<Rightarrow> (Some (''enable confirm mode: '' @ e), w\<lparr>cs_open := cs_open w - {i}\<rparr>, p)
                | None \<Rightarrow> (None, w, p\<lparr>pu_channel := Some i, pu_next := cs_told w i\<rparr>))
             else (None, w, p\<lparr>pu_channel := Some i\<rparr>)))"

definition NewPublisher :: "publisher_config \<Rightarrow> pub_io \<Rightarrow> 'm mq_channels \<Rightarrow> string + 'm mq_channels \<times> mq_publisher" where
  "NewPublisher cfg io w =
     (case ensureChannel cfg io w \<lparr>pu_channel = None, pu_next = 0\<rparr> of
        (Some e, _, _) \<Rightarrow> Inl (''init channel: '' @ e)
      | (None, w', p) \<Rightarrow> Inr (w', p))"

definition mq_send :: "nat \<Rightarrow> 'm \<Rightarrow> 'm mq_channels \<Rightarrow> 'm mq_channels" where
  "mq_send i m w = w\<lparr>cs_sent := (cs_sent w)(i := cs_sent w i @ [m])\<rparr>"

text \<open>\<open>acks i n\<close>: whether the server accepts the \<open>n\<close>-th message of channel \<open>i\<close>.\<close>

definition doPublish ::
    "(nat \<Rightarrow> nat \<Rightarrow> bool) \<Rightarrow> publisher_config \<Rightarrow> pub_io \<Rightarrow> 'm \<Rightarrow> 'm mq_channels \<Rightarrow> mq_publisher \<Rightarrow>
       pub_error option \<times> 'm mq_channels \<times> mq_publisher" where
  "doPublish acks cfg io m w p =
     (case ensureChannel cfg io w p of
        (Some e, w1, p1) \<Rightarrow> (Some (PubErr (''ensure channel: '' @ e)), w1, p1)
      | (None, w1, p1) \<Rightarrow>
          (case io_publish io of
             Some e \<Rightarrow> (Some (PubErr (''rabbitmq message publish failed: '' @ e)), w1, p1)
           | None \<Rightarrow>
               (let i = the (pu_channel p1); w2 = mq_send i m w1
                in if \<not> pb_Confirmation cfg then (None, w2, p1)
                   else
                     (case io_wait io of
                        ConfirmRead \<Rightarrow>
                          (if acks i (pu_next p1) then None else Some (PubErr ''rabbitmq message nacked by broker''),
                           w2, p1\<lparr>pu_next := Suc (pu_next p1)\<rparr>)
                      | ConfirmClosed \<Rightarrow> (Some (PubErr ''confirm channel closed''), w2, p1)
                      | ConfirmTimeout \<Rightarrow> (Some (PubErr ''rabbitmq publish confirmation timeout''), w2, p1)
                      | ConfirmContext e \<Rightarrow> (Some e, w2, p1)))))"

definition publisher_Close :: "string option \<Rightarrow> 'm mq_channels \<Rightarrow> mq_publisher \<Rightarrow> string option \<times> 'm mq_channels" where
  "publisher_Close close_err w p =
     (if pu_channel p \<noteq> None \<and> the (pu_channel p) \<in> cs_open w then (close_err, w\<lparr>cs_open := cs_open w - {the (pu_channel p)}\<rparr>)
      else (None, w))"

text \<open>
  \<^verbatim>\<open>Publish\<close>: \<open>ios\<close> are the answers to each attempt, \<open>stops\<close> the error of the context when it ends during the pause after it. \<open>k\<close> attempts remain. The pauses
  are kept: they last 1, 2, \<dots> seconds.
\<close>

fun Publish_from ::
    "(nat \<Rightarrow> nat \<Rightarrow> bool) \<Rightarrow> publisher_config \<Rightarrow> (nat \<Rightarrow> pub_io) \<Rightarrow> (nat \<Rightarrow> pub_error option) \<Rightarrow> nat \<Rightarrow> nat \<Rightarrow> 'm \<Rightarrow>
       'm mq_channels \<Rightarrow> mq_publisher \<Rightarrow> pub_error option \<times> duration list \<times> 'm mq_channels \<times> mq_publisher" where
  "Publish_from acks cfg ios stops attempt 0 m w p =
     (Some (PubErr (''rabbitmq message publish failed after '' @ fmt_int (pb_MaxRetries cfg) @ '' attempts'')), [], w, p)"
| "Publish_from acks cfg ios stops attempt (Suc k) m w p =
     (case doPublish acks cfg (ios attempt) m w p of
        (None, w1, p1) \<Rightarrow> (None, [], w1, p1)
      | (Some PubCanceled, w1, p1) \<Rightarrow> (Some PubCanceled, [], w1, p1)
      | (Some PubDeadline, w1, p1) \<Rightarrow> (Some PubDeadline, [], w1, p1)
      | (Some (PubErr e), w1, p1) \<Rightarrow>
          (case stops attempt of
             Some e' \<Rightarrow> (Some e', [], w1, p1)
           | None \<Rightarrow>
               (case Publish_from acks cfg ios stops (Suc attempt) k m w1 p1 of
                  (r, ds, w2, p2) \<Rightarrow> (r, (int attempt + 1) * 1000000000 # ds, w2, p2))))"

definition Publish ::
    "(nat \<Rightarrow> nat \<Rightarrow> bool) \<Rightarrow> publisher_config \<Rightarrow> (nat \<Rightarrow> pub_io) \<Rightarrow> (nat \<Rightarrow> pub_error option) \<Rightarrow> 'm \<Rightarrow>
       'm mq_channels \<Rightarrow> mq_publisher \<Rightarrow> pub_error option \<times> duration list \<times> 'm mq_channels \<times> mq_publisher" where
  "Publish acks cfg ios stops m w p = Publish_from acks cfg ios stops 0 (nat (pb_MaxRetries cfg)) m w p"

subsection \<open>Whose confirmation is read\<close>

text \<open>
  The publisher beside everything else that uses its channel: another sender, the library handing confirmations over, a retry.
  \<open>lag\<close> is the number of confirmations that are still to be read before the one of the next message.
\<close>

definition pub_lag :: "'m mq_channels \<Rightarrow> mq_publisher \<Rightarrow> int" where
  "pub_lag w p = int (length (cs_sent w (the (pu_channel p)))) - int (pu_next p)"

definition holds_channel :: "nat \<Rightarrow> 'm mq_channels \<Rightarrow> mq_publisher \<Rightarrow> bool" where
  "holds_channel i w p \<longleftrightarrow> pu_channel p = Some i \<and> i \<in> cs_open w"

inductive pub_step ::
    "(nat \<Rightarrow> nat \<Rightarrow> bool) \<Rightarrow> publisher_config \<Rightarrow> 'm mq_channels \<times> mq_publisher \<Rightarrow> 'm mq_channels \<times> mq_publisher \<Rightarrow> bool"
  for acks cfg where
  publishes: "doPublish acks cfg io m w p = (r, w', p') \<Longrightarrow> pub_step acks cfg (w, p) (w', p')"
| other_sends: "pub_step acks cfg (w, p) (mq_send i m w, p)"
| library_tells: "pub_step acks cfg (w, p) (w\<lparr>cs_told := (cs_told w)(i := Suc (cs_told w i))\<rparr>, p)"

lemma ensureChannel_held: "holds_channel i w p \<Longrightarrow> ensureChannel cfg io w p = (None, w, p)"
  by (simp add: ensureChannel_def holds_channel_def)

lemma mq_send_simps [simp]:
  "cs_sent (mq_send i m w) = (cs_sent w)(i := cs_sent w i @ [m])" "cs_open (mq_send i m w) = cs_open w"
  by (simp_all add: mq_send_def)

text \<open>On a channel that stays open, a publishing reads the confirmation numbered \<open>pu_next\<close>: that of a message \<open>lag\<close> places before its own.\<close>

lemma doPublish_held:
  assumes "holds_channel i w p" "pb_Confirmation cfg" "io_publish io = None" "io_wait io = ConfirmRead"
  shows "doPublish acks cfg io m w p =
    (if acks i (pu_next p) then None else Some (PubErr ''rabbitmq message nacked by broker''),
     mq_send i m w, p\<lparr>pu_next := Suc (pu_next p)\<rparr>)"
  using assms by (simp add: doPublish_def ensureChannel_held [OF assms(1)] holds_channel_def Let_def)

lemma doPublish_lag:
  assumes "holds_channel i w p" "pb_Confirmation cfg" "doPublish acks cfg io m w p = (r, w', p')"
  shows "holds_channel i w' p' \<and> pub_lag w p \<le> pub_lag w' p'"
  using assms
  by (auto simp: doPublish_def ensureChannel_held [OF assms(1)] holds_channel_def Let_def pub_lag_def
      split: option.splits confirm_wait.splits)

lemma pub_step_lag:
  assumes "pub_step acks cfg s s'" "holds_channel i (fst s) (snd s)" "pb_Confirmation cfg"
  shows "holds_channel i (fst s') (snd s') \<and> pub_lag (fst s) (snd s) \<le> pub_lag (fst s') (snd s')"
  using assms
proof cases
  case (publishes io m w p r w' p')
  then show ?thesis using assms doPublish_lag [of i w p cfg acks io m r w' p'] by simp
qed (auto simp: holds_channel_def pub_lag_def)

lemma pub_steps_lag:
  assumes "(pub_step acks cfg)\<^sup>*\<^sup>* s s'" "holds_channel i (fst s) (snd s)" "pb_Confirmation cfg"
  shows "holds_channel i (fst s') (snd s') \<and> pub_lag (fst s) (snd s) \<le> pub_lag (fst s') (snd s')"
  using assms
proof (induction rule: rtranclp_induct)
  case (step y z)
  then show ?case using pub_step_lag [OF step.hyps(2)] by fastforce
qed simp

text \<open>
  Once a publisher has missed a confirmation of its channel (it stopped waiting, or somebody else's message went over the shared channel), every later
  publishing takes the answer to a message sent before its own for the answer to its own: by as many places as were missed, for as long as the
  channel is open.
\<close>

theorem confirmation_of_another:
  assumes "holds_channel i w p" and "pb_Confirmation cfg" and "(pub_step acks cfg)\<^sup>*\<^sup>* (w, p) (w1, p1)"
    and "io_publish io = None" and "io_wait io = ConfirmRead"
  shows "\<exists>k. int k + pub_lag w p \<le> int (length (cs_sent w1 i)) \<and>
    fst (doPublish acks cfg io m w1 p1) = (if acks i k then None else Some (PubErr ''rabbitmq message nacked by broker''))"
proof -
  have h: "holds_channel i w1 p1" and l: "pub_lag w p \<le> pub_lag w1 p1"
    using pub_steps_lag [OF assms(3)] assms(1,2) by simp_all
  have "int (pu_next p1) + pub_lag w p \<le> int (length (cs_sent w1 i))"
    using h l by (simp add: pub_lag_def holds_channel_def)
  moreover have "fst (doPublish acks cfg io m w1 p1) = (if acks i (pu_next p1) then None else Some (PubErr ''rabbitmq message nacked by broker''))"
    using doPublish_held [OF h assms(2,4,5)] by simp
  ultimately show ?thesis by blast
qed

text \<open>Message \<open>''a''\<close> is sent and its answer not waited for; the server accepts it and refuses \<open>''b''\<close>, whose publisher is told that all is well.\<close>

theorem confirmation_of_another_witness:
  "let cfg = \<lparr>pb_MaxRetries = 3, pb_ConfirmationTimeout = 5000000000, pb_Confirmation = True\<rparr>;
       w = \<lparr>cs_open = {0}, cs_sent = (\<lambda>_. [''a'']), cs_told = (\<lambda>_. 0)\<rparr>; p = \<lparr>pu_channel = Some 0, pu_next = 0\<rparr>;
       io = \<lparr>io_channel = Inr 0, io_confirm = None, io_publish = None, io_wait = ConfirmRead\<rparr>
   in \<exists>k. int k < int (length (cs_sent w 0)) \<and>
        fst (doPublish (\<lambda>i n. n = 0) cfg io ''b'' w p) = (if k = 0 then None else Some (PubErr ''rabbitmq message nacked by broker''))"
  using confirmation_of_another
    [of 0 "\<lparr>cs_open = {0}, cs_sent = (\<lambda>_. [''a'']), cs_told = (\<lambda>_. 0)\<rparr>" "\<lparr>pu_channel = Some 0, pu_next = 0\<rparr>"
      "\<lparr>pb_MaxRetries = 3, pb_ConfirmationTimeout = 5000000000, pb_Confirmation = True\<rparr>" "\<lambda>i n. n = 0"
      "\<lparr>cs_open = {0}, cs_sent = (\<lambda>_. [''a'']), cs_told = (\<lambda>_. 0)\<rparr>" "\<lparr>pu_channel = Some 0, pu_next = 0\<rparr>"
      "\<lparr>io_channel = Inr 0, io_confirm = None, io_publish = None, io_wait = ConfirmRead\<rparr>" "''b''"]
  by (auto simp: holds_channel_def pub_lag_def Let_def)

text \<open>The messages sent by a publishing: one copy over each of the channels \<open>cs\<close>, in order.\<close>

definition copies :: "nat list \<Rightarrow> 'm \<Rightarrow> (nat \<Rightarrow> 'm list) \<Rightarrow> nat \<Rightarrow> 'm list" where
  "copies cs m sent = fold (\<lambda>i f. f(i := f i @ [m])) cs sent"

lemma ensureChannel_sent: "ensureChannel cfg io w p = (e, w', p') \<Longrightarrow> cs_sent w' = cs_sent w"
  by (auto simp: ensureChannel_def split: if_splits sum.splits option.splits)

lemma doPublish_copies:
  assumes "doPublish acks cfg io m w p = (r, w', p')"
  shows "\<exists>cs. cs_sent w' = copies cs m (cs_sent w) \<and> length cs \<le> 1 \<and> \<not> (r = None \<and> cs = [])"
proof (cases "ensureChannel cfg io w p")
  case (fields e w1 p1)
  have sent: "cs_sent w1 = cs_sent w" using ensureChannel_sent [OF fields] .
  show ?thesis
  proof (cases "e = None \<and> io_publish io = None")
    case True
    then have "cs_sent w' = copies [the (pu_channel p1)] m (cs_sent w)"
      using assms fields sent by (auto simp: doPublish_def copies_def Let_def split: if_splits confirm_wait.splits)
    then show ?thesis by (intro exI [of _ "[the (pu_channel p1)]"]) simp
  next
    case False
    then have "r \<noteq> None" and "cs_sent w' = copies [] m (cs_sent w)"
      using assms fields sent by (auto simp: doPublish_def copies_def split: option.splits)
    then show ?thesis by (intro exI [of _ "[]"]) simp
  qed
qed

lemma copies_append: "copies cs' m (copies cs m sent) = copies (cs @ cs') m sent"
  by (simp add: copies_def)

lemma Publish_from_copies:
  "Publish_from acks cfg ios stops attempt k m w p = (r, ds, w', p') \<Longrightarrow>
   \<exists>cs. cs_sent w' = copies cs m (cs_sent w) \<and> length cs \<le> k \<and> \<not> (r = None \<and> cs = [])"
proof (induction k arbitrary: attempt w p r ds w' p')
  case 0
  then show ?case by (intro exI [of _ "[]"]) (auto simp: copies_def)
next
  case (Suc k)
  obtain r1 w1 p1 where d: "doPublish acks cfg (ios attempt) m w p = (r1, w1, p1)" by (metis prod_cases3)
  obtain cs where cs: "cs_sent w1 = copies cs m (cs_sent w)" "length cs \<le> 1" "\<not> (r1 = None \<and> cs = [])"
    using doPublish_copies [OF d] by blast
  show ?case
  proof (cases "\<exists>e. r1 = Some (PubErr e) \<and> stops attempt = None")
    case True
    then obtain ds' where "Publish_from acks cfg ios stops (Suc attempt) k m w1 p1 = (r, ds', w', p')"
      using Suc.prems d by (auto split: prod.splits)
    then obtain cs' where cs': "cs_sent w' = copies cs' m (cs_sent w1)" "length cs' \<le> k" "\<not> (r = None \<and> cs' = [])"
      using Suc.IH by blast
    have "cs_sent w' = copies (cs @ cs') m (cs_sent w)" using cs(1) cs'(1) by (simp add: copies_append)
    moreover have "length (cs @ cs') \<le> Suc k" using cs(2) cs'(2) by simp
    moreover have "\<not> (r = None \<and> cs @ cs' = [])" using cs'(3) by simp
    ultimately show ?thesis by blast
  next
    case False
    then have "w' = w1" "r = None \<longrightarrow> r1 = None"
      using Suc.prems d by (cases "stops attempt"; force split: option.splits pub_error.splits)+
    with cs show ?thesis by (intro exI [of _ cs]) auto
  qed
qed

text \<open>
  \<^verbatim>\<open>Publish\<close> sends the message at most \<^verbatim>\<open>MaxRetries\<close> times, over whichever channels it had, changes nothing else of what was sent, and reports success
  only after it has sent the message at least once.
\<close>

theorem Publish_copies:
  "case Publish acks cfg ios stops m w p of (r, ds, w', p') \<Rightarrow>
     \<exists>cs. cs_sent w' = copies cs m (cs_sent w) \<and> length cs \<le> nat (pb_MaxRetries cfg) \<and> \<not> (r = None \<and> cs = [])"
  using Publish_from_copies [of acks cfg ios stops 0 "nat (pb_MaxRetries cfg)" m w p]
  by (simp add: Publish_def split: prod.split)

section \<open>The consumer\<close>

text \<open>
  \<^verbatim>\<open>consumeLoop\<close> is at the test of the context, before it asks for the channel, waiting for messages, waiting for a worker with a message in hand, or has ended.
  Workers hold the messages \<open>cw_running\<close>; \<open>cw_sem\<close> counts the taken places of \<^verbatim>\<open>workerSem\<close>, \<open>cw_wg\<close> the wait group, \<open>cw_closes\<close> how often the loop closed the
  channel of the broker.
\<close>

record delivery =
  dl_DeliveryTag :: nat
  dl_Redelivered :: bool
  dl_Body :: string

datatype settlement = Ack | Nack bool

datatype loop_pc = LTest | LChannel | LMsgs | LSlot delivery | LDone

record mq_consumer =
  cw_pc :: loop_pc
  cw_delay :: duration
  cw_cancelled :: bool
  cw_sem :: nat
  cw_wg :: nat
  cw_closes :: nat
  cw_taken :: "delivery multiset"
  cw_running :: "delivery multiset"
  cw_settled :: "(delivery \<times> settlement) multiset"
  cw_left :: "delivery multiset"

definition consumer_Start :: mq_consumer where
  "consumer_Start =
     \<lparr>cw_pc = LTest, cw_delay = 1000000000, cw_cancelled = False, cw_sem = 0, cw_wg = 1, cw_closes = 0, cw_taken = {#},
      cw_running = {#}, cw_settled = {#}, cw_left = {#}\<rparr>"

definition next_delay :: "consumer_config \<Rightarrow> duration \<Rightarrow> duration" where
  "next_delay cfg retryDelay = min (int64 (retryDelay * 2)) (cc_ReconnectDelay cfg)"

text \<open>\<^verbatim>\<open>consumeMessages\<close> leaves its loop with an error: the channel is closed and the loop waits; or with none.\<close>

definition consume_failed :: "consumer_config \<Rightarrow> mq_consumer \<Rightarrow> mq_consumer" where
  "consume_failed cfg c = c\<lparr>cw_pc := LTest, cw_closes := Suc (cw_closes c), cw_delay := next_delay cfg (cw_delay c)\<rparr>"

definition consume_ended :: "mq_consumer \<Rightarrow> mq_consumer" where
  "consume_ended c = c\<lparr>cw_pc := LTest, cw_delay := 1000000000\<rparr>"

text \<open>\<^verbatim>\<open>processMessage\<close>: what the worker tells the server, given the error of the handler.\<close>

definition processMessage :: "string option \<Rightarrow> delivery \<Rightarrow> settlement" where
  "processMessage err msg = (case err of Some _ \<Rightarrow> Nack (\<not> dl_Redelivered msg) | None \<Rightarrow> Ack)"

definition worker_done :: "string option \<Rightarrow> delivery \<Rightarrow> mq_consumer \<Rightarrow> mq_consumer" where
  "worker_done err m c =
     c\<lparr>cw_running := cw_running c - {#m#}, cw_settled := add_mset (m, processMessage err m) (cw_settled c),
       cw_sem := cw_sem c - 1, cw_wg := cw_wg c - 1\<rparr>"

definition worker_starts :: "delivery \<Rightarrow> mq_consumer \<Rightarrow> mq_consumer" where
  "worker_starts m c = c\<lparr>cw_pc := LMsgs, cw_sem := Suc (cw_sem c), cw_wg := Suc (cw_wg c), cw_running := add_mset m (cw_running c)\<rparr>"

inductive cons_step :: "consumer_config \<Rightarrow> mq_consumer \<Rightarrow> mq_consumer \<Rightarrow> bool" for cfg where
  loop_ends: "cw_pc c = LTest \<Longrightarrow> cw_cancelled c \<Longrightarrow> cons_step cfg c (c\<lparr>cw_pc := LDone, cw_wg := cw_wg c - 1\<rparr>)"
| loop_tries: "cw_pc c = LTest \<Longrightarrow> \<not> cw_cancelled c \<Longrightarrow> cons_step cfg c (c\<lparr>cw_pc := LChannel\<rparr>)"
| no_channel: "cw_pc c = LChannel \<Longrightarrow> cons_step cfg c (c\<lparr>cw_pc := LTest, cw_delay := next_delay cfg (cw_delay c)\<rparr>)"
| start_fails: "cw_pc c = LChannel \<Longrightarrow> cons_step cfg c (consume_failed cfg c)"
| subscribes: "cw_pc c = LChannel \<Longrightarrow> cons_step cfg c (c\<lparr>cw_pc := LMsgs\<rparr>)"
| sees_cancel: "cw_pc c = LMsgs \<Longrightarrow> cw_cancelled c \<Longrightarrow> cons_step cfg c (consume_ended c)"
| msgs_closed: "cw_pc c = LMsgs \<Longrightarrow> cons_step cfg c (consume_failed cfg c)"
| receives: "cw_pc c = LMsgs \<Longrightarrow> cons_step cfg c (c\<lparr>cw_pc := LSlot m, cw_taken := add_mset m (cw_taken c)\<rparr>)"
| spawns: "cw_pc c = LSlot m \<Longrightarrow> int (cw_sem c) < cc_MaxWorkers cfg \<Longrightarrow> cons_step cfg c (worker_starts m c)"
| leaves: "cw_pc c = LSlot m \<Longrightarrow> cw_cancelled c \<Longrightarrow> cons_step cfg c (consume_ended (c\<lparr>cw_left := add_mset m (cw_left c)\<rparr>))"
| handles: "m \<in># cw_running c \<Longrightarrow> cons_step cfg c (worker_done err m c)"
| cancels: "cons_step cfg c (c\<lparr>cw_cancelled := True\<rparr>)"

text \<open>
  \<^verbatim>\<open>Shutdown\<close> after its cancel: what it may return at this moment, nil when the wait group is empty, an error when its own context has ended
  (\<open>ctx\<close>); nothing while it waits.
\<close>

definition consumer_Shutdown :: "string option \<Rightarrow> mq_consumer \<Rightarrow> string option set" where
  "consumer_Shutdown ctx c =
     (if cw_wg c = 0 then {None} else {}) \<union> (case ctx of Some e \<Rightarrow> {Some (''rabbitmq shutdown timeout: '' @ e)} | None \<Rightarrow> {})"

subsection \<open>What the consumer keeps\<close>

fun in_hand :: "loop_pc \<Rightarrow> delivery multiset" where
  "in_hand (LSlot m) = {#m#}"
| "in_hand _ = {#}"

definition cons_inv :: "consumer_config \<Rightarrow> mq_consumer \<Rightarrow> bool" where
  "cons_inv cfg c \<longleftrightarrow>
     cw_taken c = in_hand (cw_pc c) + cw_running c + image_mset fst (cw_settled c) + cw_left c \<and>
     cw_sem c = size (cw_running c) \<and> cw_sem c \<le> nat (cc_MaxWorkers cfg) \<and>
     cw_wg c = size (cw_running c) + (if cw_pc c = LDone then 0 else 1) \<and>
     set_mset (cw_settled c) \<subseteq> {(m, s). s = Ack \<or> s = Nack (\<not> dl_Redelivered m)}"

lemma processMessage_cases: "processMessage err m = Ack \<or> processMessage err m = Nack (\<not> dl_Redelivered m)"
  by (simp add: processMessage_def split: option.split)

lemma cons_inv_step: "cons_step cfg c c' \<Longrightarrow> cons_inv cfg c \<Longrightarrow> cons_inv cfg c'"
proof (induction rule: cons_step.induct)
  case (handles m c err)
  obtain R where R: "cw_running c = add_mset m R" using multi_member_split [OF handles.hyps] by blast
  have "cw_taken c = in_hand (cw_pc c) + add_mset m R + image_mset fst (cw_settled c) + cw_left c"
    and "set_mset (cw_settled c) \<subseteq> {(m, s). s = Ack \<or> s = Nack (\<not> dl_Redelivered m)}"
    and "cw_sem c = Suc (size R)" "Suc (size R) \<le> nat (cc_MaxWorkers cfg)"
    and "cw_wg c = Suc (size R) + (if cw_pc c = LDone then 0 else 1)"
    using handles.prems R by (simp_all add: cons_inv_def)
  then show ?case using processMessage_cases [of err m] R by (simp add: cons_inv_def worker_done_def)
qed (auto simp: cons_inv_def consume_failed_def consume_ended_def worker_starts_def)

lemma cons_inv_steps: "(cons_step cfg)\<^sup>*\<^sup>* consumer_Start c \<Longrightarrow> cons_inv cfg c"
proof (induction rule: rtranclp_induct)
  case base
  then show ?case by (simp add: cons_inv_def consumer_Start_def)
qed (rule cons_inv_step)


text \<open>
  C36: when \<^verbatim>\<open>Shutdown\<close> returns nil the loop has ended, no worker runs, and every message taken is settled or left to the server.
\<close>

theorem Shutdown_settles:
  "{c. (cons_step cfg)\<^sup>*\<^sup>* consumer_Start c \<and> None \<in> consumer_Shutdown ctx c} \<subseteq>
   {c. cw_pc c = LDone \<and> cw_running c = {#} \<and> cw_taken c = image_mset fst (cw_settled c) + cw_left c}"
proof
  fix c
  assume "c \<in> {c. (cons_step cfg)\<^sup>*\<^sup>* consumer_Start c \<and> None \<in> consumer_Shutdown ctx c}"
  then have inv: "cons_inv cfg c" and wg: "cw_wg c = 0"
    by (auto simp: cons_inv_steps consumer_Shutdown_def split: if_splits option.splits)
  have "cw_pc c = LDone" and "cw_running c = {#}"
    using inv wg by (simp_all add: cons_inv_def split: if_splits)
  then show "c \<in> {c. cw_pc c = LDone \<and> cw_running c = {#} \<and> cw_taken c = image_mset fst (cw_settled c) + cw_left c}"
    using inv by (simp add: cons_inv_def)
qed

section \<open>The consumer and the broker\<close>

text \<open>
  A consumer whose loop fails closes the channel it was given, which is the broker's own and shared; as long as the connection itself is neither
  lost nor closed, the broker then answers everybody that there is no connection.
\<close>

theorem closed_channel_stays:
  "{b'. \<exists>b. mq_reach b \<and> mq_calm\<^sup>*\<^sup>* (b\<lparr>bk_ch := False\<rparr>) b'} \<subseteq> {b'. broker_Channel None b' = Inl ErrConnectionNotAvailable}"
proof
  fix b'
  assume "b' \<in> {b'. \<exists>b. mq_reach b \<and> mq_calm\<^sup>*\<^sup>* (b\<lparr>bk_ch := False\<rparr>) b'}"
  then obtain b where "mq_reach b" and s: "mq_calm\<^sup>*\<^sup>* (b\<lparr>bk_ch := False\<rparr>) b'" by blast
  then have "mq_wf (b\<lparr>bk_ch := False\<rparr>)" using mq_wf_step [OF mq_step.channel_closes] mq_wf_reach by blast
  then have "\<not> bk_ch b'" using mq_calm_steps [OF s] by simp
  then show "b' \<in> {b'. broker_Channel None b' = Inl ErrConnectionNotAvailable}" by (simp add: broker_Channel_None)
qed

end
