(* ===== verification/Sql_Wrap.thy ===== *)
theory Sql_Wrap
  imports Kit_Prelude
begin

text \<open>
  \<^verbatim>\<open>src/infra/sqldb/sql\<close>: a database driver wrapped so that its calls are traced. A call of a driver is an action on a state, which may panic; the
  state of a wrapped driver carries the list of what the tracer was told. A driver's optional methods are options of its record. The tracer is a
  parameter: \<^verbatim>\<open>StartTrace\<close> gives the context to go on with.
\<close>

section \<open>Actions, contexts, drivers\<close>

type_synonym ('s, 'a) act = "'s \<Rightarrow> go_panic + 'a \<times> 's"

definition ret :: "'a \<Rightarrow> ('s, 'a) act" where
  "ret x s = Inr (x, s)"

definition andThen :: "('s, 'a) act \<Rightarrow> ('a \<Rightarrow> ('s, 'b) act) \<Rightarrow> ('s, 'b) act" where
  "andThen m f s = (case m s of Inl p \<Rightarrow> Inl p | Inr (x, s') \<Rightarrow> f x s')"

definition nil_call :: "('s, 'a) act" where
  "nil_call s = Inl (Panic ''invalid memory address or nil pointer dereference'')"

named_theorems act_simps \<open>evaluation of actions\<close>

lemma ret_apply [act_simps]: "ret x s = Inr (x, s)"
  by (simp add: ret_def)

lemma andThen_apply [act_simps]: "andThen m f s = (case m s of Inl p \<Rightarrow> Inl p | Inr (x, s') \<Rightarrow> f x s')"
  by (simp add: andThen_def)

lemma nil_call_apply [act_simps]: "nil_call s = Inl (Panic ''invalid memory address or nil pointer dereference'')"
  by (simp add: nil_call_def)

lemma andThen_ret [simp]: "andThen (ret x) f = f x"
  by (rule ext) (simp add: act_simps)

lemma andThen_assoc: "andThen (andThen m f) g = andThen m (\<lambda>x. andThen (f x) g)"
  by (rule ext) (simp add: act_simps split: sum.split)

lemma andThen_nil_call [simp]: "andThen nil_call f = nil_call"
  by (rule ext) (simp add: act_simps)

text \<open>A context carries the query (\<^verbatim>\<open>queryCtxKey\<close>) and the span.\<close>

record sql_ctx =
  ct_query :: "string option"
  ct_span :: nat

definition Background :: sql_ctx where
  "Background = \<lparr>ct_query = None, ct_span = 0\<rparr>"

definition ContextWithQuery :: "sql_ctx \<Rightarrow> string \<Rightarrow> sql_ctx" where
  "ContextWithQuery ctx query = ctx\<lparr>ct_query := Some query\<rparr>"

definition QueryFromContext :: "sql_ctx \<Rightarrow> string" where
  "QueryFromContext ctx = (case ct_query ctx of Some query \<Rightarrow> query | None \<Rightarrow> [])"

text \<open>\<^verbatim>\<open>trace.ContextWithSpanContext(context.Background(), trace.SpanContextFromContext(ctx))\<close>\<close>

definition only_span :: "sql_ctx \<Rightarrow> sql_ctx" where
  "only_span ctx = Background\<lparr>ct_span := ct_span ctx\<rparr>"

datatype sql_err = ErrSkip | SqlErr string

record 'v named_value =
  nv_Name :: string
  nv_Ordinal :: int
  nv_Value :: 'v

text \<open>Slices may be nil, hence the options.\<close>

type_synonym 'v args = "'v named_value list option"

definition valuesToNamedValues :: "'v list option \<Rightarrow> 'v args" where
  "valuesToNamedValues values =
     map_option (\<lambda>vs. map (\<lambda>(i, v). \<lparr>nv_Name = [], nv_Ordinal = int i + 1, nv_Value = v\<rparr>) (enumerate 0 vs)) values"

definition namedValuesToValues :: "'v args \<Rightarrow> 'v list option" where
  "namedValuesToValues namedValues = map_option (map nv_Value) namedValues"

record 's sql_result =
  rs_LastInsertId :: "('s, sql_err + int) act"
  rs_RowsAffected :: "('s, sql_err + int) act"

record 's sql_tx =
  tx_Commit :: "('s, sql_err option) act"
  tx_Rollback :: "('s, sql_err option) act"

record tx_options =
  to_Isolation :: int
  to_ReadOnly :: bool

type_synonym 's ping_fun = "sql_ctx \<Rightarrow> ('s, sql_err option) act"
type_synonym ('s, 'v) exec_fun = "sql_ctx \<Rightarrow> string \<Rightarrow> 'v args \<Rightarrow> ('s, sql_err + 's sql_result option) act"
type_synonym ('s, 'v, 'r) query_fun = "sql_ctx \<Rightarrow> string \<Rightarrow> 'v args \<Rightarrow> ('s, sql_err + 'r option) act"
type_synonym 's begin_fun = "sql_ctx \<Rightarrow> tx_options \<Rightarrow> ('s, sql_err + 's sql_tx option) act"

text \<open>Column converters, checkers of values and resetters of sessions are passed through: references.\<close>

record ('s, 'v, 'r) sql_stmt =
  sm_Exec :: "'v list option \<Rightarrow> ('s, sql_err + 's sql_result option) act"
  sm_Query :: "'v list option \<Rightarrow> ('s, sql_err + 'r option) act"
  sm_ExecContext :: "(sql_ctx \<Rightarrow> 'v args \<Rightarrow> ('s, sql_err + 's sql_result option) act) option"
  sm_QueryContext :: "(sql_ctx \<Rightarrow> 'v args \<Rightarrow> ('s, sql_err + 'r option) act) option"
  sm_Close :: "('s, sql_err option) act"
  sm_NumInput :: "('s, int) act"
  sm_ColumnConverter :: "nat option"
  sm_NamedValueChecker :: "nat option"

type_synonym ('s, 'v, 'r) prepare_fun = "sql_ctx \<Rightarrow> string \<Rightarrow> ('s, sql_err + ('s, 'v, 'r) sql_stmt option) act"

record ('s, 'v, 'r) sql_conn =
  cn_Ping :: "'s ping_fun option"
  cn_ExecContext :: "('s, 'v) exec_fun option"
  cn_QueryContext :: "('s, 'v, 'r) query_fun option"
  cn_Prepare :: "string \<Rightarrow> ('s, sql_err + ('s, 'v, 'r) sql_stmt option) act"
  cn_PrepareContext :: "('s, 'v, 'r) prepare_fun option"
  cn_Begin :: "('s, sql_err + 's sql_tx option) act"
  cn_BeginTx :: "'s begin_fun option"
  cn_Close :: "('s, sql_err option) act"
  cn_NamedValueChecker :: "nat option"
  cn_SessionResetter :: "nat option"

section \<open>Tracing\<close>

text \<open>\<open>None\<close> is the nil interface, whose methods cannot be called. The tracer is told the start of a call and, by the function it returned, its end.\<close>

datatype 'v trace_event = TStart string string "'v args" | TEnd "sql_err option"

type_synonym ('w, 'v) traced = "'w \<times> 'v trace_event list"

type_synonym 'v method_tracer = "(sql_ctx \<Rightarrow> string \<Rightarrow> string \<Rightarrow> 'v args \<Rightarrow> sql_ctx) option"

definition tell :: "'v trace_event \<Rightarrow> (('w, 'v) traced, unit) act" where
  "tell e = (\<lambda>(w, l). Inr ((), (w, l @ [e])))"

definition noopTracer :: "'v method_tracer" where
  "noopTracer = Some (\<lambda>ctx method query args. ctx)"

definition StartTrace :: "'v method_tracer \<Rightarrow> sql_ctx \<Rightarrow> string \<Rightarrow> string \<Rightarrow> 'v args \<Rightarrow> (('w, 'v) traced, sql_ctx) act" where
  "StartTrace t ctx method query args =
     (case t of
        None \<Rightarrow> nil_call
      | Some start \<Rightarrow> andThen (tell (TStart method query args)) (\<lambda>_. ret (start ctx method query args)))"

text \<open>
  The shape all traced calls share: \<^verbatim>\<open>ctx, end := t.StartTrace(\<dots>); defer end(err)\<close>. The argument of a deferred call is evaluated where the
  \<^verbatim>\<open>defer\<close> stands, when \<^verbatim>\<open>err\<close> is still nil.
\<close>

definition with_trace ::
    "'v method_tracer \<Rightarrow> sql_ctx \<Rightarrow> string \<Rightarrow> string \<Rightarrow> 'v args \<Rightarrow> (sql_ctx \<Rightarrow> (('w, 'v) traced, 'a) act) \<Rightarrow> (('w, 'v) traced, 'a) act" where
  "with_trace t ctx method query args k =
     andThen (StartTrace t ctx method query args) (\<lambda>ctx'. andThen (k ctx') (\<lambda>r. andThen (tell (TEnd None)) (\<lambda>_. ret r)))"

lemma tell_apply [act_simps]: "tell e (w, l) = Inr ((), (w, l @ [e]))"
  by (simp add: tell_def)

lemma with_trace_nil [simp]: "with_trace None ctx method query args k = nil_call"
  by (simp add: with_trace_def StartTrace_def)

lemma with_trace_apply:
  "with_trace (Some start) ctx method query args k (w, l) =
     (case k (start ctx method query args) (w, l @ [TStart method query args]) of
        Inl p \<Rightarrow> Inl p
      | Inr (r, (w', l')) \<Rightarrow> Inr (r, (w', l' @ [TEnd None])))"
  by (simp add: with_trace_def StartTrace_def act_simps split: sum.split)

section \<open>Chains of middlewares\<close>

definition chainMiddlewares :: "('f \<Rightarrow> 'f) list \<Rightarrow> 'f \<Rightarrow> 'f" where
  "chainMiddlewares middlewares f =
     (if middlewares = [] then f else fold (\<lambda>m h. m h) (rev (butlast middlewares)) (last middlewares f))"

lemma chainMiddlewares_foldr: "chainMiddlewares ms f = foldr (\<lambda>m h. m h) ms f"
proof (cases ms rule: rev_cases)
  case (snoc ys y)
  then show ?thesis by (simp add: chainMiddlewares_def foldr_conv_fold)
qed (simp add: chainMiddlewares_def)

lemma chainMiddlewares_simps [simp]:
  "chainMiddlewares [] f = f" "chainMiddlewares (m # ms) f = m (chainMiddlewares ms f)"
  by (simp_all add: chainMiddlewares_foldr)

subsection \<open>Results\<close>

definition resultTrace ::
    "sql_ctx \<Rightarrow> 'v method_tracer \<Rightarrow> string \<Rightarrow> (('w, 'v) traced, sql_err + int) act \<Rightarrow> (('w, 'v) traced, sql_err + int) act" where
  "resultTrace ctx t method f = with_trace t ctx method [] None (\<lambda>_. f)"

text \<open>A nil result has no methods to take.\<close>

definition wrapResult ::
    "sql_ctx \<Rightarrow> ('w, 'v) traced sql_result option \<Rightarrow> 'v method_tracer \<Rightarrow> bool \<Rightarrow> bool \<Rightarrow>
       (('w, 'v) traced, ('w, 'v) traced sql_result option) act" where
  "wrapResult ctx parent t traceLastInsertID traceRowsAffected =
     (if \<not> traceLastInsertID \<and> \<not> traceRowsAffected then ret parent
      else
        (case parent of
           None \<Rightarrow> nil_call
         | Some p \<Rightarrow>
             ret (Some
               \<lparr>rs_LastInsertId =
                  (if traceLastInsertID then resultTrace (only_span ctx) t ''db.LastInsertId'' (rs_LastInsertId p)
                   else rs_LastInsertId p),
                rs_RowsAffected =
                  (if traceRowsAffected then resultTrace (only_span ctx) t ''db.RowsAffected'' (rs_RowsAffected p)
                   else rs_RowsAffected p)\<rparr>)))"

subsection \<open>Exec and Query\<close>

definition nopExecContext :: "('s, 'v) exec_fun" where
  "nopExecContext ctx query args = ret (Inr None)"

definition skippedExecContext :: "('s, 'v) exec_fun" where
  "skippedExecContext ctx query args = ret (Inl ErrSkip)"

definition nopQueryContext :: "('s, 'v, 'r) query_fun" where
  "nopQueryContext ctx query args = ret (Inr None)"

definition skippedQueryContext :: "('s, 'v, 'r) query_fun" where
  "skippedQueryContext ctx query args = ret (Inl ErrSkip)"

type_synonym ('w, 'v) exec_middleware = "(('w, 'v) traced, 'v) exec_fun \<Rightarrow> (('w, 'v) traced, 'v) exec_fun"
type_synonym ('w, 'v, 'r) query_middleware = "(('w, 'v) traced, 'v, 'r) query_fun \<Rightarrow> (('w, 'v) traced, 'v, 'r) query_fun"

definition execTrace :: "'v method_tracer \<Rightarrow> string \<Rightarrow> ('w, 'v) exec_middleware" where
  "execTrace t method next_fun ctx query args =
     with_trace t (ContextWithQuery ctx query) method query args (\<lambda>ctx'. next_fun ctx' query args)"

definition execWrapResult :: "'v method_tracer \<Rightarrow> bool \<Rightarrow> bool \<Rightarrow> ('w, 'v) exec_middleware" where
  "execWrapResult t traceLastInsertID traceRowsAffected next_fun ctx query args =
     andThen (next_fun ctx query args) (\<lambda>r.
       case r of
         Inl err \<Rightarrow> ret (Inl err)
       | Inr result \<Rightarrow> andThen (wrapResult ctx result t traceLastInsertID traceRowsAffected) (\<lambda>x. ret (Inr x)))"

definition queryTrace :: "'v method_tracer \<Rightarrow> string \<Rightarrow> ('w, 'v, 'r) query_middleware" where
  "queryTrace t method next_fun ctx query args =
     with_trace t ctx method query args (\<lambda>ctx'. next_fun ctx' query args)"

record exec_config =
  xc_traceMethod :: string
  xc_traceLastInsertID :: bool
  xc_traceRowsAffected :: bool

record query_config =
  qc_traceMethod :: string
  qc_traceRowsNext :: bool
  qc_traceRowsClose :: bool

definition makeExecContextFuncMiddlewares :: "'v method_tracer \<Rightarrow> exec_config \<Rightarrow> ('w, 'v) exec_middleware list" where
  "makeExecContextFuncMiddlewares t cfg =
     execTrace t (xc_traceMethod cfg) #
     (if xc_traceLastInsertID cfg \<or> xc_traceRowsAffected cfg
      then [execWrapResult t (xc_traceLastInsertID cfg) (xc_traceRowsAffected cfg)] else [])"

definition makeQueryerContextMiddlewares :: "'v method_tracer \<Rightarrow> query_config \<Rightarrow> ('w, 'v, 'r) query_middleware list" where
  "makeQueryerContextMiddlewares t cfg = (if t \<noteq> None then [queryTrace t (qc_traceMethod cfg)] else [])"

subsection \<open>Ping\<close>

definition nopPing :: "'s ping_fun" where
  "nopPing ctx = ret None"

definition makePingFuncMiddlewares :: "'v method_tracer \<Rightarrow> ('s ping_fun \<Rightarrow> 's ping_fun) list" where
  "makePingFuncMiddlewares t = []"

subsection \<open>Transactions\<close>

definition ensureBegin :: "('s, 'v, 'r) sql_conn \<Rightarrow> 's begin_fun" where
  "ensureBegin c = (case cn_BeginTx c of Some b \<Rightarrow> b | None \<Rightarrow> (\<lambda>ctx opts. cn_Begin c))"

definition txTrace ::
    "sql_ctx \<Rightarrow> 'v method_tracer \<Rightarrow> string \<Rightarrow> (('w, 'v) traced, sql_err option) act \<Rightarrow> (('w, 'v) traced, sql_err option) act" where
  "txTrace ctx t method next_fun = with_trace t ctx method [] None (\<lambda>_. next_fun)"

definition makeTxFuncMiddlewares ::
    "sql_ctx \<Rightarrow> 'v method_tracer \<Rightarrow> string \<Rightarrow>
       ((('w, 'v) traced, sql_err option) act \<Rightarrow> (('w, 'v) traced, sql_err option) act) list" where
  "makeTxFuncMiddlewares ctx t traceMethod = (if t \<noteq> None then [txTrace ctx t traceMethod] else [])"

definition wrapTx ::
    "sql_ctx \<Rightarrow> ('w, 'v) traced sql_tx option \<Rightarrow> 'v method_tracer \<Rightarrow> (('w, 'v) traced, ('w, 'v) traced sql_tx option) act" where
  "wrapTx ctx parent t =
     (case parent of
        None \<Rightarrow> nil_call
      | Some p \<Rightarrow>
          ret (Some
            \<lparr>tx_Commit = chainMiddlewares (makeTxFuncMiddlewares (only_span ctx) t ''db.Commit'') (tx_Commit p),
             tx_Rollback = chainMiddlewares (makeTxFuncMiddlewares (only_span ctx) t ''db.Rollback'') (tx_Rollback p)\<rparr>))"

type_synonym ('w, 'v) begin_middleware = "('w, 'v) traced begin_fun \<Rightarrow> ('w, 'v) traced begin_fun"

definition beginTrace :: "'v method_tracer \<Rightarrow> ('w, 'v) begin_middleware" where
  "beginTrace t next_fun ctx opts = with_trace t ctx ''db.Begin'' [] None (\<lambda>ctx'. next_fun ctx' opts)"

definition beginWrapTx :: "'v method_tracer \<Rightarrow> ('w, 'v) begin_middleware" where
  "beginWrapTx t next_fun ctx opts =
     andThen (next_fun ctx opts) (\<lambda>r.
       case r of Inl err \<Rightarrow> ret (Inl err) | Inr tx \<Rightarrow> andThen (wrapTx ctx tx t) (\<lambda>x. ret (Inr x)))"

definition makeBeginFuncMiddlewares :: "'v method_tracer \<Rightarrow> ('w, 'v) begin_middleware list" where
  "makeBeginFuncMiddlewares t = [beginTrace t, beginWrapTx t]"

section \<open>Statements\<close>

record ('w, 'v, 'r) stmt_config =
  sf_query :: string
  sf_exec :: "('w, 'v) exec_middleware list"
  sf_execContext :: "('w, 'v) exec_middleware list"
  sf_queryFunc :: "('w, 'v, 'r) query_middleware list"
  sf_queryContext :: "('w, 'v, 'r) query_middleware list"

definition makeStmtExecFunc :: "(('w, 'v) traced, 'v, 'r) sql_stmt \<Rightarrow> ('w, 'v) exec_middleware list \<Rightarrow> (('w, 'v) traced, 'v) exec_fun" where
  "makeStmtExecFunc parent ms = chainMiddlewares ms (\<lambda>ctx query args. sm_Exec parent (namedValuesToValues args))"

definition makeStmtExecContextFunc ::
    "(('w, 'v) traced, 'v, 'r) sql_stmt \<Rightarrow> ('w, 'v) exec_middleware list \<Rightarrow> (('w, 'v) traced, 'v) exec_fun" where
  "makeStmtExecContextFunc parent ms =
     (case sm_ExecContext parent of
        None \<Rightarrow> nopExecContext
      | Some execer \<Rightarrow> chainMiddlewares ms (\<lambda>ctx query args. execer ctx args))"

definition makeStmtQueryFunc ::
    "(('w, 'v) traced, 'v, 'r) sql_stmt \<Rightarrow> ('w, 'v, 'r) query_middleware list \<Rightarrow> (('w, 'v) traced, 'v, 'r) query_fun" where
  "makeStmtQueryFunc parent ms = chainMiddlewares ms (\<lambda>ctx query args. sm_Query parent (namedValuesToValues args))"

definition makeStmtQueryContextFunc ::
    "(('w, 'v) traced, 'v, 'r) sql_stmt \<Rightarrow> ('w, 'v, 'r) query_middleware list \<Rightarrow> (('w, 'v) traced, 'v, 'r) query_fun" where
  "makeStmtQueryContextFunc parent ms =
     (case sm_QueryContext parent of
        None \<Rightarrow> nopQueryContext
      | Some queryer \<Rightarrow> chainMiddlewares ms (\<lambda>ctx query args. queryer ctx args))"

text \<open>The struct \<^verbatim>\<open>stmt\<close> with its methods: all of them exist, whatever the parent has.\<close>

definition makeStmt ::
    "(('w, 'v) traced, 'v, 'r) sql_stmt \<Rightarrow> ('w, 'v, 'r) stmt_config \<Rightarrow> (('w, 'v) traced, 'v, 'r) sql_stmt" where
  "makeStmt parent cfg =
     \<lparr>sm_Exec = (\<lambda>args. makeStmtExecFunc parent (sf_exec cfg) Background (sf_query cfg) (valuesToNamedValues args)),
      sm_Query = (\<lambda>args. makeStmtQueryFunc parent (sf_queryFunc cfg) Background (sf_query cfg) (valuesToNamedValues args)),
      sm_ExecContext = Some (\<lambda>ctx args. makeStmtExecContextFunc parent (sf_execContext cfg) ctx (sf_query cfg) args),
      sm_QueryContext = Some (\<lambda>ctx args. makeStmtQueryContextFunc parent (sf_queryContext cfg) ctx (sf_query cfg) args),
      sm_Close = sm_Close parent,
      sm_NumInput = sm_NumInput parent,
      sm_ColumnConverter = None,
      sm_NamedValueChecker = None\<rparr>"

text \<open>The interfaces a wrapped statement shows, by those the parent has: the switch of \<^verbatim>\<open>wrapStmt\<close>, in its order, the default last.\<close>

datatype stmt_iface = IStmt | IStmtExecContext | IStmtQueryContext | IColumnConverter | INamedValueChecker

definition stmt_ifaces :: "bool \<Rightarrow> bool \<Rightarrow> bool \<Rightarrow> bool \<Rightarrow> stmt_iface list" where
  "stmt_ifaces hasExeCtx hasQryCtx hasColConv hasNamValChk =
     (if \<not> hasExeCtx \<and> hasQryCtx \<and> \<not> hasColConv \<and> \<not> hasNamValChk then [IStmt, IStmtQueryContext]
      else if hasExeCtx \<and> \<not> hasQryCtx \<and> \<not> hasColConv \<and> \<not> hasNamValChk then [IStmt, IStmtExecContext]
      else if hasExeCtx \<and> hasQryCtx \<and> \<not> hasColConv \<and> \<not> hasNamValChk then [IStmt, IStmtExecContext, IStmtQueryContext]
      else if \<not> hasExeCtx \<and> \<not> hasQryCtx \<and> hasColConv \<and> \<not> hasNamValChk then [IStmt, IColumnConverter]
      else if \<not> hasExeCtx \<and> hasQryCtx \<and> hasColConv \<and> \<not> hasNamValChk then [IStmt, IStmtQueryContext, IColumnConverter]
      else if hasExeCtx \<and> \<not> hasQryCtx \<and> hasColConv \<and> \<not> hasNamValChk then [IStmt, IStmtExecContext, IColumnConverter]
      else if hasExeCtx \<and> hasQryCtx \<and> hasColConv \<and> \<not> hasNamValChk then [IStmt, IStmtExecContext, IStmtQueryContext, IColumnConverter]
      else if \<not> hasExeCtx \<and> \<not> hasQryCtx \<and> \<not> hasColConv \<and> hasNamValChk then [IStmt, INamedValueChecker]
      else if \<not> hasExeCtx \<and> hasQryCtx \<and> \<not> hasColConv \<and> hasNamValChk then [IStmt, IStmtQueryContext, INamedValueChecker]
      else if hasExeCtx \<and> \<not> hasQryCtx \<and> \<not> hasColConv \<and> hasNamValChk then [IStmt, IStmtExecContext, INamedValueChecker]
      else if hasExeCtx \<and> hasQryCtx \<and> \<not> hasColConv \<and> hasNamValChk then [IStmt, IStmtExecContext, IStmtQueryContext, INamedValueChecker]
      else if \<not> hasExeCtx \<and> \<not> hasQryCtx \<and> hasColConv \<and> hasNamValChk then [IStmt, IColumnConverter, INamedValueChecker]
      else if \<not> hasExeCtx \<and> hasQryCtx \<and> hasColConv \<and> hasNamValChk then [IStmt, IStmtQueryContext, IColumnConverter, INamedValueChecker]
      else if hasExeCtx \<and> \<not> hasQryCtx \<and> hasColConv \<and> hasNamValChk then [IStmt, IStmtExecContext, IColumnConverter, INamedValueChecker]
      else if hasExeCtx \<and> hasQryCtx \<and> hasColConv \<and> hasNamValChk
        then [IStmt, IStmtExecContext, IStmtQueryContext, IColumnConverter, INamedValueChecker]
      else [IStmt])"

text \<open>An anonymous struct shows exactly the interfaces it embeds; converter and checker are the parent's.\<close>

definition wrapStmt ::
    "(('w, 'v) traced, 'v, 'r) sql_stmt option \<Rightarrow> ('w, 'v, 'r) stmt_config \<Rightarrow>
       (('w, 'v) traced, (('w, 'v) traced, 'v, 'r) sql_stmt option) act" where
  "wrapStmt parent cfg =
     (case parent of
        None \<Rightarrow> nil_call
      | Some p \<Rightarrow>
          (let s = makeStmt p cfg;
               is = stmt_ifaces (sm_ExecContext p \<noteq> None) (sm_QueryContext p \<noteq> None) (sm_ColumnConverter p \<noteq> None)
                      (sm_NamedValueChecker p \<noteq> None)
           in ret (Some (s
                \<lparr>sm_ExecContext := (if IStmtExecContext \<in> set is then sm_ExecContext s else None),
                 sm_QueryContext := (if IStmtQueryContext \<in> set is then sm_QueryContext s else None),
                 sm_ColumnConverter := (if IColumnConverter \<in> set is then sm_ColumnConverter p else None),
                 sm_NamedValueChecker := (if INamedValueChecker \<in> set is then sm_NamedValueChecker p else None)\<rparr>))))"

section \<open>Preparing\<close>

definition ensurePrepareContext :: "('s, 'v, 'r) sql_conn \<Rightarrow> ('s, 'v, 'r) prepare_fun" where
  "ensurePrepareContext c = (case cn_PrepareContext c of Some p \<Rightarrow> p | None \<Rightarrow> (\<lambda>ctx query. cn_Prepare c query))"

type_synonym ('w, 'v, 'r) prepare_middleware = "(('w, 'v) traced, 'v, 'r) prepare_fun \<Rightarrow> (('w, 'v) traced, 'v, 'r) prepare_fun"

definition prepareTrace :: "'v method_tracer \<Rightarrow> ('w, 'v, 'r) prepare_middleware" where
  "prepareTrace t next_fun ctx query = with_trace t ctx ''db.Prepare'' query None (\<lambda>ctx'. next_fun ctx' query)"

record ('w, 'v, 'r) prepare_config =
  pf_exec :: "('w, 'v) exec_middleware list"
  pf_execContext :: "('w, 'v) exec_middleware list"
  pf_queryFunc :: "('w, 'v, 'r) query_middleware list"
  pf_queryContext :: "('w, 'v, 'r) query_middleware list"

definition prepareWrapResult :: "('w, 'v, 'r) prepare_config \<Rightarrow> ('w, 'v, 'r) prepare_middleware" where
  "prepareWrapResult cfg next_fun ctx query =
     andThen (next_fun ctx query) (\<lambda>r.
       case r of
         Inl err \<Rightarrow> ret (Inl err)
       | Inr st \<Rightarrow>
           andThen (wrapStmt st
             \<lparr>sf_query = query, sf_exec = pf_exec cfg, sf_execContext = pf_execContext cfg,
              sf_queryFunc = pf_queryFunc cfg, sf_queryContext = pf_queryContext cfg\<rparr>) (\<lambda>x. ret (Inr x)))"

definition makePrepareContextFuncMiddlewares :: "'v method_tracer \<Rightarrow> ('w, 'v, 'r) prepare_config \<Rightarrow> ('w, 'v, 'r) prepare_middleware list" where
  "makePrepareContextFuncMiddlewares t cfg = [prepareTrace t, prepareWrapResult cfg]"

section \<open>Connections\<close>

record ('w, 'v, 'r) conn_config =
  kf_ping :: "(('w, 'v) traced ping_fun \<Rightarrow> ('w, 'v) traced ping_fun) list"
  kf_exec :: "('w, 'v) exec_middleware list"
  kf_query :: "('w, 'v, 'r) query_middleware list"
  kf_begin :: "('w, 'v) begin_middleware list"
  kf_prepare :: "('w, 'v, 'r) prepare_middleware list"

text \<open>
  The struct \<^verbatim>\<open>conn\<close> with its methods: pinging, executing and querying with a context, preparing and beginning are always there.
\<close>

definition makeConn ::
    "(('w, 'v) traced, 'v, 'r) sql_conn \<Rightarrow> ('w, 'v, 'r) conn_config \<Rightarrow> (('w, 'v) traced, 'v, 'r) sql_conn" where
  "makeConn parent cfg =
     (let ping = (case cn_Ping parent of Some p \<Rightarrow> chainMiddlewares (kf_ping cfg) p | None \<Rightarrow> nopPing);
          exec = (case cn_ExecContext parent of Some p \<Rightarrow> chainMiddlewares (kf_exec cfg) p | None \<Rightarrow> skippedExecContext);
          query = (case cn_QueryContext parent of Some p \<Rightarrow> chainMiddlewares (kf_query cfg) p | None \<Rightarrow> skippedQueryContext);
          begin_tx = chainMiddlewares (kf_begin cfg) (ensureBegin parent);
          prepare = chainMiddlewares (kf_prepare cfg) (ensurePrepareContext parent)
      in \<lparr>cn_Ping = Some ping, cn_ExecContext = Some exec, cn_QueryContext = Some query,
          cn_Prepare = (\<lambda>q. prepare Background q), cn_PrepareContext = Some prepare,
          cn_Begin = begin_tx Background \<lparr>to_Isolation = 0, to_ReadOnly = False\<rparr>, cn_BeginTx = Some begin_tx,
          cn_Close = cn_Close parent, cn_NamedValueChecker = None, cn_SessionResetter = None\<rparr>)"

definition wrapConn ::
    "(('w, 'v) traced, 'v, 'r) sql_conn \<Rightarrow> ('w, 'v, 'r) conn_config \<Rightarrow> (('w, 'v) traced, 'v, 'r) sql_conn" where
  "wrapConn parent cfg =
     (let c = makeConn parent cfg;
          hasNameValueChecker = cn_NamedValueChecker parent \<noteq> None;
          hasSessionResetter = cn_SessionResetter parent \<noteq> None
      in if hasNameValueChecker \<and> \<not> hasSessionResetter then c\<lparr>cn_NamedValueChecker := cn_NamedValueChecker parent\<rparr>
         else if \<not> hasNameValueChecker \<and> hasSessionResetter then c\<lparr>cn_SessionResetter := cn_SessionResetter parent\<rparr>
         else if hasNameValueChecker \<and> hasSessionResetter
           then c\<lparr>cn_NamedValueChecker := cn_NamedValueChecker parent, cn_SessionResetter := cn_SessionResetter parent\<rparr>
         else c)"

text \<open>The deprecated methods of \<^verbatim>\<open>conn\<close>.\<close>

definition conn_Exec :: "string \<Rightarrow> 'v list option \<Rightarrow> ('s, sql_err + 's sql_result option) act" where
  "conn_Exec query args = ret (Inl (SqlErr ''method is deprecated''))"

definition conn_Query :: "string \<Rightarrow> 'v list option \<Rightarrow> ('s, sql_err + 'r option) act" where
  "conn_Query query args = ret (Inl (SqlErr ''method is deprecated''))"

section \<open>Settings and drivers\<close>

record 'v sql_config =
  sq_tracer :: "'v method_tracer"
  sq_allowRoot :: bool
  sq_ping :: bool
  sq_rowsNext :: bool
  sq_rowsClose :: bool
  sq_rowsAffected :: bool
  sq_lastInsertID :: bool

datatype 'v sql_option =
  WithTracer "'v method_tracer" | WithAllowRoot bool | TracePing | TraceRowsAffected | TraceLastInsertID | TraceAll

fun sql_apply :: "'v sql_option \<Rightarrow> 'v sql_config \<Rightarrow> 'v sql_config" where
  "sql_apply (WithTracer t) c = c\<lparr>sq_tracer := t\<rparr>"
| "sql_apply (WithAllowRoot b) c = c\<lparr>sq_allowRoot := b\<rparr>"
| "sql_apply TracePing c = c\<lparr>sq_ping := True\<rparr>"
| "sql_apply TraceRowsAffected c = c\<lparr>sq_rowsAffected := True\<rparr>"
| "sql_apply TraceLastInsertID c = c\<lparr>sq_lastInsertID := True\<rparr>"
| "sql_apply TraceAll c =
     c\<lparr>sq_allowRoot := True, sq_ping := True, sq_rowsNext := True, sq_rowsClose := True, sq_rowsAffected := True, sq_lastInsertID := True\<rparr>"

definition tracerOrNil :: "'v method_tracer \<Rightarrow> bool \<Rightarrow> 'v method_tracer" where
  "tracerOrNil t shouldTrace = (if shouldTrace then t else None)"

definition newExecConfig :: "'v sql_config \<Rightarrow> string \<Rightarrow> exec_config" where
  "newExecConfig c traceMethod =
     \<lparr>xc_traceMethod = traceMethod, xc_traceLastInsertID = sq_lastInsertID c, xc_traceRowsAffected = sq_rowsAffected c\<rparr>"

definition newQueryConfig :: "'v sql_config \<Rightarrow> string \<Rightarrow> query_config" where
  "newQueryConfig c traceMethod =
     \<lparr>qc_traceMethod = traceMethod, qc_traceRowsNext = sq_rowsNext c, qc_traceRowsClose = sq_rowsClose c\<rparr>"

definition newConnConfig :: "'v sql_config \<Rightarrow> ('w, 'v, 'r) conn_config" where
  "newConnConfig c =
     \<lparr>kf_ping = makePingFuncMiddlewares (tracerOrNil (sq_tracer c) (sq_ping c)),
      kf_exec = makeExecContextFuncMiddlewares (sq_tracer c) (newExecConfig c ''db.Exec''),
      kf_query = makeQueryerContextMiddlewares (sq_tracer c) (newQueryConfig c ''db.Query''),
      kf_begin = makeBeginFuncMiddlewares (sq_tracer c),
      kf_prepare = makePrepareContextFuncMiddlewares (sq_tracer c)
        \<lparr>pf_exec = makeExecContextFuncMiddlewares (tracerOrNil (sq_tracer c) (sq_allowRoot c)) (newExecConfig c ''db.Exec''),
         pf_execContext = makeExecContextFuncMiddlewares (sq_tracer c) (newExecConfig c ''db.Exec''),
         pf_queryFunc = makeQueryerContextMiddlewares (tracerOrNil (sq_tracer c) (sq_allowRoot c)) (newQueryConfig c ''db.Query''),
         pf_queryContext = makeQueryerContextMiddlewares (sq_tracer c) (newQueryConfig c ''db.Query'')\<rparr>\<rparr>"

record ('s, 'v, 'r) sql_connector =
  kn_Connect :: "sql_ctx \<Rightarrow> ('s, sql_err + ('s, 'v, 'r) sql_conn) act"
  kn_Close :: "('s, sql_err option) act option"

record ('s, 'v, 'r) sql_driver =
  dr_Open :: "string \<Rightarrow> ('s, sql_err + ('s, 'v, 'r) sql_conn) act"
  dr_OpenConnector :: "(string \<Rightarrow> ('s, sql_err + ('s, 'v, 'r) sql_connector) act) option"

record ('w, 'v, 'r) otDriver =
  od_parent :: "(('w, 'v) traced, 'v, 'r) sql_driver"
  od_connector :: "(('w, 'v) traced, 'v, 'r) sql_connector option"
  od_close :: "(('w, 'v) traced, sql_err option) act"
  od_connConfig :: "('w, 'v, 'r) conn_config"

definition otDriver_Open :: "('w, 'v, 'r) otDriver \<Rightarrow> string \<Rightarrow> (('w, 'v) traced, sql_err + (('w, 'v) traced, 'v, 'r) sql_conn) act" where
  "otDriver_Open d name =
     andThen (dr_Open (od_parent d) name) (\<lambda>r. ret (map_sum id (\<lambda>c. wrapConn c (od_connConfig d)) r))"

definition otDriver_Connect :: "('w, 'v, 'r) otDriver \<Rightarrow> sql_ctx \<Rightarrow> (('w, 'v) traced, sql_err + (('w, 'v) traced, 'v, 'r) sql_conn) act" where
  "otDriver_Connect d ctx =
     (case od_connector d of
        None \<Rightarrow> nil_call
      | Some k \<Rightarrow> andThen (kn_Connect k ctx) (\<lambda>r. ret (map_sum id (\<lambda>c. wrapConn c (od_connConfig d)) r)))"

definition otDriver_Close :: "('w, 'v, 'r) otDriver \<Rightarrow> (('w, 'v) traced, sql_err option) act" where
  "otDriver_Close d = od_close d"

text \<open>The receiver is a copy: the connector is in the driver that is returned.\<close>

definition otDriver_OpenConnector :: "('w, 'v, 'r) otDriver \<Rightarrow> string \<Rightarrow> (('w, 'v) traced, sql_err + ('w, 'v, 'r) otDriver) act" where
  "otDriver_OpenConnector d name =
     (case dr_OpenConnector (od_parent d) of
        None \<Rightarrow> (\<lambda>s. Inl (Panic ''interface conversion''))
      | Some open_connector \<Rightarrow>
          andThen (open_connector name) (\<lambda>r.
            ret (map_sum id (\<lambda>k. d\<lparr>od_connector := Some k, od_close := (case kn_Close k of Some c \<Rightarrow> c | None \<Rightarrow> od_close d)\<rparr>) r)))"

text \<open>The wrapped driver, with whether it shows \<^verbatim>\<open>DriverContext\<close>.\<close>

definition wrapDriver :: "(('w, 'v) traced, 'v, 'r) sql_driver \<Rightarrow> 'v sql_config \<Rightarrow> ('w, 'v, 'r) otDriver \<times> bool" where
  "wrapDriver d c =
     (\<lparr>od_parent = d, od_connector = None, od_close = ret None, od_connConfig = newConnConfig c\<rparr>, dr_OpenConnector d \<noteq> None)"

definition default_config :: "'v sql_config" where
  "default_config =
     \<lparr>sq_tracer = noopTracer, sq_allowRoot = False, sq_ping = False, sq_rowsNext = False, sq_rowsClose = False,
      sq_rowsAffected = False, sq_lastInsertID = False\<rparr>"

definition Wrap :: "(('w, 'v) traced, 'v, 'r) sql_driver \<Rightarrow> 'v sql_option list \<Rightarrow> ('w, 'v, 'r) otDriver \<times> bool" where
  "Wrap d opts = wrapDriver d (fold sql_apply opts default_config)"

text \<open>Registration: \<open>names\<close> are the registered drivers; \<open>open_err\<close> and \<open>close_err\<close> the outcomes of opening the database by name and of closing it.\<close>

fun free_slot :: "string list \<Rightarrow> string \<Rightarrow> nat \<Rightarrow> nat \<Rightarrow> string option" where
  "free_slot names driverName i 0 = None"
| "free_slot names driverName i (Suc k) =
     (let regName = driverName @ fmt_nat i
      in if regName \<in> set names then free_slot names driverName (Suc i) k else Some regName)"

definition RegisterWithSource ::
    "string option \<Rightarrow> string option \<Rightarrow> string list \<Rightarrow> string \<Rightarrow> (string + string) \<times> string list" where
  "RegisterWithSource open_err close_err names driverName =
     (case open_err of
        Some e \<Rightarrow> (Inl e, names)
      | None \<Rightarrow>
          (case close_err of
             Some e \<Rightarrow> (Inl e, names)
           | None \<Rightarrow>
               (case free_slot names (driverName @ ''-otelsql-'') 0 150 of
                  Some regName \<Rightarrow> (Inr regName, regName # names)
                | None \<Rightarrow> (Inl ''unable to register driver, all slots have been taken'', names))))"

section \<open>What the wrapper keeps\<close>

lemma namedValuesToValues_inverse [simp]: "namedValuesToValues (valuesToNamedValues vs) = vs"
proof -
  have "map nv_Value (map (\<lambda>(i, v). \<lparr>nv_Name = [], nv_Ordinal = int i + 1, nv_Value = v\<rparr>) (enumerate n xs)) = xs" for n and xs :: "'a list"
    by (induction xs arbitrary: n) simp_all
  then show ?thesis
    by (cases vs) (simp_all add: namedValuesToValues_def valuesToNamedValues_def)
qed

lemma stmt_ifaces_exact:
  "set (stmt_ifaces e q c n) =
     {IStmt} \<union> (if e then {IStmtExecContext} else {}) \<union> (if q then {IStmtQueryContext} else {}) \<union>
     (if c then {IColumnConverter} else {}) \<union> (if n then {INamedValueChecker} else {})"
  by (cases e; cases q; cases c; cases n) (simp_all add: stmt_ifaces_def insert_commute)

lemma wrapStmt_shows:
  "wrapStmt (Some p) cfg s =
     Inr (Some ((makeStmt p cfg)
       \<lparr>sm_ExecContext := (if sm_ExecContext p \<noteq> None then sm_ExecContext (makeStmt p cfg) else None),
        sm_QueryContext := (if sm_QueryContext p \<noteq> None then sm_QueryContext (makeStmt p cfg) else None),
        sm_ColumnConverter := sm_ColumnConverter p, sm_NamedValueChecker := sm_NamedValueChecker p\<rparr>), s)"
  by (simp add: wrapStmt_def Let_def stmt_ifaces_exact act_simps)

text \<open>
  C39: a wrapped statement shows an optional interface exactly when the statement it wraps has it (the sixteen cases of the switch leave none out), with
  the parent's own converter and checker, and wrapping it calls nothing.
\<close>

theorem wrapStmt_interfaces:
  "case wrapStmt (Some p) cfg s of
     Inr (Some st, s') \<Rightarrow>
       s' = s \<and> (sm_ExecContext st = None \<longleftrightarrow> sm_ExecContext p = None) \<and> (sm_QueryContext st = None \<longleftrightarrow> sm_QueryContext p = None) \<and>
       sm_ColumnConverter st = sm_ColumnConverter p \<and> sm_NamedValueChecker st = sm_NamedValueChecker p \<and>
       sm_Close st = sm_Close p \<and> sm_NumInput st = sm_NumInput p
   | _ \<Rightarrow> False"
  by (simp add: wrapStmt_shows makeStmt_def)

lemma wrapConn_fields [simp]:
  "cn_ExecContext (wrapConn parent cfg) = Some (case cn_ExecContext parent of Some p \<Rightarrow> chainMiddlewares (kf_exec cfg) p | None \<Rightarrow> skippedExecContext)"
  "cn_QueryContext (wrapConn parent cfg) = Some (case cn_QueryContext parent of Some p \<Rightarrow> chainMiddlewares (kf_query cfg) p | None \<Rightarrow> skippedQueryContext)"
  "cn_Prepare (wrapConn parent cfg) = chainMiddlewares (kf_prepare cfg) (ensurePrepareContext parent) Background"
  "cn_BeginTx (wrapConn parent cfg) = Some (chainMiddlewares (kf_begin cfg) (ensureBegin parent))"
  "cn_Close (wrapConn parent cfg) = cn_Close parent"
  by (simp_all add: wrapConn_def makeConn_def Let_def)

text \<open>A call between its two announcements: the outcome of the parent, the end announced with nil.\<close>

definition announced :: "string \<Rightarrow> string \<Rightarrow> 'v args \<Rightarrow> (('w, 'v) traced, 'a) act \<Rightarrow> (('w, 'v) traced, 'a) act" where
  "announced method query args k =
     (\<lambda>(w, l). case k (w, l @ [TStart method query args]) of Inl p \<Rightarrow> Inl p | Inr (r, (w', l')) \<Rightarrow> Inr (r, (w', l' @ [TEnd None])))"

lemma with_trace_announced: "with_trace (Some start) ctx method query args k = announced method query args (k (start ctx method query args))"
  by (rule ext) (auto simp: with_trace_apply announced_def split: prod.split)

definition with_tracer :: "(sql_ctx \<Rightarrow> string \<Rightarrow> string \<Rightarrow> 'v args \<Rightarrow> sql_ctx) \<Rightarrow> 'v sql_config" where
  "with_tracer start = fold sql_apply [WithTracer (Some start)] default_config"

lemma with_tracer_fields [simp]:
  "sq_tracer (with_tracer start) = Some start" "sq_allowRoot (with_tracer start) = False"
  "sq_lastInsertID (with_tracer start) = False" "sq_rowsAffected (with_tracer start) = False"
  by (simp_all add: with_tracer_def default_config_def)


lemma wrapStmt_Exec_panics:
  assumes "wrapStmt p
       \<lparr>sf_query = query, sf_exec = makeExecContextFuncMiddlewares (tracerOrNil t False) (newExecConfig c ''db.Exec''), sf_execContext = e,
        sf_queryFunc = f, sf_queryContext = q\<rparr> s = Inr (Some st, s')"
  shows "sm_Exec st args = nil_call"
proof (cases p)
  case None
  with assms show ?thesis by (simp add: wrapStmt_def act_simps)
next
  case (Some p')
  with assms have "sm_Exec st = sm_Exec (makeStmt p' \<lparr>sf_query = query,
      sf_exec = makeExecContextFuncMiddlewares (tracerOrNil t False) (newExecConfig c ''db.Exec''), sf_execContext = e,
      sf_queryFunc = f, sf_queryContext = q\<rparr>)"
    by (auto simp: wrapStmt_shows)
  then show ?thesis
    by (simp add: makeStmt_def makeStmtExecFunc_def makeExecContextFuncMiddlewares_def tracerOrNil_def execTrace_def)
qed

lemma andThen_Inr: "andThen m f s = Inr (y, s') \<longleftrightarrow> (\<exists>x s1. m s = Inr (x, s1) \<and> f x s1 = Inr (y, s'))"
  by (auto simp: act_simps split: sum.splits)

lemma prepareWrapResult_Inr:
  "prepareWrapResult cfg f ctx query s = Inr (Inr x, s') \<longleftrightarrow>
   (\<exists>st s1. f ctx query s = Inr (Inr st, s1) \<and>
      wrapStmt st \<lparr>sf_query = query, sf_exec = pf_exec cfg, sf_execContext = pf_execContext cfg,
        sf_queryFunc = pf_queryFunc cfg, sf_queryContext = pf_queryContext cfg\<rparr> s1 = Inr (x, s'))"
  by (auto simp: prepareWrapResult_def andThen_Inr act_simps split: sum.splits)

text \<open>
  With a tracer and without \<^verbatim>\<open>WithAllowRoot\<close> every statement that a wrapped connection prepares panics when it is executed without a context,
  whatever the driver: the middleware that traces it is installed with no tracer.
\<close>

theorem prepared_Exec_panics:
  "{st. \<exists>s s'. cn_Prepare (wrapConn parent (newConnConfig (with_tracer start))) query s = Inr (Inr (Some st), s')} \<subseteq>
   {st. sm_Exec st args = nil_call}"
proof
  fix st
  assume "st \<in> {st. \<exists>s s'. cn_Prepare (wrapConn parent (newConnConfig (with_tracer start))) query s = Inr (Inr (Some st), s')}"
  then obtain s s' where "cn_Prepare (wrapConn parent (newConnConfig (with_tracer start))) query s = Inr (Inr (Some st), s')"
    by blast
  then show "st \<in> {st. sm_Exec st args = nil_call}"
    by (auto simp: newConnConfig_def makePrepareContextFuncMiddlewares_def prepareTrace_def with_trace_def andThen_Inr
        prepareWrapResult_Inr ret_apply dest: wrapStmt_Exec_panics)
qed

text \<open>A driver whose statements do nothing: its prepared statement exists, and panics.\<close>

definition idle_stmt :: "(('w, 'v) traced, 'v, 'r) sql_stmt" where
  "idle_stmt = \<lparr>sm_Exec = (\<lambda>args. ret (Inr None)), sm_Query = (\<lambda>args. ret (Inr None)), sm_ExecContext = None, sm_QueryContext = None,
     sm_Close = ret None, sm_NumInput = ret 0, sm_ColumnConverter = None, sm_NamedValueChecker = None\<rparr>"

definition idle_conn :: "(('w, 'v) traced, 'v, 'r) sql_conn" where
  "idle_conn = \<lparr>cn_Ping = None, cn_ExecContext = None, cn_QueryContext = None, cn_Prepare = (\<lambda>query. ret (Inr (Some idle_stmt))),
     cn_PrepareContext = None, cn_Begin = ret (Inr None), cn_BeginTx = None, cn_Close = ret None, cn_NamedValueChecker = None,
     cn_SessionResetter = None\<rparr>"

lemma idle_conn_prepares:
  "\<exists>st s'. cn_Prepare (wrapConn idle_conn (newConnConfig (with_tracer start))) query (w, l) = Inr (Inr (Some st), s')"
  by (simp add: newConnConfig_def makePrepareContextFuncMiddlewares_def prepareTrace_def with_trace_apply prepareWrapResult_def
      ensurePrepareContext_def idle_conn_def wrapStmt_shows act_simps)

text \<open>Registration takes the first free of 150 names, and fails exactly when all are taken.\<close>

lemma free_slot_Some:
  "free_slot names d i k = Some r \<Longrightarrow>
   \<exists>j. i \<le> j \<and> j < i + k \<and> r = d @ fmt_nat j \<and> r \<notin> set names \<and> (\<forall>m. i \<le> m \<and> m < j \<longrightarrow> d @ fmt_nat m \<in> set names)"
proof (induction k arbitrary: i)
  case (Suc k)
  show ?case
  proof (cases "d @ fmt_nat i \<in> set names")
    case True
    then obtain j where "Suc i \<le> j" "j < Suc i + k" "r = d @ fmt_nat j" "r \<notin> set names"
      and taken: "\<forall>m. Suc i \<le> m \<and> m < j \<longrightarrow> d @ fmt_nat m \<in> set names"
      using Suc.IH [of "Suc i"] Suc.prems by auto
    moreover have "\<forall>m. i \<le> m \<and> m < j \<longrightarrow> d @ fmt_nat m \<in> set names"
      using taken True by (metis Suc_leI le_neq_implies_less)
    ultimately show ?thesis by (intro exI [of _ j]) simp
  next
    case False
    with Suc.prems show ?thesis by (intro exI [of _ i]) auto
  qed
qed simp

lemma free_slot_None: "free_slot names d i k = None \<Longrightarrow> i \<le> m \<Longrightarrow> m < i + k \<Longrightarrow> d @ fmt_nat m \<in> set names"
proof (induction k arbitrary: i)
  case (Suc k)
  then show ?case by (cases "m = i") (auto split: if_splits simp: Let_def)
qed simp

lemma RegisterWithSource_outcome:
  "case RegisterWithSource None None names d of
     (Inr r, names') \<Rightarrow> r \<notin> set names \<and> names' = r # names
   | (Inl e, names') \<Rightarrow> names' = names \<and> (\<forall>i < 150. d @ ''-otelsql-'' @ fmt_nat i \<in> set names)"
proof (cases "free_slot names (d @ ''-otelsql-'') 0 150")
  case None
  then show ?thesis
    using free_slot_None [OF None] by (simp add: RegisterWithSource_def)
next
  case (Some r)
  then show ?thesis
    using free_slot_Some [OF Some] by (auto simp: RegisterWithSource_def)
qed

end
