(* ===== verification/Otel_Env.thy ===== *)
theory Otel_Env
  imports Limit_Zone
begin

text \<open>
  \<^verbatim>\<open>src/infra/otel/log/level.go\<close> (severities and their texts) and \<^verbatim>\<open>src/infra/otel/internal\<close> (data source names, environment variables, log files
  with rotation). Of the standard library, \<^verbatim>\<open>strconv.Unquote\<close>, the verb \<^verbatim>\<open>%q\<close>, \<^verbatim>\<open>mime.ParseMediaType\<close> and \<^verbatim>\<open>filepath.Abs\<close> are parameters.
\<close>

section \<open>Severities\<close>

text \<open>\<^verbatim>\<open>NONE\<close> is 0 and each level has four steps.\<close>

type_synonym severity = int

abbreviation (input) TRACE :: severity where "TRACE \<equiv> 1"
abbreviation (input) DEBUG :: severity where "DEBUG \<equiv> 5"
abbreviation (input) INFO :: severity where "INFO \<equiv> 9"
abbreviation (input) WARN :: severity where "WARN \<equiv> 13"
abbreviation (input) ERROR :: severity where "ERROR \<equiv> 17"
abbreviation (input) FATAL :: severity where "FATAL \<equiv> 21"

text \<open>The verb \<^verbatim>\<open>%+d\<close>.\<close>

definition fmt_signed :: "int \<Rightarrow> string" where
  "fmt_signed i = (if i < 0 then fmt_int i else CHR ''+'' # fmt_int i)"

definition severity_str :: "string \<Rightarrow> severity \<Rightarrow> string" where
  "severity_str base val = (if val = 0 then base else base @ fmt_signed val)"

definition severity_String :: "severity \<Rightarrow> string" where
  "severity_String v =
     (if v < DEBUG then severity_str ''TRACE'' (int64 (v - TRACE))
      else if v < INFO then severity_str ''DEBUG'' (int64 (v - DEBUG))
      else if v < WARN then severity_str ''INFO'' (int64 (v - INFO))
      else if v < ERROR then severity_str ''WARN'' (int64 (v - WARN))
      else if v < FATAL then severity_str ''ERROR'' (int64 (v - ERROR))
      else severity_str ''FATAL'' (int64 (v - FATAL)))"

definition severity_base :: "string \<Rightarrow> severity option" where
  "severity_base name =
     (if name = ''TRACE'' then Some TRACE else if name = ''DEBUG'' then Some DEBUG else if name = ''INFO'' then Some INFO
      else if name = ''WARN'' then Some WARN else if name = ''ERROR'' then Some ERROR else if name = ''FATAL'' then Some FATAL
      else None)"

text \<open>\<open>quote\<close> is \<^verbatim>\<open>%q\<close>; the error of \<^verbatim>\<open>strconv.Atoi\<close> is left as one text.\<close>

definition severity_parse :: "(string \<Rightarrow> string) \<Rightarrow> string \<Rightarrow> string + severity" where
  "severity_parse quote s =
     (let fail = (\<lambda>e. Inl (''otel/log: severity string '' @ quote s @ '': '' @ e));
          name = takeWhile (\<lambda>c. c \<noteq> CHR ''+'' \<and> c \<noteq> CHR ''-'') s;
          rest = dropWhile (\<lambda>c. c \<noteq> CHR ''+'' \<and> c \<noteq> CHR ''-'') s
      in case (if rest = [] then Some 0 else parse_int64 rest) of
           None \<Rightarrow> fail ''strconv.Atoi: parsing failed''
         | Some depth \<Rightarrow>
             (case severity_base (to_upper name) of
                None \<Rightarrow> fail ''unknown name''
              | Some v \<Rightarrow> Inr (int64 (v + depth))))"

definition severity_MarshalText :: "severity \<Rightarrow> string" where
  "severity_MarshalText v = severity_String v"

definition severity_UnmarshalText :: "(string \<Rightarrow> string) \<Rightarrow> string \<Rightarrow> string + severity" where
  "severity_UnmarshalText quote data = severity_parse quote data"

definition severity_MarshalJSON :: "(string \<Rightarrow> string) \<Rightarrow> severity \<Rightarrow> string" where
  "severity_MarshalJSON quote v = quote (severity_String v)"

definition severity_UnmarshalJSON :: "(string \<Rightarrow> string) \<Rightarrow> (string \<Rightarrow> string + string) \<Rightarrow> string \<Rightarrow> string + severity" where
  "severity_UnmarshalJSON quote unquote data = (case unquote data of Inl e \<Rightarrow> Inl e | Inr s \<Rightarrow> severity_parse quote s)"

lemma int64_plus [simp]: "int64 (a + int64 b) = int64 (a + b)"
  using signed_take_bit_add [of 63 a "signed_take_bit 63 b"] signed_take_bit_add [of 63 a b] by (simp add: int64_def)

lemma parse_int64_fmt_signed: "in_int64 i \<Longrightarrow> parse_int64 (fmt_signed i) = Some i"
proof (cases "i < 0")
  case False
  assume "in_int64 i"
  with False show ?thesis
    by (simp add: fmt_signed_def parse_int64_def fmt_int_def fmt_nat_all_digits)
qed (simp add: fmt_signed_def)

lemma fmt_signed_Cons: "\<exists>c cs. fmt_signed i = c # cs \<and> (c = CHR ''+'' \<or> c = CHR ''-'') \<and> list_all is_digit cs"
proof -
  have "list_all is_digit (fmt_nat n)" for n using fmt_nat_all_digits [of n] by (simp add: all_digits_def)
  then show ?thesis by (simp add: fmt_signed_def fmt_int_def)
qed

lemma of_char_to_upper:
  "(of_char (to_upper_char c) :: nat) =
     (if 97 \<le> (of_char c :: nat) \<and> (of_char c :: nat) \<le> 122 then of_char c - 32 else of_char c)"
  by (auto simp: to_upper_char_def of_char_of)

lemma to_upper_char_sign [simp]: "to_upper_char c = CHR ''+'' \<longleftrightarrow> c = CHR ''+''" "to_upper_char c = CHR ''-'' \<longleftrightarrow> c = CHR ''-''"
proof -
  have "to_upper_char c = d \<longleftrightarrow> c = d" if "(of_char d :: nat) < 65" for d
  proof -
    have "to_upper_char c = d \<longleftrightarrow> (of_char (to_upper_char c) :: nat) = of_char d"
      by (simp only: of_char_eq_iff)
    also have "\<dots> \<longleftrightarrow> (of_char c :: nat) = of_char d" using that by (auto simp: of_char_to_upper)
    also have "\<dots> \<longleftrightarrow> c = d" by (simp only: of_char_eq_iff)
    finally show ?thesis .
  qed
  then show "to_upper_char c = CHR ''+'' \<longleftrightarrow> c = CHR ''+''" "to_upper_char c = CHR ''-'' \<longleftrightarrow> c = CHR ''-''" by simp_all
qed

lemma to_upper_char_sign_id [simp]: "to_upper_char CHR ''+'' = CHR ''+''" "to_upper_char CHR ''-'' = CHR ''-''"
  by code_simp+

lemma to_upper_char_digit: "is_digit (to_upper_char c) \<Longrightarrow> to_upper_char c = c"
  by (auto simp: is_digit_def to_upper_char_def of_char_of split: if_splits)

lemma severity_parse_text:
  assumes up: "to_upper s = base @ rest" and base: "severity_base base = Some b"
    and plain: "list_all (\<lambda>c. c \<noteq> CHR ''+'' \<and> c \<noteq> CHR ''-'') base"
    and rest: "rest = [] \<and> d = 0 \<or> rest = fmt_signed d" and d: "in_int64 d"
  shows "severity_parse quote s = Inr (int64 (b + d))"
proof -
  let ?P = "\<lambda>c. c \<noteq> CHR ''+'' \<and> c \<noteq> CHR ''-''"
  have split: "to_upper (takeWhile ?P s) = takeWhile ?P (to_upper s)" "to_upper (dropWhile ?P s) = dropWhile ?P (to_upper s)"
    by (simp_all add: to_upper_def takeWhile_map dropWhile_map o_def)
  have head: "rest = [] \<or> \<not> ?P (hd rest)" using rest fmt_signed_Cons [of d] by auto
  have b1: "takeWhile ?P (base @ rest) = base @ takeWhile ?P rest" by (rule takeWhile_append2) (use plain in \<open>simp add: list_all_iff\<close>)
  have b2: "dropWhile ?P (base @ rest) = dropWhile ?P rest" by (rule dropWhile_append2) (use plain in \<open>simp add: list_all_iff\<close>)
  have r1: "takeWhile ?P rest = []" using head by (cases rest) auto
  have r2: "dropWhile ?P rest = rest" using head by (cases rest) auto
  have t: "to_upper (takeWhile ?P s) = base" and r: "to_upper (dropWhile ?P s) = rest"
    using b1 b2 r1 r2 unfolding split up by simp_all
  have same: "dropWhile ?P s = rest"
  proof (cases "rest = []")
    case True
    then show ?thesis using r by (simp add: to_upper_def)
  next
    case False
    then obtain c cs where c: "rest = c # cs" "c = CHR ''+'' \<or> c = CHR ''-''" "list_all is_digit cs"
      using rest fmt_signed_Cons [of d] by auto
    obtain x xs where x: "dropWhile ?P s = x # xs" "to_upper_char x = c" "to_upper xs = cs"
      using r c(1) by (auto simp: to_upper_def map_eq_Cons_conv)
    have "map to_upper_char xs = xs"
      using c(3) x(3) by (intro map_idI) (auto simp: to_upper_def list_all_iff intro: to_upper_char_digit)
    with x c show ?thesis by (auto simp: to_upper_def)
  qed
  show ?thesis
  proof (cases "rest = []")
    case True
    with rest fmt_signed_Cons [of d] have "d = 0" by auto
    with True t same base show ?thesis by (simp add: severity_parse_def Let_def)
  next
    case False
    with rest d have "parse_int64 rest = Some d" by (auto simp: parse_int64_fmt_signed)
    with False t same base show ?thesis by (simp add: severity_parse_def Let_def)
  qed
qed

lemma severity_parse_str:
  assumes "to_upper s = severity_str base (int64 d)" and "severity_base base = Some b"
    and "list_all (\<lambda>c. c \<noteq> CHR ''+'' \<and> c \<noteq> CHR ''-'') base"
  shows "severity_parse quote s = Inr (int64 (b + d))"
proof -
  have "severity_parse quote s = Inr (int64 (b + int64 d))"
    using assms by (intro severity_parse_text [where base = base and rest = "if int64 d = 0 then [] else fmt_signed (int64 d)"])
      (auto simp: severity_str_def)
  then show ?thesis by simp
qed

text \<open>
  Every severity, also one beyond the named levels and also where the distance to the level wraps around, is read back from the text it prints, in
  whatever case the text is written.
\<close>

theorem severity_roundtrip:
  assumes "to_upper s = severity_String v" and "in_int64 v"
  shows "severity_parse quote s = Inr v"
proof -
  note str = severity_parse_str [of s]
  have "severity_base ''TRACE'' = Some TRACE" "severity_base ''DEBUG'' = Some DEBUG" "severity_base ''INFO'' = Some INFO"
    "severity_base ''WARN'' = Some WARN" "severity_base ''ERROR'' = Some ERROR" "severity_base ''FATAL'' = Some FATAL"
    by (simp_all add: severity_base_def)
  then show ?thesis
    using assms(1) str [of "''TRACE''" "v - TRACE" TRACE quote] str [of "''DEBUG''" "v - DEBUG" DEBUG quote]
      str [of "''INFO''" "v - INFO" INFO quote] str [of "''WARN''" "v - WARN" WARN quote]
      str [of "''ERROR''" "v - ERROR" ERROR quote] str [of "''FATAL''" "v - FATAL" FATAL quote] assms(2)
    by (simp add: severity_String_def split: if_splits)
qed

theorem severity_roundtrip_witness:
  "to_upper ''Warn-20'' = ''WARN-20'' \<and> severity_parse id ''trace-2'' = Inr (- 1)"
proof -
  have "to_upper ''trace-2'' = severity_String (- 1)" by code_simp
  then have "severity_parse id ''trace-2'' = Inr (- 1)" by (rule severity_roundtrip) (simp add: in_int64_def)
  moreover have "to_upper ''Warn-20'' = ''WARN-20''" by code_simp
  ultimately show ?thesis by simp
qed

section \<open>Data source names\<close>

text \<open>\<^verbatim>\<open>GetScheme\<close>: \<open>seen\<close> is the text before the current byte.\<close>

fun dsn_scheme :: "string \<Rightarrow> string \<Rightarrow> string \<Rightarrow> string + string \<times> string" where
  "dsn_scheme rawDSN seen [] = Inr (rawDSN, [])"
| "dsn_scheme rawDSN seen (c # cs) =
     (if is_alpha c then dsn_scheme rawDSN (seen @ [c]) cs
      else if is_scheme_char c then (if seen = [] then Inr ([], rawDSN) else dsn_scheme rawDSN (seen @ [c]) cs)
      else if c = CHR '':'' then (if seen = [] then Inl ''missing scheme'' else Inr (seen, cs))
      else Inr ([], rawDSN))"

definition dsn_GetScheme :: "string \<Rightarrow> string + string \<times> string" where
  "dsn_GetScheme rawDSN = dsn_scheme rawDSN [] rawDSN"

lemma dsn_scheme_zone: "dsn_scheme raw seen s = map_sum (\<lambda>_. ''missing scheme'') id (scheme_loop raw seen s)"
  by (induction s arbitrary: seen) auto

text \<open>The same function as the one of the limit zones, up to the error.\<close>

lemma dsn_GetScheme_zone: "dsn_GetScheme s = map_sum (\<lambda>_. ''missing scheme'') id (GetScheme s)"
  by (simp add: dsn_GetScheme_def GetScheme_def dsn_scheme_zone)

text \<open>\<^verbatim>\<open>strings.Cut\<close> at one byte, the escapes of \<^verbatim>\<open>net/url\<close>.\<close>

definition cut_at :: "char \<Rightarrow> string \<Rightarrow> string \<times> string" where
  "cut_at c s = (takeWhile (\<lambda>x. x \<noteq> c) s, drop 1 (dropWhile (\<lambda>x. x \<noteq> c) s))"

definition hex_val :: "char \<Rightarrow> nat option" where
  "hex_val c =
     (let n = of_char c :: nat
      in if 48 \<le> n \<and> n \<le> 57 then Some (n - 48)
         else if 97 \<le> n \<and> n \<le> 102 then Some (n - 87)
         else if 65 \<le> n \<and> n \<le> 70 then Some (n - 55)
         else None)"

fun unescape :: "bool \<Rightarrow> string \<Rightarrow> string option" where
  "unescape plus_space [] = Some []"
| "unescape plus_space (c # cs) =
     (if c = CHR ''%'' then
        (case cs of
           a # b # rest \<Rightarrow>
             (case (hex_val a, hex_val b) of
                (Some x, Some y) \<Rightarrow> map_option (\<lambda>r. char_of (16 * x + y) # r) (unescape plus_space rest)
              | _ \<Rightarrow> None)
         | _ \<Rightarrow> None)
      else map_option (\<lambda>r. (if plus_space \<and> c = CHR ''+'' then CHR '' '' else c) # r) (unescape plus_space cs))"

definition PathUnescape :: "string \<Rightarrow> string + string" where
  "PathUnescape s = (case unescape False s of Some r \<Rightarrow> Inr r | None \<Rightarrow> Inl ''invalid URL escape'')"

definition QueryUnescape :: "string \<Rightarrow> string + string" where
  "QueryUnescape s = (case unescape True s of Some r \<Rightarrow> Inr r | None \<Rightarrow> Inl ''invalid URL escape'')"

text \<open>\<^verbatim>\<open>url.ParseQuery\<close>: the pairs in order, or the first error.\<close>

fun split_at :: "char \<Rightarrow> string \<Rightarrow> string list" where
  "split_at c [] = [[]]"
| "split_at c (x # xs) = (if x = c then [] # split_at c xs else (case split_at c xs of [] \<Rightarrow> [[x]] | y # ys \<Rightarrow> (x # y) # ys))"

definition query_pair :: "string \<Rightarrow> string + (string \<times> string)" where
  "query_pair item =
     (case cut_at CHR ''='' item of
        (k, v) \<Rightarrow> (case QueryUnescape k of Inl e \<Rightarrow> Inl e | Inr k' \<Rightarrow> (case QueryUnescape v of Inl e \<Rightarrow> Inl e | Inr v' \<Rightarrow> Inr (k', v'))))"

fun query_pairs :: "string list \<Rightarrow> string + (string \<times> string) list" where
  "query_pairs [] = Inr []"
| "query_pairs (item # rest) =
     (if CHR '';'' \<in> set item then Inl ''invalid semicolon separator in query''
      else if item = [] then query_pairs rest
      else (case query_pair item of
              Inl e \<Rightarrow> Inl e
            | Inr kv \<Rightarrow> (case query_pairs rest of Inl e \<Rightarrow> Inl e | Inr kvs \<Rightarrow> Inr (kv # kvs))))"

definition ParseQuery :: "string \<Rightarrow> string + (string \<times> string) list" where
  "ParseQuery query = query_pairs (split_at CHR ''&'' query)"

text \<open>A Go map as an association list without duplicates, in the order in which it happens to be traversed.\<close>

definition put_param :: "string \<Rightarrow> string \<Rightarrow> (string \<times> string) list \<Rightarrow> (string \<times> string) list" where
  "put_param k v m = filter (\<lambda>(k', _). k' \<noteq> k) m @ [(k, v)]"

definition cut_slashes :: "string \<Rightarrow> string \<times> bool" where
  "cut_slashes path = (case path of c # d # rest \<Rightarrow> if c = CHR ''/'' \<and> d = CHR ''/'' then (rest, True) else (path, False) | _ \<Rightarrow> (path, False))"

text \<open>\<open>media\<close> is \<^verbatim>\<open>mime.ParseMediaType\<close>, with its parameters.\<close>

definition ParseDSN :: "(string \<Rightarrow> string + (string \<times> string) list) \<Rightarrow> string \<Rightarrow> string + string \<times> (string \<times> string) list" where
  "ParseDSN media rawDSN =
     (case dsn_GetScheme rawDSN of
        Inl e \<Rightarrow> Inl e
      | Inr (_, path) \<Rightarrow>
          (case cut_slashes path of
             (path, isURL) \<Rightarrow>
               (let opts = (if isURL then CHR ''?'' else CHR '';'');
                    unescaped = (if isURL then PathUnescape (fst (cut_at CHR ''#'' path)) else Inr path)
                in case unescaped of
                     Inl e \<Rightarrow> Inl e
                   | Inr path \<Rightarrow>
                       (case cut_at opts path of
                          (path, rest) \<Rightarrow>
                            (let rest = trim_space rest
                             in if rest = [] then Inr (path, [])
                                else if isURL then
                                  (case ParseQuery rest of
                                     Inl e \<Rightarrow> Inl e
                                   | Inr kvs \<Rightarrow> Inr (path, fold (\<lambda>(k, v). put_param k v) kvs []))
                                else (case media (''text/plain;'' @ rest) of Inl e \<Rightarrow> Inl e | Inr kvs \<Rightarrow> Inr (path, kvs)))))))"

section \<open>Environment variables\<close>

definition keyWithNamespace :: "string \<Rightarrow> string \<Rightarrow> string" where
  "keyWithNamespace space name = (if space = [] then name else space @ ''_'' @ name)"

record env_reader =
  er_GetEnv :: "string \<Rightarrow> string"
  er_Namespace :: string

definition GetEnvValue :: "env_reader \<Rightarrow> string \<Rightarrow> string \<times> bool" where
  "GetEnvValue e key = (let v = trim_space (er_GetEnv e (keyWithNamespace (er_Namespace e) key)) in (v, v \<noteq> []))"

text \<open>\<^verbatim>\<open>EnvString\<close>: an option that evaluates a variable on a state when it is set; \<^verbatim>\<open>Apply\<close> runs options in order.\<close>

definition EnvString :: "(string \<Rightarrow> string + string) \<Rightarrow> string \<Rightarrow> (string \<Rightarrow> 's \<Rightarrow> 's) \<Rightarrow> env_reader \<Rightarrow> 's \<Rightarrow> 's" where
  "EnvString unquote key eval e s =
     (case GetEnvValue e key of
        (v, ok) \<Rightarrow> if ok then eval (case unquote v of Inr u \<Rightarrow> u | Inl _ \<Rightarrow> v) s else s)"

definition env_Apply :: "(env_reader \<Rightarrow> 's \<Rightarrow> 's) list \<Rightarrow> env_reader \<Rightarrow> 's \<Rightarrow> 's" where
  "env_Apply opts c s = fold (\<lambda>opt. opt c) opts s"

definition Environment :: "(string \<Rightarrow> string) \<Rightarrow> env_reader" where
  "Environment getenv = \<lparr>er_GetEnv = getenv, er_Namespace = ''OTEL''\<rparr>"

section \<open>Log files\<close>

record file_writer =
  lj_Filename :: string
  lj_MaxSize :: int
  lj_MaxAge :: int
  lj_MaxBackups :: int
  lj_LocalTime :: bool
  lj_Compress :: bool

text \<open>\<^verbatim>\<open>strconv.ParseBool\<close>\<close>

definition ParseBool :: "string \<Rightarrow> bool option" where
  "ParseBool s =
     (if s \<in> {''1'', ''t'', ''T'', ''true'', ''TRUE'', ''True''} then Some True
      else if s \<in> {''0'', ''f'', ''F'', ''false'', ''FALSE'', ''False''} then Some False
      else None)"

definition file_int :: "string \<Rightarrow> string \<Rightarrow> int \<Rightarrow> (int \<Rightarrow> file_writer) \<Rightarrow> string \<Rightarrow> file_writer \<Rightarrow> string option \<times> file_writer" where
  "file_int name unit_text default_val set_val s c =
     (case parse_int64 s of
        Some n \<Rightarrow> (None, set_val n)
      | None \<Rightarrow> (Some (''file.'' @ name @ ''='' @ s @ '' ; accept: [ int ] '' @ unit_text @ '' ; default: '' @ fmt_int default_val), c))"

text \<open>\<^verbatim>\<open>fileparams\<close>: the setter of a parameter, with the error it returns; \<open>None\<close> for a name that is not in the table.\<close>

definition fileparams :: "string \<Rightarrow> (file_writer \<Rightarrow> string \<Rightarrow> string option \<times> file_writer) option" where
  "fileparams cn =
     (if cn = ''max-size'' then Some (\<lambda>c s. file_int ''max-size'' ''Mb'' (lj_MaxSize c) (\<lambda>n. c\<lparr>lj_MaxSize := n\<rparr>) s c)
      else if cn = ''max-age'' then Some (\<lambda>c s. file_int ''max-age'' ''days'' (lj_MaxAge c) (\<lambda>n. c\<lparr>lj_MaxAge := n\<rparr>) s c)
      else if cn = ''backups'' then Some (\<lambda>c s. file_int ''backups'' ''count'' (lj_MaxBackups c) (\<lambda>n. c\<lparr>lj_MaxBackups := n\<rparr>) s c)
      else if cn = ''localtime'' then
        Some (\<lambda>c s.
          if to_lower s = ''utc'' then (None, c\<lparr>lj_LocalTime := False\<rparr>)
          else
            (case ParseBool s of
               Some b \<Rightarrow> (None, c\<lparr>lj_LocalTime := \<not> b\<rparr>)
             | None \<Rightarrow> (Some (''file.localtime='' @ s @ '' ; accept: [ bool | \"utc\" ]; default: false''), c\<lparr>lj_LocalTime := True\<rparr>)))
      else if cn = ''compress'' then
        Some (\<lambda>c s.
          if to_lower s = ''gzip'' then (None, c\<lparr>lj_Compress := True\<rparr>)
          else
            (case ParseBool s of
               Some b \<Rightarrow> (None, c\<lparr>lj_Compress := b\<rparr>)
             | None \<Rightarrow> (Some (''file.compress='' @ s @ '' ; accept: [ bool | \"gzip\" ]; default: false''), c\<lparr>lj_Compress := False\<rparr>)))
      else None)"

text \<open>\<^verbatim>\<open>filepath.Base\<close>\<close>

definition file_base :: "string \<Rightarrow> string" where
  "file_base path =
     (if path = [] then ''.''
      else
        (let p = rev (dropWhile (\<lambda>c. c = CHR ''/'') (rev path))
         in if p = [] then ''/'' else rev (takeWhile (\<lambda>c. c \<noteq> CHR ''/'') (rev p))))"

text \<open>The loop over the parameters, with the warnings it logs.\<close>

fun apply_params :: "(string \<times> string) list \<Rightarrow> file_writer \<Rightarrow> string list \<times> file_writer" where
  "apply_params [] dsn = ([], dsn)"
| "apply_params ((cn, s) # rest) dsn =
     (let s = trim_space s
      in if s = [] then apply_params rest dsn
         else
           (case fileparams (to_lower cn) of
              None \<Rightarrow> (case apply_params rest dsn of (ws, d) \<Rightarrow> ((''Unknown file.param= spec '' @ to_lower cn) # ws, d))
            | Some setup \<Rightarrow>
                (case setup dsn s of
                   (err, dsn') \<Rightarrow>
                     (case apply_params rest dsn' of
                        (ws, d) \<Rightarrow> ((case err of Some e \<Rightarrow> e # ws | None \<Rightarrow> ws), d)))))"

definition FileDSN ::
    "(string \<Rightarrow> string + (string \<times> string) list) \<Rightarrow> (string \<Rightarrow> string + string) \<Rightarrow> string \<Rightarrow> string + string list \<times> file_writer" where
  "FileDSN media abs_path rawDSN =
     (case dsn_GetScheme rawDSN of
        Inl e \<Rightarrow> Inl e
      | Inr (scheme, rawDSN) \<Rightarrow>
          (case ParseDSN media rawDSN of
             Inl e \<Rightarrow> Inl e
           | Inr (path, params) \<Rightarrow>
               if file_base path = ''.'' \<or> file_base path = ''/'' then Inl ''file:path expected''
               else
                 (case abs_path path of
                    Inl e \<Rightarrow> Inl (''file:path ; '' @ e)
                  | Inr path \<Rightarrow>
                      Inr (apply_params params
                        \<lparr>lj_Filename = path, lj_MaxSize = 100, lj_MaxAge = 30, lj_MaxBackups = 3, lj_LocalTime = True, lj_Compress = False\<rparr>))))"

lemma dsn_GetScheme_slash: "dsn_GetScheme (CHR ''/'' # s) = Inr ([], CHR ''/'' # s)"
proof -
  have "\<not> is_alpha CHR ''/''" "\<not> is_scheme_char CHR ''/''" by code_simp+
  then show ?thesis by (simp add: dsn_GetScheme_def)
qed

lemma FileDSN_absolute:
  assumes "c \<noteq> CHR ''/''" and "CHR '';'' \<notin> set (CHR ''/'' # c # s)" and "file_base (CHR ''/'' # c # s) \<noteq> ''.''"
    and "file_base (CHR ''/'' # c # s) \<noteq> ''/''" and "abs_path (CHR ''/'' # c # s) = Inr f"
  shows "FileDSN media abs_path (CHR ''/'' # c # s) =
    Inr ([], \<lparr>lj_Filename = f, lj_MaxSize = 100, lj_MaxAge = 30, lj_MaxBackups = 3, lj_LocalTime = True, lj_Compress = False\<rparr>)"
proof -
  let ?p = "CHR ''/'' # c # s"
  have all: "\<forall>x \<in> set ?p. x \<noteq> CHR '';''" using assms(2) by blast
  have cut: "cut_at CHR '';'' ?p = (?p, [])"
    unfolding cut_at_def takeWhile_eq_all_conv [THEN iffD2, OF all] dropWhile_eq_Nil_conv [THEN iffD2, OF all] by simp
  have "ParseDSN media ?p = Inr (?p, [])"
    using assms(1) by (simp add: ParseDSN_def dsn_GetScheme_slash cut_slashes_def cut trim_space_def Let_def)
  then show ?thesis
    using assms(3-5) by (simp add: FileDSN_def dsn_GetScheme_slash)
qed

text \<open>
  A log file named by a bare name is refused: a text of scheme characters that begins with a letter, such as \<^verbatim>\<open>app.log\<close>, is taken for a scheme
  without a path.
\<close>

theorem FileDSN_bare_name:
  assumes "scheme_text s"
  shows "FileDSN media abs_path s = Inl ''file:path expected''"
proof -
  have "dsn_GetScheme s = Inr (s, [])" using assms by (simp add: dsn_GetScheme_zone GetScheme_bare)
  moreover have "ParseDSN media [] = Inr ([], [])"
    by (simp add: ParseDSN_def dsn_GetScheme_def cut_slashes_def cut_at_def trim_space_def)
  ultimately show ?thesis by (simp add: FileDSN_def file_base_def)
qed

theorem FileDSN_bare_name_witness:
  "FileDSN (\<lambda>_. Inr []) Inr ''app.log'' = Inl ''file:path expected''"
proof (rule FileDSN_bare_name)
  show "scheme_text ''app.log''" by code_simp
qed

text \<open>The parameter that asks for local time turns it off.\<close>

lemma localtime_inverted:
  "map_option (\<lambda>f. snd (f c ''true'')) (fileparams ''localtime'') = Some (c\<lparr>lj_LocalTime := False\<rparr>)"
proof -
  have "to_lower ''true'' \<noteq> ''utc''" "ParseBool ''true'' = Some True" by code_simp+
  then show ?thesis by (simp add: fileparams_def)
qed

text \<open>\<^verbatim>\<open>Apply\<close> with \<^verbatim>\<open>EnvString\<close>: variables that are not set change nothing.\<close>

lemma EnvString_unset: "trim_space (er_GetEnv e (keyWithNamespace (er_Namespace e) key)) = [] \<Longrightarrow> EnvString unquote key eval e s = s"
  by (simp add: EnvString_def GetEnvValue_def)

end
