(* ===== verification/Otel_Codec.thy ===== *)
theory Otel_Codec
  imports Otel_Env
begin

text \<open>
  \<^verbatim>\<open>src/infra/otel/sdk/log/stdout\<close>: log records written as text, as JSON and as the JSON of the OpenTelemetry exporter (\<^verbatim>\<open>codec/text\<close>, \<^verbatim>\<open>codec/json\<close>,
  \<^verbatim>\<open>codec/otel\<close>), the registry of codecs and their options (\<^verbatim>\<open>codec/codec.go\<close>, \<^verbatim>\<open>codec/time.go\<close>), the exporter and its configuration. Numbers in floating point
  are their 64 bits; their texts, the layout of times and base64 are parameters. JSON is a tree: \<^verbatim>\<open>encoding/json\<close> prints it, objects from Go maps
  in the order of their keys.
\<close>

section \<open>Values and records\<close>

datatype log_value =
    VEmpty
  | VBool bool
  | VFloat64 u64
  | VInt64 int
  | VString string
  | VBytes "u8 list"
  | VSlice "log_value list"
  | VMap "(string \<times> log_value) list"

fun kind_String :: "log_value \<Rightarrow> string" where
  "kind_String VEmpty = ''Empty''"
| "kind_String (VBool _) = ''Bool''"
| "kind_String (VFloat64 _) = ''Float64''"
| "kind_String (VInt64 _) = ''Int64''"
| "kind_String (VString _) = ''String''"
| "kind_String (VBytes _) = ''Bytes''"
| "kind_String (VSlice _) = ''Slice''"
| "kind_String (VMap _) = ''Map''"

text \<open>\<^verbatim>\<open>Value.AsString\<close> gives the empty text for a value that is no text.\<close>

fun AsString :: "log_value \<Rightarrow> string" where
  "AsString (VString s) = s"
| "AsString _ = []"

datatype attr_value =
    AInvalid
  | ABool bool
  | AInt64 int
  | AFloat64 u64
  | AString string
  | ABoolSlice "bool list"
  | AInt64Slice "int list"
  | AFloat64Slice "u64 list"
  | AStringSlice "string list"

record log_scope =
  sc_Name :: string
  sc_Version :: string
  sc_SchemaURL :: string

record log_record =
  lr_Timestamp :: instant
  lr_ObservedTimestamp :: instant
  lr_Severity :: severity
  lr_SeverityText :: string
  lr_Body :: log_value
  lr_Attributes :: "(string \<times> log_value) list"
  lr_TraceID :: "u8 list"
  lr_SpanID :: "u8 list"
  lr_TraceFlags :: u8
  lr_Resource :: "(string \<times> attr_value) list"
  lr_Scope :: log_scope
  lr_Dropped :: nat

section \<open>Options of the codecs\<close>

record codec_options =
  co_TimeStamp :: string
  co_PrettyPrint :: string
  co_NoColor :: bool

definition default_TimeStamp :: string where
  "default_TimeStamp = ''2006-01-02T15:04:05.999Z07:00''"

datatype codec_option = CodecNoColor | CodecTimestamps string | CodecPrettyPrint string

fun codec_apply :: "codec_option \<Rightarrow> codec_options \<Rightarrow> codec_options" where
  "codec_apply CodecNoColor conf = conf\<lparr>co_NoColor := True\<rparr>"
| "codec_apply (CodecTimestamps layout) conf = conf\<lparr>co_TimeStamp := layout\<rparr>"
| "codec_apply (CodecPrettyPrint indent) conf = (if list_all is_space indent then conf\<lparr>co_PrettyPrint := indent\<rparr> else conf)"

definition codec_WithoutTimestamps :: codec_option where
  "codec_WithoutTimestamps = CodecTimestamps []"

definition codec_NewOptions :: "codec_option list \<Rightarrow> codec_options" where
  "codec_NewOptions opts = fold codec_apply opts \<lparr>co_TimeStamp = default_TimeStamp, co_PrettyPrint = [], co_NoColor = False\<rparr>"

text \<open>\<^verbatim>\<open>Unix()\<close> of an instant, which counts nanoseconds from the zero time.\<close>

definition unix_seconds :: "instant \<Rightarrow> int" where
  "unix_seconds t = (t - 62135596800 * 10 ^ 9) div 10 ^ 9"

definition codec_timeStamp :: "codec_options option \<Rightarrow> string" where
  "codec_timeStamp conf = (case conf of Some c \<Rightarrow> co_TimeStamp c | None \<Rightarrow> default_TimeStamp)"

text \<open>A timestamp that is printed, with its layout.\<close>

definition codec_Timestamp :: "codec_options option \<Rightarrow> instant \<Rightarrow> (instant \<times> string) option" where
  "codec_Timestamp conf date =
     (if time_is_zero date \<or> unix_seconds date < 1 then None
      else (let layout = codec_timeStamp conf in if layout = [] then None else Some (date, layout)))"

definition timestamp_MarshalText :: "(instant \<Rightarrow> string \<Rightarrow> string) \<Rightarrow> instant \<times> string \<Rightarrow> string" where
  "timestamp_MarshalText fmt_time ts = (case ts of (t, f) \<Rightarrow> fmt_time t (if f \<noteq> [] then f else default_TimeStamp))"

subsection \<open>The registry\<close>

text \<open>\<open>quote\<close> prints with the verb \<^verbatim>\<open>%q\<close>.\<close>

definition codec_Register :: "(string \<Rightarrow> string) \<Rightarrow> string \<Rightarrow> 'b option \<Rightarrow> (string \<rightharpoonup> 'b) \<Rightarrow> (string \<rightharpoonup> 'b) or_panic" where
  "codec_Register quote input build reg =
     (let codec = to_lower (trim_space input)
      in if codec \<noteq> input then Inl (Panic (''otel/log/stdout/codec.Register( name: '' @ quote codec @ '' ); invalid''))
         else if codec = [] then Inl (Panic ''otel/log/stdout/codec.Register( name: ? ); required'')
         else
           (case build of
              None \<Rightarrow> Inl (Panic (''otel/log/stdout/codec.Register( name: '' @ quote codec @ '' ); not implemented''))
            | Some b \<Rightarrow>
                if reg codec \<noteq> None then Inl (Panic (''otel/log/stdout/codec.Register( name: '' @ quote codec @ '' ); duplicate''))
                else Inr (reg(codec \<mapsto> b))))"

definition codec_NewCodec :: "(string \<Rightarrow> string) \<Rightarrow> (string \<rightharpoonup> 'b) \<Rightarrow> string \<Rightarrow> 'b or_panic" where
  "codec_NewCodec quote reg name =
     (case reg (to_lower name) of
        Some b \<Rightarrow> Inr b
      | None \<Rightarrow> Inl (Panic (''otel/log/stdout.Codec( name: '' @ quote (to_lower name) @ '' ); not registered'')))"

section \<open>The text codec\<close>

definition ansi :: "string \<Rightarrow> string" where
  "ansi code = char_of (27 :: nat) # ''['' @ code @ ''m''"

definition ansiReset :: string where "ansiReset = ansi ''0''"
definition ansiFaint :: string where "ansiFaint = ansi ''2''"
definition ansiBrightRed :: string where "ansiBrightRed = ansi ''91''"
definition ansiBrightGreen :: string where "ansiBrightGreen = ansi ''92''"
definition ansiBrightYellow :: string where "ansiBrightYellow = ansi ''93''"

text \<open>A buffer is its text; writes append.\<close>

definition WriteStringIf :: "bool \<Rightarrow> string \<Rightarrow> string \<Rightarrow> string" where
  "WriteStringIf ok str buf = (if ok then buf @ str else buf)"

definition hex_digit :: "nat \<Rightarrow> char" where
  "hex_digit d = (if d < 10 then char_of (48 + d) else char_of (87 + d))"

text \<open>The verb \<^verbatim>\<open>%x\<close> on bytes.\<close>

definition hex_bytes :: "u8 list \<Rightarrow> string" where
  "hex_bytes bs = concat (map (\<lambda>b. [hex_digit (unat b div 16), hex_digit (unat b mod 16)]) bs)"

fun fmt_bool :: "bool \<Rightarrow> string" where
  "fmt_bool True = ''true''"
| "fmt_bool False = ''false''"

text \<open>\<open>fmt_f\<close> is the verb \<^verbatim>\<open>%f\<close>. What \<^verbatim>\<open>printValue\<close> writes; a comma before each item of a slice but the first.\<close>

fun join_comma :: "string list \<Rightarrow> string" where
  "join_comma [] = []"
| "join_comma (s # ss) = s @ concat (map (\<lambda>t. CHR '','' # t) ss)"

fun printValue :: "(u64 \<Rightarrow> string) \<Rightarrow> log_value \<Rightarrow> string" where
  "printValue fmt_f (VBool b) = fmt_bool b"
| "printValue fmt_f (VFloat64 f) = fmt_f f"
| "printValue fmt_f (VInt64 i) = fmt_int i"
| "printValue fmt_f (VString s) = s"
| "printValue fmt_f (VBytes bs) = hex_bytes bs"
| "printValue fmt_f (VSlice vs) = ''['' @ join_comma (map (printValue fmt_f) vs) @ '']''"
| "printValue fmt_f VEmpty = AsString VEmpty"
| "printValue fmt_f (VMap kvs) = AsString (VMap kvs)"

text \<open>\<^verbatim>\<open>printAttr\<close>: a group is printed member by member, its name before theirs.\<close>

fun printAttr :: "(u64 \<Rightarrow> string) \<Rightarrow> bool \<Rightarrow> string \<times> log_value \<Rightarrow> string" where
  "printAttr fmt_f noColor (key, VMap kvs) = concat (map (\<lambda>(k, v). printAttr fmt_f noColor (key @ ''.'' @ k, v)) kvs)"
| "printAttr fmt_f noColor (key, v) =
     WriteStringIf (\<not> noColor) ansiReset (WriteStringIf (\<not> noColor) ansiFaint [] @ '' ; '' @ key @ ''='') @ printValue fmt_f v"

definition appendLevelDelta :: "int \<Rightarrow> string" where
  "appendLevelDelta delta = (if delta = 0 then [] else if delta > 0 then CHR ''+'' # fmt_int delta else fmt_int delta)"

definition text_level :: "bool \<Rightarrow> severity \<Rightarrow> string" where
  "text_level noColor levelVerb =
     (let show_level = (\<lambda>color name base.
            WriteStringIf (\<not> noColor) ansiReset
              (WriteStringIf (\<not> noColor) color [] @ name @ appendLevelDelta (int64 (levelVerb - base))))
      in if levelVerb < INFO then show_level ansiBrightYellow ''DEBUG'' DEBUG
         else if levelVerb < WARN then show_level ansiBrightGreen ''INFO'' INFO
         else if levelVerb < ERROR then show_level ansiBrightRed ''WARN'' WARN
         else if levelVerb < FATAL then show_level ansiBrightRed ''ERROR'' ERROR
         else show_level ansiBrightRed ''FATAL'' FATAL)"

definition text_date :: "(instant \<Rightarrow> string \<Rightarrow> string) \<Rightarrow> codec_options \<Rightarrow> log_record \<Rightarrow> string" where
  "text_date fmt_time opts rec =
     (case codec_Timestamp (Some opts) (lr_Timestamp rec) of
        None \<Rightarrow> []
      | Some (t, layout) \<Rightarrow>
          WriteStringIf (\<not> co_NoColor opts) ansiReset (WriteStringIf (\<not> co_NoColor opts) ansiFaint [] @ fmt_time t layout) @ '' '')"

text \<open>The line that \<^verbatim>\<open>Encode\<close> writes.\<close>

definition text_Encode :: "(instant \<Rightarrow> string \<Rightarrow> string) \<Rightarrow> (u64 \<Rightarrow> string) \<Rightarrow> codec_options \<Rightarrow> log_record \<Rightarrow> string" where
  "text_Encode fmt_time fmt_f opts rec =
     text_date fmt_time opts rec @ text_level (co_NoColor opts) (lr_Severity rec) @ '' '' @ printValue fmt_f (lr_Body rec) @
     concat (map (printAttr fmt_f (co_NoColor opts)) (lr_Attributes rec)) @ [char_of (10 :: nat)]"

text \<open>\<open>terminal\<close>: the output is a file and a terminal.\<close>

definition text_NewCodec :: "bool \<Rightarrow> codec_option list \<Rightarrow> codec_options" where
  "text_NewCodec terminal opts =
     (let conf = codec_NewOptions opts in if \<not> co_NoColor conf then conf\<lparr>co_NoColor := \<not> terminal\<rparr> else conf)"

section \<open>The JSON codecs\<close>

datatype json =
    JNull
  | JBool bool
  | JInt int
  | JFloat u64
  | JString string
  | JArray "json list"
  | JObject "(string \<times> json) list"

text \<open>\<^verbatim>\<open>json.Marshal\<close> refuses infinities and not-a-numbers: all exponent bits set.\<close>

definition finite_float :: "u64 \<Rightarrow> bool" where
  "finite_float f \<longleftrightarrow> drop_bit 52 (take_bit 63 f) \<noteq> 2047"

definition json_float :: "u64 \<Rightarrow> json option" where
  "json_float f = (if finite_float f then Some (JFloat f) else None)"

text \<open>All members or none.\<close>

fun all_some :: "'a option list \<Rightarrow> 'a list option" where
  "all_some [] = Some []"
| "all_some (x # xs) = (case (x, all_some xs) of (Some y, Some ys) \<Rightarrow> Some (y # ys) | _ \<Rightarrow> None)"

text \<open>A Go map built from pairs keeps the last value of a key.\<close>

fun last_pairs :: "(string \<times> 'a) list \<Rightarrow> (string \<times> 'a) list" where
  "last_pairs [] = []"
| "last_pairs ((k, v) # kvs) = (if k \<in> set (map fst kvs) then last_pairs kvs else (k, v) # last_pairs kvs)"

definition json_pair :: "string \<times> json option \<Rightarrow> (string \<times> json) option" where
  "json_pair p = (case p of (k, v) \<Rightarrow> map_option (\<lambda>j. (k, j)) v)"

text \<open>\<^verbatim>\<open>logValue.MarshalJSON\<close>; \<open>b64\<close> is base64.\<close>

fun logValue_json :: "(u8 list \<Rightarrow> string) \<Rightarrow> log_value \<Rightarrow> json option" where
  "logValue_json b64 (VString s) = Some (JString s)"
| "logValue_json b64 (VInt64 i) = Some (JInt i)"
| "logValue_json b64 (VFloat64 f) = json_float f"
| "logValue_json b64 (VBool b) = Some (JBool b)"
| "logValue_json b64 (VBytes bs) = Some (JString (b64 bs))"
| "logValue_json b64 (VMap kvs) =
     map_option JObject (all_some (map json_pair (last_pairs (map (\<lambda>(k, v). (k, logValue_json b64 v)) kvs))))"
| "logValue_json b64 (VSlice vs) = map_option JArray (all_some (map (logValue_json b64) vs))"
| "logValue_json b64 VEmpty = Some JNull"

fun attValue_json :: "attr_value \<Rightarrow> json option" where
  "attValue_json AInvalid = Some JNull"
| "attValue_json (ABool b) = Some (JBool b)"
| "attValue_json (AInt64 i) = Some (JInt i)"
| "attValue_json (AFloat64 f) = json_float f"
| "attValue_json (AString s) = Some (JString s)"
| "attValue_json (ABoolSlice bs) = Some (JArray (map JBool bs))"
| "attValue_json (AInt64Slice xs) = Some (JArray (map JInt xs))"
| "attValue_json (AFloat64Slice fs) = map_option JArray (all_some (map json_float fs))"
| "attValue_json (AStringSlice ss) = Some (JArray (map JString ss))"

text \<open>\<^verbatim>\<open>MarshalJSON\<close> methods that return no bytes make \<^verbatim>\<open>encoding/json\<close> fail: \<open>None\<close>.\<close>

definition resource_json :: "(string \<times> attr_value) list \<Rightarrow> json option" where
  "resource_json attr =
     (if attr = [] then None
      else map_option JObject (all_some (map json_pair (last_pairs (map (\<lambda>(k, v). (k, attValue_json v)) attr)))))"

definition omit_empty :: "string \<Rightarrow> string \<Rightarrow> (string \<times> json) list" where
  "omit_empty name s = (if s = [] then [] else [(name, JString s)])"

definition scope_json :: "log_scope \<Rightarrow> json option" where
  "scope_json e =
     (if sc_Name e = [] \<and> sc_Version e = [] \<and> sc_SchemaURL e = [] then None
      else Some (JObject (omit_empty ''name'' (sc_Name e) @ omit_empty ''version'' (sc_Version e) @
        omit_empty ''schema_url'' (sc_SchemaURL e))))"

definition traceIdValue :: "u8 list \<Rightarrow> u8 list option" where
  "traceIdValue v = (if list_all (\<lambda>b. b = 0) v then None else Some v)"

definition traceFlagsValue :: "u8 \<Rightarrow> u8 option" where
  "traceFlagsValue v = (if v = 0 then None else Some v)"

definition spanIdValue :: "u8 list \<Rightarrow> u8 list option" where
  "spanIdValue v = (if list_all (\<lambda>b. b = 0) v then None else Some v)"

text \<open>The fields of a record in the order of the struct, those left out by \<^verbatim>\<open>omitempty\<close> absent; \<open>fmt_time\<close> as before.\<close>

definition json_fields ::
    "(instant \<Rightarrow> string \<Rightarrow> string) \<Rightarrow> (u8 list \<Rightarrow> string) \<Rightarrow> codec_options \<Rightarrow> log_record \<Rightarrow> (string \<times> json option) list" where
  "json_fields fmt_time b64 opts src =
     (let level = (if lr_SeverityText src = [] then severity_String (lr_Severity src) else lr_SeverityText src)
      in (case codec_Timestamp (Some opts) (lr_Timestamp src) of
            None \<Rightarrow> [] | Some ts \<Rightarrow> [(''date'', Some (JString (timestamp_MarshalText fmt_time ts)))]) @
         [(''level'', Some (JString level)), (''message'', logValue_json b64 (lr_Body src))] @
         (case traceIdValue (lr_TraceID src) of None \<Rightarrow> [] | Some v \<Rightarrow> [(''trace_id'', Some (JString (hex_bytes v)))]) @
         (case traceFlagsValue (lr_TraceFlags src) of None \<Rightarrow> [] | Some v \<Rightarrow> [(''trace_flags'', Some (JString (hex_bytes [v])))]) @
         (case spanIdValue (lr_SpanID src) of None \<Rightarrow> [] | Some v \<Rightarrow> [(''span_id'', Some (JString (hex_bytes v)))]) @
         [(''scope'', scope_json (lr_Scope src)), (''resource'', resource_json (lr_Resource src))] @
         (if lr_Attributes src = [] then [] else [(''attributes'', logValue_json b64 (VMap (lr_Attributes src)))]) @
         (if lr_Dropped src = 0 then [] else [(''dropped_attrs'', Some (JInt (int (lr_Dropped src))))]))"

definition json_Encode ::
    "(instant \<Rightarrow> string \<Rightarrow> string) \<Rightarrow> (u8 list \<Rightarrow> string) \<Rightarrow> codec_options \<Rightarrow> log_record \<Rightarrow> json option" where
  "json_Encode fmt_time b64 opts src = map_option JObject (all_some (map json_pair (json_fields fmt_time b64 opts src)))"

subsection \<open>The format of the OpenTelemetry exporter\<close>

text \<open>Every value with its kind; groups as lists of key and value, so that order and duplicates are kept.\<close>

definition kind_value :: "log_value \<Rightarrow> json option \<Rightarrow> json option" where
  "kind_value v j = map_option (\<lambda>x. JObject [(''Type'', JString (kind_String v)), (''Value'', x)]) j"

fun otel_value :: "(u8 list \<Rightarrow> string) \<Rightarrow> log_value \<Rightarrow> json option" where
  "otel_value b64 (VString s) = kind_value (VString s) (Some (JString s))"
| "otel_value b64 (VInt64 i) = kind_value (VInt64 i) (Some (JInt i))"
| "otel_value b64 (VFloat64 f) = kind_value (VFloat64 f) (json_float f)"
| "otel_value b64 (VBool b) = kind_value (VBool b) (Some (JBool b))"
| "otel_value b64 (VBytes bs) = kind_value (VBytes bs) (Some (JString (b64 bs)))"
| "otel_value b64 (VMap kvs) =
     kind_value (VMap kvs) (map_option JArray (all_some
       (map (\<lambda>(k, v). map_option (\<lambda>j. JObject [(''Key'', JString k), (''Value'', j)]) (otel_value b64 v)) kvs)))"
| "otel_value b64 (VSlice vs) = kind_value (VSlice vs) (map_option JArray (all_some (map (otel_value b64) vs)))"
| "otel_value b64 VEmpty = kind_value VEmpty (Some JNull)"

definition otel_keyValue :: "(u8 list \<Rightarrow> string) \<Rightarrow> string \<times> log_value \<Rightarrow> json option" where
  "otel_keyValue b64 p = (case p of (k, v) \<Rightarrow> map_option (\<lambda>j. JObject [(''Key'', JString k), (''Value'', j)]) (otel_value b64 v))"

text \<open>\<open>res\<close> is the JSON of the resource, which its own library writes.\<close>

definition otel_fields ::
    "(instant \<Rightarrow> string \<Rightarrow> string) \<Rightarrow> (u8 list \<Rightarrow> string) \<Rightarrow> codec_options \<Rightarrow> ((string \<times> attr_value) list \<Rightarrow> json option) \<Rightarrow>
       log_record \<Rightarrow> (string \<times> json option) list" where
  "otel_fields fmt_time b64 opts res src =
     (case codec_Timestamp (Some opts) (lr_Timestamp src) of
        None \<Rightarrow> [] | Some ts \<Rightarrow> [(''Timestamp'', Some (JString (timestamp_MarshalText fmt_time ts)))]) @
     (case codec_Timestamp (Some opts) (lr_ObservedTimestamp src) of
        None \<Rightarrow> [] | Some ts \<Rightarrow> [(''ObservedTimestamp'', Some (JString (timestamp_MarshalText fmt_time ts)))]) @
     [(''Severity'', Some (JInt (lr_Severity src))), (''SeverityText'', Some (JString (lr_SeverityText src))),
      (''Body'', otel_value b64 (lr_Body src)),
      (''Attributes'', map_option JArray (all_some (map (otel_keyValue b64) (lr_Attributes src)))),
      (''TraceID'', Some (JString (hex_bytes (lr_TraceID src)))), (''SpanID'', Some (JString (hex_bytes (lr_SpanID src)))),
      (''TraceFlags'', Some (JString (hex_bytes [lr_TraceFlags src]))), (''Resource'', res (lr_Resource src)),
      (''Scope'', Some (JObject [(''Name'', JString (sc_Name (lr_Scope src))), (''Version'', JString (sc_Version (lr_Scope src))),
        (''SchemaURL'', JString (sc_SchemaURL (lr_Scope src)))])),
      (''DroppedAttributes'', Some (JInt (int (lr_Dropped src))))]"

definition otel_Encode ::
    "(instant \<Rightarrow> string \<Rightarrow> string) \<Rightarrow> (u8 list \<Rightarrow> string) \<Rightarrow> codec_options \<Rightarrow> ((string \<times> attr_value) list \<Rightarrow> json option) \<Rightarrow>
       log_record \<Rightarrow> json option" where
  "otel_Encode fmt_time b64 opts res src = map_option JObject (all_some (map json_pair (otel_fields fmt_time b64 opts res src)))"

section \<open>What the codecs write\<close>

lemma all_some_eq_Some: "all_some (map f xs) = Some ys \<longleftrightarrow> list_all2 (\<lambda>x y. f x = Some y) xs ys"
proof (induction xs arbitrary: ys)
  case (Cons x xs)
  show ?case
  proof (cases ys)
    case Nil
    then show ?thesis by (simp split: option.splits)
  next
    case (Cons y zs)
    then show ?thesis using Cons.IH [of zs] by (auto split: option.splits)
  qed
qed auto

lemma all_some_None: "None \<in> set xs \<Longrightarrow> all_some xs = None"
  by (induction xs) (auto split: option.splits)

lemma list_all2_inj:
  assumes "list_all2 P xs zs" and "list_all2 P ys zs" and "\<And>x y z. x \<in> set xs \<Longrightarrow> P x z \<Longrightarrow> P y z \<Longrightarrow> x = y"
  shows "xs = ys"
proof (rule nth_equalityI)
  show "length xs = length ys" using assms(1,2) by (simp add: list_all2_lengthD)
  show "xs ! i = ys ! i" if "i < length xs" for i
    using that assms(1,2) by (intro assms(3) [of _ "zs ! i"]) (auto simp: list_all2_conv_all_nth)
qed

lemma kind_value_Some [simp]:
  "kind_value v j = Some x \<longleftrightarrow> (\<exists>y. j = Some y \<and> x = JObject [(''Type'', JString (kind_String v)), (''Value'', y)])"
  by (auto simp: kind_value_def)

lemma otel_value_kind: "otel_value b64 v = Some j \<Longrightarrow> \<exists>x. j = JObject [(''Type'', JString (kind_String v)), (''Value'', x)]"
  by (cases v) auto

lemma otel_value_Map:
  "otel_value b64 (VMap kvs) = Some j \<longleftrightarrow>
   (\<exists>js. list_all2 (\<lambda>p y. otel_keyValue b64 p = Some y) kvs js \<and> j = JObject [(''Type'', JString ''Map''), (''Value'', JArray js)])"
proof -
  have "(\<lambda>(k, v). map_option (\<lambda>j. JObject [(''Key'', JString k), (''Value'', j)]) (otel_value b64 v)) = otel_keyValue b64"
    by (rule ext) (simp add: otel_keyValue_def)
  then show ?thesis by (auto simp: all_some_eq_Some)
qed

lemma otel_value_Slice:
  "otel_value b64 (VSlice vs) = Some j \<longleftrightarrow>
   (\<exists>js. list_all2 (\<lambda>v y. otel_value b64 v = Some y) vs js \<and> j = JObject [(''Type'', JString ''Slice''), (''Value'', JArray js)])"
  by (auto simp: all_some_eq_Some)



lemma json_field_None: "(k, None) \<in> set (json_fields fmt_time b64 opts src) \<Longrightarrow> json_Encode fmt_time b64 opts src = None"
proof -
  assume "(k, None) \<in> set (json_fields fmt_time b64 opts src)"
  then have "None \<in> set (map json_pair (json_fields fmt_time b64 opts src))"
    by (force simp: json_pair_def)
  then show ?thesis by (simp add: json_Encode_def all_some_None)
qed

text \<open>
  The JSON codec refuses every record whose resource has no attributes, and every record whose scope has neither name nor version nor schema: the methods
  that should leave such a member out return no bytes, which \<^verbatim>\<open>encoding/json\<close> takes for an error, and the record is not written.
\<close>

theorem json_Encode_refuses_empty:
  "json_Encode fmt_time b64 opts (src\<lparr>lr_Resource := []\<rparr>) = None \<and>
   json_Encode fmt_time b64 opts (src\<lparr>lr_Scope := \<lparr>sc_Name = [], sc_Version = [], sc_SchemaURL = []\<rparr>\<rparr>) = None"
proof -
  have "(''resource'', None) \<in> set (json_fields fmt_time b64 opts (src\<lparr>lr_Resource := []\<rparr>))"
    by (simp add: json_fields_def Let_def resource_json_def)
  moreover have "(''scope'', None) \<in> set (json_fields fmt_time b64 opts (src\<lparr>lr_Scope := \<lparr>sc_Name = [], sc_Version = [], sc_SchemaURL = []\<rparr>\<rparr>))"
    by (simp add: json_fields_def Let_def scope_json_def)
  ultimately show ?thesis by (blast intro: json_field_None)
qed

subsection \<open>Lines of text\<close>

text \<open>The scalars of an attribute with their full names.\<close>

fun flatten :: "string \<times> log_value \<Rightarrow> (string \<times> log_value) list" where
  "flatten (key, VMap kvs) = concat (map (\<lambda>(k, v). flatten (key @ ''.'' @ k, v)) kvs)"
| "flatten (key, v) = [(key, v)]"

definition printScalar :: "(u64 \<Rightarrow> string) \<Rightarrow> bool \<Rightarrow> string \<times> log_value \<Rightarrow> string" where
  "printScalar fmt_f noColor p =
     WriteStringIf (\<not> noColor) ansiReset (WriteStringIf (\<not> noColor) ansiFaint [] @ '' ; '' @ fst p @ ''='') @ printValue fmt_f (snd p)"

lemma printAttr_flatten: "printAttr fmt_f noColor p = concat (map (printScalar fmt_f noColor) (flatten p))"
proof (induction p rule: flatten.induct)
  case (1 key kvs)
  have "concat (map (\<lambda>(k, v). printAttr fmt_f noColor (key @ ''.'' @ k, v)) kvs) =
    concat (map (\<lambda>(k, v). concat (map (printScalar fmt_f noColor) (flatten (key @ ''.'' @ k, v)))) kvs)"
    using 1 by (intro arg_cong [where f = concat] map_cong) auto
  also have "\<dots> = concat (map (printScalar fmt_f noColor) (concat (map (\<lambda>(k, v). flatten (key @ ''.'' @ k, v)) kvs)))"
    by (induction kvs) auto
  finally show ?case by simp
qed (simp_all add: printScalar_def)

text \<open>No newline in the texts of a value that are printed, nor in the names and values of attributes.\<close>

definition plain :: "string \<Rightarrow> bool" where
  "plain s \<longleftrightarrow> char_of (10 :: nat) \<notin> set s"

fun plain_value :: "log_value \<Rightarrow> bool" where
  "plain_value (VString s) = plain s"
| "plain_value (VSlice vs) = list_all plain_value vs"
| "plain_value _ = True"

lemma plain_append [simp]: "plain (s @ t) \<longleftrightarrow> plain s \<and> plain t"
  by (auto simp: plain_def)

lemma plain_concat [simp]: "plain (concat ss) \<longleftrightarrow> list_all plain ss"
  by (induction ss) (simp_all, simp add: plain_def)

lemma plain_Cons [simp]: "plain (c # s) \<longleftrightarrow> c \<noteq> char_of (10 :: nat) \<and> plain s"
  by (auto simp: plain_def)

lemma plain_Nil [simp]: "plain []"
  by (simp add: plain_def)

lemma plain_digits: "list_all is_digit s \<Longrightarrow> plain s"
  by (auto simp: plain_def list_all_iff is_digit_def of_char_of dest: bspec)

lemma plain_fmt_nat [simp]: "plain (fmt_nat n)"
  using fmt_nat_all_digits [of n] by (simp add: all_digits_def plain_digits)

lemma newline_code: "char_of (10 :: nat) = CHR 0x0A"
  by code_simp

lemma plain_fmt_int [simp]: "plain (fmt_int i)"
  by (simp add: fmt_int_def newline_code)

lemma plain_hex [simp]: "plain (hex_bytes bs)"
proof -
  have "hex_digit d \<noteq> char_of (10 :: nat)" if "d < 16" for d
  proof
    assume "hex_digit d = char_of (10 :: nat)"
    then have "(of_char (hex_digit d) :: nat) = 10" by (simp add: of_char_of)
    with that show False by (auto simp: hex_digit_def of_char_of split: if_splits)
  qed
  moreover have "unat b div 16 < 16" for b :: u8 using unsigned_less [where ?'a = nat, of b] by (simp add: less_mult_imp_div_less)
  ultimately show ?thesis by (induction bs) (simp_all add: hex_bytes_def)
qed

lemma plain_fmt_bool [simp]: "plain (fmt_bool b)"
  by (cases b) (simp_all add: newline_code)

lemma plain_join: "list_all plain ss \<Longrightarrow> plain (join_comma ss)"
  by (cases ss) (auto simp: list_all_iff newline_code)

lemma plain_printValue:
  assumes "\<And>f. plain (fmt_f f)"
  shows "plain_value v \<Longrightarrow> plain (printValue fmt_f v)"
proof (induction v)
  case (VSlice vs)
  then have "list_all plain (map (printValue fmt_f) vs)" by (auto simp: list_all_iff)
  then show ?case by (simp add: plain_join newline_code)
qed (simp_all add: assms)

lemma plain_ansi [simp]:
  "plain ansiReset" "plain ansiFaint" "plain ansiBrightRed" "plain ansiBrightGreen" "plain ansiBrightYellow"
  by (simp_all add: ansiReset_def ansiFaint_def ansiBrightRed_def ansiBrightGreen_def ansiBrightYellow_def ansi_def plain_def) code_simp+

lemma plain_WriteStringIf [simp]: "plain (WriteStringIf b s t) \<longleftrightarrow> plain t \<and> (b \<longrightarrow> plain s)"
  by (auto simp: WriteStringIf_def)

lemma plain_text_level: "plain (text_level noColor v)"
  by (simp add: text_level_def Let_def appendLevelDelta_def newline_code)

text \<open>
  A record whose texts hold no newline is written as exactly one line, whatever its values, groups and colours; nothing else that the codec
  writes is a newline.
\<close>

theorem text_Encode_one_line:
  assumes "\<And>t l. plain (fmt_time t l)" and "\<And>f. plain (fmt_f f)" and "plain_value (lr_Body rec)"
    and "list_all (\<lambda>p. plain (fst p) \<and> plain_value (snd p)) (concat (map flatten (lr_Attributes rec)))"
  shows "\<exists>line. text_Encode fmt_time fmt_f opts rec = line @ [char_of (10 :: nat)] \<and> char_of (10 :: nat) \<notin> set line"
proof -
  have attr: "plain (printAttr fmt_f c p)" if "p \<in> set (lr_Attributes rec)" for c p
    using that assms(4) plain_printValue [of fmt_f, OF assms(2)]
    by (auto simp: printAttr_flatten printScalar_def list_all_iff newline_code)
  have "plain (text_date fmt_time opts rec)"
    using assms(1) by (simp add: text_date_def newline_code split: option.split)
  then have "plain (text_date fmt_time opts rec @ text_level (co_NoColor opts) (lr_Severity rec) @ '' '' @ printValue fmt_f (lr_Body rec) @
     concat (map (printAttr fmt_f (co_NoColor opts)) (lr_Attributes rec)))"
    using attr plain_printValue [of fmt_f, OF assms(2,3)] by (simp add: plain_text_level list_all_iff newline_code)
  then show ?thesis unfolding text_Encode_def by (auto simp: plain_def)
qed

theorem text_Encode_one_line_witness:
  "let rec = \<lparr>lr_Timestamp = 0, lr_ObservedTimestamp = 0, lr_Severity = 9, lr_SeverityText = [], lr_Body = VString ''done'',
         lr_Attributes = [(''a'', VMap [(''b'', VSlice [VInt64 1, VBool True])])], lr_TraceID = [], lr_SpanID = [], lr_TraceFlags = 0,
         lr_Resource = [], lr_Scope = \<lparr>sc_Name = [], sc_Version = [], sc_SchemaURL = []\<rparr>, lr_Dropped = 0\<rparr>
   in \<exists>line. text_Encode (\<lambda>t l. ''now'') (\<lambda>f. ''0.5'') (codec_NewOptions []) rec = line @ [char_of (10 :: nat)] \<and>
        char_of (10 :: nat) \<notin> set line"
  unfolding Let_def
  by (rule text_Encode_one_line) (simp_all add: plain_def newline_code)

section \<open>The exporter\<close>

record stdout_config =
  xc_Output :: string
  xc_NoColor :: bool
  xc_Codec :: "string option"
  xc_PrettyPrint :: bool
  xc_Timestamps :: bool

text \<open>Outputs and codecs are named.\<close>

datatype stdout_option =
  OutWriter string | OutNoColor | OutPrettyPrint | OutWithoutTimestamps | OutCodec "string option"

fun stdout_apply :: "stdout_option \<Rightarrow> stdout_config \<Rightarrow> stdout_config" where
  "stdout_apply (OutWriter w) cfg = cfg\<lparr>xc_Output := w\<rparr>"
| "stdout_apply OutNoColor cfg = cfg\<lparr>xc_NoColor := True\<rparr>"
| "stdout_apply OutPrettyPrint cfg = cfg\<lparr>xc_PrettyPrint := True\<rparr>"
| "stdout_apply OutWithoutTimestamps cfg = cfg\<lparr>xc_Timestamps := False\<rparr>"
| "stdout_apply (OutCodec c) cfg = cfg\<lparr>xc_Codec := c\<rparr>"

definition stdout_newConfig :: "stdout_option list \<Rightarrow> stdout_config" where
  "stdout_newConfig options =
     fold stdout_apply options \<lparr>xc_Output = ''stdout'', xc_NoColor = False, xc_Codec = None, xc_PrettyPrint = False, xc_Timestamps = True\<rparr>"

record exporter =
  ep_encoder :: "string option"
  ep_timestamps :: bool

definition exporter_New :: "stdout_option list \<Rightarrow> exporter" where
  "exporter_New options =
     (let cfg = stdout_newConfig options
      in \<lparr>ep_encoder = Some (case xc_Codec cfg of Some c \<Rightarrow> c | None \<Rightarrow> ''otel''), ep_timestamps = xc_Timestamps cfg\<rparr>)"

text \<open>
  \<^verbatim>\<open>Export\<close>: \<open>ctx_err\<close> is the error of the context before each record, \<open>encode\<close> writes a record with a codec or fails. The result is the error with
  what was written.
\<close>

fun export_records :: "(nat \<Rightarrow> string option) \<Rightarrow> ('r \<Rightarrow> string + 'o) \<Rightarrow> nat \<Rightarrow> 'r list \<Rightarrow> string option \<times> 'o list" where
  "export_records ctx_err encode i [] = (None, [])"
| "export_records ctx_err encode i (r # rs) =
     (case ctx_err i of
        Some e \<Rightarrow> (Some e, [])
      | None \<Rightarrow>
          (case encode r of
             Inl e \<Rightarrow> (Some e, [])
           | Inr x \<Rightarrow> (case export_records ctx_err encode (Suc i) rs of (err, out) \<Rightarrow> (err, x # out))))"

definition Export :: "(nat \<Rightarrow> string option) \<Rightarrow> (string \<Rightarrow> 'r \<Rightarrow> string + 'o) \<Rightarrow> exporter \<Rightarrow> 'r list \<Rightarrow> string option \<times> 'o list" where
  "Export ctx_err encode e records =
     (case ep_encoder e of None \<Rightarrow> (None, []) | Some enc \<Rightarrow> export_records ctx_err (encode enc) 0 records)"

definition exporter_Shutdown :: "exporter \<Rightarrow> exporter" where
  "exporter_Shutdown e = e\<lparr>ep_encoder := None\<rparr>"

definition exporter_ForceFlush :: "exporter \<Rightarrow> string option" where
  "exporter_ForceFlush e = None"

text \<open>The records of a batch are written in order up to the first that fails; after \<^verbatim>\<open>Shutdown\<close> none is.\<close>

lemma export_records_prefix:
  "case export_records ctx_err encode i rs of
     (None, out) \<Rightarrow> map encode rs = map Inr out
   | (Some e, out) \<Rightarrow> length out < length rs \<and> map encode (take (length out) rs) = map Inr out"
proof (induction rs arbitrary: i)
  case (Cons r rs)
  show ?case using Cons.IH [of "Suc i"] by (auto split: option.splits sum.splits prod.splits)
qed simp

lemma Export_after_Shutdown: "Export ctx_err encode (exporter_Shutdown e) records = (None, [])"
  by (simp add: Export_def exporter_Shutdown_def)

text \<open>The exporter has a \<^verbatim>\<open>value\<close> and a \<^verbatim>\<open>keyValue\<close> of its own, with the same members.\<close>

definition record_value :: "(u8 list \<Rightarrow> string) \<Rightarrow> log_value \<Rightarrow> json option" where
  "record_value b64 v = otel_value b64 v"

definition record_keyValue :: "(u8 list \<Rightarrow> string) \<Rightarrow> string \<times> log_value \<Rightarrow> json option" where
  "record_keyValue b64 p = (case p of (k, v) \<Rightarrow> map_option (\<lambda>j. JObject [(''Key'', JString k), (''Value'', j)]) (record_value b64 v))"

text \<open>\<^verbatim>\<open>newRecordJSON\<close>, the record of the exporter itself: as the one of the OpenTelemetry codec, with every timestamp when timestamps are on.\<close>

definition newRecordJSON ::
    "(instant \<Rightarrow> string) \<Rightarrow> (u8 list \<Rightarrow> string) \<Rightarrow> ((string \<times> attr_value) list \<Rightarrow> json option) \<Rightarrow> exporter \<Rightarrow> log_record \<Rightarrow>
       (string \<times> json option) list" where
  "newRecordJSON rfc3339 b64 res e r =
     (if ep_timestamps e then
        [(''Timestamp'', Some (JString (rfc3339 (lr_Timestamp r)))), (''ObservedTimestamp'', Some (JString (rfc3339 (lr_ObservedTimestamp r))))]
      else []) @
     [(''Severity'', Some (JInt (lr_Severity r))), (''SeverityText'', Some (JString (lr_SeverityText r))),
      (''Body'', record_value b64 (lr_Body r)),
      (''Attributes'', map_option JArray (all_some (map (record_keyValue b64) (lr_Attributes r)))),
      (''TraceID'', Some (JString (hex_bytes (lr_TraceID r)))), (''SpanID'', Some (JString (hex_bytes (lr_SpanID r)))),
      (''TraceFlags'', Some (JString (hex_bytes [lr_TraceFlags r]))), (''Resource'', res (lr_Resource r)),
      (''Scope'', Some (JObject [(''Name'', JString (sc_Name (lr_Scope r))), (''Version'', JString (sc_Version (lr_Scope r))),
        (''SchemaURL'', JString (sc_SchemaURL (lr_Scope r)))])),
      (''DroppedAttributes'', Some (JInt (int (lr_Dropped r))))]"

end
