(* ===== verification/Otel_Sdk.thy ===== *)
theory Otel_Sdk
  imports Otel_Codec
begin

text \<open>
  \<^verbatim>\<open>src/infra/otel/sdk\<close>: the registries of exporters for logs, traces and metrics, the exporters to standard output and files, and \<^verbatim>\<open>Configure\<close>, which sets the
  SDK up from the environment and from options and returns what shuts it down. Exporters of the OpenTelemetry libraries are parameters: creating one
  may fail.
\<close>

section \<open>Registries\<close>

text \<open>What the options of a provider say: where its exporter writes and how.\<close>

datatype out_target = ToStdout | ToStderr | ToFile file_writer

datatype provider_option =
    SimpleLog out_target string "codec_option list"
  | BatchLog out_target string "codec_option list"
  | BatchSpans out_target
  | PeriodicMetrics out_target
  | Otlp string
  | Custom nat

type_synonym exporter_driver = "string \<Rightarrow> (string + provider_option list) or_panic"

type_synonym exporter_registry = "string \<rightharpoonup> exporter_driver"

text \<open>\<^verbatim>\<open>Register\<close> reports what is wrong with a name to the error handler and registers the driver all the same; a nil driver cannot be found.\<close>

definition reg_errors :: "(string \<Rightarrow> string) \<Rightarrow> string \<Rightarrow> string \<Rightarrow> exporter_driver option \<Rightarrow> exporter_registry \<Rightarrow> string list" where
  "reg_errors quote pkg input ctor reg =
     (let scheme = to_lower (trim_space input); where_text = ''otel/sdk/'' @ pkg @ ''.Register( scheme: ''
      in (if scheme \<noteq> input then [where_text @ quote scheme @ '' ); invalid name''] else []) @
         (if scheme = [] then [where_text @ ''? ); name required''] else []) @
         (if ctor = None then [where_text @ quote scheme @ '' ); not implemented''] else []) @
         (if reg scheme \<noteq> None then [where_text @ quote scheme @ '' ); duplicate name''] else []))"

definition log_Register :: "(string \<Rightarrow> string) \<Rightarrow> string \<Rightarrow> exporter_driver option \<Rightarrow> exporter_registry \<Rightarrow> string list \<times> exporter_registry" where
  "log_Register quote scheme ctor reg = (reg_errors quote ''log'' scheme ctor reg, reg(to_lower (trim_space scheme) := ctor))"

definition trace_Register :: "(string \<Rightarrow> string) \<Rightarrow> string \<Rightarrow> exporter_driver option \<Rightarrow> exporter_registry \<Rightarrow> string list \<times> exporter_registry" where
  "trace_Register quote scheme ctor reg = (reg_errors quote ''trace'' scheme ctor reg, reg(to_lower (trim_space scheme) := ctor))"

definition metric_Register :: "(string \<Rightarrow> string) \<Rightarrow> string \<Rightarrow> exporter_driver option \<Rightarrow> exporter_registry \<Rightarrow> string list \<times> exporter_registry" where
  "metric_Register quote scheme ctor reg = (reg_errors quote ''metric'' scheme ctor reg, reg(to_lower (trim_space scheme) := ctor))"

definition exporter_NewOptions :: "exporter_registry \<Rightarrow> string \<Rightarrow> (string + provider_option list) or_panic" where
  "exporter_NewOptions reg dsn =
     (case dsn_GetScheme dsn of
        Inl e \<Rightarrow> Inr (Inl e)
      | Inr (scheme, _) \<Rightarrow>
          (case reg (to_lower scheme) of
             None \<Rightarrow> Inr (Inl (''scheme '' @ to_lower scheme @ '': unknown''))
           | Some driver \<Rightarrow> driver dsn))"

text \<open>The options of a provider: those of the driver, then the given ones.\<close>

definition exporter_NewProvider :: "exporter_registry \<Rightarrow> string \<Rightarrow> provider_option list \<Rightarrow> (string + provider_option list) or_panic" where
  "exporter_NewProvider reg dsn opts = map_sum id (map_sum id (\<lambda>driverOpts. driverOpts @ opts)) (exporter_NewOptions reg dsn)"

text \<open>The packages of traces and metrics have the same two functions over registries of their own.\<close>

definition trace_NewOptions :: "exporter_registry \<Rightarrow> string \<Rightarrow> (string + provider_option list) or_panic" where
  [simp]: "trace_NewOptions reg dsn = exporter_NewOptions reg dsn"

definition trace_NewProvider :: "exporter_registry \<Rightarrow> string \<Rightarrow> provider_option list \<Rightarrow> (string + provider_option list) or_panic" where
  "trace_NewProvider reg dsn opts = map_sum id (map_sum id (\<lambda>schemeOpts. schemeOpts @ opts)) (trace_NewOptions reg dsn)"

definition metric_NewOptions :: "exporter_registry \<Rightarrow> string \<Rightarrow> (string + provider_option list) or_panic" where
  [simp]: "metric_NewOptions reg dsn = exporter_NewOptions reg dsn"

definition metric_NewProvider :: "exporter_registry \<Rightarrow> string \<Rightarrow> provider_option list \<Rightarrow> (string + provider_option list) or_panic" where
  "metric_NewProvider reg dsn opts = map_sum id (map_sum id (\<lambda>driverOpts. driverOpts @ opts)) (metric_NewOptions reg dsn)"

interpretation exp_reg: keyed_table to_lower "\<lambda>s. trim_space s = s" "\<lambda>reg s. reg (to_lower s)"
  "\<lambda>s d reg. snd (log_Register quote s (Some d) reg)"
  by unfold_locales (auto simp: log_Register_def)

text \<open>
  Registering drivers one after the other under trimmed names: a data source is given to the driver that was registered last under its scheme,
  ignoring case.
\<close>

lemma exporter_NewOptions_registered:
  assumes "list_all (\<lambda>(s, d). trim_space s = s) regs" and "scheme_text scheme"
    and "map_of (rev (map (\<lambda>(s, d). (to_lower s, d)) regs)) (to_lower scheme) = Some d"
  shows "exporter_NewOptions (fold (\<lambda>(s, d) reg. snd (log_Register quote s (Some d) reg)) regs reg) (scheme @ '':'' @ rest) =
    d (scheme @ '':'' @ rest)"
proof -
  have "GetScheme (scheme @ '':'' @ rest) = Inr (scheme, rest)"
    using assms(2) by (simp add: GetScheme_def scheme_loop_start) (auto simp: scheme_text_def)
  moreover have "fold (\<lambda>(s, d) reg. snd (log_Register quote s (Some d) reg)) regs reg (to_lower scheme) = Some d"
    using exp_reg.get_put_all [OF assms(1), of quote reg scheme] assms(3) by simp
  ultimately show ?thesis by (simp add: exporter_NewOptions_def dsn_GetScheme_zone)
qed

section \<open>Exporters to standard output and files\<close>

text \<open>The scheme ends at the first colon; \<open>file\<close> is \<^verbatim>\<open>FileDSN\<close>.\<close>

definition out_scheme :: "string \<Rightarrow> string \<times> string" where
  "out_scheme rawDSN = (case cut_at CHR '':'' rawDSN of (scheme, rest) \<Rightarrow> (to_lower scheme, rest))"

definition out_open :: "(string \<Rightarrow> string + string list \<times> file_writer) \<Rightarrow> (string \<Rightarrow> string) \<Rightarrow> string \<Rightarrow> string + out_target" where
  "out_open file unknown rawDSN =
     (case out_scheme rawDSN of
        (scheme, rest) \<Rightarrow>
          if scheme = ''stdout'' then Inr ToStdout
          else if scheme = ''stderr'' then Inr ToStderr
          else if scheme = ''file'' then map_sum id (\<lambda>(_, w). ToFile w) (file rest)
          else Inl (unknown scheme))"

definition trace_stdout_Options ::
    "(string \<Rightarrow> string + string list \<times> file_writer) \<Rightarrow> string option \<Rightarrow> exporter_driver" where
  "trace_stdout_Options file exporter_err rawDSN =
     Inr (case out_open file (\<lambda>s. ''unknown '' @ s @ '': scheme'') rawDSN of
        Inl e \<Rightarrow> Inl e
      | Inr out \<Rightarrow> (case exporter_err of Some e \<Rightarrow> Inl e | None \<Rightarrow> Inr [BatchSpans out]))"

definition metric_stdout_Options ::
    "(string \<Rightarrow> string) \<Rightarrow> (string \<Rightarrow> string + string list \<times> file_writer) \<Rightarrow> string option \<Rightarrow> exporter_driver" where
  "metric_stdout_Options quote file exporter_err rawDSN =
     Inr (case out_open file (\<lambda>s. ''unknown '' @ quote s @ '': scheme'') rawDSN of
        Inl e \<Rightarrow> Inl e
      | Inr out \<Rightarrow> (case exporter_err of Some e \<Rightarrow> Inl e | None \<Rightarrow> Inr [PeriodicMetrics out]))"

definition otlp_Options :: "string \<Rightarrow> string option \<Rightarrow> exporter_driver" where
  "otlp_Options name exporter_err dsn = Inr (case exporter_err of Some e \<Rightarrow> Inl e | None \<Rightarrow> Inr [Otlp name])"

subsection \<open>Logs\<close>

record log_setup =
  ls_noColor :: bool
  ls_encoder :: "(string \<times> codec_option list) option"
  ls_codecOpts :: "codec_option list"
  ls_errs :: "string list"

text \<open>\<^verbatim>\<open>newCodec\<close>: \<open>codecs\<close> are the names of the registered codecs.\<close>

definition newCodec :: "(string \<Rightarrow> string) \<Rightarrow> string set \<Rightarrow> string \<Rightarrow> log_setup \<Rightarrow> log_setup or_panic" where
  "newCodec quote codecs name st =
     (if ls_encoder st \<noteq> None then Inr st
      else
        (let opts = ls_codecOpts st @ (if ls_noColor st then [CodecNoColor] else [])
         in case codec_NewCodec quote (\<lambda>n. if n \<in> codecs then Some n else None) name of
              Inl p \<Rightarrow> Inl p
            | Inr enc \<Rightarrow> Inr (st\<lparr>ls_codecOpts := opts, ls_encoder := Some (enc, opts)\<rparr>)))"

definition set_indent :: "(string \<Rightarrow> string) \<Rightarrow> string \<Rightarrow> log_setup \<Rightarrow> log_setup" where
  "set_indent quote s st =
     (let indent = (case ParseBool s of Some True \<Rightarrow> [CHR 0x09] | Some False \<Rightarrow> [] | None \<Rightarrow> s)
      in if \<not> list_all is_space indent
         then st\<lparr>ls_errs := ls_errs st @ [''invalid OTEL_LOGS_INDENT value '' @ quote indent @ '': expect boolean or whitespace(s)'']\<rparr>
         else st\<lparr>ls_codecOpts := ls_codecOpts st @ [CodecPrettyPrint indent]\<rparr>)"

definition set_color :: "string \<Rightarrow> log_setup \<Rightarrow> log_setup" where
  "set_color s st = st\<lparr>ls_noColor := \<not> (to_lower s = ''auto'' \<or> ParseBool s = Some True)\<rparr>"

text \<open>Evaluation goes on after a step only when it did not panic.\<close>

definition on_setup :: "(string \<Rightarrow> 's \<Rightarrow> 's or_panic) \<Rightarrow> string \<Rightarrow> 's or_panic \<Rightarrow> 's or_panic" where
  "on_setup f s r = (case r of Inl p \<Rightarrow> Inl p | Inr st \<Rightarrow> f s st)"

text \<open>The text of \<^verbatim>\<open>errors.Join\<close>.\<close>

fun join_lines :: "string list \<Rightarrow> string" where
  "join_lines [] = []"
| "join_lines [e] = e"
| "join_lines (e # es) = e @ [CHR 0x0A] @ join_lines es"

definition withOptions ::
    "(string \<Rightarrow> string) \<Rightarrow> (string \<Rightarrow> string + string) \<Rightarrow> (string \<Rightarrow> string) \<Rightarrow> (string \<Rightarrow> string + string list \<times> file_writer) \<Rightarrow>
       string set \<Rightarrow> exporter_driver" where
  "withOptions quote unquote getenv file codecs rawDSN =
     (case out_open file (\<lambda>s. ''scheme '' @ s @ '': unknown'') rawDSN of
        Inl e \<Rightarrow> Inr (Inl e)
      | Inr out \<Rightarrow>
          (case env_Apply
             [EnvString unquote ''LOGRECORD_TIMESTAMP'' (on_setup (\<lambda>s st. Inr (st\<lparr>ls_codecOpts := ls_codecOpts st @ [CodecTimestamps s]\<rparr>))),
              EnvString unquote ''LOGRECORD_INDENT'' (on_setup (\<lambda>s st. Inr (set_indent quote s st))),
              EnvString unquote ''LOGRECORD_COLOR'' (on_setup (\<lambda>s st. Inr (set_color s st))),
              EnvString unquote ''LOGRECORD_CODEC'' (on_setup (newCodec quote codecs))]
             (Environment getenv) (Inr \<lparr>ls_noColor = True, ls_encoder = None, ls_codecOpts = [], ls_errs = []\<rparr>) of
             Inl p \<Rightarrow> Inl p
           | Inr st \<Rightarrow>
               (case newCodec quote codecs ''text'' st of
                  Inl p \<Rightarrow> Inl p
                | Inr st \<Rightarrow>
                    Inr (if ls_errs st \<noteq> [] then Inl (join_lines (ls_errs st))
                         else
                           (case ls_encoder st of
                              None \<Rightarrow> Inr []
                            | Some (enc, opts) \<Rightarrow>
                                if fst (out_scheme rawDSN) = ''stdout'' \<or> fst (out_scheme rawDSN) = ''stderr''
                                then Inr [SimpleLog out enc opts] else Inr [BatchLog out enc opts])))))"

section \<open>Levels of the internal logger\<close>

text \<open>\<^verbatim>\<open>SetLogLevel\<close>: the verbosity for a severity.\<close>

definition SetLogLevel :: "severity \<Rightarrow> int" where
  "SetLogLevel level =
     (if level \<le> 0 \<or> ERROR \<le> level then 0
      else if WARN \<le> level then 1
      else if INFO \<le> level then 4
      else if TRACE \<le> level then 8
      else 0)"

lemma SetLogLevel_antitone: "0 < l \<Longrightarrow> l \<le> m \<Longrightarrow> SetLogLevel m \<le> SetLogLevel l"
  by (simp add: SetLogLevel_def)

section \<open>Configuration\<close>

text \<open>Hooks of shutdown are the providers; bridges and setters of levels are numbered, \<open>None\<close> is nil.\<close>

datatype shutdown_hook = LogProvider | TraceProvider | MetricProvider

datatype set_level = DefaultSetLevel | CustomSetLevel nat

record sdk_options =
  so_Lvl :: severity
  so_Logs :: "provider_option list"
  so_Traces :: "provider_option list"
  so_Metrics :: "provider_option list"
  so_Resource :: "nat option"
  so_setLevel :: "set_level option"
  so_setBridge :: "nat option list"
  so_hooks :: "shutdown_hook list"

definition OnShutdown :: "shutdown_hook option \<Rightarrow> sdk_options \<Rightarrow> sdk_options" where
  "OnShutdown hook c = (case hook of None \<Rightarrow> c | Some h \<Rightarrow> c\<lparr>so_hooks := so_hooks c @ [h]\<rparr>)"

text \<open>\<^verbatim>\<open>Shutdown\<close>: the hooks that ran, the errors joined, the state after. \<open>do_hook\<close> gives the outcome of a hook.\<close>

definition sdk_Shutdown ::
    "(shutdown_hook \<Rightarrow> string option) \<Rightarrow> sdk_options option \<Rightarrow> shutdown_hook list \<times> string list \<times> sdk_options option" where
  "sdk_Shutdown do_hook c =
     (case c of
        None \<Rightarrow> ([], [], None)
      | Some c \<Rightarrow> (so_hooks c, List.map_filter do_hook (so_hooks c), Some (c\<lparr>so_hooks := []\<rparr>)))"

datatype sdk_option =
    SdkResource "nat option"
  | SdkLogLevel severity
  | SdkSetLevel "set_level option"
  | SdkLogBridge "nat option list"
  | SdkLogOptions "provider_option list"
  | SdkTraceOptions "provider_option list"
  | SdkMetricOptions "provider_option list"
  | SdkNil

fun sdk_apply :: "sdk_option \<Rightarrow> sdk_options \<Rightarrow> sdk_options" where
  "sdk_apply (SdkResource src) conf = conf\<lparr>so_Resource := src\<rparr>"
| "sdk_apply (SdkLogLevel lvl) conf = conf\<lparr>so_Lvl := lvl\<rparr>"
| "sdk_apply (SdkSetLevel f) conf = conf\<lparr>so_setLevel := f\<rparr>"
| "sdk_apply (SdkLogBridge fs) conf = conf\<lparr>so_setBridge := so_setBridge conf @ fs\<rparr>"
| "sdk_apply (SdkLogOptions opts) conf = conf\<lparr>so_Logs := so_Logs conf @ opts\<rparr>"
| "sdk_apply (SdkTraceOptions opts) conf = conf\<lparr>so_Traces := so_Traces conf @ opts\<rparr>"
| "sdk_apply (SdkMetricOptions opts) conf = conf\<lparr>so_Metrics := so_Metrics conf @ opts\<rparr>"
| "sdk_apply SdkNil conf = conf"

text \<open>Everything outside the SDK that it is set up with: the environment, the registries, printing.\<close>

record sdk_env =
  se_getenv :: "string \<Rightarrow> string"
  se_unquote :: "string \<Rightarrow> string + string"
  se_quote :: "string \<Rightarrow> string"
  se_logs :: exporter_registry
  se_traces :: exporter_registry
  se_metrics :: exporter_registry

text \<open>The settings so far with the errors given to the handler.\<close>

type_synonym sdk_setup = "sdk_options \<times> string list"

definition handle :: "string \<Rightarrow> sdk_setup \<Rightarrow> sdk_setup" where
  "handle err st = (fst st, snd st @ [err])"

definition invalid_value :: "string \<Rightarrow> string \<Rightarrow> string \<Rightarrow> string" where
  "invalid_value var input err = ''invalid '' @ var @ '' value '' @ input @ '': '' @ err"

definition env_LogLevel :: "sdk_env \<Rightarrow> string \<Rightarrow> sdk_setup \<Rightarrow> sdk_setup or_panic" where
  "env_LogLevel e input st =
     Inr (case severity_UnmarshalText (se_quote e) input of
        Inl err \<Rightarrow> handle (invalid_value ''OTEL_LOG_LEVEL'' input err) st
      | Inr level \<Rightarrow> (sdk_apply (SdkLogLevel level) (fst st), snd st))"

definition env_exporter ::
    "(string \<Rightarrow> (string + provider_option list) or_panic) \<Rightarrow> string \<Rightarrow> (provider_option list \<Rightarrow> sdk_option) \<Rightarrow> string \<Rightarrow> sdk_setup \<Rightarrow>
       sdk_setup or_panic" where
  "env_exporter newOptions var opt input st =
     (case newOptions input of
        Inl p \<Rightarrow> Inl p
      | Inr (Inl err) \<Rightarrow> Inr (handle (invalid_value var input err) st)
      | Inr (Inr opts) \<Rightarrow> Inr (sdk_apply (opt opts) (fst st), snd st))"

definition sdk_defaults :: sdk_options where
  "sdk_defaults =
     \<lparr>so_Lvl = ERROR, so_Logs = [], so_Traces = [], so_Metrics = [], so_Resource = None, so_setLevel = Some DefaultSetLevel,
      so_setBridge = [], so_hooks = []\<rparr>"

definition sdk_newOptions :: "sdk_env \<Rightarrow> sdk_option list \<Rightarrow> sdk_setup or_panic" where
  "sdk_newOptions e opts =
     map_sum id (\<lambda>(conf, errs). (fold sdk_apply opts conf, errs))
       (env_Apply
          [EnvString (se_unquote e) ''LOG_LEVEL'' (on_setup (env_LogLevel e)),
           EnvString (se_unquote e) ''LOGS_EXPORTER'' (on_setup (env_exporter (exporter_NewOptions (se_logs e)) ''OTEL_LOGS_EXPORTER'' SdkLogOptions)),
           EnvString (se_unquote e) ''TRACES_EXPORTER'' (on_setup (env_exporter (trace_NewOptions (se_traces e)) ''OTEL_TRACES_EXPORTER'' SdkTraceOptions)),
           EnvString (se_unquote e) ''METRICS_EXPORTER'' (on_setup (env_exporter (metric_NewOptions (se_metrics e)) ''OTEL_METRICS_EXPORTER'' SdkMetricOptions))]
          (Environment (se_getenv e)) (Inr (sdk_defaults, [])))"

text \<open>The global state of the SDK: the providers by their options, the propagator, the level, the bridges that ran.\<close>

record sdk_world =
  sw_logs :: "provider_option list option"
  sw_traces :: "provider_option list option"
  sw_metrics :: "provider_option list option"
  sw_propagator :: bool
  sw_level :: "(set_level \<times> severity) option"
  sw_bridges :: "nat list"

definition setup_logs :: "sdk_options \<Rightarrow> sdk_world \<Rightarrow> sdk_options \<times> sdk_world" where
  "setup_logs c w =
     (if so_Logs c \<noteq> [] then
        (OnShutdown (Some LogProvider) c,
         w\<lparr>sw_logs := Some (so_Logs c), sw_bridges := sw_bridges w @ List.map_filter id (so_setBridge c)\<rparr>)
      else (c, w))"

definition setup_level :: "sdk_options \<Rightarrow> sdk_world \<Rightarrow> sdk_world" where
  "setup_level c w =
     (if so_Lvl c > 0 then (case so_setLevel c of Some f \<Rightarrow> w\<lparr>sw_level := Some (f, so_Lvl c)\<rparr> | None \<Rightarrow> w) else w)"

definition setup_traces :: "sdk_options \<Rightarrow> sdk_world \<Rightarrow> sdk_options \<times> sdk_world" where
  "setup_traces c w =
     (if so_Traces c \<noteq> [] then (OnShutdown (Some TraceProvider) c, w\<lparr>sw_traces := Some (so_Traces c)\<rparr>) else (c, w))"

definition setup_metrics :: "sdk_options \<Rightarrow> sdk_world \<Rightarrow> sdk_options \<times> sdk_world" where
  "setup_metrics c w =
     (if so_Metrics c \<noteq> [] then (OnShutdown (Some MetricProvider) c, w\<lparr>sw_metrics := Some (so_Metrics c)\<rparr>) else (c, w))"

text \<open>\<^verbatim>\<open>Configure\<close>: the settings behind the returned function, the errors, the world. The resource is merged by its library.\<close>

definition sdk_disabled :: "sdk_env \<Rightarrow> bool" where
  "sdk_disabled e =
     env_Apply [EnvString (se_unquote e) ''SDK_DISABLED'' (\<lambda>s _. ParseBool s = Some True)] (Environment (se_getenv e)) False"

definition Configure :: "sdk_env \<Rightarrow> sdk_option list \<Rightarrow> sdk_world \<Rightarrow> (sdk_options option \<times> string list \<times> sdk_world) or_panic" where
  "Configure e opts w =
     (if sdk_disabled e then Inr (None, [], w)
      else
        (case sdk_newOptions e opts of
           Inl p \<Rightarrow> Inl p
         | Inr (c, errs) \<Rightarrow>
             if errs \<noteq> [] then Inr (Some c, errs, w)
             else
               (case setup_logs c (w\<lparr>sw_propagator := True\<rparr>) of
                  (c, w) \<Rightarrow>
                    (case setup_traces c (setup_level c w) of
                       (c, w) \<Rightarrow> (case setup_metrics c w of (c, w) \<Rightarrow> Inr (Some c, [], w))))))"

section \<open>What configuring does\<close>

lemma sdk_apply_hooks [simp]: "so_hooks (sdk_apply opt c) = so_hooks c"
  by (cases opt) simp_all

lemma fold_sdk_apply_hooks [simp]: "so_hooks (fold sdk_apply opts c) = so_hooks c"
  by (induction opts arbitrary: c) simp_all

lemma handle_fst [simp]: "fst (handle err st) = fst st"
  by (simp add: handle_def)

text \<open>No step of reading the environment registers a hook.\<close>

definition no_hooks :: "sdk_setup or_panic \<Rightarrow> bool" where
  "no_hooks r \<longleftrightarrow> (case r of Inl _ \<Rightarrow> True | Inr (c, _) \<Rightarrow> so_hooks c = [])"

lemma no_hooks_Inr: "no_hooks (Inr st) \<longleftrightarrow> so_hooks (fst st) = []"
  by (simp add: no_hooks_def split: prod.split)

lemma no_hooks_LogLevel: "no_hooks r \<Longrightarrow> no_hooks (on_setup (env_LogLevel e) input r)"
  by (auto simp: on_setup_def env_LogLevel_def no_hooks_Inr split: sum.splits)

lemma no_hooks_exporter: "no_hooks r \<Longrightarrow> no_hooks (on_setup (env_exporter reg var opt) input r)"
  by (auto simp: on_setup_def env_exporter_def no_hooks_Inr split: sum.splits) (simp add: no_hooks_def)

lemma no_hooks_EnvString: "(\<And>input r. no_hooks r \<Longrightarrow> no_hooks (f input r)) \<Longrightarrow> no_hooks r \<Longrightarrow> no_hooks (EnvString unquote key f e r)"
  by (simp add: EnvString_def split: prod.split)

lemma sdk_newOptions_hooks:
  assumes "sdk_newOptions e opts = Inr (c, errs)"
  shows "so_hooks c = []"
proof -
  let ?r = "env_Apply
          [EnvString (se_unquote e) ''LOG_LEVEL'' (on_setup (env_LogLevel e)),
           EnvString (se_unquote e) ''LOGS_EXPORTER'' (on_setup (env_exporter (exporter_NewOptions (se_logs e)) ''OTEL_LOGS_EXPORTER'' SdkLogOptions)),
           EnvString (se_unquote e) ''TRACES_EXPORTER'' (on_setup (env_exporter (trace_NewOptions (se_traces e)) ''OTEL_TRACES_EXPORTER'' SdkTraceOptions)),
           EnvString (se_unquote e) ''METRICS_EXPORTER'' (on_setup (env_exporter (metric_NewOptions (se_metrics e)) ''OTEL_METRICS_EXPORTER'' SdkMetricOptions))]
          (Environment (se_getenv e)) (Inr (sdk_defaults, []))"
  have "no_hooks ?r"
    by (auto simp: env_Apply_def no_hooks_Inr sdk_defaults_def intro!: no_hooks_EnvString no_hooks_LogLevel no_hooks_exporter)
  then show ?thesis
    using assms by (cases ?r) (auto simp: sdk_newOptions_def no_hooks_def)
qed

text \<open>
  C27: \<^verbatim>\<open>Configure\<close> installs everything or nothing: with an invalid variable it returns the errors and leaves the global state as it was. When it succeeds, the
  function it returns shuts down exactly the providers it installed, logs before traces before metrics, each once: a second call does nothing.
\<close>

theorem Configure_installs:
  "case Configure e opts w of
     Inl p \<Rightarrow> True
   | Inr (None, errs, w') \<Rightarrow> errs = [] \<and> w' = w
   | Inr (Some c, errs, w') \<Rightarrow>
       (if errs \<noteq> [] then w' = w \<and> so_hooks c = []
        else
          so_hooks c = (if so_Logs c \<noteq> [] then [LogProvider] else []) @ (if so_Traces c \<noteq> [] then [TraceProvider] else []) @
            (if so_Metrics c \<noteq> [] then [MetricProvider] else []) \<and>
          sw_logs w' = (if so_Logs c \<noteq> [] then Some (so_Logs c) else sw_logs w) \<and>
          sw_traces w' = (if so_Traces c \<noteq> [] then Some (so_Traces c) else sw_traces w) \<and>
          sw_metrics w' = (if so_Metrics c \<noteq> [] then Some (so_Metrics c) else sw_metrics w) \<and> sw_propagator w') \<and>
       (case sdk_Shutdown do_hook (Some c) of
          (called, es, c') \<Rightarrow> called = so_hooks c \<and> fst (sdk_Shutdown do_hook c') = [])"
proof (cases "sdk_disabled e")
  case False
  show ?thesis
  proof (cases "sdk_newOptions e opts")
    case (Inr st)
    obtain c errs where st: "st = (c, errs)" by (cases st)
    have "so_hooks c = []" using sdk_newOptions_hooks Inr st by simp
    with False Inr st show ?thesis
      by (simp add: Configure_def setup_logs_def setup_traces_def setup_metrics_def setup_level_def OnShutdown_def sdk_Shutdown_def
          split: option.split)
  qed (use False in \<open>simp add: Configure_def\<close>)
qed (simp add: Configure_def)

lemma setup_encoder [simp]: "ls_encoder (set_indent quote s st) = ls_encoder st" "ls_encoder (set_color s st) = ls_encoder st"
  by (simp_all add: set_indent_def set_color_def Let_def)

text \<open>
  An unknown name in \<^verbatim>\<open>OTEL_LOGRECORD_CODEC\<close> does not make the configuration of logs fail with an error, as it is meant to: looking the codec up panics.
\<close>

theorem unknown_codec_panics:
  assumes "trim_space (getenv ''OTEL_LOGRECORD_CODEC'') = name" and "name \<noteq> []" and "unquote name = Inl err" and "to_lower name \<notin> codecs"
  shows "withOptions quote unquote getenv file codecs ''stdout'' =
    Inl (Panic (''otel/log/stdout.Codec( name: '' @ quote (to_lower name) @ '' ); not registered''))"
proof -
  have out: "out_open file u ''stdout'' = Inr ToStdout" for u
    by (simp add: out_open_def out_scheme_def cut_at_def) code_simp
  let ?f = "on_setup (newCodec quote codecs)"
  have codec: "EnvString unquote ''LOGRECORD_CODEC'' ?f (Environment getenv) (Inr st) =
      Inl (Panic (''otel/log/stdout.Codec( name: '' @ quote (to_lower name) @ '' ); not registered''))" if "ls_encoder st = None" for st
    using assms that
    by (simp add: EnvString_def GetEnvValue_def Environment_def keyWithNamespace_def on_setup_def newCodec_def codec_NewCodec_def Let_def)
  have keeps: "\<exists>st'. EnvString unquote key (on_setup (\<lambda>s st. Inr (g s st))) (Environment getenv) (Inr st) = Inr st' \<and> ls_encoder st' = None"
    if "ls_encoder st = None" "\<And>s st. ls_encoder (g s st) = ls_encoder st" for key st and g :: "string \<Rightarrow> log_setup \<Rightarrow> log_setup"
    using that by (simp add: EnvString_def on_setup_def split: prod.split)
  let ?s0 = "\<lparr>ls_noColor = True, ls_encoder = None, ls_codecOpts = [], ls_errs = []\<rparr>"
  obtain s1 where s1: "EnvString unquote ''LOGRECORD_TIMESTAMP'' (on_setup (\<lambda>s st. Inr (st\<lparr>ls_codecOpts := ls_codecOpts st @ [CodecTimestamps s]\<rparr>)))
      (Environment getenv) (Inr ?s0) = Inr s1" "ls_encoder s1 = None"
    using keeps [of ?s0 "\<lambda>s st. st\<lparr>ls_codecOpts := ls_codecOpts st @ [CodecTimestamps s]\<rparr>"] by auto
  obtain s2 where s2: "EnvString unquote ''LOGRECORD_INDENT'' (on_setup (\<lambda>s st. Inr (set_indent quote s st))) (Environment getenv) (Inr s1) = Inr s2"
      "ls_encoder s2 = None"
    using keeps [of s1 "set_indent quote"] s1(2) by auto
  obtain s3 where s3: "EnvString unquote ''LOGRECORD_COLOR'' (on_setup (\<lambda>s st. Inr (set_color s st))) (Environment getenv) (Inr s2) = Inr s3"
      "ls_encoder s3 = None"
    using keeps [of s2 set_color] s2(2) by auto
  show ?thesis
    by (simp add: withOptions_def out env_Apply_def s1(1) s2(1) s3(1) codec [OF s3(2)])
qed

theorem unknown_codec_panics_witness:
  "withOptions (\<lambda>s. [CHR 0x22] @ s @ [CHR 0x22]) (\<lambda>s. Inl ''invalid syntax'') (\<lambda>v. if v = ''OTEL_LOGRECORD_CODEC'' then ''XML'' else []) (\<lambda>_. Inl ''no file'') {''text'', ''json'', ''otel''}
     ''stdout'' = Inl (Panic (''otel/log/stdout.Codec( name: '' @ [CHR 0x22] @ ''xml'' @ [CHR 0x22] @ '' ); not registered''))"
proof -
  have *: "to_lower ''XML'' = ''xml''" "trim_space ''XML'' = ''XML''" by code_simp+
  show ?thesis
    using unknown_codec_panics [of "\<lambda>v. if v = ''OTEL_LOGRECORD_CODEC'' then ''XML'' else []" "''XML''" "\<lambda>s. Inl ''invalid syntax''" "''invalid syntax''"
        "{''text'', ''json'', ''otel''}" "\<lambda>s. [CHR 0x22] @ s @ [CHR 0x22]" "\<lambda>_. Inl ''no file''"]
    by (simp add: *)
qed

end
