(* ===== verification/Otel_Bridge.thy ===== *)
theory Otel_Bridge
  imports Otel_Codec
begin

text \<open>
  \<^verbatim>\<open>src/infra/otel/log/bridge\<close>: loggers of other libraries that write log records. The common handler with its attributes (\<^verbatim>\<open>bridge.go\<close>), the sink for
  \<^verbatim>\<open>logr\<close> (\<^verbatim>\<open>logr/logr.go\<close>, \<^verbatim>\<open>logr/conv.go\<close>), the one on top of \<^verbatim>\<open>slog\<close> (\<^verbatim>\<open>logr/slogr.go\<close>), the level filter for \<^verbatim>\<open>slog\<close> (\<^verbatim>\<open>slog/slog.go\<close>) and the logger of gRPC
  (\<^verbatim>\<open>grpclog/logger.go\<close>). Records are appended to a list, the output of the OpenTelemetry logger; printing with the verbs \<^verbatim>\<open>%+v\<close> and \<^verbatim>\<open>%v\<close> is a parameter.
\<close>

section \<open>Values of any type\<close>

text \<open>What an interface holds, as far as the conversions tell it apart; \<open>GOther\<close> stands for everything else, by its print.\<close>

datatype any_value =
    GNil
  | GLogValue log_value
  | GBool bool
  | GBytes "u8 list"
  | GFloat64 u64
  | GInt64 int
  | GUint64 nat
  | GInt int
  | GString string
  | GMap "(string \<times> any_value) list"
  | GOther string

text \<open>
  \<^verbatim>\<open>bridge.Value\<close>. A map is turned into a slice that is made with as many empty entries as it has keys, to which the members are then appended.
\<close>

definition empty_entries :: "nat \<Rightarrow> (string \<times> log_value) list" where
  "empty_entries n = replicate n ([], VEmpty)"

fun bridge_Value :: "(any_value \<Rightarrow> string) \<Rightarrow> any_value \<Rightarrow> log_value" where
  "bridge_Value print (GLogValue v) = v"
| "bridge_Value print (GBool b) = VBool b"
| "bridge_Value print (GBytes bs) = VBytes bs"
| "bridge_Value print (GFloat64 f) = VFloat64 f"
| "bridge_Value print (GInt64 i) = VInt64 i"
| "bridge_Value print (GUint64 n) = VInt64 (int64 (int n))"
| "bridge_Value print (GInt i) = VInt64 i"
| "bridge_Value print (GString s) = VString s"
| "bridge_Value print (GMap kvs) = VMap (empty_entries (length kvs) @ map (\<lambda>(k, v). (k, bridge_Value print v)) kvs)"
| "bridge_Value print GNil = VString (print GNil)"
| "bridge_Value print (GOther s) = VString (print (GOther s))"

text \<open>\<^verbatim>\<open>convertValue\<close> of the logr bridge: without the cases of log values and of unsigned numbers.\<close>

fun convertValue :: "(any_value \<Rightarrow> string) \<Rightarrow> any_value \<Rightarrow> log_value" where
  "convertValue print (GBool b) = VBool b"
| "convertValue print (GBytes bs) = VBytes bs"
| "convertValue print (GFloat64 f) = VFloat64 f"
| "convertValue print (GInt64 i) = VInt64 i"
| "convertValue print (GInt i) = VInt64 i"
| "convertValue print (GString s) = VString s"
| "convertValue print (GMap kvs) = VMap (empty_entries (length kvs) @ map (\<lambda>(k, v). (k, convertValue print v)) kvs)"
| "convertValue print (GLogValue v) = VString (print (GLogValue v))"
| "convertValue print (GUint64 n) = VString (print (GUint64 n))"
| "convertValue print GNil = VString (print GNil)"
| "convertValue print (GOther s) = VString (print (GOther s))"

section \<open>The common handler\<close>

record bridge_options =
  bo_Provider :: nat
  bo_SchemaURL :: string
  bo_Version :: string

datatype bridge_option = BrVersion string | BrSchemaURL string | BrProvider nat

fun bridge_apply :: "bridge_option \<Rightarrow> bridge_options \<Rightarrow> bridge_options" where
  "bridge_apply (BrVersion ver) conf = conf\<lparr>bo_Version := ver\<rparr>"
| "bridge_apply (BrSchemaURL url) conf = conf\<lparr>bo_SchemaURL := url\<rparr>"
| "bridge_apply (BrProvider p) conf = conf\<lparr>bo_Provider := p\<rparr>"

text \<open>\<open>global\<close> is the global provider.\<close>

definition bridge_newOptions :: "nat \<Rightarrow> bridge_option list \<Rightarrow> bridge_options" where
  "bridge_newOptions global opts = fold bridge_apply opts \<lparr>bo_Provider = global, bo_SchemaURL = [], bo_Version = []\<rparr>"

text \<open>A logger: the provider it comes from, its name, version and schema, empty when not given.\<close>

record otel_logger =
  ol_provider :: nat
  ol_scope :: log_scope

definition bridge_logger :: "bridge_options \<Rightarrow> string \<Rightarrow> otel_logger" where
  "bridge_logger c name =
     \<lparr>ol_provider = bo_Provider c, ol_scope = \<lparr>sc_Name = name, sc_Version = bo_Version c, sc_SchemaURL = bo_SchemaURL c\<rparr>\<rparr>"

text \<open>Attributes are a pointer: \<open>None\<close> is nil.\<close>

type_synonym attributes = "(string \<times> log_value) list option"

definition attrs_Len :: "attributes \<Rightarrow> nat" where
  "attrs_Len e = (case e of Some data \<Rightarrow> length data | None \<Rightarrow> 0)"

definition attrs_Clone :: "attributes \<Rightarrow> attributes" where
  "attrs_Clone e = e"

definition attrs_List :: "attributes \<Rightarrow> (string \<times> log_value) list" where
  "attrs_List e = (case e of Some data \<Rightarrow> data | None \<Rightarrow> [])"

definition attrs_Add :: "(string \<times> log_value) list \<Rightarrow> (string \<times> log_value) list \<Rightarrow> (string \<times> log_value) list" where
  "attrs_Add data e = e @ data"

record bridge_handler =
  bh_Options :: bridge_options
  bh_Logger :: otel_logger
  bh_Attributes :: attributes

definition bridge_NewHandler :: "nat \<Rightarrow> string \<Rightarrow> bridge_option list \<Rightarrow> bridge_handler" where
  "bridge_NewHandler global name opts =
     (let conf = bridge_newOptions global opts in \<lparr>bh_Options = conf, bh_Logger = bridge_logger conf name, bh_Attributes = None\<rparr>)"

definition bridge_WithName :: "bridge_handler \<Rightarrow> string \<Rightarrow> bridge_handler" where
  "bridge_WithName h name =
     \<lparr>bh_Options = bh_Options h, bh_Logger = bridge_logger (bh_Options h) name, bh_Attributes = attrs_Clone (bh_Attributes h)\<rparr>"

definition bridge_WithAttrs :: "bridge_handler \<Rightarrow> (string \<times> log_value) list \<Rightarrow> bridge_handler" where
  "bridge_WithAttrs h data =
     h\<lparr>bh_Attributes :=
         (if data \<noteq> [] then Some (attrs_Add data (attrs_List (attrs_Clone (bh_Attributes h)))) else attrs_Clone (bh_Attributes h))\<rparr>"

section \<open>The sink for logr\<close>

text \<open>\<open>pr\<close> is \<^verbatim>\<open>fmt.Sprint\<close> for keys.\<close>

definition drop_odd :: "'a list \<Rightarrow> 'a list" where
  "drop_odd kvs = (if odd (length kvs) then butlast kvs else kvs)"

text \<open>The loop of \<^verbatim>\<open>AddKeysAndValues\<close>: the index runs over the pairs in steps of two and is doubled again to find the key.\<close>

function kv_loop :: "(any_value \<Rightarrow> string) \<Rightarrow> (any_value \<Rightarrow> string) \<Rightarrow> any_value list \<Rightarrow> nat \<Rightarrow> nat \<Rightarrow> (string \<times> log_value) list" where
  "kv_loop pr print kvs n i =
     (if i < n then (pr (kvs ! (i * 2)), convertValue print (kvs ! (i * 2 + 1))) # kv_loop pr print kvs n (i + 2) else [])"
  by pat_completeness auto
termination by (relation "measure (\<lambda>(pr, print, kvs, n, i). n - i)") auto

declare kv_loop.simps [simp del]

definition AddKeysAndValues ::
    "(any_value \<Rightarrow> string) \<Rightarrow> (any_value \<Rightarrow> string) \<Rightarrow> any_value list \<Rightarrow> (string \<times> log_value) list \<Rightarrow> (string \<times> log_value) list" where
  "AddKeysAndValues pr print kvs data = (let kvs = drop_odd kvs in data @ kv_loop pr print kvs (length kvs div 2) 0)"

text \<open>The function \<^verbatim>\<open>keysAndValues\<close>, which pads instead and stops at half of the list.\<close>

function kv_pairs :: "(any_value \<Rightarrow> string) \<Rightarrow> (any_value \<Rightarrow> string) \<Rightarrow> any_value list \<Rightarrow> nat \<Rightarrow> nat \<Rightarrow> (string \<times> log_value) list" where
  "kv_pairs pr print kvs n i =
     (if i < n then (pr (kvs ! i), convertValue print (kvs ! (i + 1))) # kv_pairs pr print kvs n (i + 2) else [])"
  by pat_completeness auto
termination by (relation "measure (\<lambda>(pr, print, kvs, n, i). n - i)") auto

declare kv_pairs.simps [simp del]

definition keysAndValues :: "(any_value \<Rightarrow> string) \<Rightarrow> (any_value \<Rightarrow> string) \<Rightarrow> any_value list \<Rightarrow> (string \<times> log_value) list" where
  "keysAndValues pr print kvs =
     (let kvs = (if odd (length kvs) then kvs @ [GNil] else kvs) in kv_pairs pr print kvs (length kvs div 2) 0)"

record logr_options =
  lo_Provider :: nat
  lo_Version :: string
  lo_SchemaURL :: string
  lo_Severity :: "(int \<Rightarrow> severity) option"

definition OtelSeverity :: "int \<Rightarrow> severity" where
  "OtelSeverity v = v"

definition SeverityLevel :: "severity \<Rightarrow> int" where
  "SeverityLevel v = int64 (v - INFO)"

definition OtelVerbosity :: "int \<Rightarrow> severity" where
  "OtelVerbosity v = (if v = 0 then ERROR else if v = 1 then WARN else if v \<le> 4 then INFO else DEBUG)"

definition SlogVerbosity :: "int \<Rightarrow> int" where
  "SlogVerbosity v = SeverityLevel (OtelSeverity v)"

text \<open>Options are the functions given to \<^verbatim>\<open>WithSeverity\<close>; \<open>None\<close> is nil.\<close>

definition logr_newOptions :: "nat \<Rightarrow> (int \<Rightarrow> severity) option list \<Rightarrow> logr_options" where
  "logr_newOptions global opts =
     fold (\<lambda>f conf. conf\<lparr>lo_Severity := f\<rparr>) opts
       \<lparr>lo_Provider = global, lo_Version = [], lo_SchemaURL = [], lo_Severity = Some OtelSeverity\<rparr>"

definition logr_logger :: "logr_options \<Rightarrow> string \<Rightarrow> otel_logger" where
  "logr_logger c name =
     \<lparr>ol_provider = lo_Provider c, ol_scope = \<lparr>sc_Name = name, sc_Version = lo_Version c, sc_SchemaURL = lo_SchemaURL c\<rparr>\<rparr>"

record logr_handler =
  lh_opts :: logr_options
  lh_attrs :: attributes
  lh_logger :: otel_logger

definition logr_NewHandler :: "nat \<Rightarrow> string \<Rightarrow> (int \<Rightarrow> severity) option list \<Rightarrow> logr_handler" where
  "logr_NewHandler global name opts =
     (let conf = logr_newOptions global opts in \<lparr>lh_opts = conf, lh_attrs = None, lh_logger = logr_logger conf name\<rparr>)"

definition logr_severity :: "logr_handler \<Rightarrow> int \<Rightarrow> severity" where
  "logr_severity h v = (case lo_Severity (lh_opts h) of Some f \<Rightarrow> f v | None \<Rightarrow> OtelSeverity v)"

text \<open>\<open>enabled\<close> is the \<^verbatim>\<open>Enabled\<close> of the OpenTelemetry logger.\<close>

definition logr_Enabled :: "(severity \<Rightarrow> bool) \<Rightarrow> logr_handler \<Rightarrow> int \<Rightarrow> bool" where
  "logr_Enabled enabled h v = (let level = logr_severity h v in if level \<le> 0 then False else enabled level)"

record bridge_record =
  br_Severity :: severity
  br_Timestamp :: instant
  br_Body :: log_value
  br_Attributes :: "(string \<times> log_value) list"

definition convertRecord ::
    "(any_value \<Rightarrow> string) \<Rightarrow> (any_value \<Rightarrow> string) \<Rightarrow> instant \<Rightarrow> logr_handler \<Rightarrow> severity \<Rightarrow> string \<Rightarrow> any_value list \<Rightarrow> bridge_record" where
  "convertRecord pr print now h level message kvs =
     (let kvs = drop_odd kvs
      in \<lparr>br_Severity = level, br_Timestamp = now, br_Body = VString message,
          br_Attributes = attrs_List (lh_attrs h) @ (if length kvs div 2 > 0 then AddKeysAndValues pr print kvs [] else [])\<rparr>)"

definition logr_Info ::
    "(any_value \<Rightarrow> string) \<Rightarrow> (any_value \<Rightarrow> string) \<Rightarrow> instant \<Rightarrow> logr_handler \<Rightarrow> int \<Rightarrow> string \<Rightarrow> any_value list \<Rightarrow>
       bridge_record list \<Rightarrow> bridge_record list" where
  "logr_Info pr print now h level message kvs out = out @ [convertRecord pr print now h (logr_severity h level) message kvs]"

definition logr_Error ::
    "(any_value \<Rightarrow> string) \<Rightarrow> (any_value \<Rightarrow> string) \<Rightarrow> instant \<Rightarrow> logr_handler \<Rightarrow> any_value \<Rightarrow> string \<Rightarrow> any_value list \<Rightarrow>
       bridge_record list \<Rightarrow> bridge_record list" where
  "logr_Error pr print now h err message kvs out = out @ [convertRecord pr print now h ERROR message (kvs @ [GString ''error'', err])]"

definition logr_WithValues :: "(any_value \<Rightarrow> string) \<Rightarrow> (any_value \<Rightarrow> string) \<Rightarrow> any_value list \<Rightarrow> logr_handler \<Rightarrow> logr_handler" where
  "logr_WithValues pr print kvs h = h\<lparr>lh_attrs := Some (AddKeysAndValues pr print kvs (attrs_List (lh_attrs h)))\<rparr>"

definition logr_WithName :: "string \<Rightarrow> logr_handler \<Rightarrow> logr_handler" where
  "logr_WithName name h = h\<lparr>lh_logger := logr_logger (lh_opts h) name\<rparr>"

subsection \<open>Attributes of slog\<close>

text \<open>A value of \<^verbatim>\<open>slog\<close> by its kind; other kinds (times, durations, valuers, anything) by their print.\<close>

datatype slog_value =
    SBool bool | SFloat64 u64 | SInt64 int | SString string | SUint64 nat | SGroup "(string \<times> slog_value) list" | SNil | SOther string

fun otelAttribute :: "(slog_value \<Rightarrow> string) \<Rightarrow> string \<times> slog_value \<Rightarrow> (string \<times> attr_value) list" where
  "otelAttribute print (k, SBool b) = [(k, ABool b)]"
| "otelAttribute print (k, SFloat64 f) = [(k, AFloat64 f)]"
| "otelAttribute print (k, SInt64 i) = [(k, AInt64 i)]"
| "otelAttribute print (k, SString s) = [(k, AString s)]"
| "otelAttribute print (k, SUint64 n) = [(k, AInt64 (int64 (int n)))]"
| "otelAttribute print (k, SGroup kvs) = concat (map (\<lambda>(k', v). otelAttribute print (k @ ''.'' @ k', v)) kvs)"
| "otelAttribute print (k, SNil) = [(k, AString (print SNil))]"
| "otelAttribute print (k, SOther s) = [(k, AString (print (SOther s)))]"

text \<open>
  \<^verbatim>\<open>AddAttr\<close>: \<^verbatim>\<open>convertValue\<close> is given a \<^verbatim>\<open>slog.Value\<close>, which is none of the types it tells apart, so that every value is printed.
\<close>

definition AddAttr :: "(slog_value \<Rightarrow> string) \<Rightarrow> string \<times> slog_value \<Rightarrow> (string \<times> log_value) list \<Rightarrow> (string \<times> log_value) list" where
  "AddAttr print attr data =
     (case attr of
        (k, v) \<Rightarrow>
          if k = [] then
            (case v of
               SGroup kvs \<Rightarrow> data @ map (\<lambda>(k', v'). (k', VString (print v'))) kvs
             | SNil \<Rightarrow> data
             | _ \<Rightarrow> data @ [(k, VString (print v))])
          else data @ [(k, VString (print v))])"

definition AddAttrs :: "(slog_value \<Rightarrow> string) \<Rightarrow> (string \<times> slog_value) list \<Rightarrow> (string \<times> log_value) list \<Rightarrow> (string \<times> log_value) list" where
  "AddAttrs print attrs data = fold (AddAttr print) attrs data"

section \<open>The sink on slog\<close>

text \<open>The handler of \<^verbatim>\<open>slog\<close> is a parameter with state \<open>'h\<close>.\<close>

record 'h slog_sink =
  ss_callDepth :: int
  ss_name :: string
  ss_handler :: 'h
  ss_verbosity :: "int \<Rightarrow> int"

definition NewSlogSink :: "'h \<Rightarrow> (int \<Rightarrow> int) option \<Rightarrow> 'h slog_sink" where
  "NewSlogSink h verbosity =
     \<lparr>ss_callDepth = 0, ss_name = [], ss_handler = h, ss_verbosity = (case verbosity of Some f \<Rightarrow> f | None \<Rightarrow> SlogVerbosity)\<rparr>"

definition sink_Init :: "int \<Rightarrow> 'h slog_sink \<Rightarrow> 'h slog_sink" where
  "sink_Init depth l = l\<lparr>ss_callDepth := depth\<rparr>"

definition sink_WithCallDepth :: "int \<Rightarrow> 'h slog_sink \<Rightarrow> 'h slog_sink" where
  "sink_WithCallDepth depth l = l\<lparr>ss_callDepth := int64 (ss_callDepth l + depth)\<rparr>"

definition sink_Enabled :: "('h \<Rightarrow> int \<Rightarrow> bool) \<Rightarrow> int \<Rightarrow> 'h slog_sink \<Rightarrow> bool" where
  "sink_Enabled enabled level l = enabled (ss_handler l) (ss_verbosity l level)"

record 'v slog_record =
  sr_Level :: int
  sr_Message :: string
  sr_Attrs :: "(string \<times> 'v) list"

text \<open>\<open>add\<close> is \<^verbatim>\<open>Record.Add\<close>: the attributes made of a list of keys and values.\<close>

definition sink_log ::
    "('v list \<Rightarrow> (string \<times> 'v) list) \<Rightarrow> (string \<Rightarrow> 'v) \<Rightarrow> 'h slog_sink \<Rightarrow> 'v option \<Rightarrow> string \<Rightarrow> int \<Rightarrow> 'v list \<Rightarrow> 'v slog_record" where
  "sink_log add str l err msg level kvList =
     \<lparr>sr_Level = level, sr_Message = msg,
      sr_Attrs = (if ss_name l \<noteq> [] then [(''logger'', str (ss_name l))] else []) @
        (case err of Some e \<Rightarrow> [(''err'', e)] | None \<Rightarrow> []) @ add kvList\<rparr>"

definition sink_Info ::
    "('v list \<Rightarrow> (string \<times> 'v) list) \<Rightarrow> (string \<Rightarrow> 'v) \<Rightarrow> 'h slog_sink \<Rightarrow> int \<Rightarrow> string \<Rightarrow> 'v list \<Rightarrow> 'v slog_record" where
  "sink_Info add str l level msg kvList = sink_log add str l None msg (ss_verbosity l level) kvList"

definition sink_Error ::
    "('v list \<Rightarrow> (string \<times> 'v) list) \<Rightarrow> (string \<Rightarrow> 'v) \<Rightarrow> 'h slog_sink \<Rightarrow> 'v option \<Rightarrow> string \<Rightarrow> 'v list \<Rightarrow> 'v slog_record" where
  "sink_Error add str l err msg kvList = sink_log add str l err msg 8 kvList"

definition sink_WithName :: "string \<Rightarrow> 'h slog_sink \<Rightarrow> 'h slog_sink" where
  "sink_WithName name l = l\<lparr>ss_name := (if ss_name l \<noteq> [] then ss_name l @ ''/'' else []) @ name\<rparr>"

definition sink_WithValues :: "('v list \<Rightarrow> (string \<times> 'v) list) \<Rightarrow> ((string \<times> 'v) list \<Rightarrow> 'h \<Rightarrow> 'h) \<Rightarrow> 'v list \<Rightarrow> 'h slog_sink \<Rightarrow> 'h slog_sink" where
  "sink_WithValues add with_attrs kvList l = l\<lparr>ss_handler := with_attrs (add kvList) (ss_handler l)\<rparr>"

section \<open>The level filter for slog\<close>

datatype 'h level_handler = LevelHandler "int option" 'h

definition level_Enabled :: "('h \<Rightarrow> int \<Rightarrow> bool) \<Rightarrow> 'h level_handler \<Rightarrow> int \<Rightarrow> bool" where
  "level_Enabled enabled lh v =
     (case lh of LevelHandler minimum h \<Rightarrow> (case minimum of Some m \<Rightarrow> if v < m then False else enabled h v | None \<Rightarrow> enabled h v))"

text \<open>\<^verbatim>\<open>WithLevel\<close> on a handler that is (\<open>Inr\<close>) or is not (\<open>Inl\<close>) a level handler already; comparing with a nil level panics.\<close>

definition WithLevel :: "int \<Rightarrow> 'h + 'h level_handler \<Rightarrow> 'h level_handler or_panic" where
  "WithLevel front b =
     (case b of
        Inl h \<Rightarrow> Inr (LevelHandler (Some front) h)
      | Inr (LevelHandler minimum h) \<Rightarrow>
          (case minimum of
             None \<Rightarrow> Inl (Panic ''invalid memory address or nil pointer dereference'')
           | Some m \<Rightarrow> Inr (if m = front then LevelHandler (Some m) h else LevelHandler (Some front) h)))"

section \<open>The logger of gRPC\<close>

definition grpc_severity :: "int \<Rightarrow> severity" where
  "grpc_severity level = (if level = 0 then INFO else if level = 1 then WARN else if level = 2 then ERROR else if level = 3 then FATAL else DEBUG)"

definition grpc_V :: "(severity \<Rightarrow> bool) \<Rightarrow> int \<Rightarrow> bool" where
  "grpc_V enabled level = enabled (grpc_severity level)"

definition grpc_emit :: "(severity \<Rightarrow> bool) \<Rightarrow> instant \<Rightarrow> severity \<Rightarrow> string \<Rightarrow> bridge_record list \<Rightarrow> bridge_record list" where
  "grpc_emit enabled now lvl msg out =
     (if \<not> enabled lvl then out
      else out @ [\<lparr>br_Severity = lvl, br_Timestamp = now, br_Body = VString msg, br_Attributes = []\<rparr>])"

text \<open>The methods of \<^verbatim>\<open>LoggerV2\<close>, by level; those ending in \<^verbatim>\<open>ln\<close> print like the plain ones.\<close>

datatype grpc_level = GrpcInfo | GrpcWarning | GrpcError | GrpcFatal

fun grpc_level_severity :: "grpc_level \<Rightarrow> severity" where
  "grpc_level_severity GrpcInfo = INFO"
| "grpc_level_severity GrpcWarning = WARN"
| "grpc_level_severity GrpcError = ERROR"
| "grpc_level_severity GrpcFatal = FATAL"

definition grpc_print :: "('a list \<Rightarrow> string) \<Rightarrow> (severity \<Rightarrow> bool) \<Rightarrow> instant \<Rightarrow> grpc_level \<Rightarrow> 'a list \<Rightarrow> bridge_record list \<Rightarrow> bridge_record list" where
  "grpc_print sprint enabled now l args out = grpc_emit enabled now (grpc_level_severity l) (sprint args) out"

definition grpc_printf ::
    "(string \<Rightarrow> 'a list \<Rightarrow> string) \<Rightarrow> (severity \<Rightarrow> bool) \<Rightarrow> instant \<Rightarrow> grpc_level \<Rightarrow> string \<Rightarrow> 'a list \<Rightarrow> bridge_record list \<Rightarrow> bridge_record list" where
  "grpc_printf sprintf enabled now l format args out = grpc_emit enabled now (grpc_level_severity l) (sprintf format args) out"

section \<open>Properties\<close>

text \<open>The pair at a position of a list of keys and values.\<close>

definition kv_at :: "(any_value \<Rightarrow> string) \<Rightarrow> (any_value \<Rightarrow> string) \<Rightarrow> any_value list \<Rightarrow> nat \<Rightarrow> string \<times> log_value" where
  "kv_at pr print kvs i = (pr (kvs ! (2 * i)), convertValue print (kvs ! (2 * i + 1)))"

lemma length_drop_odd [simp]: "length (drop_odd kvs) = 2 * (length kvs div 2)"
  by (auto simp: drop_odd_def elim!: oddE)

lemma nth_drop_odd [simp]: "j < 2 * (length kvs div 2) \<Longrightarrow> drop_odd kvs ! j = kvs ! j"
  by (auto simp: drop_odd_def nth_butlast elim!: oddE)

lemma kv_at_drop_odd [simp]: "i < length kvs div 2 \<Longrightarrow> kv_at pr print (drop_odd kvs) i = kv_at pr print kvs i"
  by (simp add: kv_at_def)

lemma kv_loop_filter:
  "even i \<Longrightarrow> kv_loop pr print kvs n i = map (kv_at pr print kvs) (filter even [i..<n])"
proof (induction pr print kvs n i rule: kv_loop.induct)
  case (1 pr print kvs n i)
  consider "n \<le> i" | "n = Suc i" | "Suc (Suc i) \<le> n"
    by linarith
  then show ?case
  proof cases
    case 1
    then show ?thesis
      by (simp add: kv_loop.simps)
  next
    case 2
    then show ?thesis
      using "1.prems" by (simp add: kv_loop.simps kv_at_def mult.commute)
  next
    case 3
    then have "[i..<n] = i # Suc i # [i + 2..<n]"
      by (simp add: upt_conv_Cons)
    then show ?thesis
      using 3 "1.IH" "1.prems" by (subst kv_loop.simps) (simp add: kv_at_def mult.commute)
  qed
qed

text \<open>
  Of the keys and values given to the logr sink only every second pair becomes an attribute: the pairs at even positions, in their order and converted, after
  the attributes there were; those at odd positions are lost.
\<close>

theorem AddKeysAndValues_every_second:
  "AddKeysAndValues pr print kvs data = data @ map (kv_at pr print kvs) (filter even [0..<length kvs div 2])"
  by (simp add: AddKeysAndValues_def kv_loop_filter)

lemma kv_at_append: "i < length kvs div 2 \<Longrightarrow> kv_at pr print (kvs @ ys) i = kv_at pr print kvs i"
  by (auto simp: kv_at_def nth_append)

lemma kv_loop_append:
  assumes "length kvs mod 4 = 2"
  shows "kv_loop pr print (kvs @ [k, v]) (Suc (length kvs div 2)) 0 = kv_loop pr print kvs (length kvs div 2) 0"
proof -
  have "odd (length kvs div 2)"
    using assms by presburger
  then have "filter even [0..<Suc (length kvs div 2)] = filter even [0..<length kvs div 2]"
    by simp
  then show ?thesis
    by (auto simp: kv_loop_filter kv_at_append)
qed

text \<open>
  When the message of an error comes with an odd number of pairs, the record written by the logr sink has the attributes of the same message without the error:
  the error itself is lost.
\<close>

theorem logr_Error_loses_error:
  assumes "length kvs mod 4 = 2"
  shows "logr_Error pr print now h err message kvs out = out @ [convertRecord pr print now h ERROR message kvs]"
proof -
  have "drop_odd (kvs @ [GString ''error'', err]) = kvs @ [GString ''error'', err]" "drop_odd kvs = kvs"
    using assms by (auto simp: drop_odd_def) presburger+
  moreover have "length kvs div 2 > 0"
    using assms by presburger
  ultimately show ?thesis
    using assms by (simp add: logr_Error_def convertRecord_def AddKeysAndValues_def kv_loop_append)
qed

theorem logr_Error_loses_error_witness:
  "logr_Error (\<lambda>v. case v of GString s \<Rightarrow> s | _ \<Rightarrow> []) (\<lambda>_. ''failed'') 0 (logr_NewHandler 0 ''app'' []) (GOther ''failed'') ''cannot save''
     [GString ''id'', GInt 7] [] =
   [\<lparr>br_Severity = ERROR, br_Timestamp = 0, br_Body = VString ''cannot save'', br_Attributes = [(''id'', VInt64 7)]\<rparr>]"
proof -
  have "length [GString ''id'', GInt 7] mod 4 = 2"
    by simp
  from logr_Error_loses_error [OF this] show ?thesis
    by (simp add: convertRecord_def AddKeysAndValues_def drop_odd_def kv_loop.simps logr_NewHandler_def logr_newOptions_def attrs_List_def Let_def)
qed

lemma base_level_undefined: "logr_Enabled enabled (logr_NewHandler global name []) 0 = False"
  by (simp add: logr_Enabled_def logr_severity_def logr_NewHandler_def logr_newOptions_def OtelSeverity_def Let_def)

lemma map_entries_doubled: "convertValue print (GMap kvs) = VMap es \<Longrightarrow> length es = 2 * length kvs"
  by (auto simp: empty_entries_def)

lemma WithLevel_Enabled:
  "WithLevel front b = Inr lh \<Longrightarrow>
   level_Enabled enabled lh v = (front \<le> v \<and> (case b of Inl h \<Rightarrow> enabled h v | Inr (LevelHandler _ h) \<Rightarrow> enabled h v))"
  by (auto simp: WithLevel_def level_Enabled_def split: sum.splits level_handler.splits option.splits if_splits)

lemma otelAttribute_key_prefix: "(k', a) \<in> set (otelAttribute print (k, v)) \<Longrightarrow> \<exists>s. k' = k @ s"
proof (induction print "(k, v)" arbitrary: k v k' rule: otelAttribute.induct)
  case (6 print k kvs)
  then show ?case
    by fastforce
qed auto

end
