(* ===== verification/Go_Utf8.thy ===== *)
theory Go_Utf8
  imports Kit_Prelude
begin

text \<open>
  Texts of Go as sequences of runes: \<^verbatim>\<open>[]rune(s)\<close> decodes UTF-8, where a byte that starts no valid sequence becomes the replacement character on its own, and
  \<^verbatim>\<open>string(runes)\<close> encodes. Decoding what was encoded gives the runes back.
\<close>

type_synonym rune = nat

definition cont :: "nat \<Rightarrow> nat \<Rightarrow> nat \<Rightarrow> bool" where
  "cont lo hi b \<longleftrightarrow> lo \<le> b \<and> b \<le> hi"

text \<open>The rune that starts with a byte and the number of further bytes it takes.\<close>

definition rune_step :: "nat \<Rightarrow> nat list \<Rightarrow> rune \<times> nat" where
  "rune_step b bs =
     (if b < 0x80 then (b, 0)
      else if 0xC2 \<le> b \<and> b \<le> 0xDF then
        (case bs of
           b1 # _ \<Rightarrow> if cont 0x80 0xBF b1 then ((b - 0xC0) * 64 + (b1 - 0x80), 1) else (0xFFFD, 0)
         | [] \<Rightarrow> (0xFFFD, 0))
      else if 0xE0 \<le> b \<and> b \<le> 0xEF then
        (case bs of
           b1 # b2 # _ \<Rightarrow>
             if cont (if b = 0xE0 then 0xA0 else 0x80) (if b = 0xED then 0x9F else 0xBF) b1 \<and> cont 0x80 0xBF b2
             then ((b - 0xE0) * 4096 + (b1 - 0x80) * 64 + (b2 - 0x80), 2) else (0xFFFD, 0)
         | _ \<Rightarrow> (0xFFFD, 0))
      else if 0xF0 \<le> b \<and> b \<le> 0xF4 then
        (case bs of
           b1 # b2 # b3 # _ \<Rightarrow>
             if cont (if b = 0xF0 then 0x90 else 0x80) (if b = 0xF4 then 0x8F else 0xBF) b1 \<and> cont 0x80 0xBF b2 \<and> cont 0x80 0xBF b3
             then ((b - 0xF0) * 262144 + (b1 - 0x80) * 4096 + (b2 - 0x80) * 64 + (b3 - 0x80), 3) else (0xFFFD, 0)
         | _ \<Rightarrow> (0xFFFD, 0))
      else (0xFFFD, 0))"

function decode_runes :: "nat list \<Rightarrow> rune list" where
  "decode_runes [] = []"
| "decode_runes (b # bs) = fst (rune_step b bs) # decode_runes (drop (snd (rune_step b bs)) bs)"
  by pat_completeness auto
termination by (relation "measure length") auto

text \<open>A rune that is no Unicode scalar value is written as the replacement character.\<close>

definition scalar :: "rune \<Rightarrow> bool" where
  "scalar r \<longleftrightarrow> r < 0xD800 \<or> 0xDFFF < r \<and> r < 0x110000"

definition encode_scalar :: "rune \<Rightarrow> nat list" where
  "encode_scalar r =
     (if r < 0x80 then [r]
      else if r < 0x800 then [0xC0 + r div 64, 0x80 + r mod 64]
      else if r < 0x10000 then [0xE0 + r div 4096, 0x80 + r div 64 mod 64, 0x80 + r mod 64]
      else [0xF0 + r div 262144, 0x80 + r div 4096 mod 64, 0x80 + r div 64 mod 64, 0x80 + r mod 64])"

definition encode_rune :: "rune \<Rightarrow> nat list" where
  "encode_rune r = encode_scalar (if scalar r then r else 0xFFFD)"

definition runes :: "string \<Rightarrow> rune list" where
  "runes s = decode_runes (map of_char s)"

definition string_of_runes :: "rune list \<Rightarrow> string" where
  "string_of_runes rs = map char_of (concat (map encode_rune rs))"

subsection \<open>Decoding what was encoded\<close>

text \<open>The six-bit digits of a rune; the last place carries what is left of it.\<close>

lemma div_digits: "(r::nat) div 4096 = r div 64 div 64" "(r::nat) div 262144 = r div 64 div 64 div 64"
  by (simp_all add: div_mult2_eq [symmetric])

lemma digit_split: "\<exists>q d::nat. r div 64 = q \<and> r mod 64 = d \<and> r = q * 64 + d \<and> d < 64"
  by simp

lemma rune_step_encode:
  assumes "scalar r" and "encode_scalar r = b # bs"
  shows "rune_step b (bs @ rest) = (r, length bs)"
proof -
  obtain q0 d0 where 0: "r div 64 = q0" "r mod 64 = d0" "r = q0 * 64 + d0" "d0 < 64"
    using digit_split by blast
  obtain q1 d1 where 1: "q0 div 64 = q1" "q0 mod 64 = d1" "q0 = q1 * 64 + d1" "d1 < 64"
    using digit_split by blast
  obtain q2 d2 where 2: "q1 div 64 = q2" "q1 mod 64 = d2" "q1 = q2 * 64 + d2" "d2 < 64"
    using digit_split by blast
  have enc: "encode_scalar r =
     (if r < 0x80 then [r]
      else if r < 0x800 then [0xC0 + q0, 0x80 + d0]
      else if r < 0x10000 then [0xE0 + q1, 0x80 + d1, 0x80 + d0]
      else [0xF0 + q2, 0x80 + d2, 0x80 + d1, 0x80 + d0])"
    by (simp add: encode_scalar_def div_digits 0(1,2) 1(1,2) 2(1,2))
  note d = 0(3,4) 1(3,4) 2(3,4)
  consider "r < 0x80" | "0x80 \<le> r" "r < 0x800" | "0x800 \<le> r" "r < 0x10000" | "0x10000 \<le> r" "r < 0x110000"
    using assms(1) unfolding scalar_def by linarith
  then show ?thesis
  proof cases
    case 1
    then show ?thesis
      using assms(2) by (auto simp: enc rune_step_def)
  next
    case 2
    have "2 \<le> q0" "q0 \<le> 31"
      using 2 d by linarith+
    moreover have "b = 0xC0 + q0" "bs = [0x80 + d0]"
      using 2 assms(2) by (simp_all add: enc)
    ultimately show ?thesis
      using d(2) by (simp add: rune_step_def cont_def d(1) [symmetric])
  next
    case 3
    have "q1 \<le> 15" "32 \<le> d1 \<or> q1 \<noteq> 0" "d1 < 32 \<or> q1 \<noteq> 13"
      using 3 assms(1) d unfolding scalar_def by linarith+
    moreover have "b = 0xE0 + q1" "bs = [0x80 + d1, 0x80 + d0]"
      using 3 assms(2) by (simp_all add: enc)
    moreover have "q1 * 4096 + d1 * 64 + d0 = r"
      using d by linarith
    ultimately show ?thesis
      using d(2,4) by (simp add: rune_step_def cont_def) auto
  next
    case 4
    have "q2 \<le> 4" "16 \<le> d2 \<or> q2 \<noteq> 0" "d2 < 16 \<or> q2 \<noteq> 4"
      using 4 d by linarith+
    moreover have "b = 0xF0 + q2" "bs = [0x80 + d2, 0x80 + d1, 0x80 + d0]"
      using 4 assms(2) by (simp_all add: enc)
    moreover have "q2 * 262144 + d2 * 4096 + d1 * 64 + d0 = r"
      using d by linarith
    ultimately show ?thesis
      using d(2,4,6) by (simp add: rune_step_def cont_def) auto
  qed
qed

lemma encode_scalar_Cons: obtains b bs where "encode_scalar r = b # bs"
  by (cases "encode_scalar r") (auto simp: encode_scalar_def split: if_splits)

lemma decode_encode_scalar:
  assumes "scalar r"
  shows "decode_runes (encode_scalar r @ rest) = r # decode_runes rest"
proof -
  obtain b bs where e: "encode_scalar r = b # bs"
    by (rule encode_scalar_Cons)
  show ?thesis
    using rune_step_encode [OF assms e, of rest] by (simp add: e)
qed

lemma decode_encode_rune: "decode_runes (encode_rune r @ rest) = (if scalar r then r else 0xFFFD) # decode_runes rest"
  by (simp add: encode_rune_def decode_encode_scalar scalar_def)

lemma decode_encode_runes:
  "decode_runes (concat (map encode_rune rs) @ rest) = map (\<lambda>r. if scalar r then r else 0xFFFD) rs @ decode_runes rest"
  by (induction rs) (simp_all add: decode_encode_rune)

lemma encode_scalar_byte: "scalar r \<Longrightarrow> list_all (\<lambda>b. b < 256) (encode_scalar r)"
  by (simp add: encode_scalar_def scalar_def) linarith

lemma encode_rune_byte: "list_all (\<lambda>b. b < 256) (encode_rune r)"
  using encode_scalar_byte [of "if scalar r then r else 0xFFFD"] by (simp add: encode_rune_def scalar_def split: if_splits)

lemma of_char_encoded: "map of_char (string_of_runes rs) = concat (map encode_rune rs)"
  using encode_rune_byte unfolding string_of_runes_def by (induction rs) (auto simp: list_all_iff intro!: map_idI)

lemma runes_string_append:
  "runes (string_of_runes rs @ s) = map (\<lambda>r. if scalar r then r else 0xFFFD) rs @ runes s"
  by (simp add: runes_def of_char_encoded decode_encode_runes)

lemma runes_ascii: "list_all (\<lambda>c. of_char c < (128::nat)) s \<Longrightarrow> runes s = map of_char s"
  by (induction s) (simp_all add: runes_def rune_step_def)

subsection \<open>Decoded runes are scalar values\<close>

lemma scalar3:
  assumes "224 \<le> b" "b \<le> 239" "cont (if b = 224 then 160 else 128) (if b = 237 then 159 else 191) b1" "cont 128 191 b2"
  shows "scalar ((b - 224) * 4096 + (b1 - 128) * 64 + (b2 - 128))"
proof -
  obtain q where q: "b = 224 + q" "q \<le> 15"
    using assms(1,2) le_Suc_ex by force
  have "128 \<le> b1" "128 \<le> b2"
    using assms(3,4) by (auto simp: cont_def split: if_splits)
  then obtain d1 d2 where d: "b1 = 128 + d1" "b2 = 128 + d2"
    using le_Suc_ex by blast
  have bound: "d1 < 64" "d2 < 64" "q \<noteq> 13 \<or> d1 < 32"
    using assms(3,4) q d by (auto simp: cont_def split: if_splits)
  have "q * 4096 + d1 * 64 + d2 < 65536"
    using bound(1,2) q(2) by linarith
  moreover consider "q \<le> 12" | "q = 13" | "14 \<le> q"
    by linarith
  then have "q * 4096 + d1 * 64 + d2 < 55296 \<or> 57343 < q * 4096 + d1 * 64 + d2"
    by cases (use bound in linarith)+
  ultimately show ?thesis
    by (simp add: scalar_def q(1) d)
qed

lemma scalar4:
  assumes "240 \<le> b" "b \<le> 244" "cont (if b = 240 then 144 else 128) (if b = 244 then 143 else 191) b1" "cont 128 191 b2" "cont 128 191 b3"
  shows "scalar ((b - 240) * 262144 + (b1 - 128) * 4096 + (b2 - 128) * 64 + (b3 - 128))"
proof -
  obtain q where q: "b = 240 + q" "q \<le> 4"
    using assms(1,2) le_Suc_ex by force
  have "128 \<le> b1" "128 \<le> b2" "128 \<le> b3"
    using assms(3-5) by (auto simp: cont_def split: if_splits)
  then obtain d1 d2 d3 where d: "b1 = 128 + d1" "b2 = 128 + d2" "b3 = 128 + d3"
    using le_Suc_ex by metis
  have "d1 < 64" "d2 < 64" "d3 < 64" "q \<noteq> 0 \<or> 16 \<le> d1" "q \<noteq> 4 \<or> d1 < 16"
    using assms(3-5) q d by (auto simp: cont_def split: if_splits)
  then have "57343 < q * 262144 + d1 * 4096 + d2 * 64 + d3" "q * 262144 + d1 * 4096 + d2 * 64 + d3 < 1114112"
    using q(2) by linarith+
  then show ?thesis
    by (simp add: scalar_def q(1) d)
qed

lemma scalar2: "b \<le> 223 \<Longrightarrow> cont 128 191 b1 \<Longrightarrow> scalar ((b - 192) * 64 + (b1 - 128))"
  by (simp add: scalar_def cont_def) linarith

lemma scalar_replacement [simp]: "scalar 65533"
  by (simp add: scalar_def)

lemma scalar_rune_step: "scalar (fst (rune_step b bs))"
proof -
  consider "b < 128" | "128 \<le> b" "b < 194" | "194 \<le> b" "b \<le> 223" | "224 \<le> b" "b \<le> 239" | "240 \<le> b" "b \<le> 244" | "244 < b"
    by linarith
  then show ?thesis
  proof cases
    case 1
    then show ?thesis by (simp add: rune_step_def scalar_def)
  next
    case 2
    then show ?thesis by (simp add: rune_step_def)
  next
    case 3
    then show ?thesis by (simp add: rune_step_def scalar2 split: list.split)
  next
    case 4
    let ?ok = "\<lambda>b1 b2. cont (if b = 224 then 160 else 128) (if b = 237 then 159 else 191) b1 \<and> cont 128 191 b2"
    have "fst (rune_step b bs) =
        (case bs of b1 # b2 # _ \<Rightarrow> if ?ok b1 b2 then (b - 224) * 4096 + (b1 - 128) * 64 + (b2 - 128) else 65533 | _ \<Rightarrow> 65533)"
      using 4 by (simp add: rune_step_def split: list.split)
    moreover have "scalar (if ?ok b1 b2 then (b - 224) * 4096 + (b1 - 128) * 64 + (b2 - 128) else 65533)" for b1 b2
      using scalar3 [OF 4] by (cases "?ok b1 b2") (simp_all only: if_True if_False simp_thms scalar_replacement)
    ultimately show ?thesis
      by (simp only: split: list.split) simp
  next
    case 5
    let ?ok = "\<lambda>b1 b2 b3. cont (if b = 240 then 144 else 128) (if b = 244 then 143 else 191) b1 \<and> cont 128 191 b2 \<and> cont 128 191 b3"
    let ?r = "\<lambda>b1 b2 b3. (b - 240) * 262144 + (b1 - 128) * 4096 + (b2 - 128) * 64 + (b3 - 128)"
    have "fst (rune_step b bs) =
        (case bs of b1 # b2 # b3 # _ \<Rightarrow> if ?ok b1 b2 b3 then ?r b1 b2 b3 else 65533 | _ \<Rightarrow> 65533)"
      using 5 by (simp add: rune_step_def split: list.split)
    moreover have "scalar (if ?ok b1 b2 b3 then ?r b1 b2 b3 else 65533)" for b1 b2 b3
      using scalar4 [OF 5] by (cases "?ok b1 b2 b3") (simp_all only: if_True if_False simp_thms scalar_replacement)
    ultimately show ?thesis
      by (simp only: split: list.split) simp
  next
    case 6
    then show ?thesis by (simp add: rune_step_def)
  qed
qed

lemma runes_scalar: "list_all scalar (runes s)"
proof -
  have "list_all scalar (decode_runes bs)" for bs
    by (induction bs rule: decode_runes.induct) (simp_all add: scalar_rune_step)
  then show ?thesis
    by (simp add: runes_def)
qed

end
