(* ===== verification/Otel_Pgx.thy ===== *)
theory Otel_Pgx
  imports Otel_Codec Go_Utf8 Grpc_Client
begin

text \<open>
  \<^verbatim>\<open>src/infra/otel/instrumentation/pgx\<close>: the tracer of the PostgreSQL driver (\<^verbatim>\<open>pgx.go\<close>) with its options (\<^verbatim>\<open>options.go\<close>), the attributes made of arguments (\<^verbatim>\<open>attr.go\<close>)
  and the keys of \<^verbatim>\<open>src/infra/otel/semconv\<close>. The spans of the program are a list in the order of their start; a context holds the number of its span. Whether
  a new span records is decided by the sampler, a parameter; on a span that does not record, or has ended, every operation does nothing.
\<close>

section \<open>Keys\<close>

definition DBRowsAffectedKey :: string where "DBRowsAffectedKey = ''db.rows_affected''"
definition DBQueryParametersKey :: string where "DBQueryParametersKey = ''db.query.parameters''"
definition DBBatchSizeKey :: string where "DBBatchSizeKey = ''db.batch.size''"
definition DBPrepareStmtNameKey :: string where "DBPrepareStmtNameKey = ''db.prepare_stmt.name''"
definition DBSQLStateKey :: string where "DBSQLStateKey = ''db.sql_state''"
definition DBUserKey :: string where "DBUserKey = ''db.user''"
definition DBStatementKey :: string where "DBStatementKey = ''db.statement''"
definition DBSQLTableKey :: string where "DBSQLTableKey = ''db.sql_table''"

text \<open>Of the OpenTelemetry conventions.\<close>

definition ClientAddressKey :: string where "ClientAddressKey = ''client.address''"
definition ClientPortKey :: string where "ClientPortKey = ''client.port''"
definition DBSystemPostgreSQL :: "string \<times> attr_value" where "DBSystemPostgreSQL = (''db.system'', AString ''postgresql'')"

section \<open>Attributes of arguments\<close>

text \<open>\<^verbatim>\<open>strings.Fields\<close>, of which only the first word is used.\<close>

definition SQLOperationName :: "string \<Rightarrow> string" where
  "SQLOperationName query =
     (let word = takeWhile (\<lambda>c. \<not> is_space c) (dropWhile is_space query)
      in if word = [] then ''UNKNOWN'' else to_upper word)"

definition shortenedPattern :: string where
  "shortenedPattern = ''... (more than 256 chars)''"

definition shortenString :: "string \<Rightarrow> string" where
  "shortenString s =
     (let rs = runes s
      in if length rs \<le> 256 then s
         else string_of_runes (take (256 - length shortenedPattern) rs) @ shortenedPattern)"

definition KeyValueDuration :: "string \<Rightarrow> duration \<Rightarrow> string \<times> attr_value" where
  "KeyValueDuration key d =
     (if 1000 \<le> d \<and> d < 1000000 then (key, AString (fmt_int (d div 1000) @ ''us'')) else (key, AString (duration_String d)))"

text \<open>What an argument holds; a pointer to a number, truth value or text may be nil. Anything else is its print with \<^verbatim>\<open>%v\<close>.\<close>

datatype pgx_arg =
    PNil
  | PInt int
  | PInt64 int
  | PFloat64 u64
  | PBool bool
  | PBytes string
  | PString string
  | PInts "int list"
  | PInt64s "int list"
  | PFloat64s "u64 list"
  | PBools "bool list"
  | PPtr "pgx_arg option"
  | PDuration duration
  | POther string

fun pgx_KeyValue :: "string \<Rightarrow> pgx_arg \<Rightarrow> string \<times> attr_value" where
  "pgx_KeyValue key PNil = (key, AString [])"
| "pgx_KeyValue key (PInt i) = (key, AInt64 i)"
| "pgx_KeyValue key (PInt64 i) = (key, AInt64 i)"
| "pgx_KeyValue key (PFloat64 f) = (key, AFloat64 f)"
| "pgx_KeyValue key (PBool b) = (key, ABool b)"
| "pgx_KeyValue key (PBytes s) = (key, AString (shortenString s))"
| "pgx_KeyValue key (PString s) = (key, AString (shortenString s))"
| "pgx_KeyValue key (PInts xs) = (key, AInt64Slice xs)"
| "pgx_KeyValue key (PInt64s xs) = (key, AInt64Slice xs)"
| "pgx_KeyValue key (PFloat64s xs) = (key, AFloat64Slice xs)"
| "pgx_KeyValue key (PBools xs) = (key, ABoolSlice xs)"
| "pgx_KeyValue key (PPtr None) = (key, AString [])"
| "pgx_KeyValue key (PPtr (Some v)) = pgx_KeyValue key v"
| "pgx_KeyValue key (PDuration d) = KeyValueDuration key d"
| "pgx_KeyValue key (POther s) = (key, AString (shortenString s))"

record named_arg =
  na_Name :: string
  na_Ordinal :: int
  na_Value :: pgx_arg

definition KeyFromNamedValue :: "named_arg \<Rightarrow> string" where
  "KeyFromNamedValue arg =
     DBQueryParametersKey @ ''.'' @ (if na_Name arg \<noteq> [] then na_Name arg else fmt_int (na_Ordinal arg))"

definition FromNamedValue :: "named_arg \<Rightarrow> string \<times> attr_value" where
  "FromNamedValue arg = pgx_KeyValue (KeyFromNamedValue arg) (na_Value arg)"

section \<open>Spans\<close>

record pgx_span =
  sp_Name :: string
  sp_Parent :: "nat option"
  sp_Attrs :: "(string \<times> attr_value) list"
  sp_Errors :: "string list"
  sp_Status :: "string option"
  sp_Sampled :: bool
  sp_Ended :: bool

text \<open>A context without a span has the one that never records.\<close>

definition IsRecording :: "nat option \<Rightarrow> pgx_span list \<Rightarrow> bool" where
  "IsRecording ctx w = (case ctx of Some i \<Rightarrow> i < length w \<and> sp_Sampled (w ! i) \<and> \<not> sp_Ended (w ! i) | None \<Rightarrow> False)"

definition on_span :: "(pgx_span \<Rightarrow> pgx_span) \<Rightarrow> nat option \<Rightarrow> pgx_span list \<Rightarrow> pgx_span list" where
  "on_span f ctx w = (if IsRecording ctx w then (case ctx of Some i \<Rightarrow> w[i := f (w ! i)] | None \<Rightarrow> w) else w)"

definition span_SetAttributes :: "(string \<times> attr_value) list \<Rightarrow> nat option \<Rightarrow> pgx_span list \<Rightarrow> pgx_span list" where
  "span_SetAttributes kvs = on_span (\<lambda>s. s\<lparr>sp_Attrs := sp_Attrs s @ kvs\<rparr>)"

definition span_Fail :: "string \<Rightarrow> nat option \<Rightarrow> pgx_span list \<Rightarrow> pgx_span list" where
  "span_Fail err = on_span (\<lambda>s. s\<lparr>sp_Errors := sp_Errors s @ [err], sp_Status := Some err\<rparr>)"

definition span_End :: "nat option \<Rightarrow> pgx_span list \<Rightarrow> pgx_span list" where
  "span_End = on_span (\<lambda>s. s\<lparr>sp_Ended := True\<rparr>)"

type_synonym sampler = "string \<Rightarrow> nat option \<Rightarrow> bool"

definition span_Start ::
    "sampler \<Rightarrow> nat option \<Rightarrow> string \<Rightarrow> (string \<times> attr_value) list \<Rightarrow> pgx_span list \<Rightarrow> nat option \<times> pgx_span list" where
  "span_Start sample ctx name attrs w =
     (Some (length w),
      w @ [\<lparr>sp_Name = name, sp_Parent = ctx, sp_Attrs = attrs, sp_Errors = [], sp_Status = None, sp_Sampled = sample name ctx, sp_Ended = False\<rparr>])"

section \<open>The tracer\<close>

record pgx_tracer =
  tr_provider :: nat
  tr_attrs :: "(string \<times> attr_value) list"
  tr_trimQuerySpanName :: bool
  tr_spanNameFunc :: "(string \<Rightarrow> string) option"
  tr_prefixQuerySpanName :: bool
  tr_logSQLStatement :: bool
  tr_includeParams :: bool

datatype pgx_option =
    WithTracerProvider "nat option"
  | WithAttributes "(string \<times> attr_value) list"
  | WithTrimSQLInSpanName
  | WithSpanNameFunc "(string \<Rightarrow> string) option"
  | WithDisableQuerySpanNamePrefix
  | WithDisableSQLStatementInAttributes
  | WithIncludeQueryParameters

fun pgx_apply :: "pgx_option \<Rightarrow> pgx_tracer \<Rightarrow> pgx_tracer" where
  "pgx_apply (WithTracerProvider provider) cfg = (case provider of Some p \<Rightarrow> cfg\<lparr>tr_provider := p\<rparr> | None \<Rightarrow> cfg)"
| "pgx_apply (WithAttributes attrs) cfg = cfg\<lparr>tr_attrs := tr_attrs cfg @ attrs\<rparr>"
| "pgx_apply WithTrimSQLInSpanName cfg = cfg\<lparr>tr_trimQuerySpanName := True\<rparr>"
| "pgx_apply (WithSpanNameFunc fn) cfg = cfg\<lparr>tr_spanNameFunc := fn\<rparr>"
| "pgx_apply WithDisableQuerySpanNamePrefix cfg = cfg\<lparr>tr_prefixQuerySpanName := False\<rparr>"
| "pgx_apply WithDisableSQLStatementInAttributes cfg = cfg\<lparr>tr_logSQLStatement := False\<rparr>"
| "pgx_apply WithIncludeQueryParameters cfg = cfg\<lparr>tr_includeParams := True\<rparr>"

definition NewTracer :: "nat \<Rightarrow> pgx_option list \<Rightarrow> pgx_tracer" where
  "NewTracer global opts =
     fold pgx_apply opts
       \<lparr>tr_provider = global, tr_attrs = [DBSystemPostgreSQL], tr_trimQuerySpanName = False, tr_spanNameFunc = None,
        tr_prefixQuerySpanName = True, tr_logSQLStatement = True, tr_includeParams = False\<rparr>"

text \<open>An error: its text, whether \<^verbatim>\<open>errors.Is\<close> finds \<^verbatim>\<open>pgx.ErrNoRows\<close> in it, the code of the PostgreSQL error \<^verbatim>\<open>errors.As\<close> finds.\<close>

record pgx_error =
  px_Error :: string
  px_noRows :: bool
  px_Code :: "string option"

definition recordError :: "nat option \<Rightarrow> pgx_error option \<Rightarrow> pgx_span list \<Rightarrow> pgx_span list" where
  "recordError sp err w =
     (case err of
        None \<Rightarrow> w
      | Some e \<Rightarrow>
          if px_noRows e then w
          else
            (let w = span_Fail (px_Error e) sp w
             in case px_Code e of Some c \<Rightarrow> span_SetAttributes [(DBSQLStateKey, AString c)] sp w | None \<Rightarrow> w))"

record conn_cfg =
  cc_Host :: string
  cc_Port :: nat
  cc_User :: string

definition connectionAttributesFromConfig :: "conn_cfg option \<Rightarrow> (string \<times> attr_value) list" where
  "connectionAttributesFromConfig config =
     (case config of
        Some c \<Rightarrow> [(ClientAddressKey, AString (cc_Host c)), (ClientPortKey, AInt64 (int (cc_Port c))), (DBUserKey, AString (cc_User c))]
      | None \<Rightarrow> [])"

text \<open>The attributes of a connection, which may be nil.\<close>

definition conn_attrs :: "conn_cfg option option \<Rightarrow> (string \<times> attr_value) list" where
  "conn_attrs conn = (case conn of Some config \<Rightarrow> connectionAttributesFromConfig config | None \<Rightarrow> [])"

text \<open>\<open>printv\<close> prints an argument with \<^verbatim>\<open>%+v\<close>.\<close>

definition makeParamsAttribute :: "('a \<Rightarrow> string) \<Rightarrow> 'a list \<Rightarrow> string \<times> attr_value" where
  "makeParamsAttribute printv args = (DBQueryParametersKey, AStringSlice (map printv args))"

definition statement_attrs :: "('a \<Rightarrow> string) \<Rightarrow> pgx_tracer \<Rightarrow> string \<Rightarrow> 'a list \<Rightarrow> (string \<times> attr_value) list" where
  "statement_attrs printv t sql args =
     (if tr_logSQLStatement t
      then [(DBStatementKey, AString sql)] @ (if tr_includeParams t then [makeParamsAttribute printv args] else []) else [])"

definition TraceQueryStart ::
    "sampler \<Rightarrow> ('a \<Rightarrow> string) \<Rightarrow> pgx_tracer \<Rightarrow> nat option \<Rightarrow> conn_cfg option option \<Rightarrow> string \<Rightarrow> 'a list \<Rightarrow> pgx_span list \<Rightarrow>
       nat option \<times> pgx_span list" where
  "TraceQueryStart sample printv t ctx conn sql args w =
     (if \<not> IsRecording ctx w then (ctx, w)
      else
        (let spanName = (if tr_trimQuerySpanName t then SQLOperationName sql else sql);
             spanName = (if tr_prefixQuerySpanName t then ''db.Query.'' @ spanName else spanName)
         in span_Start sample ctx spanName (tr_attrs t @ conn_attrs conn @ statement_attrs printv t sql args) w))"

text \<open>The end of a call that affects rows.\<close>

definition end_rows :: "nat option \<Rightarrow> pgx_error option \<Rightarrow> int \<Rightarrow> pgx_span list \<Rightarrow> pgx_span list" where
  "end_rows ctx err rows w =
     (let w = recordError ctx err w;
          w = (if err = None then span_SetAttributes [(DBRowsAffectedKey, AInt64 rows)] ctx w else w)
      in span_End ctx w)"

definition TraceQueryEnd :: "nat option \<Rightarrow> pgx_error option \<Rightarrow> int \<Rightarrow> pgx_span list \<Rightarrow> pgx_span list" where
  "TraceQueryEnd = end_rows"

definition TraceCopyFromStart ::
    "sampler \<Rightarrow> pgx_tracer \<Rightarrow> nat option \<Rightarrow> conn_cfg option option \<Rightarrow> string \<Rightarrow> pgx_span list \<Rightarrow> nat option \<times> pgx_span list" where
  "TraceCopyFromStart sample t ctx conn table w =
     (if \<not> IsRecording ctx w then (ctx, w)
      else span_Start sample ctx (''db.CopyFrom.'' @ table) (tr_attrs t @ [(DBSQLTableKey, AString table)] @ conn_attrs conn) w)"

definition TraceCopyFromEnd :: "nat option \<Rightarrow> pgx_error option \<Rightarrow> int \<Rightarrow> pgx_span list \<Rightarrow> pgx_span list" where
  "TraceCopyFromEnd = end_rows"

definition TraceBatchStart ::
    "sampler \<Rightarrow> pgx_tracer \<Rightarrow> nat option \<Rightarrow> conn_cfg option option \<Rightarrow> nat option \<Rightarrow> pgx_span list \<Rightarrow> nat option \<times> pgx_span list" where
  "TraceBatchStart sample t ctx conn batch w =
     (if \<not> IsRecording ctx w then (ctx, w)
      else
        span_Start sample ctx ''db.BatchStart.''
          (tr_attrs t @ [(DBBatchSizeKey, AInt64 (case batch of Some n \<Rightarrow> int n | None \<Rightarrow> 0))] @ conn_attrs conn) w)"

definition TraceBatchQuery ::
    "sampler \<Rightarrow> ('a \<Rightarrow> string) \<Rightarrow> pgx_tracer \<Rightarrow> nat option \<Rightarrow> conn_cfg option option \<Rightarrow> string \<Rightarrow> 'a list \<Rightarrow> pgx_error option \<Rightarrow>
       pgx_span list \<Rightarrow> pgx_span list" where
  "TraceBatchQuery sample printv t ctx conn sql args err w =
     (if \<not> IsRecording ctx w then w
      else
        (let spanName =
               (if tr_trimQuerySpanName t
                then (if tr_prefixQuerySpanName t then ''db.Query.'' @ SQLOperationName sql else SQLOperationName sql)
                else (if tr_prefixQuerySpanName t then ''db.BatchQuery.'' @ sql else sql));
             (sp, w) = span_Start sample ctx spanName (tr_attrs t @ conn_attrs conn @ statement_attrs printv t sql args) w
         in span_End sp (recordError sp err w)))"

definition end_plain :: "nat option \<Rightarrow> pgx_error option \<Rightarrow> pgx_span list \<Rightarrow> pgx_span list" where
  "end_plain ctx err w = span_End ctx (recordError ctx err w)"

definition TraceBatchEnd :: "nat option \<Rightarrow> pgx_error option \<Rightarrow> pgx_span list \<Rightarrow> pgx_span list" where
  "TraceBatchEnd = end_plain"

definition TraceConnectStart :: "sampler \<Rightarrow> pgx_tracer \<Rightarrow> nat option \<Rightarrow> conn_cfg option \<Rightarrow> pgx_span list \<Rightarrow> nat option \<times> pgx_span list" where
  "TraceConnectStart sample t ctx config w =
     (if \<not> IsRecording ctx w then (ctx, w)
      else span_Start sample ctx ''db.Connect'' (tr_attrs t @ connectionAttributesFromConfig config) w)"

definition TraceConnectEnd :: "nat option \<Rightarrow> pgx_error option \<Rightarrow> pgx_span list \<Rightarrow> pgx_span list" where
  "TraceConnectEnd = end_plain"

text \<open>The option made for the name of the statement is not added to the options.\<close>

definition TracePrepareStart ::
    "sampler \<Rightarrow> pgx_tracer \<Rightarrow> nat option \<Rightarrow> conn_cfg option option \<Rightarrow> string \<Rightarrow> string \<Rightarrow> pgx_span list \<Rightarrow> nat option \<times> pgx_span list" where
  "TracePrepareStart sample t ctx conn name sql w =
     (if \<not> IsRecording ctx w then (ctx, w)
      else
        (let spanName = (if tr_trimQuerySpanName t then SQLOperationName sql else sql);
             spanName = (if tr_prefixQuerySpanName t then ''db.Prepare.'' @ spanName else spanName)
         in span_Start sample ctx spanName
              (tr_attrs t @ conn_attrs conn @ (if tr_logSQLStatement t then [(DBStatementKey, AString sql)] else [])) w))"

definition TracePrepareEnd :: "nat option \<Rightarrow> pgx_error option \<Rightarrow> pgx_span list \<Rightarrow> pgx_span list" where
  "TracePrepareEnd = end_plain"

section \<open>Calls of the driver\<close>

text \<open>
  A call of the driver with what it calls in turn: the driver announces the start, makes the inner calls with the context it was given back, and announces the end
  with the outcome. The queries of a batch are announced when they are done.
\<close>

datatype pgx_kind =
    CallQuery "conn_cfg option option" string "string list" "pgx_error option" int
  | CallCopyFrom "conn_cfg option option" string "pgx_error option" int
  | CallBatch "conn_cfg option option" "nat option" "pgx_error option"
  | CallBatchQuery "conn_cfg option option" string "string list" "pgx_error option"
  | CallConnect "conn_cfg option" "pgx_error option"
  | CallPrepare "conn_cfg option option" string string "pgx_error option"

datatype pgx_call = PgxCall pgx_kind "pgx_call list"

fun call_start :: "sampler \<Rightarrow> pgx_tracer \<Rightarrow> pgx_kind \<Rightarrow> nat option \<Rightarrow> pgx_span list \<Rightarrow> nat option \<times> pgx_span list" where
  "call_start sample t (CallQuery conn sql args err rows) ctx w = TraceQueryStart sample id t ctx conn sql args w"
| "call_start sample t (CallCopyFrom conn table err rows) ctx w = TraceCopyFromStart sample t ctx conn table w"
| "call_start sample t (CallBatch conn batch err) ctx w = TraceBatchStart sample t ctx conn batch w"
| "call_start sample t (CallBatchQuery conn sql args err) ctx w = (ctx, TraceBatchQuery sample id t ctx conn sql args err w)"
| "call_start sample t (CallConnect config err) ctx w = TraceConnectStart sample t ctx config w"
| "call_start sample t (CallPrepare conn name sql err) ctx w = TracePrepareStart sample t ctx conn name sql w"

fun call_end :: "pgx_kind \<Rightarrow> nat option \<Rightarrow> pgx_span list \<Rightarrow> pgx_span list" where
  "call_end (CallQuery conn sql args err rows) ctx w = TraceQueryEnd ctx err rows w"
| "call_end (CallCopyFrom conn table err rows) ctx w = TraceCopyFromEnd ctx err rows w"
| "call_end (CallBatch conn batch err) ctx w = TraceBatchEnd ctx err w"
| "call_end (CallBatchQuery conn sql args err) ctx w = w"
| "call_end (CallConnect config err) ctx w = TraceConnectEnd ctx err w"
| "call_end (CallPrepare conn name sql err) ctx w = TracePrepareEnd ctx err w"

fun run_call :: "sampler \<Rightarrow> pgx_tracer \<Rightarrow> nat option \<Rightarrow> pgx_call \<Rightarrow> pgx_span list \<Rightarrow> pgx_span list" where
  "run_call sample t ctx (PgxCall k cs) w =
     (case call_start sample t k ctx w of (ctx', w') \<Rightarrow> call_end k ctx' (fold (run_call sample t ctx') cs w'))"

section \<open>Spans are closed\<close>

definition valid_ctx :: "nat option \<Rightarrow> pgx_span list \<Rightarrow> bool" where
  "valid_ctx ctx w = (case ctx of Some i \<Rightarrow> i < length w | None \<Rightarrow> True)"

text \<open>The spans there were are untouched; those that came are closed, unless the sampler dropped them.\<close>

definition closed_span :: "pgx_span \<Rightarrow> bool" where
  "closed_span s \<longleftrightarrow> (sp_Sampled s \<longrightarrow> sp_Ended s)"

definition only_closed :: "pgx_span list \<Rightarrow> pgx_span list \<Rightarrow> bool" where
  "only_closed w w' \<longleftrightarrow> take (length w) w' = w \<and> list_all closed_span (drop (length w) w')"

lemma only_closed_iff: "only_closed w w' \<longleftrightarrow> (\<exists>new. w' = w @ new \<and> list_all closed_span new)"
proof
  assume "only_closed w w'"
  then have "w' = w @ drop (length w) w'" "list_all closed_span (drop (length w) w')"
    using append_take_drop_id [of "length w" w'] by (auto simp: only_closed_def)
  then show "\<exists>new. w' = w @ new \<and> list_all closed_span new"
    by blast
qed (auto simp: only_closed_def)

lemma only_closed_refl [simp]: "only_closed w w"
  by (simp add: only_closed_def)

lemma only_closed_trans: "only_closed w w' \<Longrightarrow> only_closed w' w'' \<Longrightarrow> only_closed w w''"
  by (auto simp: only_closed_iff)

lemma valid_ctx_extend: "valid_ctx ctx w \<Longrightarrow> valid_ctx ctx (w @ new)"
  by (auto simp: valid_ctx_def split: option.splits)

lemma IsRecording_extend: "valid_ctx ctx w \<Longrightarrow> IsRecording ctx (w @ new) = IsRecording ctx w"
  by (auto simp: valid_ctx_def IsRecording_def nth_append split: option.splits)

lemma on_span_not_recording [simp]: "\<not> IsRecording ctx w \<Longrightarrow> on_span f ctx w = w"
  by (simp add: on_span_def)

lemma on_span_new:
  "on_span f (Some (length w)) (w @ s # new) = w @ (if sp_Sampled s \<and> \<not> sp_Ended s then f s else s) # new"
  by (simp add: on_span_def IsRecording_def)

text \<open>The ends of calls do nothing to a span that does not record, and close the span they are given.\<close>

lemma recordError_not_recording [simp]: "\<not> IsRecording ctx w \<Longrightarrow> recordError ctx err w = w"
  by (simp add: recordError_def span_Fail_def span_SetAttributes_def split: option.split)

lemma end_not_recording: "\<not> IsRecording ctx w \<Longrightarrow> call_end k ctx w = w"
  by (cases k)
    (simp_all add: TraceQueryEnd_def TraceCopyFromEnd_def TraceBatchEnd_def TraceConnectEnd_def TracePrepareEnd_def end_rows_def end_plain_def
      span_SetAttributes_def span_End_def)

lemma recordError_new:
  "\<exists>s'. recordError (Some (length w)) err (w @ s # new) = w @ s' # new \<and> sp_Sampled s' = sp_Sampled s \<and> sp_Ended s' = sp_Ended s"
  by (auto simp: recordError_def span_Fail_def span_SetAttributes_def on_span_new Let_def split: option.split)

lemma end_plain_new: "\<exists>s'. end_plain (Some (length w)) err (w @ s # new) = w @ s' # new \<and> closed_span s'"
  using recordError_new [of w err s new] by (auto simp: end_plain_def span_End_def on_span_new closed_span_def)

lemma end_rows_new: "\<exists>s'. end_rows (Some (length w)) err rows (w @ s # new) = w @ s' # new \<and> closed_span s'"
  using recordError_new [of w err s new]
  by (auto simp: end_rows_def span_End_def span_SetAttributes_def on_span_new closed_span_def Let_def)

lemmas pgx_start_defs = TraceQueryStart_def TraceCopyFromStart_def TraceBatchStart_def TraceConnectStart_def TracePrepareStart_def
lemmas pgx_end_defs = TraceQueryEnd_def TraceCopyFromEnd_def TraceBatchEnd_def TraceConnectEnd_def TracePrepareEnd_def

definition is_batch_query :: "pgx_kind \<Rightarrow> bool" where
  "is_batch_query k = (case k of CallBatchQuery conn sql args err \<Rightarrow> True | _ \<Rightarrow> False)"

lemma call_end_new:
  assumes "\<not> is_batch_query k"
  shows "\<exists>s'. call_end k (Some (length w)) (w @ s # new) = w @ s' # new \<and> closed_span s'"
  using assms by (cases k) (simp_all add: is_batch_query_def pgx_end_defs end_plain_new end_rows_new)

lemma call_start_cases:
  assumes "\<not> is_batch_query k"
  shows "call_start sample t k ctx w = (ctx, w) \<and> \<not> IsRecording ctx w \<or> (\<exists>s. call_start sample t k ctx w = (Some (length w), w @ [s]))"
  using assms by (cases k) (auto simp: is_batch_query_def pgx_start_defs span_Start_def Let_def)

lemma TraceBatchQuery_closed: "only_closed w (TraceBatchQuery sample printv t ctx conn sql args err w)"
proof (cases "IsRecording ctx w")
  case True
  then obtain s where "TraceBatchQuery sample printv t ctx conn sql args err w = end_plain (Some (length w)) err (w @ [s])"
    by (simp add: TraceBatchQuery_def span_Start_def end_plain_def Let_def)
  then show ?thesis
    using end_plain_new [of w err s "[]"] by (auto simp: only_closed_iff)
qed (simp add: TraceBatchQuery_def)

lemma fold_only_closed:
  assumes "\<And>c w. c \<in> set cs \<Longrightarrow> valid_ctx ctx w \<Longrightarrow> only_closed w (f c w)" and "valid_ctx ctx w"
  shows "only_closed w (fold f cs w)"
  using assms
proof (induction cs arbitrary: w)
  case (Cons c cs)
  have "only_closed w (f c w)"
    using Cons.prems by simp
  moreover from this have "valid_ctx ctx (f c w)"
    using Cons.prems(2) by (auto simp: only_closed_iff valid_ctx_extend)
  ultimately show ?case
    using Cons.IH [of "f c w"] Cons.prems(1) by (auto intro: only_closed_trans)
qed simp

text \<open>
  C28: whatever calls of the driver are made within one another, each with the context of the call around it, and whatever their outcome: when the outermost has
  returned, every span the tracer has started is ended, unless it was not sampled, and no span that was there before has been touched.
\<close>

theorem pgx_calls_close:
  assumes "valid_ctx ctx w"
  shows "only_closed w (run_call sample t ctx c w)"
  using assms
proof (induction sample t ctx c w rule: run_call.induct)
  case (1 sample t ctx k cs w)
  consider (query) conn sql args err where "k = CallBatchQuery conn sql args err" | (other) "\<not> is_batch_query k"
    by (cases k) (auto simp: is_batch_query_def)
  then show ?case
  proof cases
    case query
    let ?w = "TraceBatchQuery sample id t ctx conn sql args err w"
    have "only_closed w ?w"
      by (rule TraceBatchQuery_closed)
    moreover from this have "only_closed ?w (fold (run_call sample t ctx) cs ?w)"
      using "1.IH" "1.prems" query by (intro fold_only_closed [of cs ctx]) (auto simp: only_closed_iff valid_ctx_extend)
    ultimately show ?thesis
      using only_closed_trans by (auto simp: query)
  next
    case other
    show ?thesis
    proof (cases "call_start sample t k ctx w = (ctx, w) \<and> \<not> IsRecording ctx w")
      case True
      then have "only_closed w (fold (run_call sample t ctx) cs w)"
        using "1.IH" "1.prems" by (intro fold_only_closed [of cs ctx]) auto
      moreover from this have "\<not> IsRecording ctx (fold (run_call sample t ctx) cs w)"
        using True "1.prems" by (auto simp: only_closed_iff IsRecording_extend)
      ultimately show ?thesis
        using True by (simp add: end_not_recording)
    next
      case False
      then obtain s where s: "call_start sample t k ctx w = (Some (length w), w @ [s])"
        using call_start_cases [OF other] by blast
      then have "only_closed (w @ [s]) (fold (run_call sample t (Some (length w))) cs (w @ [s]))"
        using "1.IH" by (intro fold_only_closed [of cs "Some (length w)"]) (auto simp: valid_ctx_def)
      then obtain new where "fold (run_call sample t (Some (length w))) cs (w @ [s]) = w @ s # new" "list_all closed_span new"
        by (auto simp: only_closed_iff)
      then show ?thesis
        using s call_end_new [OF other, of w s new] by (auto simp: only_closed_iff)
    qed
  qed
qed

text \<open>A query that prepares its statement, under a span that records; the sampler keeps everything.\<close>

theorem pgx_calls_close_witness:
  "map (\<lambda>s. (sp_Name s, sp_Ended s))
     (drop 1 (run_call (\<lambda>_ _. True) (NewTracer 0 [WithTrimSQLInSpanName]) (Some 0)
        (PgxCall (CallQuery None ''select 1'' [] None 1) [PgxCall (CallPrepare None ''s1'' ''select 1'' None) []])
        [\<lparr>sp_Name = ''request'', sp_Parent = None, sp_Attrs = [], sp_Errors = [], sp_Status = None, sp_Sampled = True, sp_Ended = False\<rparr>])) =
   [(''db.Query.SELECT'', True), (''db.Prepare.SELECT'', True)] \<and>
   only_closed
     [\<lparr>sp_Name = ''request'', sp_Parent = None, sp_Attrs = [], sp_Errors = [], sp_Status = None, sp_Sampled = True, sp_Ended = False\<rparr>]
     (run_call (\<lambda>_ _. True) (NewTracer 0 [WithTrimSQLInSpanName]) (Some 0)
        (PgxCall (CallQuery None ''select 1'' [] None 1) [PgxCall (CallPrepare None ''s1'' ''select 1'' None) []])
        [\<lparr>sp_Name = ''request'', sp_Parent = None, sp_Attrs = [], sp_Errors = [], sp_Status = None, sp_Sampled = True, sp_Ended = False\<rparr>])"
proof
  have name: "SQLOperationName ''select 1'' = ''SELECT''"
    by code_simp
  show "map (\<lambda>s. (sp_Name s, sp_Ended s))
     (drop 1 (run_call (\<lambda>_ _. True) (NewTracer 0 [WithTrimSQLInSpanName]) (Some 0)
        (PgxCall (CallQuery None ''select 1'' [] None 1) [PgxCall (CallPrepare None ''s1'' ''select 1'' None) []])
        [\<lparr>sp_Name = ''request'', sp_Parent = None, sp_Attrs = [], sp_Errors = [], sp_Status = None, sp_Sampled = True, sp_Ended = False\<rparr>])) =
   [(''db.Query.SELECT'', True), (''db.Prepare.SELECT'', True)]"
    by (simp add: pgx_start_defs pgx_end_defs NewTracer_def span_Start_def IsRecording_def name end_rows_def end_plain_def recordError_def
        span_End_def span_SetAttributes_def on_span_def)
qed (rule pgx_calls_close, simp add: valid_ctx_def)

section \<open>Options without effect and bounds\<close>

lemma spanNameFunc_unused [simp]: "call_start sample (t\<lparr>tr_spanNameFunc := fn\<rparr>) k ctx w = call_start sample t k ctx w"
  by (cases k) (simp_all add: pgx_start_defs TraceBatchQuery_def statement_attrs_def)

text \<open>
  The option \<^verbatim>\<open>WithSpanNameFunc\<close> has no effect: with and without it the same spans are started, under the same names.
\<close>

theorem WithSpanNameFunc_ignored:
  "run_call sample (pgx_apply (WithSpanNameFunc fn) t) ctx c w = run_call sample t ctx c w"
proof (induction sample t ctx c w rule: run_call.induct)
  case (1 sample t ctx k cs w)
  then show ?case
    by (auto simp: split: prod.split intro!: arg_cong [where f = "call_end k _"] fold_cong)
qed

lemma prepare_name_unused: "TracePrepareStart sample t ctx conn name sql w = TracePrepareStart sample t ctx conn [] sql w"
  by (simp add: TracePrepareStart_def)

lemma runes_shortenedPattern: "runes shortenedPattern = map of_char shortenedPattern"
  by (rule runes_ascii) (simp add: shortenedPattern_def)

text \<open>
  A text made of an argument has at most 256 characters, and is the argument itself when that has no more; otherwise it ends with the mark and starts with
  the first characters of the argument.
\<close>

theorem shortenString_bound:
  "length (runes (shortenString s)) \<le> 256 \<and>
   (if length (runes s) \<le> 256 then shortenString s = s
    else runes (shortenString s) = take 231 (runes s) @ runes shortenedPattern)"
proof (cases "length (runes s) \<le> 256")
  case False
  have pattern: "length shortenedPattern = 25"
    by (simp add: shortenedPattern_def)
  have "list_all scalar (take 231 (runes s))"
    using runes_scalar [of s] by (auto simp: list_all_iff dest: in_set_takeD)
  then have "map (\<lambda>r. if scalar r then r else 65533) (take 231 (runes s)) = take 231 (runes s)"
    by (auto simp: list_all_iff intro!: map_idI)
  then show ?thesis
    using False pattern by (simp add: shortenString_def Let_def runes_string_append runes_shortenedPattern)
qed (simp add: shortenString_def)

end
