(* ===== verification/Kit_Interceptors.thy ===== *)
theory Kit_Interceptors
  imports Kit_Werror
begin

text \<open>
  \<^verbatim>\<open>src/pkg/interceptors\<close>: gRPC interceptors. \<^verbatim>\<open>error.go\<close> turns the error of a handler into a status whose text is JSON, \<^verbatim>\<open>panic.go\<close> turns a panic into an error,
  \<^verbatim>\<open>client_interceptors/timeout.go\<close> gives calls a deadline. A handler either panics or returns a response with an error, each possibly nil; errors are those of
  \<open>Kit_Werror\<close>. What is logged and recorded is a list of texts.
\<close>

section \<open>Errors become statuses (error.go)\<close>

type_synonym ('r, 'e) reply = "'r option \<times> 'e option"

record grpc_status =
  gs_Code :: nat
  gs_Message :: string

text \<open>\<^verbatim>\<open>status.Error\<close> gives nil for the code OK.\<close>

definition status_Error :: "nat \<Rightarrow> string \<Rightarrow> grpc_status option" where
  "status_Error c msg = (if c = grpc_OK then None else Some \<lparr>gs_Code = c, gs_Message = msg\<rparr>)"

record rpc_error =
  re_Id :: string
  re_Detail :: string
  re_Code :: int
  re_Status :: string

definition http_StatusText :: "int \<Rightarrow> string" where
  "http_StatusText code =
     (if code = 400 then ''Bad Request'' else if code = 401 then ''Unauthorized'' else if code = 403 then ''Forbidden''
      else if code = 404 then ''Not Found'' else if code = 500 then ''Internal Server Error'' else [])"

text \<open>The HTTP code and the identifier for a gRPC code: 16 is Unauthenticated, 7 PermissionDenied, 5 NotFound, 10 Aborted, 3 InvalidArgument, 6 AlreadyExists.\<close>

definition rpc_kind :: "nat \<Rightarrow> int \<times> string" where
  "rpc_kind grpcCode =
     (if grpcCode = 16 then (401, ''api.process.unauthenticated'')
      else if grpcCode = 7 then (403, ''api.process.unauthorized'')
      else if grpcCode = 5 then (404, ''api.process.not_found'')
      else if grpcCode = 10 \<or> grpcCode = 3 \<or> grpcCode = 6 then (400, ''api.process.bad_args'')
      else (500, ''api.process.internal''))"

definition rpcError_of :: "werr \<Rightarrow> rpc_error" where
  "rpcError_of err =
     (case rpc_kind (werr_Code (Some err)) of
        (httpCode, ident) \<Rightarrow>
          \<lparr>re_Id = ident, re_Detail = werr_Error err, re_Code = httpCode, re_Status = http_StatusText httpCode\<rparr>)"

text \<open>\<open>json\<close> is \<^verbatim>\<open>json.Marshal\<close> of the error, which does not fail on it; \<open>shown\<close> prints values.\<close>

definition logAndReturnGRPCError ::
    "(rpc_error \<Rightarrow> string) \<Rightarrow> (err_value \<Rightarrow> string) \<Rightarrow> string \<Rightarrow> werr \<Rightarrow> string list \<Rightarrow> grpc_status option \<times> string list" where
  "logAndReturnGRPCError json shown fullMethod err log =
     (status_Error (werr_Code (Some err)) (json (rpcError_of err)),
      log @ [''method '' @ fullMethod @ '', error: '' @ Details shown err, werr_Error err])"

definition UnaryServerErrorInterceptor ::
    "(rpc_error \<Rightarrow> string) \<Rightarrow> (err_value \<Rightarrow> string) \<Rightarrow> string \<Rightarrow> (string list \<Rightarrow> ('r, werr) reply or_panic \<times> string list) \<Rightarrow>
       string list \<Rightarrow> ('r, grpc_status) reply or_panic \<times> string list" where
  "UnaryServerErrorInterceptor json shown fullMethod handler log =
     (case handler log of
        (Inl p, log) \<Rightarrow> (Inl p, log)
      | (Inr (resp, None), log) \<Rightarrow> (Inr (resp, None), log)
      | (Inr (resp, Some err), log) \<Rightarrow>
          (case logAndReturnGRPCError json shown fullMethod err log of (st, log) \<Rightarrow> (Inr (None, st), log)))"

section \<open>Panics become errors (panic.go)\<close>

text \<open>\<open>i\<close> is the identity of the error of the package.\<close>

definition errPanicReceived :: "nat \<Rightarrow> werr option" where
  "errPanicReceived i = werr_New i ''panic occurred, please contact our support'' [WithID ''interceptor.panic'']"

text \<open>\<open>val\<close> is the value of a panic as an attached value; a nil logger makes the handler panic itself.\<close>

definition grpcPanicRecoveryHandler ::
    "nat \<Rightarrow> (go_panic \<Rightarrow> err_value) \<Rightarrow> string \<Rightarrow> bool \<Rightarrow> go_panic \<Rightarrow> string list \<Rightarrow> werr option or_panic \<times> string list" where
  "grpcPanicRecoveryHandler i val stack nil_log p log =
     (if nil_log then (Inl (Panic ''invalid memory address or nil pointer dereference''), log)
      else (Inr (werr_Wrap (errPanicReceived i) [WithValue (StringKey ''stack'') (val p)]), log @ [''recovered from panic: '' @ stack]))"

text \<open>\<^verbatim>\<open>recoverFrom\<close>: without a handler the error prints the panic and the stack.\<close>

definition panicErr_Error :: "(go_panic \<Rightarrow> string) \<Rightarrow> go_panic \<Rightarrow> string \<Rightarrow> string" where
  "panicErr_Error print p stack = ''panic caught: '' @ print p @ [CHR 0x0A, CHR 0x0A] @ stack"

definition recoverFrom ::
    "(go_panic \<Rightarrow> string) \<Rightarrow> nat \<Rightarrow> string \<Rightarrow> go_panic \<Rightarrow> (go_panic \<Rightarrow> string list \<Rightarrow> werr option or_panic \<times> string list) option \<Rightarrow> string list \<Rightarrow>
       werr option or_panic \<times> string list" where
  "recoverFrom print i stack p r log =
     (case r of Some f \<Rightarrow> f p log | None \<Rightarrow> (Inr (Some (BaseError i (panicErr_Error print p stack))), log))"

definition RecoveryUnaryServerInterceptor ::
    "nat \<Rightarrow> (go_panic \<Rightarrow> string) \<Rightarrow> (go_panic \<Rightarrow> err_value) \<Rightarrow> string \<Rightarrow> bool \<Rightarrow> (string list \<Rightarrow> ('r, werr) reply or_panic \<times> string list) \<Rightarrow>
       string list \<Rightarrow> ('r, werr) reply or_panic \<times> string list" where
  "RecoveryUnaryServerInterceptor i print val stack nil_log handler log =
     (case handler log of
        (Inl p, log) \<Rightarrow>
          (case recoverFrom print i stack p (Some (grpcPanicRecoveryHandler i val stack nil_log)) log of
             (Inl p, log) \<Rightarrow> (Inl p, log)
           | (Inr err, log) \<Rightarrow> (Inr (None, err), log))
      | (Inr r, log) \<Rightarrow> (Inr r, log))"

section \<open>Deadlines of calls (timeout.go)\<close>

text \<open>A call option is a time-out or another one.\<close>

datatype call_option = TimeoutCallOption duration | OtherCallOption nat

fun getTimeoutFromCallOptions :: "call_option list \<Rightarrow> duration \<Rightarrow> duration" where
  "getTimeoutFromCallOptions [] defaultTimeout = defaultTimeout"
| "getTimeoutFromCallOptions (opt # opts) defaultTimeout =
     (case opt of TimeoutCallOption t \<Rightarrow> t | OtherCallOption _ \<Rightarrow> getTimeoutFromCallOptions opts defaultTimeout)"

definition WithCallTimeout :: "duration \<Rightarrow> call_option" where
  "WithCallTimeout timeout = TimeoutCallOption timeout"

text \<open>A context is its deadline; \<^verbatim>\<open>context.WithTimeout\<close> keeps an earlier one.\<close>

definition context_WithTimeout :: "instant \<Rightarrow> instant option \<Rightarrow> duration \<Rightarrow> instant option" where
  "context_WithTimeout now ctx t = (case ctx of Some dl \<Rightarrow> Some (min dl (now + t)) | None \<Rightarrow> Some (now + t))"

definition TimeoutInterceptor :: "duration \<Rightarrow> instant \<Rightarrow> (instant option \<Rightarrow> call_option list \<Rightarrow> 'a) \<Rightarrow> instant option \<Rightarrow> call_option list \<Rightarrow> 'a" where
  "TimeoutInterceptor timeout now invoker ctx opts =
     (let t = getTimeoutFromCallOptions opts timeout
      in if t \<le> 0 then invoker ctx opts else invoker (context_WithTimeout now ctx t) opts)"

section \<open>Properties\<close>

lemma werr_Code_not_OK: "werr_Code (Some e) \<noteq> 0"
  by (simp add: werr_Code_def grpc_Internal_def Let_def)

lemma errPanicReceived_code:
  "\<exists>e. werr_Wrap (errPanicReceived i) [WithValue (StringKey s) v] = Some e \<and> werr_Code (Some e) = grpc_Internal \<and>
     werr_Error e = ''panic occurred, please contact our support'' \<and> werr_ID (Some e) = ''interceptor.panic''"
  by (simp add: errPanicReceived_def werr_New_def werr_Wrap_def WithID_def werr_Set_def werr_Code_def werr_Value_def werr_ID_def Lookup_main)

text \<open>
  C19: an error of a handler is never turned into success, whatever code is attached to it: the client is given a status with the code of the error, Internal when
  it has none, no response, and the JSON of the error with the HTTP code for it; a response without an error is passed on as it is.
\<close>

theorem error_never_lost:
  "case fst (UnaryServerErrorInterceptor json shown m h log) of
     Inl p \<Rightarrow> fst (h log) = Inl p
   | Inr (resp, None) \<Rightarrow> fst (h log) = Inr (resp, None)
   | Inr (resp, Some st) \<Rightarrow>
       resp = None \<and> gs_Code st \<noteq> grpc_OK \<and>
       (\<exists>r e. fst (h log) = Inr (r, Some e) \<and> gs_Code st = werr_Code (Some e) \<and> gs_Message st = json (rpcError_of e) \<and>
          re_Code (rpcError_of e) \<in> {400, 401, 403, 404, 500})"
  by (auto simp: UnaryServerErrorInterceptor_def logAndReturnGRPCError_def status_Error_def grpc_OK_def werr_Code_not_OK rpcError_of_def rpc_kind_def
      split: prod.split sum.split option.split)

text \<open>
  C38: with the interceptor for errors around the one for panics, no panic of a handler gets out: the client is given the status Internal that asks to contact the
  support, nothing of the panic itself is in it, and one line of the log has the stack.
\<close>

theorem panic_becomes_status:
  assumes "fst (h log) = Inl p"
  shows "case UnaryServerErrorInterceptor json shown m (RecoveryUnaryServerInterceptor i print val stack False h) log of
     (r, log') \<Rightarrow>
       r = Inr (None, Some \<lparr>gs_Code = grpc_Internal,
         gs_Message = json \<lparr>re_Id = ''api.process.internal'', re_Detail = ''panic occurred, please contact our support'', re_Code = 500,
           re_Status = ''Internal Server Error''\<rparr>\<rparr>) \<and>
       ''recovered from panic: '' @ stack \<in> set log'"
proof -
  obtain e where e: "werr_Wrap (errPanicReceived i) [WithValue (StringKey ''stack'') (val p)] = Some e" "werr_Code (Some e) = grpc_Internal"
      "werr_Error e = ''panic occurred, please contact our support''"
    using errPanicReceived_code by blast
  obtain log' where "h log = (Inl p, log')"
    using assms by (cases "h log") auto
  then show ?thesis
    by (simp add: UnaryServerErrorInterceptor_def RecoveryUnaryServerInterceptor_def recoverFrom_def grpcPanicRecoveryHandler_def e
        logAndReturnGRPCError_def status_Error_def rpcError_of_def rpc_kind_def grpc_Internal_def grpc_OK_def http_StatusText_def)
qed

theorem panic_becomes_status_witness:
  "fst (UnaryServerErrorInterceptor re_Detail (\<lambda>_. []) ''/api/Get''
      (RecoveryUnaryServerInterceptor 0 (\<lambda>_. ''boom'') (\<lambda>_. OtherVal 1) ''stack'' False (\<lambda>log. (Inl (Panic ''boom'') :: (unit, werr) reply or_panic, log))) []) =
   Inr (None, Some \<lparr>gs_Code = 13, gs_Message = ''panic occurred, please contact our support''\<rparr>)"
  using panic_becomes_status [where h = "\<lambda>log. (Inl (Panic ''boom'') :: (unit, werr) reply or_panic, log)" and log = "[]" and p = "Panic ''boom''"
      and json = re_Detail and shown = "\<lambda>_. []" and m = "''/api/Get''" and i = 0 and print = "\<lambda>_. ''boom''" and val = "\<lambda>_. OtherVal 1" and stack = "''stack''"]
  by (simp add: grpc_Internal_def split: prod.splits)

text \<open>The other way round the error of the recovered panic leaves the server as it is, without a status of the kit.\<close>

lemma panic_outside_status:
  "fst (h log) = Inl p \<Longrightarrow> \<exists>e log'. RecoveryUnaryServerInterceptor i print val stack False h log = (Inr (None, Some e), log') \<and> werr_ID (Some e) = ''interceptor.panic''"
  using errPanicReceived_code [of i "''stack''" "val p"]
  by (auto simp: RecoveryUnaryServerInterceptor_def recoverFrom_def grpcPanicRecoveryHandler_def split: prod.split sum.split)

lemma Timeout_only_shortens:
  "TimeoutInterceptor timeout now (\<lambda>ctx opts. ctx) ctx opts =
     (if getTimeoutFromCallOptions opts timeout \<le> 0 then ctx
      else Some (case ctx of Some dl \<Rightarrow> min dl (now + getTimeoutFromCallOptions opts timeout) | None \<Rightarrow> now + getTimeoutFromCallOptions opts timeout))"
  by (simp add: TimeoutInterceptor_def context_WithTimeout_def Let_def split: option.split)

end
