(* ===== verification/Kit_Clients.thy ===== *)
theory Kit_Clients
  imports Go_Float Kit_Prelude
begin

text \<open>
  Small clients of other services. \<^verbatim>\<open>src/infra/logger_client\<close> sends records of changes to a broker, \<^verbatim>\<open>src/infra/fts_client\<close> objects for the full-text search;
  \<^verbatim>\<open>src/infra/profiler\<close> serves profiles; \<^verbatim>\<open>src/appconfig\<close> registers the flags of a service, loads its configuration and checks it. The broker, JSON,
  the HTTP server and the library that reads configurations are parameters.
\<close>

section \<open>The log of changes (logger_client)\<close>

definition CreateAction :: string where "CreateAction = ''create''"
definition UpdateAction :: string where "UpdateAction = ''update''"
definition DeleteAction :: string where "DeleteAction = ''delete''"
definition ReadAction :: string where "ReadAction = ''read''"
definition ExchangeName :: string where "ExchangeName = ''logger''"

text \<open>A body of any type \<open>'a\<close>, possibly nil.\<close>

record 'a change_record =
  cr_Id :: string
  cr_NewState :: "'a option"

record 'a change_message =
  cm_Records :: "'a change_record list option"
  cm_UserId :: int
  cm_UserIp :: string
  cm_Date :: int
  cm_Action :: string
  cm_OperationId :: string

definition NewMessage :: "int \<Rightarrow> int \<Rightarrow> string \<Rightarrow> string \<Rightarrow> string \<Rightarrow> 'a option \<Rightarrow> 'a change_message" where
  "NewMessage now userId userIp action recordId recordBody =
     \<lparr>cm_Records = Some [\<lparr>cr_Id = recordId, cr_NewState = recordBody\<rparr>], cm_UserId = userId, cm_UserIp = userIp, cm_Date = now, cm_Action = action,
      cm_OperationId = []\<rparr>"

definition NewCreateMessage :: "int \<Rightarrow> int \<Rightarrow> string \<Rightarrow> string \<Rightarrow> 'a option \<Rightarrow> 'a change_message" where
  "NewCreateMessage now userId userIp recordId recordBody = NewMessage now userId userIp CreateAction recordId recordBody"

definition NewUpdateMessage :: "int \<Rightarrow> int \<Rightarrow> string \<Rightarrow> string \<Rightarrow> 'a option \<Rightarrow> 'a change_message" where
  "NewUpdateMessage now userId userIp recordId recordBody = NewMessage now userId userIp UpdateAction recordId recordBody"

definition NewDeleteMessage :: "int \<Rightarrow> int \<Rightarrow> string \<Rightarrow> string \<Rightarrow> 'a change_message" where
  "NewDeleteMessage now userId userIp recordId = NewMessage now userId userIp DeleteAction recordId None"

text \<open>The errors joined, or the one for the action alone.\<close>

definition ValidateMessage :: "'a change_message option \<Rightarrow> string list" where
  "ValidateMessage message =
     (case message of
        None \<Rightarrow> [''message required'']
      | Some m \<Rightarrow>
          (let errs = (if cm_UserIp m = [] then [''user ip required''] else []) @ (if cm_UserId m \<le> 0 then [''user id required''] else []) @
                 (if cm_Date m \<le> 0 then [''date required''] else [])
           in if cm_Action m = CreateAction \<or> cm_Action m = UpdateAction
              then errs @ (if cm_Records m = None then [''records required''] else [])
              else if cm_Action m = DeleteAction then errs
              else [''invalid action'']))"

definition formatKey :: "int \<Rightarrow> string \<Rightarrow> string" where
  "formatKey domainId objClass = ''logger.'' @ fmt_int domainId @ ''.'' @ objClass"

text \<open>A publisher, by what it does to the broker: exchange, routing key and body. \<open>None\<close> is nil.\<close>

type_synonym 's publisher = "string \<Rightarrow> string \<Rightarrow> string \<Rightarrow> 's \<Rightarrow> string option \<times> 's"

definition apply_publisher :: "'s publisher option \<Rightarrow> 's publisher option \<Rightarrow> string + 's publisher option" where
  "apply_publisher publisher client = (case publisher of None \<Rightarrow> Inl ''publisher is nil'' | Some p \<Rightarrow> Inr (Some p))"

fun apply_publishers :: "'s publisher option list \<Rightarrow> 's publisher option \<Rightarrow> string + 's publisher option" where
  "apply_publishers [] client = Inr client"
| "apply_publishers (opt # opts) client =
     (case apply_publisher opt client of Inl e \<Rightarrow> Inl e | Inr client \<Rightarrow> apply_publishers opts client)"

definition logger_New :: "'s publisher option \<Rightarrow> 's publisher option list \<Rightarrow> string + 's publisher" where
  "logger_New pub opts =
     (case apply_publishers opts pub of
        Inl e \<Rightarrow> Inl e
      | Inr None \<Rightarrow> Inl ''publisher is nil''
      | Inr (Some p) \<Rightarrow> Inr p)"

text \<open>
  \<^verbatim>\<open>SendContext\<close>: the operation returned, the errors, the message after (its operation is set in place) and the broker. \<open>uuid\<close> is the new identifier.
\<close>

definition logger_SendContext ::
    "('a change_message \<Rightarrow> string + string) \<Rightarrow> string \<Rightarrow> 's publisher \<Rightarrow> int \<Rightarrow> string \<Rightarrow> 'a change_message option \<Rightarrow> 's \<Rightarrow>
       string \<times> string list \<times> 'a change_message option \<times> 's" where
  "logger_SendContext marshal uuid pub domainId obj message s =
     (if obj = [] then ([], [''no object''], message, s)
      else
        (case message of
           None \<Rightarrow> ([], [''message required''], message, s)
         | Some m \<Rightarrow>
             if domainId \<le> 0 then ([], [''domain required''], message, s)
             else if ValidateMessage message \<noteq> [] then ([], ValidateMessage message, message, s)
             else
               (let m = m\<lparr>cm_OperationId := uuid\<rparr>
                in case marshal m of
                     Inl e \<Rightarrow> ([], [e], Some m, s)
                   | Inr body \<Rightarrow>
                       (case pub ExchangeName (formatKey domainId obj) body s of
                          (Some e, s) \<Rightarrow> ([], [e], Some m, s)
                        | (None, s) \<Rightarrow> ([], [], Some m, s)))))"

record 's objected_logger =
  ob_objClass :: string
  ob_parent :: "'s publisher option"

definition GetObjectedLogger :: "string \<Rightarrow> 's publisher \<Rightarrow> string + 's objected_logger" where
  "GetObjectedLogger obj l = (if obj = [] then Inl ''object required'' else Inr \<lparr>ob_objClass = obj, ob_parent = Some l\<rparr>)"

definition objected_SendContext ::
    "('a change_message \<Rightarrow> string + string) \<Rightarrow> string \<Rightarrow> 's objected_logger option \<Rightarrow> int \<Rightarrow> 'a change_message option \<Rightarrow> 's \<Rightarrow>
       string \<times> string list \<times> 'a change_message option \<times> 's" where
  "objected_SendContext marshal uuid l domainId message s =
     (case l of
        None \<Rightarrow> ([], [''logger is nil''], message, s)
      | Some l \<Rightarrow>
          (case ob_parent l of
             None \<Rightarrow> ([], [''no parent logger''], message, s)
           | Some pub \<Rightarrow> logger_SendContext marshal uuid pub domainId (ob_objClass l) message s))"

section \<open>Full-text search (fts_client)\<close>

record fts_message =
  fm_Id :: string
  fm_DomainId :: int
  fm_ObjectName :: string
  fm_Body :: "string option"

text \<open>\<open>print\<close> is \<^verbatim>\<open>%v\<close>, \<open>row_json\<close> and \<open>json\<close> are \<^verbatim>\<open>json.Marshal\<close> of a row and of the message.\<close>

definition NewMessageId :: "('i \<Rightarrow> string) \<Rightarrow> 'i \<Rightarrow> string" where
  "NewMessageId print v = print v"

definition NewMessageJSON ::
    "('i \<Rightarrow> string) \<Rightarrow> ('a \<Rightarrow> string + string) \<Rightarrow> (fts_message \<Rightarrow> string + string) \<Rightarrow> int \<Rightarrow> string \<Rightarrow> 'i \<Rightarrow> 'a option \<Rightarrow> string + string" where
  "NewMessageJSON print row_json json domainId objectName i row =
     (let m = \<lparr>fm_Id = NewMessageId print i, fm_DomainId = domainId, fm_ObjectName = objectName, fm_Body = None\<rparr>
      in case row of
           None \<Rightarrow> json m
         | Some r \<Rightarrow> (case row_json r of Inl e \<Rightarrow> Inl e | Inr b \<Rightarrow> json (m\<lparr>fm_Body := Some b\<rparr>)))"

definition fts_Send ::
    "('i \<Rightarrow> string) \<Rightarrow> ('a \<Rightarrow> string + string) \<Rightarrow> (fts_message \<Rightarrow> string + string) \<Rightarrow> string \<Rightarrow> 's publisher \<Rightarrow> int \<Rightarrow> string \<Rightarrow> 'i \<Rightarrow> 'a option \<Rightarrow> 's \<Rightarrow>
       string option \<times> 's" where
  "fts_Send print row_json json kind pub domainId objectName i row s =
     (case NewMessageJSON print row_json json domainId objectName i row of
        Inl e \<Rightarrow> (Some e, s)
      | Inr msg \<Rightarrow> pub ''fts-stock'' kind msg s)"

definition fts_Create ::
    "('i \<Rightarrow> string) \<Rightarrow> ('a \<Rightarrow> string + string) \<Rightarrow> (fts_message \<Rightarrow> string + string) \<Rightarrow> 's publisher \<Rightarrow> int \<Rightarrow> string \<Rightarrow> 'i \<Rightarrow> 'a option \<Rightarrow> 's \<Rightarrow> string option \<times> 's" where
  "fts_Create print row_json json pub domainId objectName i row s = fts_Send print row_json json ''create'' pub domainId objectName i row s"

definition fts_Update ::
    "('i \<Rightarrow> string) \<Rightarrow> ('a \<Rightarrow> string + string) \<Rightarrow> (fts_message \<Rightarrow> string + string) \<Rightarrow> 's publisher \<Rightarrow> int \<Rightarrow> string \<Rightarrow> 'i \<Rightarrow> 'a option \<Rightarrow> 's \<Rightarrow> string option \<times> 's" where
  "fts_Update print row_json json pub domainId objectName i row s = fts_Send print row_json json ''update'' pub domainId objectName i row s"

definition fts_Delete ::
    "('i \<Rightarrow> string) \<Rightarrow> ('a \<Rightarrow> string + string) \<Rightarrow> (fts_message \<Rightarrow> string + string) \<Rightarrow> 's publisher \<Rightarrow> int \<Rightarrow> string \<Rightarrow> 'i \<Rightarrow> 's \<Rightarrow> string option \<times> 's" where
  "fts_Delete print row_json json pub domainId objectName i s = fts_Send print row_json json ''delete'' pub domainId objectName i None s"

text \<open>What \<^verbatim>\<open>json.Unmarshal\<close> reads into an interface: a number becomes the nearest floating-point number.\<close>

datatype json_any = JAnyString string | JAnyNumber rat | JAnyNull | JAnyBool bool | JAnyOther string

definition MessageId_UnmarshalJSON :: "(string \<Rightarrow> string + json_any) \<Rightarrow> string \<Rightarrow> string + string" where
  "MessageId_UnmarshalJSON parse data =
     (case parse data of
        Inl e \<Rightarrow> Inl (''cannot unmarshal MessageId: '' @ e)
      | Inr raw \<Rightarrow>
          Inr (case raw of
             JAnyString s \<Rightarrow> s
           | JAnyNumber q \<Rightarrow> fmt_int (f64_trunc (f64 q))
           | JAnyNull \<Rightarrow> ''<nil>''
           | JAnyBool b \<Rightarrow> (if b then ''true'' else ''false'')
           | JAnyOther s \<Rightarrow> s))"

section \<open>Profiles (profiler)\<close>

record profiler_config =
  pf_Addr :: string
  pf_MutexProfileFraction :: int
  pf_BlockProfileRate :: int

text \<open>The runtime and the server: its goroutines not yet run, whether it listens, whether it has been shut down, and the log.\<close>

record profiler_world =
  pw_MutexFraction :: int
  pw_BlockRate :: int
  pw_goroutines :: nat
  pw_listening :: bool
  pw_shut :: bool
  pw_log :: "string list"

text \<open>A profiler is the address of its server, or nil.\<close>

definition profiler_New :: "profiler_config \<Rightarrow> profiler_world \<Rightarrow> string option \<times> profiler_world" where
  "profiler_New config w =
     (if pf_Addr config = [] then (None, w)
      else (Some (pf_Addr config), w\<lparr>pw_MutexFraction := pf_MutexProfileFraction config, pw_BlockRate := pf_BlockProfileRate config\<rparr>))"

definition profiler_Start :: "string option \<Rightarrow> profiler_world \<Rightarrow> profiler_world" where
  "profiler_Start p w = (case p of None \<Rightarrow> w | Some addr \<Rightarrow> w\<lparr>pw_goroutines := pw_goroutines w + 1\<rparr>)"

text \<open>
  A goroutine of \<^verbatim>\<open>Start\<close>: \<open>listen\<close> is the error of listening. After a shut-down \<^verbatim>\<open>ListenAndServe\<close> returns \<^verbatim>\<open>ErrServerClosed\<close>, which is not logged.
\<close>

definition profiler_serve :: "(string \<Rightarrow> string option) \<Rightarrow> string \<Rightarrow> profiler_world \<Rightarrow> profiler_world" where
  "profiler_serve listen addr w =
     (if pw_goroutines w = 0 then w
      else
        (let w = w\<lparr>pw_goroutines := pw_goroutines w - 1, pw_log := pw_log w @ [''pprof server starting'']\<rparr>
         in if pw_shut w then w
            else
              (case listen addr of
                 Some e \<Rightarrow> w\<lparr>pw_log := pw_log w @ [''pprof server failed'']\<rparr>
               | None \<Rightarrow> w\<lparr>pw_listening := True\<rparr>)))"

text \<open>\<open>shutdown\<close> is the error of \<^verbatim>\<open>Shutdown\<close>, which closes the listener first of all.\<close>

definition profiler_Stop :: "string option \<Rightarrow> string option \<Rightarrow> profiler_world \<Rightarrow> string option \<times> profiler_world" where
  "profiler_Stop shutdown p w =
     (case p of
        None \<Rightarrow> (None, w)
      | Some addr \<Rightarrow> (shutdown, w\<lparr>pw_log := pw_log w @ [''pprof server stopping''], pw_shut := True, pw_listening := False\<rparr>))"

text \<open>The hooks that are given to the life cycle: none for a profiler that is off.\<close>

definition NewWithFx :: "profiler_config \<Rightarrow> profiler_world \<Rightarrow> string option \<times> string option list \<times> profiler_world" where
  "NewWithFx config w = (case profiler_New config w of (p, w) \<Rightarrow> (p, if p = None then [] else [p], w))"

section \<open>Configuration of services (appconfig)\<close>

datatype flag_value = FlagString string | FlagBool bool | FlagInt int | FlagDuration duration

record cli_flag =
  fl_Name :: string
  fl_Default :: flag_value
  fl_Changed :: bool

text \<open>Adding a flag whose name is taken panics.\<close>

definition add_flag :: "string \<times> flag_value \<Rightarrow> cli_flag list or_panic \<Rightarrow> cli_flag list or_panic" where
  "add_flag nv r =
     (case (nv, r) of
        (_, Inl p) \<Rightarrow> Inl p
      | ((name, v), Inr fs) \<Rightarrow>
          if list_ex (\<lambda>f. fl_Name f = name) fs then Inl (Panic (''flag redefined: '' @ name))
          else Inr (fs @ [\<lparr>fl_Name = name, fl_Default = v, fl_Changed = False\<rparr>]))"

record cfg_sections =
  se_Log :: bool
  se_Postgres :: bool
  se_Redis :: bool
  se_Consul :: bool
  se_Pubsub :: bool
  se_Profiler :: bool

definition log_flags :: "(string \<times> flag_value) list" where
  "log_flags =
     [(''log.level'', FlagString ''info''), (''log.json'', FlagBool False), (''log.otel'', FlagBool False), (''log.file'', FlagString []),
      (''log.console'', FlagBool True)]"

definition postgres_flags :: "(string \<times> flag_value) list" where
  "postgres_flags =
     [(''postgres.dsn'', FlagString []), (''postgres.max_open_conns'', FlagInt 0), (''postgres.max_idle_conns'', FlagInt 0),
      (''postgres.conn_max_idle_time'', FlagDuration 0), (''postgres.conn_max_lifetime'', FlagDuration 0)]"

definition redis_flags :: "(string \<times> flag_value) list" where
  "redis_flags = [(''redis.addr'', FlagString ''localhost:6379''), (''redis.password'', FlagString []), (''redis.db'', FlagInt 0)]"

definition consul_flags :: "(string \<times> flag_value) list" where
  "consul_flags = [(''consul.addr'', FlagString ''localhost:8500'')]"

definition pubsub_flags :: "(string \<times> flag_value) list" where
  "pubsub_flags = [(''pubsub.url'', FlagString []), (''pubsub.driver'', FlagString ''rabbitmq'')]"

definition profiler_flags :: "(string \<times> flag_value) list" where
  "profiler_flags = [(''profiler.addr'', FlagString []), (''profiler.mutex_fraction'', FlagInt 1), (''profiler.block_rate'', FlagInt 1)]"

definition section_flags :: "cfg_sections \<Rightarrow> (string \<times> flag_value) list" where
  "section_flags s =
     [(''config_file'', FlagString [])] @ (if se_Log s then log_flags else []) @ (if se_Postgres s then postgres_flags else []) @
     (if se_Redis s then redis_flags else []) @ (if se_Consul s then consul_flags else []) @ (if se_Pubsub s then pubsub_flags else []) @
     (if se_Profiler s then profiler_flags else [])"

definition RegisterFlags :: "cfg_sections \<Rightarrow> cli_flag list \<Rightarrow> cli_flag list or_panic" where
  "RegisterFlags s fs = fold add_flag (section_flags s) (Inr fs)"

definition RegisterGRPCConnFlags :: "string \<Rightarrow> bool \<Rightarrow> cli_flag list \<Rightarrow> cli_flag list or_panic" where
  "RegisterGRPCConnFlags pre verifyDefault fs =
     fold add_flag
       [(pre @ ''.verify_certs'', FlagBool verifyDefault), (pre @ ''.ca'', FlagString []), (pre @ ''.cert'', FlagString []),
        (pre @ ''.key'', FlagString []), (pre @ ''.client.ca'', FlagString []), (pre @ ''.client.cert'', FlagString []),
        (pre @ ''.client.key'', FlagString [])] (Inr fs)"

text \<open>The operations of \<^verbatim>\<open>viper\<close> on its state \<open>'v\<close>, filling a target \<open>'t\<close>.\<close>

record ('v, 't) viper_ops =
  vp_SetDefault :: "string \<Rightarrow> flag_value \<Rightarrow> 'v \<Rightarrow> 'v"
  vp_BindPFlags :: "cli_flag list \<Rightarrow> 'v \<Rightarrow> string + 'v"
  vp_GetString :: "string \<Rightarrow> 'v \<Rightarrow> string"
  vp_ReadInConfig :: "string \<Rightarrow> 'v \<Rightarrow> string + 'v"
  vp_Unmarshal :: "'v \<Rightarrow> string + 't"

definition set_defaults :: "('v, 't) viper_ops \<Rightarrow> cli_flag list \<Rightarrow> 'v \<Rightarrow> 'v" where
  "set_defaults vp fs v = fold (\<lambda>f v. if fl_Changed f then v else vp_SetDefault vp (fl_Name f) (fl_Default f) v) fs v"

definition loader_Load :: "(string \<Rightarrow> string) \<Rightarrow> ('v, 't) viper_ops \<Rightarrow> cli_flag list \<Rightarrow> 'v \<Rightarrow> (string + 't) \<times> 'v" where
  "loader_Load quote vp fs v =
     (let v = set_defaults vp fs v
      in case vp_BindPFlags vp fs v of
           Inl e \<Rightarrow> (Inl (''appconfig: bind flags: '' @ e), v)
         | Inr v \<Rightarrow>
             (let f = vp_GetString vp ''config_file'' v
              in case (if f \<noteq> [] then map_sum (\<lambda>e. ''appconfig: read config file '' @ quote f @ '': '' @ e) id (vp_ReadInConfig vp f v) else Inr v) of
                   Inl e \<Rightarrow> (Inl e, v)
                 | Inr v \<Rightarrow> (map_sum (\<lambda>e. ''appconfig: unmarshal: '' @ e) id (vp_Unmarshal vp v), v)))"

record tls_paths =
  tl_CA :: string
  tl_Cert :: string
  tl_Key :: string

record grpc_conn =
  gc_TLS :: tls_paths
  gc_VerifyCerts :: bool
  gc_Client :: tls_paths

text \<open>An error by its type, with the errors it wraps; \<^verbatim>\<open>IsConfigError\<close> looks for a \<^verbatim>\<open>configErr\<close> among them.\<close>

datatype load_err = ConfigErr string | WrapErr string load_err | PlainErr string

fun load_err_Error :: "load_err \<Rightarrow> string" where
  "load_err_Error (ConfigErr msg) = ''config: '' @ msg"
| "load_err_Error (WrapErr msg e) = msg @ '': '' @ load_err_Error e"
| "load_err_Error (PlainErr msg) = msg"

fun IsConfigError :: "load_err \<Rightarrow> bool" where
  "IsConfigError (ConfigErr _) = True"
| "IsConfigError (WrapErr _ e) = IsConfigError e"
| "IsConfigError (PlainErr _) = False"

text \<open>The text of the error; \<^verbatim>\<open>configErr\<close> puts \<^verbatim>\<open>config:\<close> before it.\<close>

definition configError :: "string \<Rightarrow> string" where
  "configError msg = ''config: '' @ msg"

definition ValidateTLS :: "string \<Rightarrow> tls_paths \<Rightarrow> string option" where
  "ValidateTLS pre t =
     (if tl_CA t = [] then Some (configError (pre @ ''.ca is required when verify_certs is true''))
      else if tl_Cert t = [] then Some (configError (pre @ ''.cert is required when verify_certs is true''))
      else if tl_Key t = [] then Some (configError (pre @ ''.key is required when verify_certs is true''))
      else None)"

definition ValidateGRPCConn :: "string \<Rightarrow> grpc_conn \<Rightarrow> string option" where
  "ValidateGRPCConn pre conn = (if gc_VerifyCerts conn then ValidateTLS pre (gc_TLS conn) else None)"

record postgres_cfg =
  pg_MaxOpenConns :: int
  pg_MaxIdleConns :: int
  pg_ConnMaxIdleTime :: duration
  pg_ConnMaxLifetime :: duration

record sql_pool =
  sq_MaxOpen :: int
  sq_MaxIdle :: int
  sq_MaxIdleTime :: duration
  sq_MaxLifetime :: duration

text \<open>
  The setters of \<^verbatim>\<open>sql.DB\<close>: a limit on open connections lowers the one on idle connections, and idle connections are never allowed beyond the open ones.
\<close>

definition SetMaxOpenConns :: "int \<Rightarrow> sql_pool \<Rightarrow> sql_pool" where
  "SetMaxOpenConns n db =
     (let db = db\<lparr>sq_MaxOpen := max 0 n\<rparr>
      in if sq_MaxOpen db > 0 \<and> sq_MaxIdle db > sq_MaxOpen db then db\<lparr>sq_MaxIdle := sq_MaxOpen db\<rparr> else db)"

definition SetMaxIdleConns :: "int \<Rightarrow> sql_pool \<Rightarrow> sql_pool" where
  "SetMaxIdleConns n db = db\<lparr>sq_MaxIdle := (if sq_MaxOpen db > 0 \<and> n > sq_MaxOpen db then sq_MaxOpen db else n)\<rparr>"

definition ApplyToSQLDB :: "postgres_cfg \<Rightarrow> sql_pool \<Rightarrow> sql_pool" where
  "ApplyToSQLDB p db =
     (let db = (if pg_MaxOpenConns p > 0 then SetMaxOpenConns (pg_MaxOpenConns p) db else db);
          db = (if pg_MaxIdleConns p > 0 then SetMaxIdleConns (pg_MaxIdleConns p) db else db);
          db = (if pg_ConnMaxIdleTime p > 0 then db\<lparr>sq_MaxIdleTime := pg_ConnMaxIdleTime p\<rparr> else db)
      in if pg_ConnMaxLifetime p > 0 then db\<lparr>sq_MaxLifetime := pg_ConnMaxLifetime p\<rparr> else db)"

section \<open>Properties\<close>

text \<open>
  A message is handed to the broker exactly once when it is valid, for an object and a domain, and can be written, and not at all otherwise; but the operation
  returned is always the empty text, while the one in the message is set to the new identifier.
\<close>

theorem SendContext_operation:
  "case logger_SendContext marshal uuid (\<lambda>ex rk body s. (fail (ex, rk, body), s @ [(ex, rk, body)])) domainId obj message [] of
     (operationId, errs, message', sent) \<Rightarrow>
       operationId = [] \<and>
       (if obj \<noteq> [] \<and> 0 < domainId \<and> ValidateMessage message = []
        then
          cm_OperationId (the message') = uuid \<and>
          sent = (case marshal (the message') of Inl _ \<Rightarrow> [] | Inr body \<Rightarrow> [(ExchangeName, formatKey domainId obj, body)])
        else sent = [] \<and> errs \<noteq> [] \<and> message' = message)"
  by (cases message) (auto simp: logger_SendContext_def ValidateMessage_def Let_def split: sum.split option.split prod.split)

lemma ReadAction_invalid: "ValidateMessage (Some (NewMessage now userId userIp ReadAction recordId body)) = [''invalid action'']"
  by (simp add: ValidateMessage_def NewMessage_def ReadAction_def CreateAction_def UpdateAction_def DeleteAction_def)

lemma made_messages_valid:
  assumes "0 < now" "0 < userId" "userIp \<noteq> []"
  shows "ValidateMessage (Some (NewCreateMessage now userId userIp recordId body)) = []"
    and "ValidateMessage (Some (NewUpdateMessage now userId userIp recordId body)) = []"
    and "ValidateMessage (Some (NewDeleteMessage now userId userIp recordId :: 'a change_message)) = []"
  using assms
  by (simp_all add: ValidateMessage_def NewMessage_def NewCreateMessage_def NewUpdateMessage_def NewDeleteMessage_def CreateAction_def UpdateAction_def DeleteAction_def)

text \<open>Numbers are read exactly up to \<open>2 ^ 53\<close>; the next one is not.\<close>

lemma MessageId_exact:
  "\<bar>n\<bar> \<le> 2 ^ 53 \<Longrightarrow> parse data = Inr (JAnyNumber (of_int n)) \<Longrightarrow> MessageId_UnmarshalJSON parse data = Inr (fmt_int n)"
  by (simp add: MessageId_UnmarshalJSON_def f64_of_int f64_trunc_def)

lemma stopped_profiler_never_listens:
  "pw_shut w \<Longrightarrow> pw_listening (profiler_serve listen addr w) = pw_listening w"
  by (simp add: profiler_serve_def Let_def)

lemma fold_add_flag:
  assumes "distinct (map fl_Name fs @ map fst nvs)"
  shows "fold add_flag nvs (Inr fs) = Inr (fs @ map (\<lambda>(n, v). \<lparr>fl_Name = n, fl_Default = v, fl_Changed = False\<rparr>) nvs)"
  using assms
proof (induction nvs arbitrary: fs)
  case (Cons nv nvs)
  then have "fst nv \<notin> fl_Name ` set fs"
    by simp
  then have "\<not> list_ex (\<lambda>f. fl_Name f = fst nv) fs"
    by (force simp: list_ex_iff)
  then have "add_flag nv (Inr fs) = Inr (fs @ [\<lparr>fl_Name = fst nv, fl_Default = snd nv, fl_Changed = False\<rparr>])"
    by (cases nv) (simp add: add_flag_def)
  then show ?case
    using Cons.IH [of "fs @ [\<lparr>fl_Name = fst nv, fl_Default = snd nv, fl_Changed = False\<rparr>]"] Cons.prems by (simp add: split_def)
qed simp

text \<open>All flags the loader knows, with the section they are for; the file is always there.\<close>

definition all_flags :: "((cfg_sections \<Rightarrow> bool) \<times> string \<times> flag_value) list" where
  "all_flags =
     [(\<lambda>_. True, ''config_file'', FlagString [])] @ map (Pair se_Log) log_flags @ map (Pair se_Postgres) postgres_flags @ map (Pair se_Redis) redis_flags @
     map (Pair se_Consul) consul_flags @ map (Pair se_Pubsub) pubsub_flags @ map (Pair se_Profiler) profiler_flags"

lemma all_flags_distinct: "distinct (map (\<lambda>(_, n, _). n) all_flags)"
  by (simp add: all_flags_def log_flags_def postgres_flags_def redis_flags_def consul_flags_def pubsub_flags_def profiler_flags_def)

lemma filter_Pair: "map snd (filter (\<lambda>p. fst p s) (map (Pair e) xs)) = (if e s then xs else [])"
  by (induction xs) auto

lemma section_flags_filter: "section_flags s = map snd (filter (\<lambda>p. fst p s) all_flags)"
  by (simp add: section_flags_def all_flags_def filter_Pair)

text \<open>
  Registering the flags of any choice of sections in a flag set with other names never panics, and adds exactly the flags of the chosen sections, each
  unchanged and with its default, besides the one for the configuration file.
\<close>

theorem RegisterFlags_exact:
  assumes "distinct (map fl_Name fs)" and "fl_Name ` set fs \<inter> fst ` snd ` set all_flags = {}"
  shows "RegisterFlags s fs = Inr (fs @ map (\<lambda>(_, n, v). \<lparr>fl_Name = n, fl_Default = v, fl_Changed = False\<rparr>) (filter (\<lambda>p. fst p s) all_flags))"
proof -
  have "distinct (map fst (section_flags s))"
    using all_flags_distinct by (auto simp: section_flags_filter o_def split_def distinct_map_filter)
  moreover have "fst ` set (section_flags s) \<subseteq> fst ` snd ` set all_flags"
    by (auto simp: section_flags_filter)
  ultimately have "distinct (map fl_Name fs @ map fst (section_flags s))"
    using assms by auto
  then show ?thesis
    by (simp add: RegisterFlags_def fold_add_flag) (simp add: section_flags_filter split_def o_def)
qed

theorem RegisterFlags_exact_witness:
  "RegisterFlags \<lparr>se_Log = False, se_Postgres = False, se_Redis = False, se_Consul = True, se_Pubsub = False, se_Profiler = False\<rparr>
     [\<lparr>fl_Name = ''service.id'', fl_Default = FlagString [], fl_Changed = False\<rparr>] =
   Inr [\<lparr>fl_Name = ''service.id'', fl_Default = FlagString [], fl_Changed = False\<rparr>,
        \<lparr>fl_Name = ''config_file'', fl_Default = FlagString [], fl_Changed = False\<rparr>,
        \<lparr>fl_Name = ''consul.addr'', fl_Default = FlagString ''localhost:8500'', fl_Changed = False\<rparr>]"
  by (subst RegisterFlags_exact)
    (simp_all add: all_flags_def log_flags_def postgres_flags_def redis_flags_def consul_flags_def pubsub_flags_def profiler_flags_def)

lemma ValidateGRPCConn_ignores_client: "ValidateGRPCConn pre (conn\<lparr>gc_Client := t\<rparr>) = ValidateGRPCConn pre conn"
  by (simp add: ValidateGRPCConn_def)

lemma ApplyToSQLDB_idle_within_open:
  "0 < pg_MaxOpenConns p \<Longrightarrow> sq_MaxIdle (ApplyToSQLDB p db) \<le> sq_MaxOpen (ApplyToSQLDB p db)"
  by (simp add: ApplyToSQLDB_def SetMaxOpenConns_def SetMaxIdleConns_def Let_def)

end
