(* ===== verification/Cache_Codec.thy ===== *)
theory Cache_Codec
  imports Kit_Cache
begin

text \<open>
  \<^verbatim>\<open>src/pkg/cache/codec.go\<close> and \<^verbatim>\<open>codec_compress.go\<close>: codecs made of a library for JSON or protocol buffers, and the one that compresses what another codec writes. The
  libraries are parameters; a law says that reading gives back what was written.
\<close>

text \<open>\<open>unmarshal\<close> fills a value; with an error the value read so far is returned beside it.\<close>

definition JSON_codec :: "('v \<Rightarrow> string + string) \<Rightarrow> (string \<Rightarrow> string + 'v) \<Rightarrow> 'v codec" where
  "JSON_codec marshal unmarshal = \<lparr>cd_Marshal = marshal, cd_Unmarshal = unmarshal\<rparr>"

text \<open>\<open>unmarshal\<close> is given the new message of the factory.\<close>

definition Proto_codec :: "('v \<Rightarrow> string + string) \<Rightarrow> (string \<Rightarrow> 'v \<Rightarrow> string + 'v) \<Rightarrow> 'v \<Rightarrow> 'v codec" where
  "Proto_codec marshal unmarshal newFn = \<lparr>cd_Marshal = marshal, cd_Unmarshal = (\<lambda>data. unmarshal data newFn)\<rparr>"

text \<open>
  The library \<^verbatim>\<open>compress/gzip\<close>: making a writer of a level, writing and closing give the compressed text; opening a reader and reading it to the end.
\<close>

record gzip_lib =
  gz_NewWriterLevel :: "int \<Rightarrow> string option"
  gz_Write :: "string \<Rightarrow> string + string"
  gz_Close :: "string \<Rightarrow> string + string"
  gz_NewReader :: "string \<Rightarrow> string + string"
  gz_ReadAll :: "string \<Rightarrow> string + string"

definition compressed_Marshal :: "gzip_lib \<Rightarrow> 'v codec \<Rightarrow> 'v \<Rightarrow> string + string" where
  "compressed_Marshal gz inner v =
     (case cd_Marshal inner v of
        Inl e \<Rightarrow> Inl e
      | Inr raw \<Rightarrow>
          (case gz_NewWriterLevel gz 1 of
             Some e \<Rightarrow> Inl e
           | None \<Rightarrow>
               (case gz_Write gz raw of
                  Inl e \<Rightarrow> Inl e
                | Inr w \<Rightarrow> (case gz_Close gz w of Inl e \<Rightarrow> Inl e | Inr buf \<Rightarrow> Inr buf))))"

definition compressed_Unmarshal :: "gzip_lib \<Rightarrow> 'v codec \<Rightarrow> string \<Rightarrow> string + 'v" where
  "compressed_Unmarshal gz inner data =
     (case gz_NewReader gz data of
        Inl e \<Rightarrow> Inl e
      | Inr r \<Rightarrow> (case gz_ReadAll gz r of Inl e \<Rightarrow> Inl e | Inr raw \<Rightarrow> cd_Unmarshal inner raw))"

definition Compressed :: "gzip_lib \<Rightarrow> 'v codec \<Rightarrow> 'v codec" where
  "Compressed gz inner = \<lparr>cd_Marshal = compressed_Marshal gz inner, cd_Unmarshal = compressed_Unmarshal gz inner\<rparr>"

text \<open>What a writer has closed, a reader reads.\<close>

definition gzip_ok :: "gzip_lib \<Rightarrow> bool" where
  "gzip_ok gz \<longleftrightarrow>
     (\<forall>raw w buf. gz_Write gz raw = Inr w \<longrightarrow> gz_Close gz w = Inr buf \<longrightarrow> (\<exists>r. gz_NewReader gz buf = Inr r \<and> gz_ReadAll gz r = Inr raw))"

text \<open>Compression keeps the law of a codec, however often it is put on top of itself.\<close>

lemma Compressed_ok: "gzip_ok gz \<Longrightarrow> codec_ok inner \<Longrightarrow> codec_ok (Compressed gz inner)"
  by (fastforce simp: codec_ok_def gzip_ok_def Compressed_def compressed_Marshal_def compressed_Unmarshal_def split: sum.splits option.splits)

end
