(* ===== verification/Proto_Gen.thy ===== *)
theory Proto_Gen
  imports Kit_Prelude
begin

text \<open>
  \<^verbatim>\<open>src/cmd/protoc-gen-go-webitel\<close>: the plugin that writes a Go table of services, their methods and HTTP bindings from protocol buffer files
  (\<^verbatim>\<open>internal/extract.go\<close>, \<^verbatim>\<open>internal/generate.go\<close>, \<^verbatim>\<open>protoc-gen-go-webitel.go\<close>). Descriptors are records; an extension that is not set has its default, as the library gives
  it. The generated file is a list of lines.
\<close>

section \<open>Descriptors\<close>

datatype http_pattern = PatGet string | PatPut string | PatPost string | PatDelete string | PatPatch string | PatCustom string string | PatNone

datatype http_rule = HttpRule http_pattern string "http_rule list"

fun hr_pattern :: "http_rule \<Rightarrow> http_pattern" where "hr_pattern (HttpRule p b bs) = p"
fun hr_body :: "http_rule \<Rightarrow> string" where "hr_body (HttpRule p b bs) = b"
fun hr_additional :: "http_rule \<Rightarrow> http_rule list" where "hr_additional (HttpRule p b bs) = bs"

record method_desc =
  md_Name :: string
  md_InputType :: string
  md_OutputType :: string
  md_Access :: int
  md_Http :: "http_rule option"

record service_desc =
  sd_Name :: string
  sd_ObjClass :: string
  sd_AdditionalLicense :: "string list"
  sd_Method :: "method_desc list"

record proto_file =
  fd_GoPackageName :: string
  fd_Generate :: bool
  fd_Service :: "service_desc list"

record http_binding =
  hb_Path :: string
  hb_Method :: string

section \<open>Extraction (extract.go)\<close>

text \<open>An empty path is like no pattern of that kind; no pattern at all gives an empty binding.\<close>

definition newHttpBinding :: "http_rule option \<Rightarrow> string \<Rightarrow> string + http_binding" where
  "newHttpBinding r m =
     (case r of
        None \<Rightarrow> Inr \<lparr>hb_Path = [], hb_Method = []\<rparr>
      | Some r \<Rightarrow>
          (case hr_pattern r of
             PatGet p \<Rightarrow>
               if p = [] then Inr \<lparr>hb_Path = [], hb_Method = []\<rparr>
               else if hr_body r \<noteq> [] then Inl (''must not set request body when http method is GET: '' @ m)
               else Inr \<lparr>hb_Path = p, hb_Method = ''GET''\<rparr>
           | PatPut p \<Rightarrow> Inr (if p = [] then \<lparr>hb_Path = [], hb_Method = []\<rparr> else \<lparr>hb_Path = p, hb_Method = ''PUT''\<rparr>)
           | PatPost p \<Rightarrow> Inr (if p = [] then \<lparr>hb_Path = [], hb_Method = []\<rparr> else \<lparr>hb_Path = p, hb_Method = ''POST''\<rparr>)
           | PatDelete p \<Rightarrow>
               if p = [] then Inr \<lparr>hb_Path = [], hb_Method = []\<rparr>
               else if hr_body r \<noteq> []
               then Inl (''must not set request body when http method is DELETE except allow_delete_body option is true: '' @ m)
               else Inr \<lparr>hb_Path = p, hb_Method = ''DELETE''\<rparr>
           | PatPatch p \<Rightarrow> Inr (if p = [] then \<lparr>hb_Path = [], hb_Method = []\<rparr> else \<lparr>hb_Path = p, hb_Method = ''PATCH''\<rparr>)
           | PatCustom kind p \<Rightarrow> Inr \<lparr>hb_Path = p, hb_Method = kind\<rparr>
           | PatNone \<Rightarrow> Inr \<lparr>hb_Path = [], hb_Method = []\<rparr>))"

fun additional_bindings :: "string \<Rightarrow> http_rule list \<Rightarrow> http_binding list \<Rightarrow> string + http_binding list" where
  "additional_bindings m [] bs = Inr bs"
| "additional_bindings m (v # vs) bs =
     (if hr_additional v \<noteq> [] then Inl (''additional_binding in additional_binding not allowed: '' @ m)
      else (case newHttpBinding (Some v) m of Inl e \<Rightarrow> Inl e | Inr b \<Rightarrow> additional_bindings m vs (bs @ [b])))"

definition extractMethodHttpOption :: "method_desc \<Rightarrow> string + http_binding list" where
  "extractMethodHttpOption p =
     (case newHttpBinding (md_Http p) (md_Name p) of
        Inl e \<Rightarrow> Inl e
      | Inr b \<Rightarrow> additional_bindings (md_Name p) (case md_Http p of Some r \<Rightarrow> hr_additional r | None \<Rightarrow> []) [b])"

definition extractMethodAccessOption :: "method_desc \<Rightarrow> string + int" where
  "extractMethodAccessOption p = Inr (md_Access p)"

definition extractServiceObjClassOption :: "service_desc \<Rightarrow> string + string" where
  "extractServiceObjClassOption p = Inr (sd_ObjClass p)"

definition extractServiceAdditionalLicenseOption :: "service_desc \<Rightarrow> string + string list" where
  "extractServiceAdditionalLicenseOption p = Inr (sd_AdditionalLicense p)"

section \<open>Generation (generate.go)\<close>

definition dq :: string where "dq = [CHR 0x22]"

text \<open>Everything up to the last dot is cut off.\<close>

definition strip_package :: "string \<Rightarrow> string" where
  "strip_package s = rev (takeWhile (\<lambda>c. c \<noteq> CHR ''.'') (rev s))"

definition binding_lines :: "http_binding \<Rightarrow> string list" where
  "binding_lines h =
     [''{'', ''Path: '' @ dq @ hb_Path h @ dq @ '','', ''Method: '' @ dq @ hb_Method h @ dq @ '','', ''},'']"

definition method_lines :: "method_desc \<Rightarrow> string list" where
  "method_lines m =
     [dq @ md_Name m @ dq @ '': WebitelMethod{''] @
     (case extractMethodAccessOption m of Inr acc \<Rightarrow> [''Access: '' @ fmt_int acc @ '',''] | Inl _ \<Rightarrow> []) @
     [''Input: '' @ dq @ strip_package (md_InputType m) @ dq @ '','', ''Output: '' @ dq @ strip_package (md_OutputType m) @ dq @ '','',
      ''HttpBindings: []*HttpBinding{''] @
     (case extractMethodHttpOption m of Inr ht \<Rightarrow> concat (map binding_lines ht) | Inl _ \<Rightarrow> []) @ [''},'', ''},'']"

definition service_lines :: "service_desc \<Rightarrow> string list" where
  "service_lines s =
     [dq @ sd_Name s @ dq @ '': WebitelServices{''] @
     (case extractServiceObjClassOption s of Inr objclass \<Rightarrow> [''ObjClass: '' @ dq @ objclass @ dq @ '',''] | Inl _ \<Rightarrow> []) @
     [''AdditionalLicenses: []string{''] @
     (case extractServiceAdditionalLicenseOption s of Inr ls \<Rightarrow> map (\<lambda>l. dq @ l @ dq @ '','') ls | Inl _ \<Rightarrow> []) @
     [''},'', ''WebitelMethods: map[string]WebitelMethod{''] @ concat (map method_lines (sd_Method s)) @ [''},'', ''},'']"

definition generateType :: "string list" where
  "generateType =
     [''// WebitelServicesInfo is the list of services defined in proto files.'', ''type WebitelServicesInfo map[string]WebitelServices'', [],
      ''type WebitelServices struct {'', ''ObjClass           string'', ''AdditionalLicenses []string'',
      ''WebitelMethods     map[string]WebitelMethod'', ''}'', [],
      ''// WebitelMethod is the list of methods defined in this service.'', ''type WebitelMethod struct {'', ''HttpBindings []*HttpBinding'',
      ''Access       int'', ''Input        string'', ''Output       string'', ''}'', [],
      ''type HttpBinding struct {'', ''Path   string'', ''Method string'', ''}'', []]"

definition generateFileContent :: "proto_file list \<Rightarrow> string list" where
  "generateFileContent files =
     generateType @ [''var WebitelAPI = WebitelServicesInfo{''] @ concat (map (\<lambda>f. concat (map service_lines (fd_Service f))) files) @ [''}'', []]"

text \<open>The version of the compiler, if it is known: major, minor, patch and suffix.\<close>

definition protocVersion :: "(int \<times> int \<times> int \<times> string) option \<Rightarrow> string" where
  "protocVersion v =
     (case v of
        None \<Rightarrow> ''(unknown)''
      | Some (major, minor, patch, s) \<Rightarrow>
          ''v'' @ fmt_int major @ ''.'' @ fmt_int minor @ ''.'' @ fmt_int patch @ (if s \<noteq> [] then ''-'' @ s else []))"

text \<open>\<^verbatim>\<open>Generate\<close> takes the package of the first file; without files it panics.\<close>

definition Generate :: "(int \<times> int \<times> int \<times> string) option \<Rightarrow> proto_file list \<Rightarrow> string \<Rightarrow> string list or_panic" where
  "Generate compiler files version =
     (case files of
        [] \<Rightarrow> Inl (Panic ''index out of range [0] with length 0'')
      | f # _ \<Rightarrow>
          Inr ([''// Code generated by protoc-gen-go-webitel. DO NOT EDIT.'', ''// versions:'', ''// - protoc-gen-go-webitel v'' @ version,
                ''// - protoc                '' @ protocVersion compiler, [], ''package '' @ fd_GoPackageName f, []] @ generateFileContent files))"

definition plugin_run :: "(int \<times> int \<times> int \<times> string) option \<Rightarrow> string \<Rightarrow> proto_file list \<Rightarrow> string list or_panic" where
  "plugin_run compiler version files = Generate compiler (filter fd_Generate files) version"

section \<open>Properties\<close>

text \<open>A rule that may be bound: no body for GET and DELETE.\<close>

definition rule_ok :: "http_rule \<Rightarrow> bool" where
  "rule_ok r = (case hr_pattern r of PatGet p \<Rightarrow> p = [] \<or> hr_body r = [] | PatDelete p \<Rightarrow> p = [] \<or> hr_body r = [] | _ \<Rightarrow> True)"

definition rule_binding :: "http_rule \<Rightarrow> http_binding" where
  "rule_binding r =
     (case hr_pattern r of
        PatCustom kind p \<Rightarrow> \<lparr>hb_Path = p, hb_Method = kind\<rparr>
      | PatGet p \<Rightarrow> \<lparr>hb_Path = p, hb_Method = if p = [] then [] else ''GET''\<rparr>
      | PatPut p \<Rightarrow> \<lparr>hb_Path = p, hb_Method = if p = [] then [] else ''PUT''\<rparr>
      | PatPost p \<Rightarrow> \<lparr>hb_Path = p, hb_Method = if p = [] then [] else ''POST''\<rparr>
      | PatDelete p \<Rightarrow> \<lparr>hb_Path = p, hb_Method = if p = [] then [] else ''DELETE''\<rparr>
      | PatPatch p \<Rightarrow> \<lparr>hb_Path = p, hb_Method = if p = [] then [] else ''PATCH''\<rparr>
      | PatNone \<Rightarrow> \<lparr>hb_Path = [], hb_Method = []\<rparr>)"

lemma newHttpBinding_rule: "(\<exists>e. newHttpBinding (Some r) m = Inl e) \<and> \<not> rule_ok r \<or> newHttpBinding (Some r) m = Inr (rule_binding r) \<and> rule_ok r"
  by (cases "hr_pattern r") (simp_all add: newHttpBinding_def rule_ok_def rule_binding_def)

definition nested_ok :: "http_rule \<Rightarrow> bool" where
  "nested_ok v \<longleftrightarrow> hr_additional v = [] \<and> rule_ok v"

lemma additional_bindings_all:
  "(\<exists>e. additional_bindings m vs bs = Inl e) \<and> \<not> list_all nested_ok vs \<or>
   additional_bindings m vs bs = Inr (bs @ map rule_binding vs) \<and> list_all nested_ok vs"
proof (induction vs arbitrary: bs)
  case (Cons v vs)
  show ?case
    using newHttpBinding_rule [of v m] Cons.IH [of "bs @ [rule_binding v]"] by (auto simp: nested_ok_def)
qed simp

text \<open>
  The HTTP bindings of a method are refused exactly when some rule for GET or DELETE has a body or an additional rule has additional rules of its own; otherwise
  there is one binding for each rule, in their order.
\<close>

theorem method_bindings:
  "case md_Http p of
     None \<Rightarrow> extractMethodHttpOption p = Inr [\<lparr>hb_Path = [], hb_Method = []\<rparr>]
   | Some r \<Rightarrow>
       (if rule_ok r \<and> list_all nested_ok (hr_additional r) then extractMethodHttpOption p = Inr (map rule_binding (r # hr_additional r))
        else \<exists>e. extractMethodHttpOption p = Inl e)"
proof (cases "md_Http p")
  case None
  then show ?thesis
    by (simp add: extractMethodHttpOption_def newHttpBinding_def)
next
  case (Some r)
  show ?thesis
    using newHttpBinding_rule [of r "md_Name p"] additional_bindings_all [of "md_Name p" "hr_additional r" "[rule_binding r]"] Some
    by (auto simp: extractMethodHttpOption_def)
qed

text \<open>The depth of braces after a text, none if one is closed that was not opened.\<close>

fun brace_depth :: "nat \<Rightarrow> string \<Rightarrow> nat option" where
  "brace_depth d [] = Some d"
| "brace_depth d (c # cs) =
     (if c = CHR ''{'' then brace_depth (Suc d) cs
      else if c = CHR ''}'' then (case d of 0 \<Rightarrow> None | Suc d' \<Rightarrow> brace_depth d' cs)
      else brace_depth d cs)"

lemma brace_depth_append: "brace_depth d (xs @ ys) = Option.bind (brace_depth d xs) (\<lambda>d. brace_depth d ys)"
  by (induction d xs rule: brace_depth.induct) (auto split: nat.split)

lemma brace_depth_shift: "brace_depth d s = Some e \<Longrightarrow> brace_depth (d + k) s = Some (e + k)"
  by (induction d s rule: brace_depth.induct) (auto split: if_splits nat.splits)

definition balanced :: "string \<Rightarrow> bool" where
  "balanced s \<longleftrightarrow> brace_depth 0 s = Some 0"

lemma balanced_depth: "balanced s \<Longrightarrow> brace_depth d s = Some d"
  using brace_depth_shift [of 0 s 0 d] by (simp add: balanced_def)

definition lines_depth :: "nat \<Rightarrow> string list \<Rightarrow> nat option" where
  "lines_depth d ls = brace_depth d (concat ls)"

lemma lines_depth_append: "lines_depth d (xs @ ys) = Option.bind (lines_depth d xs) (\<lambda>d. lines_depth d ys)"
  by (simp add: lines_depth_def brace_depth_append)

lemma lines_depth_concat:
  "(\<And>x d. x \<in> set xs \<Longrightarrow> lines_depth d (f x) = Some d) \<Longrightarrow> lines_depth d (concat (map f xs)) = Some d"
  by (induction xs) (simp_all add: lines_depth_append, simp add: lines_depth_def)

definition no_brace :: "string \<Rightarrow> bool" where
  "no_brace s = list_all (\<lambda>c. c \<noteq> CHR ''{'' \<and> c \<noteq> CHR ''}'') s"

lemma no_brace_depth: "no_brace s \<Longrightarrow> brace_depth d s = Some d"
  by (induction s) (auto simp: no_brace_def)

lemma no_brace_digits: "all_digits s \<Longrightarrow> no_brace s"
proof -
  have "\<not> is_digit CHR ''{''" "\<not> is_digit CHR ''}''"
    by code_simp+
  then show "all_digits s \<Longrightarrow> no_brace s"
    by (auto simp: all_digits_def no_brace_def list_all_iff)
qed

lemma no_brace_fmt_int: "no_brace (fmt_int i)"
  using no_brace_digits [OF fmt_nat_all_digits] by (auto simp: fmt_int_def) (simp_all add: no_brace_def)

lemma no_brace_strip: "no_brace s \<Longrightarrow> no_brace (strip_package s)"
proof -
  have "set (strip_package s) \<subseteq> set s"
    using set_takeWhileD [of _ _ "rev s"] by (auto simp: strip_package_def)
  then show "no_brace s \<Longrightarrow> no_brace (strip_package s)"
    unfolding no_brace_def list_all_iff by blast
qed

text \<open>Names without braces; the paths of rules may have variables in braces.\<close>

definition rule_text_ok :: "http_rule \<Rightarrow> bool" where
  "rule_text_ok r \<longleftrightarrow> balanced (hb_Path (rule_binding r)) \<and> no_brace (hb_Method (rule_binding r))"

definition method_text_ok :: "method_desc \<Rightarrow> bool" where
  "method_text_ok m \<longleftrightarrow>
     no_brace (md_Name m) \<and> no_brace (md_InputType m) \<and> no_brace (md_OutputType m) \<and>
     (case md_Http m of None \<Rightarrow> True | Some r \<Rightarrow> rule_text_ok r \<and> list_all rule_text_ok (hr_additional r))"

definition service_text_ok :: "service_desc \<Rightarrow> bool" where
  "service_text_ok s \<longleftrightarrow>
     no_brace (sd_Name s) \<and> no_brace (sd_ObjClass s) \<and> list_all no_brace (sd_AdditionalLicense s) \<and> list_all method_text_ok (sd_Method s)"

lemma dq_depth [simp]: "brace_depth d dq = Some d"
  by (simp add: dq_def)

lemma binding_depth:
  assumes "balanced (hb_Path h)" "no_brace (hb_Method h)"
  shows "lines_depth d (binding_lines h) = Some d"
  using balanced_depth [OF assms(1)] no_brace_depth [OF assms(2)] by (simp add: lines_depth_def binding_lines_def brace_depth_append)

lemma extracted_depth:
  assumes "method_text_ok m"
  shows "lines_depth d (case extractMethodHttpOption m of Inr ht \<Rightarrow> concat (map binding_lines ht) | Inl _ \<Rightarrow> []) = Some d"
proof (cases "extractMethodHttpOption m")
  case (Inr ht)
  have "balanced (hb_Path h) \<and> no_brace (hb_Method h)" if "h \<in> set ht" for h
  proof (cases "md_Http m")
    case None
    then have "ht = [\<lparr>hb_Path = [], hb_Method = []\<rparr>]"
      using Inr by (simp add: extractMethodHttpOption_def newHttpBinding_def)
    then show ?thesis
      using that by (simp add: balanced_def no_brace_def)
  next
    case (Some r)
    then have "ht = map rule_binding (r # hr_additional r)"
      using Inr newHttpBinding_rule [of r "md_Name m"] additional_bindings_all [of "md_Name m" "hr_additional r" "[rule_binding r]"]
      by (auto simp: extractMethodHttpOption_def)
    then show ?thesis
      using that assms Some by (auto simp: method_text_ok_def rule_text_ok_def list_all_iff)
  qed
  then show ?thesis
    using Inr by (simp add: lines_depth_concat binding_depth)
qed (simp add: lines_depth_def)

lemma method_depth:
  assumes "method_text_ok m"
  shows "lines_depth d (method_lines m) = Some d"
proof -
  have names: "no_brace (md_Name m)" "no_brace (strip_package (md_InputType m))" "no_brace (strip_package (md_OutputType m))"
    using assms by (auto simp: method_text_ok_def no_brace_strip)
  note texts = names [THEN no_brace_depth] no_brace_depth [OF no_brace_fmt_int]
  have "lines_depth d [dq @ md_Name m @ dq @ '': WebitelMethod{''] = Some (Suc d)"
    by (simp add: lines_depth_def brace_depth_append texts)
  moreover have "lines_depth (Suc d) (case extractMethodAccessOption m of Inr acc \<Rightarrow> [''Access: '' @ fmt_int acc @ '',''] | Inl _ \<Rightarrow> []) = Some (Suc d)"
    by (simp add: extractMethodAccessOption_def lines_depth_def brace_depth_append texts)
  moreover have "lines_depth (Suc d) [''Input: '' @ dq @ strip_package (md_InputType m) @ dq @ '','',
      ''Output: '' @ dq @ strip_package (md_OutputType m) @ dq @ '','', ''HttpBindings: []*HttpBinding{''] = Some (Suc (Suc d))"
    by (simp add: lines_depth_def brace_depth_append texts)
  moreover have "lines_depth (Suc (Suc d)) [''},'', ''},''] = Some d"
    by (simp add: lines_depth_def)
  ultimately show ?thesis
    using extracted_depth [OF assms, of "Suc (Suc d)"] by (simp only: method_lines_def lines_depth_append bind.simps)
qed

lemma service_depth:
  assumes "service_text_ok s"
  shows "lines_depth d (service_lines s) = Some d"
proof -
  have names: "no_brace (sd_Name s)" "no_brace (sd_ObjClass s)"
    using assms by (auto simp: service_text_ok_def)
  note texts = names [THEN no_brace_depth]
  have "lines_depth d (map (\<lambda>l. dq @ l @ dq @ '','') ls) = Some d" if "list_all no_brace ls" for d ls
    using that by (induction ls) (simp_all add: lines_depth_def brace_depth_append no_brace_depth)
  then have licenses: "lines_depth d (case extractServiceAdditionalLicenseOption s of Inr ls \<Rightarrow> map (\<lambda>l. dq @ l @ dq @ '','') ls | Inl _ \<Rightarrow> []) = Some d" for d
    using assms by (simp add: service_text_ok_def extractServiceAdditionalLicenseOption_def)
  have methods: "lines_depth d (concat (map method_lines (sd_Method s))) = Some d" for d
    using assms by (intro lines_depth_concat) (auto simp: service_text_ok_def list_all_iff method_depth)
  have "lines_depth d [dq @ sd_Name s @ dq @ '': WebitelServices{''] = Some (Suc d)"
    by (simp add: lines_depth_def brace_depth_append texts)
  moreover have "lines_depth (Suc d) (case extractServiceObjClassOption s of Inr objclass \<Rightarrow> [''ObjClass: '' @ dq @ objclass @ dq @ '',''] | Inl _ \<Rightarrow> []) = Some (Suc d)"
    by (simp add: extractServiceObjClassOption_def lines_depth_def brace_depth_append texts)
  moreover have "lines_depth (Suc d) [''AdditionalLicenses: []string{''] = Some (Suc (Suc d))"
      "lines_depth (Suc (Suc d)) [''},'', ''WebitelMethods: map[string]WebitelMethod{''] = Some (Suc (Suc d))"
      "lines_depth (Suc (Suc d)) [''},'', ''},''] = Some d"
    by (simp_all add: lines_depth_def)
  ultimately show ?thesis
    using licenses methods by (simp only: service_lines_def lines_depth_append bind.simps)
qed

text \<open>
  Whatever services there are, and whether or not their bindings are refused, the braces of the generated table are balanced, if names and types have no braces
  and those in paths are balanced: every block that is opened is closed.
\<close>

theorem generated_balanced:
  assumes "list_all (\<lambda>f. list_all service_text_ok (fd_Service f)) files"
  shows "balanced (concat (generateFileContent files))"
proof -
  have "lines_depth d (concat (map service_lines (fd_Service f))) = Some d" if "f \<in> set files" for d f
    using assms that by (intro lines_depth_concat) (auto simp: list_all_iff service_depth)
  then have files: "lines_depth d (concat (map (\<lambda>f. concat (map service_lines (fd_Service f))) files)) = Some d" for d
    by (rule lines_depth_concat)
  have "lines_depth 0 generateType = Some 0"
    unfolding generateType_def by code_simp
  moreover have "lines_depth 0 [''var WebitelAPI = WebitelServicesInfo{''] = Some 1" "lines_depth 1 [''}'', []] = Some 0"
    by code_simp+
  ultimately have "lines_depth 0 (generateFileContent files) = Some 0"
    using files by (simp only: generateFileContent_def lines_depth_append bind.simps)
  then show ?thesis
    by (simp add: lines_depth_def balanced_def)
qed

theorem generated_balanced_witness:
  "balanced (concat (generateFileContent
     [\<lparr>fd_GoPackageName = ''contacts'', fd_Generate = True,
       fd_Service = [\<lparr>sd_Name = ''Contacts'', sd_ObjClass = ''contacts'', sd_AdditionalLicense = [''CRM''],
         sd_Method = [\<lparr>md_Name = ''Get'', md_InputType = ''.webitel.GetRequest'', md_OutputType = ''.webitel.Contact'', md_Access = 1,
           md_Http = Some (HttpRule (PatGet ''/contacts/{id}'') [] [])\<rparr>]\<rparr>]\<rparr>]))"
  by (rule generated_balanced)
    (simp add: service_text_ok_def method_text_ok_def rule_text_ok_def rule_binding_def no_brace_def balanced_def)

end
