(* ===== verification/Kit_Logger.thy ===== *)
theory Kit_Logger
  imports Kit_Prelude
begin

text \<open>
  \<^verbatim>\<open>src/pkg/logger\<close> and the adapters of \<^verbatim>\<open>src/infra/pubsub/rabbitmq/pkg/adapter\<close>: the interface of loggers over \<^verbatim>\<open>slog\<close> and \<^verbatim>\<open>wlog\<close>, which turns the
  arguments of a call, keys and values in turn, into attributes.
\<close>

section \<open>Arguments\<close>

text \<open>An argument of type \<^verbatim>\<open>any\<close>: a text, or a value of another type.\<close>

datatype 'v any_arg = ArgString string | ArgOther 'v

text \<open>\<^verbatim>\<open>toSlogAttrs\<close> and \<^verbatim>\<open>toWlogFields\<close>, which have the same loop: a pair without a text for its key is left out, as is a last argument alone.\<close>

fun toSlogAttrs :: "'v any_arg list \<Rightarrow> (string \<times> 'v any_arg) list" where
  "toSlogAttrs (ArgString key # value # args) = (key, value) # toSlogAttrs args"
| "toSlogAttrs (ArgOther _ # _ # args) = toSlogAttrs args"
| "toSlogAttrs _ = []"

definition toWlogFields :: "'v any_arg list \<Rightarrow> (string \<times> 'v any_arg) list" where
  "toWlogFields args = toSlogAttrs args"

section \<open>Loggers\<close>

datatype log_level = LevelDebug | LevelInfo | LevelWarn | LevelError

text \<open>A logger writes a line: its level, its text and its attributes.\<close>

type_synonym 'v log_line = "log_level \<times> string \<times> (string \<times> 'v any_arg) list"

record 'v kit_logger =
  lg_Info :: "string \<Rightarrow> 'v any_arg list \<Rightarrow> 'v log_line"
  lg_Error :: "string \<Rightarrow> 'v any_arg list \<Rightarrow> 'v log_line"
  lg_Debug :: "string \<Rightarrow> 'v any_arg list \<Rightarrow> 'v log_line"
  lg_Warn :: "string \<Rightarrow> 'v any_arg list \<Rightarrow> 'v log_line"

definition NewSlog :: "'v kit_logger" where
  "NewSlog =
     \<lparr>lg_Info = \<lambda>msg args. (LevelInfo, msg, toSlogAttrs args), lg_Error = \<lambda>msg args. (LevelError, msg, toSlogAttrs args),
      lg_Debug = \<lambda>msg args. (LevelDebug, msg, toSlogAttrs args), lg_Warn = \<lambda>msg args. (LevelWarn, msg, toSlogAttrs args)\<rparr>"

definition NewWlog :: "'v kit_logger" where
  "NewWlog =
     \<lparr>lg_Info = \<lambda>msg args. (LevelInfo, msg, toWlogFields args), lg_Error = \<lambda>msg args. (LevelError, msg, toWlogFields args),
      lg_Debug = \<lambda>msg args. (LevelDebug, msg, toWlogFields args), lg_Warn = \<lambda>msg args. (LevelWarn, msg, toWlogFields args)\<rparr>"

text \<open>The logger of the message queue, whose errors have an argument of their own; \<open>sprintf\<close> is \<^verbatim>\<open>fmt.Sprintf\<close>.\<close>

record ('v, 'e) mq_logger =
  ml_Info :: "string \<Rightarrow> 'v any_arg list \<Rightarrow> 'v log_line list"
  ml_Warn :: "string \<Rightarrow> 'v any_arg list \<Rightarrow> 'v log_line list"
  ml_Error :: "string \<Rightarrow> 'e \<Rightarrow> 'v any_arg list \<Rightarrow> 'v log_line list"

definition NoopLogger :: "('v, 'e) mq_logger" where
  "NoopLogger = \<lparr>ml_Info = \<lambda>_ _. [], ml_Warn = \<lambda>_ _. [], ml_Error = \<lambda>_ _ _. []\<rparr>"

text \<open>The adapter has a copy of \<^verbatim>\<open>toSlogAttrs\<close>.\<close>

definition mq_toSlogAttrs :: "'v any_arg list \<Rightarrow> (string \<times> 'v any_arg) list" where
  "mq_toSlogAttrs args = toSlogAttrs args"

definition NewSlogLogger :: "('e \<Rightarrow> 'v any_arg) \<Rightarrow> ('v, 'e) mq_logger" where
  "NewSlogLogger arg =
     \<lparr>ml_Info = \<lambda>msg args. [(LevelInfo, msg, mq_toSlogAttrs args)], ml_Warn = \<lambda>msg args. [(LevelWarn, msg, mq_toSlogAttrs args)],
      ml_Error = \<lambda>msg err args. [(LevelError, msg, mq_toSlogAttrs ([ArgString ''error'', arg err] @ args))]\<rparr>"

definition NewWlogLogger :: "(string \<Rightarrow> 'v any_arg list \<Rightarrow> string) \<Rightarrow> ('e \<Rightarrow> 'v any_arg) \<Rightarrow> ('v, 'e) mq_logger" where
  "NewWlogLogger sprintf arg =
     \<lparr>ml_Info = \<lambda>msg args. [(LevelInfo, sprintf msg args, [])], ml_Warn = \<lambda>msg args. [(LevelWarn, sprintf msg args, [])],
      ml_Error = \<lambda>msg err args. [(LevelError, sprintf ''%s: %v'' [ArgString (sprintf msg args), arg err], [])]\<rparr>"

section \<open>Properties\<close>

text \<open>The arguments that spell out attributes.\<close>

definition attr_args :: "(string \<times> 'v any_arg) list \<Rightarrow> 'v any_arg list" where
  "attr_args attrs = concat (map (\<lambda>(k, v). [ArgString k, v]) attrs)"

lemma toSlogAttrs_attr_args: "toSlogAttrs (attr_args attrs @ rest) = attrs @ toSlogAttrs rest"
  by (induction attrs) (auto simp: attr_args_def)

text \<open>
  Attributes given as keys and values in turn arrive as they are, in order, through either adapter; a last argument without a value is dropped.
\<close>

theorem logger_keeps_attributes:
  "lg_Info NewSlog msg (attr_args attrs) = (LevelInfo, msg, attrs) \<and> lg_Info NewWlog msg (attr_args attrs) = (LevelInfo, msg, attrs) \<and>
   lg_Error NewSlog msg (attr_args attrs @ [x]) = (LevelError, msg, attrs) \<and>
   ml_Error (NewSlogLogger arg) msg err (attr_args attrs) = [(LevelError, msg, (''error'', arg err) # attrs)]"
  using toSlogAttrs_attr_args [of attrs "[]"] toSlogAttrs_attr_args [of attrs "[x]"]
  by (cases x) (simp_all add: NewSlog_def NewWlog_def NewSlogLogger_def toWlogFields_def mq_toSlogAttrs_def)

text \<open>The reason of a lost connection, which the broker gives as the only argument of \<^verbatim>\<open>Warn\<close>, is dropped by the adapter for \<^verbatim>\<open>slog\<close>.\<close>

lemma connection_error_dropped: "ml_Warn (NewSlogLogger arg) ''rabbitmq connection closed'' [x] = [(LevelWarn, ''rabbitmq connection closed'', [])]"
  by (cases x) (simp_all add: NewSlogLogger_def mq_toSlogAttrs_def)

end
