(* ===== verification/Spec2Isabelle.thy ===== *)
theory Spec2Isabelle
  imports Limit_Http Rate_Size Rate_Status Zone_Redis Limit_Logs Etag_Fields Cache_Build Grpc_Client Consul_Registry Pg_Manager Cel_Filters Kit_Werror Http_Proxy Rabbit_Mq Sql_Wrap Otel_Sdk Otel_Bridge Otel_Pgx Kit_Interceptors Kit_Clients Cache_Codec Proto_Gen Kit_Logger
begin

text \<open>
  A verification library for \<^verbatim>\<open>webitel-go-kit\<close>, a collection of Go packages that the services of Webitel share. The packages are independent of one another
  but for a few that build on others; a service takes those it needs. The theories follow the packages: the data of a package as records and
  datatypes, every operation as a function with the guards and early returns of the code, the errors and panics as values, loops as recursion.

  \<^bold>\<open>Vocabulary.\<close> \<^verbatim>\<open>Kit_Prelude\<close> has the fixed-width integers, durations and instants in nanoseconds, decimal texts, ASCII case and trimming, panics
  (\<open>'a or_panic\<close>, the panic on the left) and the two interfaces of tables: the locale \<open>keyed_table\<close> (what a look-up returns after registrations under names that
  are made alike) and its extension \<open>keyed_store\<close> with deletion. \<^verbatim>\<open>Go_Scan\<close> (scanning of \<^verbatim>\<open>fmt.Sscanf\<close>), \<^verbatim>\<open>Go_Float\<close> (float64 by exact rounding), \<^verbatim>\<open>Go_Net\<close> (hosts and ports) and
  \<^verbatim>\<open>Go_Utf8\<close> (runes) model what the code uses of the language and its library.

  \<^bold>\<open>Rate limits\<close> (\<^verbatim>\<open>src/infra/ratelimit\<close>). \<^verbatim>\<open>Rate_Limit\<close> and \<^verbatim>\<open>Rate_Size\<close>: rates and sizes with their texts, read back exactly. \<^verbatim>\<open>Rate_Keys\<close>: requests, keys and their cached values,
  the registry of keys (a \<open>keyed_store\<close>). \<^verbatim>\<open>Rate_Status\<close>: statuses, the HTTP middleware and the gRPC interceptor; a request passes exactly when the status
  allows it. \<^verbatim>\<open>Limit_Zone\<close>: options and drivers of zones (a \<open>keyed_table\<close>). \<^verbatim>\<open>Zone_Local\<close>: the fixed window, the token bucket (both meet the locale \<open>record_limiter\<close>) and
  the zone in memory, which refines a map from keys to limiters; the quota of the fixed window over any interval. \<^verbatim>\<open>Zone_Redis\<close>: the zone on a
  server, whose script runs outside. \<^verbatim>\<open>Limit_Mux\<close>: routes, and that a route reports the worst of its zones under the sort of the standard library (locale
  \<open>sort_less\<close>), and lists every zone once. \<^verbatim>\<open>Limit_Logs\<close>: the log handlers; nested routes are written as the tree of their calls. \<^verbatim>\<open>Limit_Http\<close> puts middleware, zone and window together to a server; its quota is the property of this theory.

  \<^bold>\<open>Errors.\<close> \<^verbatim>\<open>Kit_Errors\<close> (\<^verbatim>\<open>src/infra/errors\<close>): structured errors, gRPC statuses and the way back. \<^verbatim>\<open>Kit_Werror\<close> (\<^verbatim>\<open>src/pkg/errors\<close>): errors that carry values and causes; what \<^verbatim>\<open>Is\<close>, \<^verbatim>\<open>As\<close>, \<^verbatim>\<open>Lookup\<close>
  and \<^verbatim>\<open>Values\<close> find. \<^verbatim>\<open>Kit_Interceptors\<close> (\<^verbatim>\<open>src/pkg/interceptors\<close>) rests on it: errors and panics of handlers become statuses, calls get deadlines.

  \<^bold>\<open>Caches\<close> (\<^verbatim>\<open>src/pkg/cache\<close>). \<^verbatim>\<open>Kit_Cache\<close>: the interface of caches, stores and layers; the locales \<open>readable_cache\<close> (a hit is a value of the source), \<open>coherent_cache\<close> (a hit is the value last written), and
  \<open>two_readable\<close>, \<open>two_levels\<close> for two of them. \<^verbatim>\<open>Kit_Breaker\<close>: the circuit breaker with any number of calls under way, as a step relation. \<^verbatim>\<open>Kit_Loading\<close>: loading of missing values and the builder
  (locale \<open>loading_source\<close>). \<^verbatim>\<open>Cache_Build\<close>: every layer keeps the contract of the store inside, so that the cache a service builds, with any options, answers as its source. \<^verbatim>\<open>Cache_Codec\<close>: codecs and compression.

  \<^bold>\<open>Tags and maps.\<close> \<^verbatim>\<open>Etag_Codec\<close> and \<^verbatim>\<open>Etag_Fields\<close> (\<^verbatim>\<open>src/pkg/etag\<close>): identifiers as tags, lists of fields. \<^verbatim>\<open>Kit_Maps\<close> (\<^verbatim>\<open>src/pkg/safemap\<close>, \<^verbatim>\<open>src/pkg/watcher\<close>): the locked map, observers.
  \<^verbatim>\<open>Cel_Filters\<close> (\<^verbatim>\<open>src/pkg/filters\<close>): expressions become trees of filters with the same meaning, and back.

  \<^bold>\<open>Connections.\<close> \<^verbatim>\<open>Hash_Ring\<close> (\<^verbatim>\<open>src/infra/transport/internal\<close>): consistent hashing, which moves few clients when a member comes or goes, and subsets. \<^verbatim>\<open>Grpc_Pool\<close> and \<^verbatim>\<open>Grpc_Client\<close>
  (\<^verbatim>\<open>src/infra/transport/gRPC\<close>): the pool as a step relation, in which every connection has one owner, and the calls through it. \<^verbatim>\<open>Discovery_Core\<close> (\<^verbatim>\<open>src/infra/discovery\<close>), \<^verbatim>\<open>Consul_Client\<close> and \<^verbatim>\<open>Consul_Registry\<close>
  (\<^verbatim>\<open>consul\<close>): instances and resolvers, heartbeats, and the registry whose watchers miss no change. \<^verbatim>\<open>Http_Proxy\<close> (\<^verbatim>\<open>src/infra/httpproxy\<close>): settings that follow a file. \<^verbatim>\<open>Rabbit_Mq\<close> (\<^verbatim>\<open>src/infra/pubsub/rabbitmq\<close>):
  connections, confirmations, and consumers whose workers settle every message once.

  \<^bold>\<open>Databases.\<close> (\<^verbatim>\<open>src/infra/pgw\<close>) \<^verbatim>\<open>Pg_Config\<close>: errors, strategies and settings. \<^verbatim>\<open>Pg_Pool\<close>: pools, and standbys that move between healthy and unhealthy. \<^verbatim>\<open>Pg_Primary\<close>: the goroutines that keep the primary
  connected. \<^verbatim>\<open>Pg_Manager\<close>: the calls of a pool, whose errors go through a parser (locale \<open>pg_error_parser\<close>), and closing every pool. \<^verbatim>\<open>Sql_Wrap\<close> (\<^verbatim>\<open>src/infra/sqldb/sql\<close>): drivers wrapped for tracing.

  \<^bold>\<open>Telemetry\<close> (\<^verbatim>\<open>src/infra/otel\<close>). \<^verbatim>\<open>Otel_Env\<close>: severities, environment, file outputs. \<^verbatim>\<open>Otel_Codec\<close>: log records as text and JSON, the exporter. \<^verbatim>\<open>Otel_Sdk\<close>: registries of exporters (a \<open>keyed_table\<close>)
  and \<^verbatim>\<open>Configure\<close>, which installs all or nothing. \<^verbatim>\<open>Otel_Bridge\<close>: loggers of other libraries. \<^verbatim>\<open>Otel_Pgx\<close>: the tracer of the PostgreSQL driver, which ends every span it starts however calls are nested.

  \<^bold>\<open>Services.\<close> \<^verbatim>\<open>Kit_Clients\<close>: the log of changes, the full-text search, the profiler and the flags of a service (\<^verbatim>\<open>src/infra/logger_client\<close>, \<^verbatim>\<open>src/infra/fts_client\<close>, \<^verbatim>\<open>src/infra/profiler\<close>, \<^verbatim>\<open>src/appconfig\<close>). \<^verbatim>\<open>Proto_Gen\<close>
  (\<^verbatim>\<open>src/cmd/protoc-gen-go-webitel\<close>): the generator of service tables. \<^verbatim>\<open>Kit_Logger\<close> (\<^verbatim>\<open>src/pkg/logger\<close>, adapters of \<^verbatim>\<open>src/infra/pubsub/rabbitmq\<close>): loggers over other libraries.

  \<^bold>\<open>Concurrency.\<close> Where goroutines share state, a component has a step relation over its locks, channels and programme points, and its invariants hold in every reachable
  state: \<^verbatim>\<open>Kit_Breaker\<close>, \<^verbatim>\<open>Grpc_Pool\<close>, \<^verbatim>\<open>Consul_Client\<close>, \<^verbatim>\<open>Consul_Registry\<close>, \<^verbatim>\<open>Pg_Pool\<close>, \<^verbatim>\<open>Pg_Primary\<close>, \<^verbatim>\<open>Rabbit_Mq\<close>. An operation that holds a lock for its whole body is one step.

  \<^bold>\<open>Loops.\<close> A loop that may not end is a partial function into an option, and returning is proved or refuted as such: reading a list of the ring, selecting fields, writing an
  HTTP error. Every other function is total, with a measure where the recursion is not structural; no fuel is used.

  \<^bold>\<open>Parameters.\<close> Libraries outside the repository are arguments: Redis, Ristretto and LRU tables, \<^verbatim>\<open>rate.Limiter\<close>, gRPC and \<^verbatim>\<open>gorilla/mux\<close>, Consul, AMQP, \<^verbatim>\<open>pgx\<close> and \<^verbatim>\<open>database/sql\<close> drivers, viper, CEL, OpenTelemetry
  exporters and samplers, JSON and protocol buffers. What a property needs of them is a hypothesis about documented behaviour (a look-up after an insertion, reading back what
  was written) and its witness instantiates them.

  \<^bold>\<open>Not modelled.\<close> The generated protocol buffer code, examples, \<^verbatim>\<open>Watch\<close> of the configuration. These are generated or hand a library on.
\<close>

section \<open>An HTTP server behind a rate limit\<close>



end
